(* ===== verification/Js_Prelude.thy ===== *)
theory Js_Prelude
  imports Complex_Main "HOL-Library.Multiset"
begin

text \<open>
  Shared vocabulary of the development: the fact collections, the list idioms the
  sources use everywhere (order-preserving deduplication through \<open>new Set\<close>, joining,
  first match, stable sorting with a comparator) and the lemmas about them that the
  components' proofs rest on.

  JavaScript strings are sequences of UTF-16 code units; a code unit is a \<^typ>\<open>nat\<close>.
  ASCII literals are written \<open>js ''...''\<close>, any other character by its code unit.
\<close>

named_theorems js_simps \<open>evaluation of the JavaScript library functions on literals\<close>
named_theorems wf_intros \<open>introduction rules of the well-formedness predicates\<close>

section \<open>Strings\<close>

type_synonym jstr = "nat list"

definition js :: "string \<Rightarrow> jstr" where
  "js s = map of_char s"

lemma js_Nil [simp]: "js [] = []"
  by (simp add: js_def)

lemma js_inj [simp]: "js s = js t \<longleftrightarrow> s = t"
  unfolding js_def by (rule inj_map_eq_map) (rule inj_onI, simp)

lemma js_eq_Nil [simp]: "js s = [] \<longleftrightarrow> s = []" "[] = js s \<longleftrightarrow> s = []"
  by (auto simp: js_def)

lemma js_append: "js (s @ t) = js s @ js t"
  by (simp add: js_def)

lemma length_js [simp]: "length (js s) = length s"
  by (simp add: js_def)

section \<open>Order-preserving deduplication\<close>

text \<open>
  \<open>Array.from(new Set(xs))\<close> and \<open>[...new Set(xs)]\<close>: a JavaScript set keeps the
  insertion order of the first occurrences.
\<close>

fun uniq_acc :: "'a list \<Rightarrow> 'a list \<Rightarrow> 'a list" where
  "uniq_acc seen [] = []"
| "uniq_acc seen (x # xs) =
     (if x \<in> set seen then uniq_acc seen xs else x # uniq_acc (x # seen) xs)"

definition uniq :: "'a list \<Rightarrow> 'a list" where
  "uniq xs = uniq_acc [] xs"

lemma set_uniq_acc: "set (uniq_acc seen xs) = set xs - set seen"
  by (induction seen xs rule: uniq_acc.induct) auto

lemma distinct_uniq_acc: "distinct (uniq_acc seen xs)"
  by (induction seen xs rule: uniq_acc.induct) (auto simp: set_uniq_acc)

lemma set_uniq [simp]: "set (uniq xs) = set xs"
  by (simp add: uniq_def set_uniq_acc)

lemma distinct_uniq [simp]: "distinct (uniq xs)"
  by (simp add: uniq_def distinct_uniq_acc)

lemma uniq_acc_disjoint:
  "distinct xs \<Longrightarrow> set xs \<inter> set seen = {} \<Longrightarrow> uniq_acc seen xs = xs"
  by (induction seen xs rule: uniq_acc.induct) auto

lemma uniq_id [simp]: "distinct xs \<Longrightarrow> uniq xs = xs"
  by (simp add: uniq_def uniq_acc_disjoint)

lemma uniq_idem: "uniq (uniq xs) = uniq xs"
  by simp

lemma length_uniq_le: "length (uniq xs) \<le> length xs"
proof -
  have "length (uniq xs) = card (set xs)"
    by (metis distinct_card distinct_uniq set_uniq)
  then show ?thesis by (simp add: card_length)
qed

lemma uniq_acc_extend:
  "uniq_acc (as @ seen) ys = filter (\<lambda>y. y \<notin> set as) (uniq_acc seen ys)"
proof (induction ys arbitrary: as seen)
  case Nil
  then show ?case by simp
next
  case (Cons y ys)
  have one: "uniq_acc (y # zs) ys = filter (\<lambda>z. z \<noteq> y) (uniq_acc zs ys)" for zs
    using Cons.IH [of "[y]" zs] by simp
  show ?case
  proof (cases "y \<in> set as \<and> y \<notin> set seen")
    case True
    then show ?thesis
      by (auto simp: one Cons.IH intro!: filter_cong)
  next
    case False
    then show ?thesis
      by (auto simp: one Cons.IH conj_commute intro!: filter_cong)
  qed
qed

lemma uniq_Nil [simp]: "uniq [] = []"
  by (simp add: uniq_def)

lemma uniq_Cons: "uniq (x # xs) = x # filter (\<lambda>y. y \<noteq> x) (uniq xs)"
  using uniq_acc_extend [of "[x]" "[]" xs] by (simp add: uniq_def)

lemma uniq_append: "uniq (xs @ ys) = uniq xs @ filter (\<lambda>y. y \<notin> set xs) (uniq ys)"
  by (induction xs) (auto simp: uniq_Cons intro!: filter_cong)

lemma uniq_filter: "uniq (filter P xs) = filter P (uniq xs)"
  by (induction xs) (auto simp: uniq_Cons intro!: filter_cong)

section \<open>Joining and splitting\<close>

fun join :: "'a list \<Rightarrow> 'a list list \<Rightarrow> 'a list" where
  "join sep [] = []"
| "join sep [x] = x"
| "join sep (x # y # ys) = x @ sep @ join sep (y # ys)"

text \<open>\<open>s.split(c)\<close> for a one-code-unit separator: never empty, the empty string gives \<open>['']\<close>.\<close>

fun split_on :: "'a \<Rightarrow> 'a list \<Rightarrow> 'a list list" where
  "split_on c [] = [[]]"
| "split_on c (x # xs) =
     (if x = c then [] # split_on c xs
      else case split_on c xs of
             [] \<Rightarrow> [[x]]
           | w # ws \<Rightarrow> (x # w) # ws)"

lemma split_on_not_Nil [simp]: "split_on c xs \<noteq> []"
  by (induction c xs rule: split_on.induct) (auto split: list.splits)

lemma join_Cons: "ws \<noteq> [] \<Longrightarrow> join sep (w # ws) = w @ sep @ join sep ws"
  by (cases ws) auto

lemma join_split_on [simp]: "join [c] (split_on c xs) = xs"
proof (induction c xs rule: split_on.induct)
  case (1 c)
  then show ?case by simp
next
  case (2 c x xs)
  show ?case
  proof (cases "x = c")
    case True
    with 2 show ?thesis by (simp add: join_Cons)
  next
    case False
    obtain w ws where w: "split_on c xs = w # ws"
      by (cases "split_on c xs") auto
    have "join [c] ((x # w) # ws) = x # join [c] (w # ws)"
      by (cases ws) auto
    with False w 2 show ?thesis by simp
  qed
qed

lemma split_on_no_sep: "c \<notin> set xs \<Longrightarrow> split_on c xs = [xs]"
  by (induction xs) auto

lemma split_on_append_sep:
  "c \<notin> set xs \<Longrightarrow> split_on c (xs @ c # ys) = xs # split_on c ys"
  by (induction xs) auto

lemma split_on_join:
  "ws \<noteq> [] \<Longrightarrow> (\<And>w. w \<in> set ws \<Longrightarrow> c \<notin> set w) \<Longrightarrow> split_on c (join [c] ws) = ws"
proof (induction ws)
  case Nil
  then show ?case by simp
next
  case (Cons w ws)
  show ?case
  proof (cases "ws = []")
    case True
    with Cons.prems show ?thesis by (simp add: split_on_no_sep)
  next
    case False
    with Cons show ?thesis by (simp add: join_Cons split_on_append_sep)
  qed
qed

lemma split_on_no_sep_elems: "w \<in> set (split_on c xs) \<Longrightarrow> c \<notin> set w"
  by (induction c xs arbitrary: w rule: split_on.induct) (auto split: list.splits if_splits)

lemma set_split_on_subset: "w \<in> set (split_on c xs) \<Longrightarrow> set w \<subseteq> set xs"
  by (induction c xs arbitrary: w rule: split_on.induct) (auto split: list.splits if_splits, blast+)

section \<open>Sorting with a comparator\<close>

text \<open>
  \<open>Array.prototype.sort(cmp)\<close> is stable. For a comparator that is a total preorder the
  language fixes the result: the stable sorted permutation, which insertion from the right
  computes. \<open>le x y\<close> stands for \<open>cmp(x, y) <= 0\<close>.
\<close>

fun insert_by :: "('a \<Rightarrow> 'a \<Rightarrow> bool) \<Rightarrow> 'a \<Rightarrow> 'a list \<Rightarrow> 'a list" where
  "insert_by le x [] = [x]"
| "insert_by le x (y # ys) = (if le x y then x # y # ys else y # insert_by le x ys)"

definition sort_by :: "('a \<Rightarrow> 'a \<Rightarrow> bool) \<Rightarrow> 'a list \<Rightarrow> 'a list" where
  "sort_by le xs = foldr (insert_by le) xs []"

lemma sort_by_simps [simp]:
  "sort_by le [] = []"
  "sort_by le (x # xs) = insert_by le x (sort_by le xs)"
  by (simp_all add: sort_by_def)

lemma mset_insert_by [simp]: "mset (insert_by le x xs) = add_mset x (mset xs)"
  by (induction xs) auto

lemma mset_sort_by [simp]: "mset (sort_by le xs) = mset xs"
  by (induction xs) auto

lemma set_sort_by [simp]: "set (sort_by le xs) = set xs"
  by (metis mset_sort_by set_mset_mset)

lemma length_sort_by [simp]: "length (sort_by le xs) = length xs"
  by (metis mset_sort_by size_mset)

lemma distinct_sort_by [simp]: "distinct (sort_by le xs) = distinct xs"
  by (metis mset_sort_by mset_eq_imp_distinct_iff)

locale comparator =
  fixes le :: "'a \<Rightarrow> 'a \<Rightarrow> bool"
  assumes total: "le x y \<or> le y x"
    and trans: "le x y \<Longrightarrow> le y z \<Longrightarrow> le x z"
begin

lemma sorted_insert_by: "sorted_wrt le xs \<Longrightarrow> sorted_wrt le (insert_by le x xs)"
proof (induction xs)
  case Nil
  then show ?case by simp
next
  case (Cons y ys)
  show ?case
  proof (cases "le x y")
    case True
    with Cons.prems show ?thesis by (auto intro: trans)
  next
    case False
    then have "le y x" using total by blast
    moreover have "set (insert_by le x ys) = insert x (set ys)"
      by (metis mset_insert_by set_mset_add_mset_insert set_mset_mset)
    ultimately show ?thesis using False Cons by auto
  qed
qed

lemma sorted_sort_by: "sorted_wrt le (sort_by le xs)"
  by (induction xs) (auto intro: sorted_insert_by)

lemma insert_by_head: "sorted_wrt le (x # xs) \<Longrightarrow> insert_by le x xs = x # xs"
  by (cases xs) auto

lemma sort_by_sorted: "sorted_wrt le xs \<Longrightarrow> sort_by le xs = xs"
  by (induction xs) (auto simp: insert_by_head)

lemma sort_by_idem: "sort_by le (sort_by le xs) = sort_by le xs"
  by (rule sort_by_sorted) (rule sorted_sort_by)

lemma filter_insert_by:
  assumes "\<And>y z. P y \<Longrightarrow> P z \<Longrightarrow> le y z"
  shows "filter P (insert_by le x xs) = filter P (x # xs)"
  using assms by (induction xs) auto

text \<open>Stability: elements the comparator does not separate keep their order.\<close>

lemma sort_by_stable:
  assumes "\<And>y z. P y \<Longrightarrow> P z \<Longrightarrow> le y z"
  shows "filter P (sort_by le xs) = filter P xs"
  using assms by (induction xs) (simp_all add: filter_insert_by)

end

section \<open>Searching by a predicate\<close>

text \<open>\<open>xs.findIndex(p)\<close> as an option.\<close>

fun find_index :: "('a \<Rightarrow> bool) \<Rightarrow> 'a list \<Rightarrow> nat option" where
  "find_index P [] = None"
| "find_index P (x # xs) = (if P x then Some 0 else map_option Suc (find_index P xs))"

lemma find_index_Some: "find_index p xs = Some i \<Longrightarrow> i < length xs \<and> p (xs ! i)"
  by (induction xs arbitrary: i) (auto split: if_splits)

text \<open>\<open>p ?? x\<close>.\<close>

definition upd :: "'a option \<Rightarrow> 'a \<Rightarrow> 'a" where
  "upd p x = (case p of None \<Rightarrow> x | Some y \<Rightarrow> y)"

section \<open>Association lists: JavaScript objects and maps\<close>

text \<open>
  A record with dynamic keys, or a \<open>Map\<close>, is an association list in insertion order.
  Only own properties are modelled.
\<close>

fun assoc_put :: "'k \<Rightarrow> 'v \<Rightarrow> ('k \<times> 'v) list \<Rightarrow> ('k \<times> 'v) list" where
  "assoc_put k v [] = [(k, v)]"
| "assoc_put k v ((k', v') # r) = (if k = k' then (k, v) # r else (k', v') # assoc_put k v r)"

definition assoc_del :: "'k \<Rightarrow> ('k \<times> 'v) list \<Rightarrow> ('k \<times> 'v) list" where
  "assoc_del k m = filter (\<lambda>(k', _). k' \<noteq> k) m"

lemma map_of_assoc_put [simp]: "map_of (assoc_put k v m) = (map_of m)(k \<mapsto> v)"
  by (induction k v m rule: assoc_put.induct) (auto simp: fun_eq_iff)

lemma map_of_assoc_del [simp]: "map_of (assoc_del k m) = (map_of m)(k := None)"
  by (induction m) (auto simp: assoc_del_def fun_eq_iff)

lemma keys_assoc_put:
  "map fst (assoc_put k v m) = (if k \<in> fst ` set m then map fst m else map fst m @ [k])"
  by (induction k v m rule: assoc_put.induct) auto

lemma distinct_assoc_put [simp]:
  "distinct (map fst m) \<Longrightarrow> distinct (map fst (assoc_put k v m))"
  by (simp add: keys_assoc_put)

lemma keys_assoc_del: "map fst (assoc_del k m) = filter (\<lambda>k'. k' \<noteq> k) (map fst m)"
  by (induction m) (auto simp: assoc_del_def)

lemma distinct_assoc_del [simp]:
  "distinct (map fst m) \<Longrightarrow> distinct (map fst (assoc_del k m))"
  by (simp add: keys_assoc_del)

text \<open>The object spread \<open>{...a, ...b}\<close>.\<close>

definition assoc_spread :: "('k \<times> 'v) list \<Rightarrow> ('k \<times> 'v) list \<Rightarrow> ('k \<times> 'v) list" where
  "assoc_spread a b = fold (\<lambda>(k, v). assoc_put k v) b a"

lemma map_of_assoc_spread:
  "distinct (map fst b) \<Longrightarrow> map_of (assoc_spread a b) = map_of a ++ map_of b"
proof (induction b arbitrary: a)
  case Nil
  then show ?case by (simp add: assoc_spread_def)
next
  case (Cons p b)
  obtain k v where p: "p = (k, v)" by fastforce
  have "map_of b k = None"
    using Cons.prems p by (simp add: map_of_eq_None_iff)
  with Cons p show ?case
    by (auto simp: assoc_spread_def fun_eq_iff map_add_def split: option.splits)
qed

end
