(* ===== verification/Js_Number.thy ===== *)
theory Js_Number
  imports Js_Prelude
begin

text \<open>
  JavaScript numbers: IEEE 754 doubles. A finite double is its exact rational value;
  every arithmetic operation is the exact rational result rounded to the nearest double,
  ties to even (\<open>to_double\<close>), with overflow to the infinities. The sign of a zero is not
  represented (the sources modelled never divide by a zero they did not produce from a
  literal, and print \<open>0\<close> and \<open>-0\<close> alike).
  The lemmas show that rounding is exact on integers up to \<open>2 ^ 53\<close>, odd and monotone.
\<close>

section \<open>Rounding\<close>

datatype jnum = JNaN | JPInf | JNInf | JFin rat

definition two_pow :: "int \<Rightarrow> rat" where
  "two_pow e = (if 0 \<le> e then of_int (2 ^ nat e) else 1 / of_int (2 ^ nat (- e)))"

text \<open>The number of binary digits of a positive integer.\<close>

function ibits :: "int \<Rightarrow> int" where
  "ibits n = (if n \<le> 0 then 0 else 1 + ibits (n div 2))"
  by pat_completeness auto
termination by (relation "measure nat") auto

declare ibits.simps [simp del]

definition floor_log2 :: "rat \<Rightarrow> int" where
  "floor_log2 q = (if 1 \<le> q then ibits \<lfloor>q\<rfloor> - 1 else - ibits (\<lceil>1 / q\<rceil> - 1))"

definition round_half_even :: "rat \<Rightarrow> int" where
  "round_half_even q = (let f = \<lfloor>q\<rfloor>; d = q - of_int f in
     if d < 1 / 2 then f else if 1 / 2 < d then f + 1 else if even f then f else f + 1)"

text \<open>The nearest multiple of the unit in the last place, for a positive rational.\<close>

definition ulp_exp :: "rat \<Rightarrow> int" where
  "ulp_exp a = max (floor_log2 a - 52) (-1074)"

definition round_pos :: "rat \<Rightarrow> rat" where
  "round_pos a = of_int (round_half_even (a / two_pow (ulp_exp a))) * two_pow (ulp_exp a)"

definition to_double :: "rat \<Rightarrow> jnum" where
  "to_double q = (if q = 0 then JFin 0 else
     let r = round_pos \<bar>q\<bar>
     in if 1024 \<le> floor_log2 r then (if 0 < q then JPInf else JNInf)
        else JFin (if 0 < q then r else - r))"

subsection \<open>Evaluation on literals\<close>

lemma ibits_numeral:
  "ibits 0 = 0" "ibits 1 = 1"
  "ibits (numeral (Num.Bit0 n)) = 1 + ibits (numeral n)"
  "ibits (numeral (Num.Bit1 n)) = 1 + ibits (numeral n)"
  "ibits (- numeral n) = 0"
  by (simp_all add: ibits.simps [of 0] ibits.simps [of 1] ibits.simps [of "numeral _"]
      ibits.simps [of "- numeral _"])

lemma floor_rat_frac [simp]:
  "\<lfloor>numeral a / numeral b :: rat\<rfloor> = numeral a div numeral b"
  "\<lfloor>1 / numeral b :: rat\<rfloor> = 1 div numeral b"
  "\<lfloor>- (numeral a / numeral b) :: rat\<rfloor> = - numeral a div numeral b"
  "\<lfloor>- (1 / numeral b) :: rat\<rfloor> = - 1 div numeral b"
  using floor_divide_of_int_eq [of "numeral a" "numeral b", where 'a = rat]
    floor_divide_of_int_eq [of 1 "numeral b", where 'a = rat]
    floor_divide_of_int_eq [of "- numeral a" "numeral b", where 'a = rat]
    floor_divide_of_int_eq [of "- 1" "numeral b", where 'a = rat]
  by simp_all

lemma ceiling_rat_frac [simp]:
  "\<lceil>numeral a / numeral b :: rat\<rceil> = - (- numeral a div numeral b)"
  "\<lceil>1 / numeral b :: rat\<rceil> = - (- 1 div numeral b)"
  by (simp_all add: ceiling_def)

lemmas double_eval = to_double_def round_pos_def ulp_exp_def two_pow_def floor_log2_def
  round_half_even_def ibits_numeral

subsection \<open>Powers of two and binary logarithms\<close>

lemma two_pow_powi: "two_pow e = 2 powi e"
  by (simp add: two_pow_def power_int_def power_one_over inverse_eq_divide)

lemma two_pow_pos [simp]: "0 < two_pow e" "0 \<le> two_pow e" "two_pow e \<noteq> 0"
  by (simp_all add: two_pow_powi)

lemma two_pow_add: "two_pow (a + b) = two_pow a * two_pow b"
  by (simp add: two_pow_powi power_int_add)

lemma two_pow_le: "two_pow a \<le> two_pow b \<longleftrightarrow> a \<le> b"
proof
  assume "a \<le> b"
  then show "two_pow a \<le> two_pow b" by (simp add: two_pow_powi power_int_increasing)
next
  show "two_pow a \<le> two_pow b \<Longrightarrow> a \<le> b"
    using power_int_strict_increasing [of b a "2 :: rat"] by (force simp: two_pow_powi not_le)
qed

lemma two_pow_less: "two_pow a < two_pow b \<longleftrightarrow> a < b"
  using two_pow_le [of b a] by linarith

lemma two_pow_of_int: "0 \<le> e \<Longrightarrow> two_pow e = of_int (2 ^ nat e)"
  by (simp add: two_pow_def)

lemma two_pow_minus: "two_pow (- e) = 1 / two_pow e"
  by (simp add: two_pow_powi power_int_minus divide_inverse)

lemma ibits_bounds:
  "0 < n \<Longrightarrow> 1 \<le> ibits n \<and> 2 ^ nat (ibits n - 1) \<le> n \<and> n < 2 ^ nat (ibits n)"
proof (induction n rule: ibits.induct)
  case (1 n)
  show ?case
  proof (cases "n = 1")
    case True
    then show ?thesis by (simp add: ibits_numeral)
  next
    case False
    with "1.prems" have n: "1 < n" by simp
    let ?h = "n div 2"
    from n have IH: "1 \<le> ibits ?h" "2 ^ nat (ibits ?h - 1) \<le> ?h" "?h < 2 ^ nat (ibits ?h)"
      using "1.IH" by auto
    have unf: "ibits n = 1 + ibits ?h"
      using n by (simp add: ibits.simps [of n])
    have e: "nat (ibits ?h) = Suc (nat (ibits ?h - 1))"
      using IH(1) by simp
    have "nat (1 + ibits ?h) = Suc (nat (ibits ?h))"
      using IH(1) by simp
    moreover have "2 * ?h \<le> n" "n < 2 * ?h + 2" by linarith+
    moreover have "n < 2 * 2 ^ nat (ibits ?h)" using IH(3) calculation by linarith
    moreover have "2 * 2 ^ nat (ibits ?h - 1) \<le> n" using IH(2) calculation by linarith
    ultimately show ?thesis
      using IH(1) e by (simp add: unf)
  qed
qed

lemma ibits_two_pow:
  assumes "0 < n"
  shows "two_pow (ibits n - 1) \<le> of_int n" "of_int (n + 1) \<le> two_pow (ibits n)"
proof -
  note b = ibits_bounds [OF assms]
  have "(of_int (2 ^ nat (ibits n - 1)) :: rat) \<le> of_int n"
    using b by (simp only: of_int_le_iff)
  with b show "two_pow (ibits n - 1) \<le> of_int n"
    by (simp add: two_pow_of_int)
  from b have "n + 1 \<le> 2 ^ nat (ibits n)" by linarith
  then have "(of_int (n + 1) :: rat) \<le> of_int (2 ^ nat (ibits n))"
    by (simp only: of_int_le_iff)
  with b show "of_int (n + 1) \<le> two_pow (ibits n)"
    by (simp add: two_pow_of_int)
qed

lemma floor_log2_bounds:
  assumes "0 < q"
  shows "two_pow (floor_log2 q) \<le> q" "q < two_pow (floor_log2 q + 1)"
proof -
  have "two_pow (floor_log2 q) \<le> q \<and> q < two_pow (floor_log2 q + 1)"
  proof (cases "1 \<le> q")
    case True
    then have "0 < \<lfloor>q\<rfloor>" by (simp add: le_floor_iff)
    note b = ibits_two_pow [OF this]
    have "two_pow (ibits \<lfloor>q\<rfloor> - 1) \<le> q"
      using b(1) of_int_floor_le [of q] by linarith
    moreover have "q < two_pow (ibits \<lfloor>q\<rfloor>)"
      using b(2) floor_correct [of q] by linarith
    ultimately show ?thesis using True by (simp add: floor_log2_def)
  next
    case False
    with assms have gt: "1 < 1 / q" by simp
    define m where "m = \<lceil>1 / q\<rceil> - 1"
    have "0 < m" using gt by (simp add: m_def less_ceiling_iff)
    note b = ibits_two_pow [OF this]
    have lo: "of_int m < 1 / q" and hi: "1 / q \<le> of_int (m + 1)"
      unfolding m_def by (simp_all) linarith+
    have "1 / q \<le> two_pow (ibits m)" using hi b(2) by linarith
    then have "two_pow (- ibits m) \<le> q"
      using assms by (simp add: two_pow_minus field_simps)
    moreover have "two_pow (ibits m - 1) < 1 / q" using lo b(1) by linarith
    then have "q < two_pow (- (ibits m - 1))"
      using assms unfolding two_pow_minus by (simp add: field_simps)
    ultimately show ?thesis
      using False by (simp add: floor_log2_def m_def)
  qed
  then show "two_pow (floor_log2 q) \<le> q" "q < two_pow (floor_log2 q + 1)" by auto
qed

lemma floor_log2_unique:
  assumes "two_pow k \<le> q" "q < two_pow (k + 1)"
  shows "floor_log2 q = k"
proof -
  have "0 < q" using assms(1) two_pow_pos(1) [of k] by linarith
  note b = floor_log2_bounds [OF this]
  have "two_pow k < two_pow (floor_log2 q + 1)" "two_pow (floor_log2 q) < two_pow (k + 1)"
    using assms b by linarith+
  then show ?thesis by (simp add: two_pow_less)
qed

lemma floor_log2_mono:
  assumes "0 < p" "p \<le> q"
  shows "floor_log2 p \<le> floor_log2 q"
proof -
  have "0 < q" using assms by linarith
  have "two_pow (floor_log2 p) < two_pow (floor_log2 q + 1)"
    using floor_log2_bounds [OF \<open>0 < p\<close>] floor_log2_bounds [OF \<open>0 < q\<close>] assms by linarith
  then show ?thesis by (simp add: two_pow_less)
qed

subsection \<open>Rounding to the nearest double\<close>

lemma round_half_even_int [simp]: "round_half_even (of_int n) = n"
  by (simp add: round_half_even_def)

lemma round_half_even_floor:
  "\<lfloor>q\<rfloor> \<le> round_half_even q" "round_half_even q \<le> \<lfloor>q\<rfloor> + 1"
  by (simp_all add: round_half_even_def Let_def)

lemma round_half_even_mono:
  assumes "p \<le> q"
  shows "round_half_even p \<le> round_half_even q"
proof (cases "\<lfloor>p\<rfloor> = \<lfloor>q\<rfloor>")
  case True
  with assms show ?thesis by (auto simp: round_half_even_def Let_def)
next
  case False
  with assms floor_mono [OF assms] have "\<lfloor>p\<rfloor> + 1 \<le> \<lfloor>q\<rfloor>" by linarith
  then show ?thesis
    using round_half_even_floor(2) [of p] round_half_even_floor(1) [of q] by linarith
qed

lemma round_half_even_bounds:
  "of_int n \<le> q \<Longrightarrow> n \<le> round_half_even q" "q \<le> of_int n \<Longrightarrow> round_half_even q \<le> n"
  using round_half_even_mono [of "of_int n" q] round_half_even_mono [of q "of_int n"] by simp_all

lemma round_half_even_nonneg: "0 \<le> q \<Longrightarrow> 0 \<le> round_half_even q"
  using round_half_even_bounds(1) [of 0 q] by simp

lemma round_pos_nonneg: "0 < a \<Longrightarrow> 0 \<le> round_pos a"
  by (simp add: round_pos_def round_half_even_nonneg)

lemma scaled_bounds:
  assumes "0 < a"
  shows "a / two_pow (ulp_exp a) \<le> of_int (2 ^ 53)"
    and "- 1074 < ulp_exp a \<Longrightarrow> of_int (2 ^ 52) \<le> a / two_pow (ulp_exp a)"
proof -
  have two: "of_int (2 ^ 53) = two_pow 53" "of_int (2 ^ 52) = two_pow 52"
    by (simp_all add: two_pow_def)
  note b = floor_log2_bounds [OF assms]
  have "floor_log2 a + 1 \<le> 53 + ulp_exp a" by (simp add: ulp_exp_def)
  then have "two_pow (floor_log2 a + 1) \<le> two_pow (53 + ulp_exp a)" by (simp only: two_pow_le)
  with b(2) have "a \<le> two_pow 53 * two_pow (ulp_exp a)" by (simp add: two_pow_add)
  then show "a / two_pow (ulp_exp a) \<le> of_int (2 ^ 53)"
    unfolding two by (simp add: divide_le_eq)
  assume "- 1074 < ulp_exp a"
  then have "floor_log2 a = 52 + ulp_exp a" by (simp add: ulp_exp_def)
  with b(1) have "two_pow 52 * two_pow (ulp_exp a) \<le> a" by (simp add: two_pow_add)
  then show "of_int (2 ^ 52) \<le> a / two_pow (ulp_exp a)"
    unfolding two by (simp add: le_divide_eq)
qed

lemma round_pos_mono:
  assumes "0 < p" "p \<le> q"
  shows "round_pos p \<le> round_pos q"
proof -
  let ?e = "ulp_exp p" and ?f = "ulp_exp q"
  have "0 < q" using assms by linarith
  have ef: "?e \<le> ?f"
    using floor_log2_mono [OF assms] by (simp add: ulp_exp_def)
  show ?thesis
  proof (cases "?e = ?f")
    case True
    have "p / two_pow ?f \<le> q / two_pow ?f" using assms(2) by (simp add: divide_right_mono)
    then show ?thesis
      using True by (simp add: round_pos_def round_half_even_mono mult_right_mono)
  next
    case False
    with ef have less: "?e < ?f" by simp
    moreover have "- 1074 \<le> ?e" by (simp add: ulp_exp_def)
    ultimately have big: "- 1074 < ?f" by simp
    have "round_half_even (p / two_pow ?e) \<le> 2 ^ 53"
      by (rule round_half_even_bounds(2)) (rule scaled_bounds(1) [OF \<open>0 < p\<close>])
    then have "(of_int (round_half_even (p / two_pow ?e)) :: rat) \<le> of_int (2 ^ 53)"
      by (simp only: of_int_le_iff)
    then have "round_pos p \<le> two_pow 53 * two_pow ?e"
      by (simp add: round_pos_def two_pow_def [of 53])
    also have "\<dots> = two_pow (53 + ?e)" by (simp add: two_pow_add)
    also have "\<dots> \<le> two_pow (52 + ?f)" using less by (simp add: two_pow_le)
    also have "\<dots> = two_pow 52 * two_pow ?f" by (simp add: two_pow_add)
    also have "\<dots> \<le> round_pos q"
    proof -
      have "2 ^ 52 \<le> round_half_even (q / two_pow ?f)"
        by (rule round_half_even_bounds(1)) (rule scaled_bounds(2) [OF \<open>0 < q\<close> big])
      then have "(of_int (2 ^ 52) :: rat) \<le> of_int (round_half_even (q / two_pow ?f))"
        by (simp only: of_int_le_iff)
      then show ?thesis by (simp add: round_pos_def two_pow_def [of 52])
    qed
    finally show ?thesis .
  qed
qed

text \<open>Rounding is exact on every integer that fits in 53 bits.\<close>

lemma round_pos_int:
  assumes "0 < n" "n \<le> 2 ^ 53"
  shows "round_pos (of_int n) = of_int n"
proof -
  let ?k = "floor_log2 (of_int n)"
  have k: "?k = ibits n - 1" using assms(1) by (simp add: floor_log2_def)
  have k0: "0 \<le> ?k" using ibits_bounds [OF assms(1)] k by linarith
  show ?thesis
  proof (cases "?k \<le> 52")
    case True
    with k0 have e: "ulp_exp (of_int n) = - (52 - ?k)" "0 \<le> 52 - ?k"
      by (simp_all add: ulp_exp_def)
    have "of_int n / two_pow (ulp_exp (of_int n)) = of_int (n * 2 ^ nat (52 - ?k))"
      unfolding e(1) two_pow_minus using e(2) by (simp add: two_pow_of_int)
    then have "round_pos (of_int n)
        = of_int (n * 2 ^ nat (52 - ?k)) * two_pow (ulp_exp (of_int n))"
      unfolding round_pos_def by (simp only: round_half_even_int)
    also have "\<dots> = of_int n * (two_pow (52 - ?k) * two_pow (- (52 - ?k)))"
      unfolding e(1) using e(2) by (simp add: two_pow_of_int)
    also have "\<dots> = of_int n"
      by (simp only: two_pow_add [symmetric]) (simp add: two_pow_def)
    finally show ?thesis .
  next
    case False
    have "two_pow ?k \<le> of_int n"
      using floor_log2_bounds(1) [of "of_int n"] assms(1) by simp
    moreover have "two_pow 53 \<le> two_pow ?k" using False by (simp add: two_pow_le)
    moreover have "(of_int n :: rat) \<le> of_int (2 ^ 53)" using assms(2) by (simp only: of_int_le_iff)
    ultimately have "(of_int n :: rat) = of_int (2 ^ 53)" by (simp add: two_pow_def)
    then have n: "n = 2 ^ 53" by (simp only: of_int_eq_iff)
    show ?thesis by (simp add: n double_eval)
  qed
qed

theorem to_double_int:
  assumes "\<bar>n\<bar> \<le> 2 ^ 53"
  shows "to_double (of_int n) = JFin (of_int n)"
proof (cases "n = 0")
  case True
  then show ?thesis by (simp add: to_double_def)
next
  case False
  have r: "round_pos (of_int \<bar>n\<bar>) = of_int \<bar>n\<bar>"
    using False assms by (intro round_pos_int) simp_all
  have "floor_log2 (of_int \<bar>n\<bar>) \<le> floor_log2 (of_int (2 ^ 53))"
  proof (rule floor_log2_mono)
    show "0 < (of_int \<bar>n\<bar> :: rat)" using False by simp
    show "(of_int \<bar>n\<bar> :: rat) \<le> of_int (2 ^ 53)" using assms by (simp only: of_int_le_iff)
  qed
  also have "\<dots> = 53" by (simp add: floor_log2_def ibits_numeral)
  finally have "\<not> 1024 \<le> floor_log2 (of_int \<bar>n\<bar>)" by simp
  with False r show ?thesis by (auto simp: to_double_def Let_def)
qed

lemma to_double_0 [simp]: "to_double 0 = JFin 0"
  by (simp add: to_double_def)

section \<open>Comparison and arithmetic\<close>

text \<open>Comparisons with \<open>NaN\<close> are false, also \<open>===\<close>.\<close>

fun jlt :: "jnum \<Rightarrow> jnum \<Rightarrow> bool" where
  "jlt JNaN _ = False"
| "jlt _ JNaN = False"
| "jlt (JFin x) (JFin y) = (x < y)"
| "jlt JNInf y = (y \<noteq> JNInf)"
| "jlt x JPInf = (x \<noteq> JPInf)"
| "jlt _ _ = False"

definition jeq :: "jnum \<Rightarrow> jnum \<Rightarrow> bool" where
  "jeq x y = (x = y \<and> x \<noteq> JNaN)"

definition jle :: "jnum \<Rightarrow> jnum \<Rightarrow> bool" where
  "jle x y = (jlt x y \<or> jeq x y)"

abbreviation jge :: "jnum \<Rightarrow> jnum \<Rightarrow> bool" where
  "jge x y \<equiv> jle y x"

abbreviation jgt :: "jnum \<Rightarrow> jnum \<Rightarrow> bool" where
  "jgt x y \<equiv> jlt y x"

lemma jle_Fin [simp]: "jle (JFin x) (JFin y) = (x \<le> y)"
  by (auto simp: jle_def jeq_def)

lemma jeq_Fin [simp]: "jeq (JFin x) (JFin y) = (x = y)"
  by (simp add: jeq_def)

lemma jeq_NaN [simp]: "\<not> jeq JNaN y" "\<not> jeq x JNaN"
  by (auto simp: jeq_def)

definition is_finite :: "jnum \<Rightarrow> bool" where
  "is_finite x = (case x of JFin _ \<Rightarrow> True | _ \<Rightarrow> False)"

lemma is_finite_simps [simp]:
  "is_finite (JFin q)" "\<not> is_finite JNaN" "\<not> is_finite JPInf" "\<not> is_finite JNInf"
  by (simp_all add: is_finite_def)

lemma is_finite_iff: "is_finite x \<longleftrightarrow> (\<exists>q. x = JFin q)"
  by (cases x) simp_all

fun jneg :: "jnum \<Rightarrow> jnum" where
  "jneg JNaN = JNaN"
| "jneg JPInf = JNInf"
| "jneg JNInf = JPInf"
| "jneg (JFin x) = JFin (- x)"

fun jadd :: "jnum \<Rightarrow> jnum \<Rightarrow> jnum" where
  "jadd JNaN _ = JNaN"
| "jadd _ JNaN = JNaN"
| "jadd (JFin x) (JFin y) = to_double (x + y)"
| "jadd JPInf y = (if y = JNInf then JNaN else JPInf)"
| "jadd JNInf y = (if y = JPInf then JNaN else JNInf)"
| "jadd _ y = y"

definition jsub :: "jnum \<Rightarrow> jnum \<Rightarrow> jnum" where
  "jsub x y = jadd x (jneg y)"

definition inf_sgn :: "bool \<Rightarrow> jnum" where
  "inf_sgn pos = (if pos then JPInf else JNInf)"

fun jmul :: "jnum \<Rightarrow> jnum \<Rightarrow> jnum" where
  "jmul JNaN _ = JNaN"
| "jmul _ JNaN = JNaN"
| "jmul (JFin x) (JFin y) = to_double (x * y)"
| "jmul (JFin x) y = (if x = 0 then JNaN else inf_sgn ((0 < x) = (y = JPInf)))"
| "jmul x (JFin y) = (if y = 0 then JNaN else inf_sgn ((0 < y) = (x = JPInf)))"
| "jmul x y = inf_sgn (x = y)"

fun jdiv :: "jnum \<Rightarrow> jnum \<Rightarrow> jnum" where
  "jdiv JNaN _ = JNaN"
| "jdiv _ JNaN = JNaN"
| "jdiv (JFin x) (JFin y) =
     (if y = 0 then if x = 0 then JNaN else inf_sgn (0 < x) else to_double (x / y))"
| "jdiv (JFin x) _ = JFin 0"
| "jdiv x (JFin y) = inf_sgn ((0 \<le> y) = (x = JPInf))"
| "jdiv _ _ = JNaN"

fun jabs :: "jnum \<Rightarrow> jnum" where
  "jabs JNaN = JNaN"
| "jabs (JFin x) = JFin \<bar>x\<bar>"
| "jabs _ = JPInf"

text \<open>\<open>Math.floor\<close>, \<open>Math.round\<close> (halves go up) and the two-argument \<open>Math.max\<close>, \<open>Math.min\<close>.\<close>

fun jfloor :: "jnum \<Rightarrow> jnum" where
  "jfloor (JFin x) = JFin (of_int \<lfloor>x\<rfloor>)"
| "jfloor x = x"

fun jround :: "jnum \<Rightarrow> jnum" where
  "jround (JFin x) = JFin (of_int \<lfloor>x + 1 / 2\<rfloor>)"
| "jround x = x"

definition jmax :: "jnum \<Rightarrow> jnum \<Rightarrow> jnum" where
  "jmax x y = (if x = JNaN \<or> y = JNaN then JNaN else if jlt x y then y else x)"

definition jmin :: "jnum \<Rightarrow> jnum \<Rightarrow> jnum" where
  "jmin x y = (if x = JNaN \<or> y = JNaN then JNaN else if jlt y x then y else x)"

text \<open>Truthiness of a number: everything but zero and \<open>NaN\<close>. \<open>x || d\<close> is \<open>jor x d\<close>.\<close>

definition num_truthy :: "jnum \<Rightarrow> bool" where
  "num_truthy x = (x \<noteq> JNaN \<and> x \<noteq> JFin 0)"

definition jor :: "jnum \<Rightarrow> jnum \<Rightarrow> jnum" where
  "jor x d = (if num_truthy x then x else d)"

abbreviation jint :: "int \<Rightarrow> jnum" where
  "jint n \<equiv> JFin (of_int n)"

lemma num_truthy_simps [simp]:
  "num_truthy (JFin q) = (q \<noteq> 0)" "\<not> num_truthy JNaN" "num_truthy JPInf" "num_truthy JNInf"
  by (simp_all add: num_truthy_def)

lemma jmul_int:
  "\<bar>m * n\<bar> \<le> 2 ^ 53 \<Longrightarrow> jmul (jint m) (jint n) = jint (m * n)"
  using to_double_int [of "m * n"] by simp

lemma jadd_int:
  "\<bar>m + n\<bar> \<le> 2 ^ 53 \<Longrightarrow> jadd (jint m) (jint n) = jint (m + n)"
  using to_double_int [of "m + n"] by simp

lemma jround_int [simp]: "jround (jint n) = jint n"
proof -
  have "\<lfloor>of_int n + 1 / 2 :: rat\<rfloor> = n" by (rule floor_unique) simp_all
  then show ?thesis by simp
qed

subsection \<open>Monotonicity of rounding\<close>

lemma to_double_pos_cases:
  assumes "0 < q"
  shows "to_double q = (if 1024 \<le> floor_log2 (round_pos q) then JPInf else JFin (round_pos q))"
  using assms by (simp add: to_double_def Let_def)

lemma to_double_minus: "to_double (- q) = jneg (to_double q)"
  by (cases q "0 :: rat" rule: linorder_cases) (simp_all add: to_double_def Let_def)

lemma floor_log2_0 [simp]: "floor_log2 0 = 0"
  by (simp add: floor_log2_def ibits.simps)

lemma to_double_mono_pos:
  assumes "0 < p" "p \<le> q"
  shows "jle (to_double p) (to_double q)"
proof -
  have q: "0 < q" using assms by linarith
  have le: "round_pos p \<le> round_pos q" by (rule round_pos_mono [OF assms])
  have "1024 \<le> floor_log2 (round_pos q)" if "1024 \<le> floor_log2 (round_pos p)"
  proof -
    have "0 < round_pos p"
      using that round_pos_nonneg [OF assms(1)] by (cases "round_pos p = 0") auto
    then show ?thesis using that floor_log2_mono [OF _ le] by linarith
  qed
  with le show ?thesis
    by (auto simp: to_double_pos_cases [OF assms(1)] to_double_pos_cases [OF q] jle_def jeq_def)
qed

lemma jle_neg: "jle (jneg x) (jneg y) = jle y x"
  by (cases x; cases y) (auto simp: jle_def jeq_def)

lemma to_double_nonneg: "0 \<le> q \<Longrightarrow> jle (JFin 0) (to_double q)"
  using round_pos_nonneg [of q]
  by (cases "q = 0") (auto simp: to_double_pos_cases jle_def jeq_def)

theorem to_double_mono:
  assumes "p \<le> q"
  shows "jle (to_double p) (to_double q)"
proof -
  have np: "jle (to_double p) (JFin 0)" if "p \<le> 0"
    using to_double_nonneg [of "- p"] that jle_neg [of "JFin 0" "to_double p"]
    by (simp add: to_double_minus)
  consider "0 < p" | "p \<le> 0" "0 \<le> q" | "q < 0" using assms by linarith
  then show ?thesis
  proof cases
    case 1
    then show ?thesis using assms by (rule to_double_mono_pos)
  next
    case 2
    then show ?thesis
      using np to_double_nonneg [of q]
      by (cases "to_double p"; cases "to_double q") (auto simp: jle_def jeq_def)
  next
    case 3
    then have "jle (to_double (- q)) (to_double (- p))"
      using assms by (intro to_double_mono_pos) simp_all
    then show ?thesis by (simp add: to_double_minus jle_neg)
  qed
qed

text \<open>\<open>Number.isInteger(x)\<close>, and the integer a number that passed it holds.\<close>

fun jis_integer :: "jnum \<Rightarrow> bool" where
  "jis_integer (JFin q) = (of_int \<lfloor>q\<rfloor> = q)"
| "jis_integer _ = False"

fun int_of_num :: "jnum \<Rightarrow> int" where
  "int_of_num (JFin q) = \<lfloor>q\<rfloor>"
| "int_of_num _ = 0"

lemma jis_integer_iff: "jis_integer x \<longleftrightarrow> (\<exists>n. x = jint n)"
proof (cases x)
  case (JFin q)
  then show ?thesis by (metis floor_of_int jis_integer.simps(1) jnum.inject)
qed simp_all

text \<open>The remainder \<open>x % y\<close> has the sign of the dividend and is exact.\<close>

definition trunc_rat :: "rat \<Rightarrow> int" where
  "trunc_rat q = (if 0 \<le> q then \<lfloor>q\<rfloor> else \<lceil>q\<rceil>)"

fun jmod :: "jnum \<Rightarrow> jnum \<Rightarrow> jnum" where
  "jmod (JFin x) (JFin y) = (if y = 0 then JNaN else JFin (x - y * of_int (trunc_rat (x / y))))"
| "jmod (JFin x) JPInf = JFin x"
| "jmod (JFin x) JNInf = JFin x"
| "jmod _ _ = JNaN"

subsection \<open>The rounding error\<close>

lemma round_half_even_near: "\<bar>of_int (round_half_even q) - q\<bar> \<le> 1 / 2"
proof -
  have "of_int \<lfloor>q\<rfloor> \<le> q" "q < of_int \<lfloor>q\<rfloor> + 1" by linarith+
  then show ?thesis by (auto simp: round_half_even_def Let_def abs_le_iff)
qed

text \<open>In the normal range the relative error is at most \<open>2 ^ -53\<close>.\<close>

lemma round_pos_near:
  assumes "two_pow (- 1022) \<le> a"
  shows "\<bar>round_pos a - a\<bar> \<le> a * two_pow (- 53)"
proof -
  have pos: "0 < a" using assms two_pow_pos(1) by (metis order.strict_trans1 order.strict_trans2)
  have "two_pow (- 1022) < two_pow (floor_log2 a + 1)"
    using assms floor_log2_bounds(2) [OF pos] by linarith
  then have "- 1022 \<le> floor_log2 a" by (simp add: two_pow_less)
  then have e: "ulp_exp a = floor_log2 a - 52" by (simp add: ulp_exp_def)
  let ?u = "two_pow (ulp_exp a)"
  have "round_pos a - a = (of_int (round_half_even (a / ?u)) - a / ?u) * ?u"
    by (simp add: round_pos_def algebra_simps)
  then have "\<bar>round_pos a - a\<bar> = \<bar>of_int (round_half_even (a / ?u)) - a / ?u\<bar> * ?u"
    by (simp add: abs_mult)
  also have "\<dots> \<le> 1 / 2 * ?u" using round_half_even_near by (intro mult_right_mono) simp_all
  also have "1 / 2 * ?u = two_pow (floor_log2 a) * two_pow (- 53)"
  proof -
    have "two_pow (- 1) = 1 / 2" by (simp add: two_pow_def)
    then have "1 / 2 * ?u = two_pow (- 1) * two_pow (floor_log2 a - 52)" using e by simp
    also have "\<dots> = two_pow (floor_log2 a + - 53)" by (simp add: two_pow_add [symmetric])
    finally show ?thesis by (simp only: two_pow_add)
  qed
  also have "\<dots> \<le> a * two_pow (- 53)"
    using floor_log2_bounds(1) [OF pos] by (intro mult_right_mono) simp_all
  finally show ?thesis .
qed

lemma to_double_near:
  assumes "two_pow (- 1022) \<le> q" "q \<le> two_pow 1000"
  obtains d where "to_double q = JFin d" "\<bar>d - q\<bar> \<le> q * two_pow (- 53)"
proof -
  have pos: "0 < q" using assms(1) two_pow_pos(1) by (metis order.strict_trans1 order.strict_trans2)
  note near = round_pos_near [OF assms(1)]
  have "q * two_pow (- 53) \<le> q * 1"
    using pos two_pow_le [of "- 53" 0] by (intro mult_left_mono) (simp_all add: two_pow_def)
  with near have "round_pos q \<le> 2 * q" by linarith
  also have "\<dots> \<le> two_pow 1 * two_pow 1000" using assms(2) by (simp add: two_pow_def)
  finally have le: "round_pos q \<le> two_pow 1001" by (simp add: two_pow_add [symmetric])
  have half: "two_pow (- 53) \<le> 1 / 2" by (simp add: two_pow_def)
  have "q * two_pow (- 53) \<le> q * (1 / 2)" using pos half by (intro mult_left_mono) simp_all
  with near pos have "0 < round_pos q" by linarith
  then have "two_pow (floor_log2 (round_pos q)) \<le> two_pow 1001"
    using floor_log2_bounds(1) le by (meson order_trans)
  then have "\<not> 1024 \<le> floor_log2 (round_pos q)" by (simp add: two_pow_le)
  with pos have "to_double q = JFin (round_pos q)" by (simp add: to_double_pos_cases)
  with near that show ?thesis by blast
qed

end
