(* ===== verification/Js_String.thy ===== *)
theory Js_String
  imports Js_Number
begin

text \<open>
  The string operations of the language the sources use: trimming, searching and slicing,
  the conversions between numbers and strings (\<open>Number(s)\<close>, \<open>parseFloat\<close>, \<open>parseInt(s, 10)\<close>,
  \<open>String(n)\<close>, \<open>toFixed\<close>) and the character classes of the regular expressions.
\<close>

section \<open>Character classes\<close>

text \<open>White space and line terminators, which are also the class \<open>\s\<close>.\<close>

definition is_space :: "nat \<Rightarrow> bool" where
  "is_space c = (9 \<le> c \<and> c \<le> 13 \<or> c = 32 \<or> c = 160 \<or> c = 5760 \<or> 8192 \<le> c \<and> c \<le> 8202
     \<or> c = 8232 \<or> c = 8233 \<or> c = 8239 \<or> c = 8287 \<or> c = 12288 \<or> c = 65279)"

definition is_digit :: "nat \<Rightarrow> bool" where
  "is_digit c = (48 \<le> c \<and> c \<le> 57)"

definition is_word :: "nat \<Rightarrow> bool" where
  "is_word c = (is_digit c \<or> 65 \<le> c \<and> c \<le> 90 \<or> 97 \<le> c \<and> c \<le> 122 \<or> c = 95)"

text \<open>The lower case of the ASCII letters; every other character is itself.\<close>

definition ascii_lower :: "nat \<Rightarrow> nat" where
  "ascii_lower c = (if 65 \<le> c \<and> c \<le> 90 then c + 32 else c)"

lemma digit_not_space: "is_digit c \<Longrightarrow> \<not> is_space c"
  by (auto simp: is_digit_def is_space_def)

section \<open>Trimming\<close>

definition trim :: "jstr \<Rightarrow> jstr" where
  "trim s = rev (dropWhile is_space (rev (dropWhile is_space s)))"

lemma dropWhile_id: "(xs \<noteq> [] \<Longrightarrow> \<not> P (hd xs)) \<Longrightarrow> dropWhile P xs = xs"
  by (cases xs) auto

lemma hd_dropWhile_not: "dropWhile P xs \<noteq> [] \<Longrightarrow> \<not> P (hd (dropWhile P xs))"
  by (rule hd_dropWhile)

text \<open>A string is trimmed when neither its first nor its last code unit is white space.\<close>

definition trimmed :: "jstr \<Rightarrow> bool" where
  "trimmed s = (s = [] \<or> \<not> is_space (hd s) \<and> \<not> is_space (last s))"

lemma trim_id: "trimmed s \<Longrightarrow> trim s = s"
  by (cases "s = []") (auto simp: trim_def trimmed_def dropWhile_id hd_rev)

lemma trim_Nil [simp]: "trim [] = []"
  by (simp add: trim_def)

lemma trimmed_Nil [simp]: "trimmed []"
  by (simp add: trimmed_def)

lemma trimmed_trim [simp]: "trimmed (trim s)"
proof -
  let ?d = "dropWhile is_space s"
  show ?thesis
  proof (cases "trim s = []")
    case True
    then show ?thesis by simp
  next
    case False
    let ?r = "dropWhile is_space (rev ?d)"
    have ne: "?r \<noteq> []" using False by (simp add: trim_def)
    have "\<not> is_space (hd ?r)" using ne by (rule hd_dropWhile_not)
    then have l: "\<not> is_space (last (trim s))" using ne by (simp add: trim_def last_rev)
    obtain pre where pre: "rev ?d = pre @ ?r"
      by (metis takeWhile_dropWhile_id)
    then have d: "?d = rev ?r @ rev pre" by (metis rev_append rev_rev_ident)
    with ne have "?d \<noteq> []" by (metis append_is_Nil_conv rev_is_Nil_conv)
    from d ne have "hd ?d = hd (rev ?r)" by (metis hd_append2 rev_is_Nil_conv)
    moreover have "\<not> is_space (hd ?d)" using \<open>?d \<noteq> []\<close> by (rule hd_dropWhile_not)
    ultimately have "\<not> is_space (hd (trim s))" by (simp add: trim_def)
    with l show ?thesis by (simp add: trimmed_def)
  qed
qed

lemma trim_trim [simp]: "trim (trim s) = trim s"
  by (rule trim_id) simp

lemma set_trim: "set (trim s) \<subseteq> set s"
  unfolding trim_def using set_dropWhileD by (metis set_rev subsetI)

lemma trim_no_space: "(\<And>c. c \<in> set s \<Longrightarrow> \<not> is_space c) \<Longrightarrow> trim s = s"
  by (rule trim_id) (auto simp: trimmed_def)

section \<open>Searching and slicing\<close>

definition starts_with :: "jstr \<Rightarrow> jstr \<Rightarrow> bool" where
  "starts_with p s = (take (length p) s = p)"

definition ends_with :: "jstr \<Rightarrow> jstr \<Rightarrow> bool" where
  "ends_with p s = starts_with (rev p) (rev s)"

lemma starts_with_append [simp]: "starts_with p (p @ s)"
  by (simp add: starts_with_def)

lemma starts_with_Cons [simp]:
  "starts_with (c # p) (d # s) = (c = d \<and> starts_with p s)"
  "\<not> starts_with (c # p) []" "starts_with [] s"
  by (auto simp: starts_with_def)

text \<open>\<open>s.indexOf(p)\<close> as the index of the first occurrence.\<close>

fun index_of :: "jstr \<Rightarrow> jstr \<Rightarrow> nat option" where
  "index_of p [] = (if p = [] then Some 0 else None)"
| "index_of p (c # s) =
     (if starts_with p (c # s) then Some 0 else map_option Suc (index_of p s))"

definition has_sub :: "jstr \<Rightarrow> jstr \<Rightarrow> bool" where
  "has_sub p s = (index_of p s \<noteq> None)"

lemma index_of_Some:
  "index_of p s = Some i \<Longrightarrow> i + length p \<le> length s \<and> take (length p) (drop i s) = p"
proof (induction p s arbitrary: i rule: index_of.induct)
  case (1 p)
  then show ?case by (auto split: if_splits)
next
  case (2 p c s)
  show ?case
  proof (cases "starts_with p (c # s)")
    case True
    then have "take (length p) (c # s) = p" by (simp add: starts_with_def)
    then have "length p \<le> length (c # s)" by (metis length_take min.cobounded1 min_def)
    with True 2 \<open>take (length p) (c # s) = p\<close> show ?thesis by auto
  next
    case False
    with 2 show ?thesis by auto
  qed
qed

lemma index_of_None: "index_of p s = None \<longleftrightarrow> (\<forall>u v. s \<noteq> u @ p @ v)"
proof (induction p s rule: index_of.induct)
  case (1 p)
  then show ?case by auto
next
  case (2 p c s)
  show ?case
  proof (cases "starts_with p (c # s)")
    case True
    then have "c # s = [] @ p @ drop (length p) (c # s)"
      by (metis append_Nil append_take_drop_id starts_with_def)
    then show ?thesis using True by (metis index_of.simps(2) option.distinct(1))
  next
    case False
    have "(\<exists>u v. c # s = u @ p @ v) \<longleftrightarrow> (\<exists>u v. s = u @ p @ v)"
    proof
      assume "\<exists>u v. c # s = u @ p @ v"
      then obtain u v where uv: "c # s = u @ p @ v" by blast
      with False obtain u' where "u = c # u'"
        by (cases u) auto
      with uv show "\<exists>u v. s = u @ p @ v" by auto
    next
      assume "\<exists>u v. s = u @ p @ v"
      then show "\<exists>u v. c # s = u @ p @ v" by (metis append_Cons)
    qed
    with False 2 show ?thesis by auto
  qed
qed

lemma has_sub_iff: "has_sub p s \<longleftrightarrow> (\<exists>u v. s = u @ p @ v)"
  by (auto simp: has_sub_def index_of_None)

lemma index_of_append:
  "p \<noteq> [] \<Longrightarrow> \<not> has_sub p (u @ butlast p) \<Longrightarrow> index_of p (u @ p @ v) = Some (length u)"
proof (induction u)
  case Nil
  then obtain c q where "p = c # q" by (cases p) auto
  then show ?case by simp
next
  case (Cons c u)
  have ns: "\<not> starts_with p (c # u @ p @ v)"
  proof
    assume "starts_with p (c # u @ p @ v)"
    then have t: "take (length p) (c # u @ p @ v) = p" by (simp add: starts_with_def)
    have len: "length p \<le> length (c # u @ butlast p)" using Cons.prems(1) by simp
    have eq: "c # u @ p @ v = (c # u @ butlast p) @ (last p # v)"
      using Cons.prems(1) by (metis append.assoc append_Cons append_Nil append_butlast_last_id)
    have "take (length p) (c # u @ butlast p) = p"
      using t len unfolding eq take_append by (simp only: diff_is_0_eq' take0 append_Nil2)
    then have "has_sub p (c # u @ butlast p)"
      unfolding has_sub_iff by (metis append_Nil append_take_drop_id)
    with Cons.prems(2) show False by simp
  qed
  moreover have "\<not> has_sub p (u @ butlast p)"
    using Cons.prems(2) unfolding has_sub_iff by (metis append_Cons)
  ultimately show ?case using Cons by simp
qed

text \<open>\<open>s.slice(i)\<close>, \<open>s.slice(i, j)\<close> and \<open>s.slice(-n)\<close>.\<close>

definition slice_from :: "nat \<Rightarrow> jstr \<Rightarrow> jstr" where
  "slice_from i s = drop i s"

definition slice :: "nat \<Rightarrow> nat \<Rightarrow> jstr \<Rightarrow> jstr" where
  "slice i j s = drop i (take j s)"

definition slice_last :: "nat \<Rightarrow> jstr \<Rightarrow> jstr" where
  "slice_last n s = drop (length s - n) s"

section \<open>Numbers to strings\<close>

function dec_digits :: "int \<Rightarrow> jstr" where
  "dec_digits n = (if n < 10 then [48 + nat n] else dec_digits (n div 10) @ [48 + nat (n mod 10)])"
  by pat_completeness auto
termination by (relation "measure nat") auto

declare dec_digits.simps [simp del]

lemma dec_digits_eval:
  "dec_digits 0 = [48]" "dec_digits 1 = [49]"
  "dec_digits (numeral w) =
     (if numeral w < (10 :: int) then [48 + nat (numeral w)]
      else dec_digits (numeral w div 10) @ [48 + nat (numeral w mod 10)])"
  by (simp_all add: dec_digits.simps [of 0] dec_digits.simps [of 1] dec_digits.simps [of "numeral _"])

lemma dec_digits_all_digits: "c \<in> set (dec_digits n) \<Longrightarrow> is_digit c"
proof (induction n rule: dec_digits.induct)
  case (1 n)
  show ?case
  proof (cases "n < 10")
    case True
    with "1.prems" show ?thesis by (auto simp: dec_digits.simps [of n] is_digit_def)
  next
    case False
    then have e: "dec_digits n = dec_digits (n div 10) @ [48 + nat (n mod 10)]"
      by (simp add: dec_digits.simps [of n])
    have "nat (n mod 10) < 10" by simp
    then show ?thesis
      using False "1.prems" "1.IH" unfolding e by (auto simp: is_digit_def)
  qed
qed

lemma dec_digits_not_Nil [simp]: "dec_digits n \<noteq> []"
  by (subst dec_digits.simps) simp

definition int_to_str :: "int \<Rightarrow> jstr" where
  "int_to_str n = (if n < 0 then 45 # dec_digits (- n) else dec_digits n)"

definition ten_pow :: "int \<Rightarrow> rat" where
  "ten_pow e = (if 0 \<le> e then of_int (10 ^ nat e) else 1 / of_int (10 ^ nat (- e)))"

text \<open>The decimal exponent \<open>n\<close> with \<open>10 ^ (n - 1) \<le> q < 10 ^ n\<close>.\<close>

definition dec_exp :: "rat \<Rightarrow> int" where
  "dec_exp q = (if 1 \<le> q then int (length (dec_digits \<lfloor>q\<rfloor>))
     else 1 - int (length (dec_digits (\<lceil>1 / q\<rceil> - 1))))"

text \<open>
  \<open>Number::toString\<close>: the fewest significant digits that round back to the number, the
  closer candidate when two have that many digits.
\<close>

definition shortest_with :: "rat \<Rightarrow> int \<Rightarrow> int option" where
  "shortest_with q e = (let t = q / ten_pow e; f = \<lfloor>t\<rfloor>;
      ok = (\<lambda>s. to_double (of_int s * ten_pow e) = JFin q) in
    if ok f \<and> ok (f + 1) then Some (if t - of_int f \<le> of_int (f + 1) - t then f else f + 1)
    else if ok f then Some f else if ok (f + 1) then Some (f + 1) else None)"

fun shortest_from :: "rat \<Rightarrow> int \<Rightarrow> nat \<Rightarrow> nat \<Rightarrow> int \<times> int" where
  "shortest_from q n k 0 = (\<lfloor>q / ten_pow (n - int k)\<rfloor>, n - int k)"
| "shortest_from q n k (Suc fuel) =
     (case shortest_with q (n - int k) of
        Some s \<Rightarrow> (s, n - int k)
      | None \<Rightarrow> shortest_from q n (Suc k) fuel)"

definition pos_to_str :: "rat \<Rightarrow> jstr" where
  "pos_to_str q = (let (s, e) = shortest_from q (dec_exp q) 1 17;
      full = dec_digits s;
      ds = rev (dropWhile (\<lambda>c. c = 48) (rev full));
      k = int (length ds); n = e + int (length full) in
    if k \<le> n \<and> n \<le> 21 then ds @ replicate (nat (n - k)) 48
    else if 0 < n \<and> n \<le> 21 then take (nat n) ds @ [46] @ drop (nat n) ds
    else if - 6 < n \<and> n \<le> 0 then [48, 46] @ replicate (nat (- n)) 48 @ ds
    else take 1 ds @ (if k = 1 then [] else 46 # drop 1 ds) @ [101]
         @ (if 0 < n then [43] else [45]) @ dec_digits \<bar>n - 1\<bar>)"

fun num_to_str :: "jnum \<Rightarrow> jstr" where
  "num_to_str JNaN = js ''NaN''"
| "num_to_str JPInf = js ''Infinity''"
| "num_to_str JNInf = js ''-Infinity''"
| "num_to_str (JFin q) =
     (if q = 0 then js ''0'' else if q < 0 then 45 # pos_to_str (- q) else pos_to_str q)"

text \<open>\<open>x.toFixed(d)\<close>: the nearest multiple of \<open>10 ^ -d\<close>, the larger one on a tie.\<close>

definition pad_left :: "nat \<Rightarrow> nat \<Rightarrow> jstr \<Rightarrow> jstr" where
  "pad_left n c s = replicate (n - length s) c @ s"

definition fixed_pos :: "nat \<Rightarrow> rat \<Rightarrow> jstr" where
  "fixed_pos d q = (let m = pad_left (Suc d) 48 (dec_digits \<lfloor>q * 10 ^ d + 1 / 2\<rfloor>);
      cut = length m - d in
    if d = 0 then m else take cut m @ [46] @ drop cut m)"

fun to_fixed :: "nat \<Rightarrow> jnum \<Rightarrow> jstr" where
  "to_fixed d (JFin q) =
     (if 10 ^ 21 \<le> \<bar>q\<bar> then num_to_str (JFin q)
      else if q < 0 then 45 # fixed_pos d (- q) else fixed_pos d q)"
| "to_fixed d x = num_to_str x"

section \<open>Strings to numbers\<close>

definition digits_val :: "jstr \<Rightarrow> int" where
  "digits_val s = foldl (\<lambda>a d. 10 * a + (int d - 48)) 0 s"

lemma digits_val_snoc: "digits_val (s @ [c]) = 10 * digits_val s + (int c - 48)"
  by (simp add: digits_val_def)

lemma digits_val_dec_digits [simp]: "0 \<le> n \<Longrightarrow> digits_val (dec_digits n) = n"
proof (induction n rule: dec_digits.induct)
  case (1 n)
  show ?case
  proof (cases "n < 10")
    case True
    with "1.prems" show ?thesis by (simp add: dec_digits.simps [of n] digits_val_def)
  next
    case False
    then have "digits_val (dec_digits n) = 10 * (n div 10) + n mod 10"
      using "1.IH" by (simp add: dec_digits.simps [of n] digits_val_snoc)
    then show ?thesis by simp
  qed
qed

text \<open>The exponent part: nothing is consumed unless digits follow the \<open>e\<close>.\<close>

definition scan_exponent :: "jstr \<Rightarrow> int \<times> jstr" where
  "scan_exponent s = (case s of
      [] \<Rightarrow> (0, [])
    | c # t \<Rightarrow>
        if c = 101 \<or> c = 69 then
          let neg = (t \<noteq> [] \<and> hd t = 45);
              u = (if t \<noteq> [] \<and> (hd t = 45 \<or> hd t = 43) then tl t else t);
              ds = takeWhile is_digit u in
          if ds = [] then (0, s)
          else ((if neg then - digits_val ds else digits_val ds), dropWhile is_digit u)
        else (0, s))"

text \<open>The longest unsigned decimal literal at the start of a string.\<close>

definition scan_decimal :: "jstr \<Rightarrow> (rat \<times> jstr) option" where
  "scan_decimal s = (let i = takeWhile is_digit s; r = dropWhile is_digit s;
      dot = (r \<noteq> [] \<and> hd r = 46);
      f = (if dot then takeWhile is_digit (tl r) else []);
      r' = (if dot then dropWhile is_digit (tl r) else r) in
    if i = [] \<and> f = [] then None
    else let (e, rest) = scan_exponent r' in
      Some (of_int (digits_val (i @ f)) * ten_pow (e - int (length f)), rest))"

definition signed_scan :: "(jstr \<Rightarrow> (jnum \<times> jstr) option) \<Rightarrow> jstr \<Rightarrow> (jnum \<times> jstr) option" where
  "signed_scan scan s =
     (if s \<noteq> [] \<and> hd s = 45 then map_option (\<lambda>(x, r). (jneg x, r)) (scan (tl s))
      else if s \<noteq> [] \<and> hd s = 43 then scan (tl s) else scan s)"

definition scan_number :: "jstr \<Rightarrow> (jnum \<times> jstr) option" where
  "scan_number s = signed_scan (\<lambda>t.
     if starts_with (js ''Infinity'') t then Some (JPInf, drop 8 t)
     else map_option (\<lambda>(q, r). (to_double q, r)) (scan_decimal t)) s"

text \<open>\<open>parseFloat(s)\<close> reads a prefix; \<open>Number(s)\<close> the whole trimmed string.\<close>

definition parse_float :: "jstr \<Rightarrow> jnum" where
  "parse_float s = (case scan_number (trim s) of None \<Rightarrow> JNaN | Some (x, _) \<Rightarrow> x)"

definition digit_of :: "nat \<Rightarrow> nat option" where
  "digit_of c = (if is_digit c then Some (c - 48)
     else if 97 \<le> c \<and> c \<le> 122 then Some (c - 87)
     else if 65 \<le> c \<and> c \<le> 90 then Some (c - 55) else None)"

definition is_radix_digit :: "nat \<Rightarrow> nat \<Rightarrow> bool" where
  "is_radix_digit b c = (case digit_of c of None \<Rightarrow> False | Some d \<Rightarrow> d < b)"

definition radix_val :: "nat \<Rightarrow> jstr \<Rightarrow> int" where
  "radix_val b s = foldl (\<lambda>a c. int b * a + (case digit_of c of None \<Rightarrow> 0 | Some d \<Rightarrow> int d)) 0 s"

definition radix_prefix :: "jstr \<Rightarrow> nat option" where
  "radix_prefix s = (case s of
      c # x # _ \<Rightarrow> if c \<noteq> 48 then None else if x = 120 \<or> x = 88 then Some 16
        else if x = 111 \<or> x = 79 then Some 8 else if x = 98 \<or> x = 66 then Some 2 else None
    | _ \<Rightarrow> None)"

definition str_to_num :: "jstr \<Rightarrow> jnum" where
  "str_to_num s = (let t = trim s in
     if t = [] then JFin 0
     else case radix_prefix t of
       Some b \<Rightarrow> if drop 2 t \<noteq> [] \<and> list_all (is_radix_digit b) (drop 2 t)
                then to_double (of_int (radix_val b (drop 2 t))) else JNaN
     | None \<Rightarrow> (case scan_number t of
           Some (x, rest) \<Rightarrow> if rest = [] then x else JNaN
         | None \<Rightarrow> JNaN))"

text \<open>\<open>parseInt(s, 10)\<close>.\<close>

definition parse_int10 :: "jstr \<Rightarrow> jnum" where
  "parse_int10 s = (case signed_scan (\<lambda>t. let ds = takeWhile is_digit t in
       if ds = [] then None else Some (to_double (of_int (digits_val ds)), dropWhile is_digit t))
       (trim s) of None \<Rightarrow> JNaN | Some (x, _) \<Rightarrow> x)"

lemma parse_int10_digits:
  assumes "s \<noteq> []" "\<And>c. c \<in> set s \<Longrightarrow> is_digit c"
  shows "parse_int10 s = to_double (of_int (digits_val s))"
proof -
  have t: "trim s = s" using assms(2) digit_not_space by (intro trim_no_space) blast
  have tw: "takeWhile is_digit s = s" using assms(2) by (auto simp: takeWhile_eq_all_conv)
  have "is_digit (hd s)" using assms by simp
  then have "hd s \<noteq> 45" "hd s \<noteq> 43" by (auto simp: is_digit_def)
  with assms(1) show ?thesis
    by (simp add: parse_int10_def signed_scan_def Let_def t tw)
qed

lemma parse_int10_dec_digits:
  assumes "0 \<le> n" "n \<le> 2 ^ 53"
  shows "parse_int10 (dec_digits n) = jint n"
  using assms to_double_int [of n]
  by (subst parse_int10_digits) (auto intro: dec_digits_all_digits)

section \<open>Order of strings\<close>

text \<open>\<open>s <= t\<close>, by code units: the order of \<open>Array.sort()\<close> without a comparator.\<close>

fun str_le :: "jstr \<Rightarrow> jstr \<Rightarrow> bool" where
  "str_le [] t = True"
| "str_le (c # s) [] = False"
| "str_le (c # s) (d # t) = (c < d \<or> (c = d \<and> str_le s t))"

lemma str_le_total: "str_le s t \<or> str_le t s"
  by (induction s t rule: str_le.induct) auto

lemma str_le_trans: "str_le s t \<Longrightarrow> str_le t u \<Longrightarrow> str_le s u"
proof (induction s t arbitrary: u rule: str_le.induct)
  case (3 c s d t)
  then show ?case by (cases u) auto
qed (auto elim: str_le.elims)

lemma str_le_antisym: "str_le s t \<Longrightarrow> str_le t s \<Longrightarrow> s = t"
  by (induction s t rule: str_le.induct) (auto elim: str_le.elims)

interpretation str_order: comparator str_le
  by unfold_locales (auto simp: str_le_total intro: str_le_trans)

end
