(* ===== verification/Js_Regex.thy ===== *)
theory Js_Regex
  imports Js_String
begin

text \<open>
  Regular expressions with the backtracking semantics of the language: a matcher receives
  the previous code unit, the rest of the subject, the captures so far and a continuation,
  and returns the result of the first path, in priority order, on which the continuation
  succeeds. Patterns of the sources become terms of \<open>rx\<close>, one constructor per
  construct. No modelled pattern has a capturing group under a star, so captures need not
  be reset between iterations.
\<close>

section \<open>Patterns and the matcher\<close>

datatype rx =
    REps
  | RCh "nat \<Rightarrow> bool"
  | RSeq rx rx
  | RAlt rx rx
  | RStar rx
  | RLazy rx
  | RGrp nat rx
  | RRef nat
  | RBol
  | REol
  | RWordB

type_synonym caps = "(nat \<times> jstr) list"

definition at_word_boundary :: "nat option \<Rightarrow> jstr \<Rightarrow> bool" where
  "at_word_boundary p s =
     ((case p of None \<Rightarrow> False | Some c \<Rightarrow> is_word c) \<noteq> (s \<noteq> [] \<and> is_word (hd s)))"

definition after_word :: "nat option \<Rightarrow> jstr \<Rightarrow> nat option" where
  "after_word p w = (if w = [] then p else Some (last w))"

function rx_m :: "rx \<Rightarrow> nat option \<Rightarrow> jstr \<Rightarrow> caps
    \<Rightarrow> (nat option \<Rightarrow> jstr \<Rightarrow> caps \<Rightarrow> 'r option) \<Rightarrow> 'r option" where
  "rx_m REps p s c k = k p s c"
| "rx_m (RCh P) p s c k =
     (case s of [] \<Rightarrow> None | x # t \<Rightarrow> if P x then k (Some x) t c else None)"
| "rx_m (RSeq a b) p s c k = rx_m a p s c (\<lambda>p' s' c'. rx_m b p' s' c' k)"
| "rx_m (RAlt a b) p s c k =
     (case rx_m a p s c k of Some r \<Rightarrow> Some r | None \<Rightarrow> rx_m b p s c k)"
| "rx_m (RStar a) p s c k =
     (case rx_m a p s c
         (\<lambda>p' s' c'. if length s' < length s then rx_m (RStar a) p' s' c' k else None)
      of Some r \<Rightarrow> Some r | None \<Rightarrow> k p s c)"
| "rx_m (RLazy a) p s c k =
     (case k p s c of Some r \<Rightarrow> Some r
      | None \<Rightarrow> rx_m a p s c
         (\<lambda>p' s' c'. if length s' < length s then rx_m (RLazy a) p' s' c' k else None))"
| "rx_m (RGrp i a) p s c k =
     rx_m a p s c (\<lambda>p' s' c'. k p' s' ((i, take (length s - length s') s) # c'))"
| "rx_m (RRef i) p s c k =
     (let w = (case map_of c i of None \<Rightarrow> [] | Some w \<Rightarrow> w) in
      if starts_with w s then k (after_word p w) (drop (length w) s) c else None)"
| "rx_m RBol p s c k = (if p = None then k p s c else None)"
| "rx_m REol p s c k = (if s = [] then k p s c else None)"
| "rx_m RWordB p s c k = (if at_word_boundary p s then k p s c else None)"
  by pat_completeness auto
termination
  by (relation "measures [\<lambda>(r, p, s, c, k). size r, \<lambda>(r, p, s, c, k). length s]") auto

declare rx_m.simps(5,6) [simp del]

text \<open>Derived constructs: \<open>r+\<close>, \<open>r?\<close>, literal strings, alternatives of literals.\<close>

definition RPlus :: "rx \<Rightarrow> rx" where
  "RPlus r = RSeq r (RStar r)"

definition ROpt :: "rx \<Rightarrow> rx" where
  "ROpt r = RAlt r REps"

definition RLit :: "nat \<Rightarrow> rx" where
  "RLit c = RCh (\<lambda>x. x = c)"

definition RStr :: "jstr \<Rightarrow> rx" where
  "RStr w = foldr (\<lambda>c. RSeq (RLit c)) w REps"

text \<open>Literals under the flag \<open>i\<close>: without the flag \<open>u\<close> an ASCII letter matches its two ASCII forms only.\<close>

definition RStrI :: "jstr \<Rightarrow> rx" where
  "RStrI w = foldr (\<lambda>c. RSeq (RCh (\<lambda>x. ascii_lower x = ascii_lower c))) w REps"

fun RAlts :: "rx list \<Rightarrow> rx" where
  "RAlts [] = RCh (\<lambda>_. False)"
| "RAlts [r] = r"
| "RAlts (r # rs) = RAlt r (RAlts rs)"

fun RSeqs :: "rx list \<Rightarrow> rx" where
  "RSeqs [] = REps"
| "RSeqs (r # rs) = RSeq r (RSeqs rs)"

text \<open>A match at one position, the first match from a position on, and the loop
  \<open>while ((m = re.exec(s)) !== null)\<close> over a global pattern. A pattern that matched the
  empty string would repeat for ever there; no modelled pattern does, and the model stops.\<close>

definition rx_at :: "rx \<Rightarrow> nat option \<Rightarrow> jstr \<Rightarrow> (nat option \<times> jstr \<times> caps) option" where
  "rx_at r p s = rx_m r p s [] (\<lambda>p' s' c'. Some (p', s', c'))"

fun rx_find :: "rx \<Rightarrow> nat option \<Rightarrow> jstr \<Rightarrow> (nat option \<times> jstr \<times> caps) option" where
  "rx_find r p s =
     (case rx_at r p s of Some x \<Rightarrow> Some x
      | None \<Rightarrow> (case s of [] \<Rightarrow> None | x # t \<Rightarrow> rx_find r (Some x) t))"

declare rx_find.simps [simp del]

definition rx_match :: "rx \<Rightarrow> jstr \<Rightarrow> caps option" where
  "rx_match r s = map_option (\<lambda>(_, _, c). c) (rx_find r None s)"

definition rx_test :: "rx \<Rightarrow> jstr \<Rightarrow> bool" where
  "rx_test r s = (rx_find r None s \<noteq> None)"

function rx_all :: "rx \<Rightarrow> nat option \<Rightarrow> jstr \<Rightarrow> caps list" where
  "rx_all r p s =
     (case rx_find r p s of
        None \<Rightarrow> []
      | Some (p', s', c) \<Rightarrow> if length s' < length s then c # rx_all r p' s' else [c])"
  by pat_completeness auto
termination by (relation "measure (\<lambda>(r, p, s). length s)") auto

declare rx_all.simps [simp del]

definition cap :: "caps \<Rightarrow> nat \<Rightarrow> jstr" where
  "cap c i = (case map_of c i of None \<Rightarrow> [] | Some w \<Rightarrow> w)"

section \<open>Matching consumes a prefix\<close>

text \<open>Whatever a matcher returns, its continuation returned it on a suffix of the subject.\<close>

lemma rx_m_suffix:
  "rx_m r p s c k = Some x \<Longrightarrow> \<exists>w p' c'. \<exists>s'. s = w @ s' \<and> k p' s' c' = Some x"
proof (induction r p s c k arbitrary: x rule: rx_m.induct)
  case (3 a b p s c k)
  from "3.prems" have "rx_m a p s c (\<lambda>p' s' c'. rx_m b p' s' c' k) = Some x" by simp
  from "3.IH"(2) [OF this] obtain w p' c' s' where
    w: "s = w @ s'" "rx_m b p' s' c' k = Some x" by blast
  from "3.IH"(1) [OF w(2)] w(1) show ?case by (metis append.assoc)
next
  case (5 a p s c k)
  show ?case
  proof (cases "rx_m a p s c
      (\<lambda>p' s' c'. if length s' < length s then rx_m (RStar a) p' s' c' k else None)")
    case None
    with "5.prems" have "k p s c = Some x" by (simp add: rx_m.simps(5))
    then show ?thesis by (metis append_Nil)
  next
    case (Some y)
    with "5.prems" have "y = x" by (simp add: rx_m.simps(5))
    with "5.IH"(2) Some obtain w p' c' s' where
      w: "s = w @ s'" "length s' < length s" "rx_m (RStar a) p' s' c' k = Some x"
      by (fastforce split: if_splits)
    from "5.IH"(1) [OF w(2,3)] w(1) show ?thesis by (metis append.assoc)
  qed
next
  case (6 a p s c k)
  show ?case
  proof (cases "k p s c")
    case (Some y)
    with "6.prems" have "k p s c = Some x" by (simp add: rx_m.simps(6))
    then show ?thesis by (metis append_Nil)
  next
    case None
    with "6.prems" have "rx_m a p s c
      (\<lambda>p' s' c'. if length s' < length s then rx_m (RLazy a) p' s' c' k else None) = Some x"
      by (simp add: rx_m.simps(6))
    with "6.IH"(2) [OF None] obtain w p' c' s' where
      w: "s = w @ s'" "length s' < length s" "rx_m (RLazy a) p' s' c' k = Some x"
      by (fastforce split: if_splits)
    from "6.IH"(1) [OF None w(2,3)] w(1) show ?thesis by (metis append.assoc)
  qed
next
  case (8 i p s c k)
  then show ?case
    by (auto simp: Let_def starts_with_def split: if_splits) (metis append_take_drop_id)+
qed (auto split: list.splits option.splits if_splits intro: exI [of _ "[]"], (metis append_Cons append_Nil)+)

section \<open>Literals, classes and anchors\<close>

lemma rx_m_RLit [simp]:
  "rx_m (RLit d) p (x # t) c k = (if x = d then k (Some x) t c else None)"
  "rx_m (RLit d) p [] c k = None"
  by (simp_all add: RLit_def)

lemma RStr_simps [simp]:
  "RStr [] = REps" "RStr (d # w) = RSeq (RLit d) (RStr w)"
  by (simp_all add: RStr_def)

lemma rx_m_RStr:
  "rx_m (RStr w) p s c k =
     (if starts_with w s then k (after_word p w) (drop (length w) s) c else None)"
proof (induction w arbitrary: p s)
  case Nil
  then show ?case by (simp add: after_word_def)
next
  case (Cons d w)
  then show ?case by (cases s) (auto simp: after_word_def)
qed

lemma rx_m_RStr_hit [simp]: "rx_m (RStr w) p (w @ s) c k = k (after_word p w) s c"
  by (simp add: rx_m_RStr)

lemma rx_m_ROpt:
  "rx_m (ROpt r) p s c k =
     (case rx_m r p s c k of Some x \<Rightarrow> Some x | None \<Rightarrow> k p s c)"
  by (cases "rx_m r p s c k") (simp_all add: ROpt_def)

text \<open>A starred class tries the longest run first, then every shorter one.\<close>

lemma rx_m_star_class_step:
  "rx_m (RStar (RCh P)) p s c k =
     (case s of [] \<Rightarrow> k p s c
      | x # t \<Rightarrow> if P x then (case rx_m (RStar (RCh P)) (Some x) t c k of
            Some r \<Rightarrow> Some r | None \<Rightarrow> k p s c) else k p s c)"
  by (subst rx_m.simps(5)) (auto split: list.splits)

lemma rx_m_star_class_hit:
  assumes "\<And>x. x \<in> set w \<Longrightarrow> P x" "s = [] \<or> \<not> P (hd s)"
    and "k (after_word p w) s c = Some r"
  shows "rx_m (RStar (RCh P)) p (w @ s) c k = Some r"
  using assms
proof (induction w arbitrary: p)
  case Nil
  then show ?case
    by (subst rx_m_star_class_step) (auto simp: after_word_def split: list.splits)
next
  case (Cons x w)
  have "k (after_word (Some x) w) s c = Some r"
    using Cons.prems(3) by (auto simp: after_word_def split: if_splits)
  with Cons have "rx_m (RStar (RCh P)) (Some x) (w @ s) c k = Some r" by simp
  with Cons.prems(1) show ?case by (subst rx_m_star_class_step) simp
qed

lemma rx_m_star_class_fail:
  assumes "\<And>u v p'. w = u @ v \<Longrightarrow> k p' (v @ s) c = None"
    and "s = [] \<or> \<not> P (hd s)"
  shows "rx_m (RStar (RCh P)) p (w @ s) c k = None"
  using assms
proof (induction w arbitrary: p)
  case Nil
  have "k p s c = None" for p using Nil.prems(1) [of "[]" "[]"] by simp
  with Nil.prems(2) show ?case
    by (subst rx_m_star_class_step) (auto split: list.splits)
next
  case (Cons x w)
  have h: "\<And>u v p'. w = u @ v \<Longrightarrow> k p' (v @ s) c = None"
    using Cons.prems(1) by (metis append_Cons)
  have "rx_m (RStar (RCh P)) (Some x) (w @ s) c k = None"
    by (rule Cons.IH [OF h Cons.prems(2)])
  moreover have "k p (x # w @ s) c = None"
    using Cons.prems(1) [of "[]" "x # w"] by simp
  ultimately show ?case by (subst rx_m_star_class_step) simp
qed

lemma rx_m_plus_class_hit:
  assumes "w \<noteq> []" "\<And>x. x \<in> set w \<Longrightarrow> P x" "s = [] \<or> \<not> P (hd s)"
    and "k (after_word p w) s c = Some r"
  shows "rx_m (RPlus (RCh P)) p (w @ s) c k = Some r"
proof (cases w)
  case Nil
  with assms(1) show ?thesis by simp
next
  case (Cons x u)
  have "k (after_word (Some x) u) s c = Some r"
    using assms(4) Cons by (auto simp: after_word_def split: if_splits)
  then have "rx_m (RStar (RCh P)) (Some x) (u @ s) c k = Some r"
    using assms(2,3) Cons by (intro rx_m_star_class_hit) auto
  with Cons assms(2) show ?thesis by (simp add: RPlus_def)
qed

lemma rx_m_plus_class_fail:
  assumes "\<And>u v p'. w = u @ v \<Longrightarrow> k p' (v @ s) c = None"
    and "s = [] \<or> \<not> P (hd s)"
  shows "rx_m (RPlus (RCh P)) p (w @ s) c k = None"
proof (cases w)
  case Nil
  with assms(2) show ?thesis by (cases s) (auto simp: RPlus_def)
next
  case (Cons x u)
  have h: "\<And>u' v' p'. u = u' @ v' \<Longrightarrow> k p' (v' @ s) c = None"
    using assms(1) Cons by (metis append_Cons)
  have "rx_m (RStar (RCh P)) (Some x) (u @ s) c k = None"
    by (rule rx_m_star_class_fail [where w = u and k = k and s = s and c = c and P = P, OF h assms(2)])
  with Cons show ?thesis by (simp add: RPlus_def)
qed

text \<open>A pattern that starts with \<open>^\<close> matches at the start of the subject or nowhere.\<close>

lemma rx_find_RBol_Some: "rx_find (RSeq RBol r) (Some x) s = None"
  by (induction s arbitrary: x) (subst rx_find.simps, simp add: rx_at_def)+

lemma rx_find_RBol: "rx_find (RSeq RBol r) None s = rx_at r None s"
  by (subst rx_find.simps)
    (auto simp: rx_at_def rx_find_RBol_Some split: option.splits list.splits)

lemma rx_match_RBol: "rx_match (RSeq RBol r) s = rx_m r None s [] (\<lambda>p' s' c'. Some c')"
proof -
  have gen: "rx_m r p s c (\<lambda>p' s' c'. map_option f (k p' s' c')) = map_option f (rx_m r p s c k)"
    for r p s c k and f :: "'a \<Rightarrow> 'b"
  proof (induction r p s c k rule: rx_m.induct)
    case (3 a b p s c k)
    then show ?case by simp
  next
    case (5 a p s c k)
    have "rx_m a p s c (\<lambda>p' s' c'. if length s' < length s
        then rx_m (RStar a) p' s' c' (\<lambda>p' s' c'. map_option f (k p' s' c')) else None)
      = rx_m a p s c (\<lambda>p' s' c'. map_option f (if length s' < length s
        then rx_m (RStar a) p' s' c' k else None))"
      using "5.IH"(1) by (intro arg_cong [of _ _ "rx_m a p s c"] ext) simp
    also have "\<dots> = map_option f (rx_m a p s c (\<lambda>p' s' c'. if length s' < length s
        then rx_m (RStar a) p' s' c' k else None))"
      by (rule "5.IH"(2))
    finally show ?case by (simp add: rx_m.simps(5) split: option.splits)
  next
    case (6 a p s c k)
    show ?case
    proof (cases "k p s c")
      case (Some y)
      then show ?thesis by (simp add: rx_m.simps(6))
    next
      case None
      have "rx_m a p s c (\<lambda>p' s' c'. if length s' < length s
          then rx_m (RLazy a) p' s' c' (\<lambda>p' s' c'. map_option f (k p' s' c')) else None)
        = rx_m a p s c (\<lambda>p' s' c'. map_option f (if length s' < length s
          then rx_m (RLazy a) p' s' c' k else None))"
        using "6.IH"(1) [OF None] by (intro arg_cong [of _ _ "rx_m a p s c"] ext) simp
      also have "\<dots> = map_option f (rx_m a p s c (\<lambda>p' s' c'. if length s' < length s
          then rx_m (RLazy a) p' s' c' k else None))"
        by (rule "6.IH"(2) [OF None])
      finally show ?thesis using None by (simp add: rx_m.simps(6))
    qed
  qed (auto simp: Let_def split: list.splits option.splits)
  have "rx_match (RSeq RBol r) s
      = map_option (\<lambda>(_, _, c). c) (rx_m r None s [] (\<lambda>p' s' c'. Some (p', s', c')))"
    by (simp add: rx_match_def rx_find_RBol rx_at_def)
  also have "\<dots> = rx_m r None s [] (\<lambda>p' s' c'. map_option (\<lambda>(_, _, c). c) (Some (p', s', c')))"
    by (simp only: gen)
  finally show ?thesis by simp
qed

text \<open>Whole-string tests: \<open>/^[class]+$/\<close>, \<open>/^[c1][c2]...$/\<close>.\<close>

definition rx_whole :: "rx \<Rightarrow> rx" where
  "rx_whole r = RSeq RBol (RSeq r REol)"

lemma rx_test_RBol: "rx_test (RSeq RBol r) s \<longleftrightarrow> rx_match (RSeq RBol r) s \<noteq> None"
  by (simp add: rx_test_def rx_match_def)

lemma rx_test_whole_plus:
  "rx_test (rx_whole (RPlus (RCh P))) s \<longleftrightarrow> s \<noteq> [] \<and> list_all P s"
proof (cases "s \<noteq> [] \<and> list_all P s")
  case True
  then have "rx_m (RPlus (RCh P)) None (s @ []) [] (\<lambda>p' s' c'. rx_m REol p' s' c' (\<lambda>p' s' c'. Some c')) = Some []"
    by (intro rx_m_plus_class_hit) (auto simp: list_all_iff)
  with True show ?thesis by (simp add: rx_whole_def rx_test_RBol rx_match_RBol)
next
  case False
  let ?w = "takeWhile P s" and ?r = "dropWhile P s"
  have "rx_m (RPlus (RCh P)) None (?w @ ?r) [] (\<lambda>p' s' c'. rx_m REol p' s' c' (\<lambda>p' s' c'. Some c')) = None"
  proof (cases "s = []")
    case True
    then show ?thesis by (simp add: RPlus_def)
  next
    case s: False
    with False have "?r \<noteq> []" by (auto simp: list_all_iff)
    then show ?thesis
      by (intro rx_m_plus_class_fail) (auto simp: hd_dropWhile_not)
  qed
  then show ?thesis using False by (simp add: rx_whole_def rx_test_RBol rx_match_RBol)
qed

fun RClasses :: "(nat \<Rightarrow> bool) list \<Rightarrow> rx" where
  "RClasses [] = REps"
| "RClasses (P # Ps) = RSeq (RCh P) (RClasses Ps)"

lemma rx_m_RClasses_whole:
  "rx_m (RClasses Ps) p s c (\<lambda>p' s' c'. rx_m REol p' s' c' (\<lambda>p' s' c'. Some c')) \<noteq> None
     \<longleftrightarrow> list_all2 (\<lambda>P x. P x) Ps s"
  by (induction Ps arbitrary: p s) (auto split: list.splits simp: list_all2_Cons1)

lemma rx_test_whole_classes:
  "rx_test (rx_whole (RClasses Ps)) s \<longleftrightarrow> list_all2 (\<lambda>P x. P x) Ps s"
  unfolding rx_whole_def rx_test_RBol rx_match_RBol rx_m.simps(3) by (rule rx_m_RClasses_whole)

subsection \<open>Rewriting a match\<close>

text \<open>Equations that evaluate a match on a subject given as literals and variables: a class run
  up to a delimiter the continuation insists on, groups around literals and alternatives.\<close>

lemma option_case_id [simp]: "(case x of None \<Rightarrow> None | Some r \<Rightarrow> Some r) = x"
  by (cases x) simp_all

lemma class_delim:
  assumes "\<forall>x\<in>set w. P x" "s = [] \<or> \<not> P (hd s)"
    and "\<And>p' x t c'. P x \<Longrightarrow> k p' (x # t) c' = None"
  shows "rx_m (RPlus (RCh P)) p (w @ s) c k = (if w = [] then None else k (after_word p w) s c)"
proof (cases "w = []")
  case True
  then show ?thesis using rx_m_plus_class_fail [of "[]" k s c P p] assms(2)
    by (cases s) (auto simp: RPlus_def)
next
  case w: False
  show ?thesis
  proof (cases "k (after_word p w) s c")
    case (Some r)
    with w assms(1,2) show ?thesis by (simp add: rx_m_plus_class_hit)
  next
    case None
    have fail: "rx_m (RPlus (RCh P)) p (w @ s) c k = None"
    proof (cases w rule: rev_cases)
      case (snoc u y)
      have star: "rx_m (RStar (RCh P)) q (v @ s) c k = None"
        if "\<forall>x\<in>set v. P x" "k (after_word q v) s c = None" for q v
        using that
      proof (induction v arbitrary: q)
        case Nil
        then show ?case using assms(2)
          by (subst rx_m_star_class_step) (auto simp: after_word_def split: list.splits)
      next
        case (Cons x v)
        have "rx_m (RStar (RCh P)) (Some x) (v @ s) c k = None"
          using Cons by (auto simp: after_word_def split: if_splits)
        with Cons.prems(1) show ?case
          by (subst rx_m_star_class_step) (simp add: assms(3))
      qed
      obtain x v where v: "w = x # v" using w by (cases w) auto
      with None have "k (after_word (Some x) v) s c = None"
        by (auto simp: after_word_def split: if_splits)
      with star [of v "Some x"] assms(1) v show ?thesis by (simp add: RPlus_def)
    qed (use w in simp)
    with w None show ?thesis by simp
  qed
qed

lemma take_app [simp]: "take (length w + length s - length s) (w @ s) = w"
  by simp

lemma grp_class_delim:
  assumes "\<forall>x\<in>set w. P x" "s = [] \<or> \<not> P (hd s)"
    and "\<And>p' x t c'. P x \<Longrightarrow> k p' (x # t) c' = None"
  shows "rx_m (RGrp i (RPlus (RCh P))) p (w @ s) c k
    = (if w = [] then None else k (after_word p w) s ((i, w) # c))"
proof -
  have "rx_m (RPlus (RCh P)) p (w @ s) c (\<lambda>p' s' c'. k p' s' ((i, take (length (w @ s) - length s') (w @ s)) # c'))
    = (if w = [] then None else k (after_word p w) s ((i, take (length (w @ s) - length s) (w @ s)) # c))"
    by (rule class_delim) (use assms in auto)
  then show ?thesis by simp
qed

lemma grp_class_end:
  assumes "\<forall>x\<in>set w. P x" "\<And>p' x t c'. P x \<Longrightarrow> k p' (x # t) c' = None"
  shows "rx_m (RGrp i (RPlus (RCh P))) p w c k
    = (if w = [] then None else k (after_word p w) [] ((i, w) # c))"
  using grp_class_delim [of w P "[]" k i p c] assms by simp

lemma rx_m_grp_RStr:
  "rx_m (RGrp i (RStr w)) p s c k =
     (if starts_with w s then k (after_word p w) (drop (length w) s) ((i, w) # c) else None)"
proof (cases "starts_with w s")
  case True
  then obtain t where "s = w @ t" by (metis append_take_drop_id starts_with_def)
  then show ?thesis by simp
qed (simp add: rx_m_RStr)

lemma rx_m_grp_RAlt:
  "rx_m (RGrp i (RAlt a b)) p s c k =
     (case rx_m (RGrp i a) p s c k of Some r \<Rightarrow> Some r | None \<Rightarrow> rx_m (RGrp i b) p s c k)"
  by (cases "rx_m (RGrp i a) p s c k") simp_all

text \<open>A greedy run that the continuation stops at one place only.\<close>

lemma star_class_stop:
  assumes "\<forall>x\<in>set w. P x"
    and "\<And>u v p'. s = u @ v \<Longrightarrow> u \<noteq> [] \<Longrightarrow> k p' v c = None"
    and "k (after_word p w) s c = Some r"
  shows "rx_m (RStar (RCh P)) p (w @ s) c k = Some r"
  using assms(1,3)
proof (induction w arbitrary: p)
  case Nil
  have none: "rx_m (RStar (RCh P)) q v c k = None" if "s = u @ v" "u \<noteq> []" for q u v
    using that
  proof (induction v arbitrary: q u)
    case Nil
    then show ?case using assms(2) [of u "[]"] by (subst rx_m_star_class_step) simp
  next
    case (Cons x v)
    have "k q (x # v) c = None" using Cons.prems by (rule assms(2))
    moreover have "rx_m (RStar (RCh P)) (Some x) v c k = None"
      using Cons.prems by (intro Cons.IH [of "u @ [x]"]) simp_all
    ultimately show ?case by (subst rx_m_star_class_step) simp
  qed
  have "rx_m (RStar (RCh P)) (Some x) t c k = None" if "s = x # t" for x t
    using none [of "[x]" t] that by simp
  with Nil show ?case by (subst rx_m_star_class_step) (auto simp: after_word_def split: list.splits)
next
  case (Cons x w)
  then have "rx_m (RStar (RCh P)) (Some x) (w @ s) c k = Some r"
    by (auto simp: after_word_def split: if_splits)
  with Cons.prems(1) show ?case by (subst rx_m_star_class_step) simp
qed

lemma plus_class_stop:
  assumes "w \<noteq> []" "\<forall>x\<in>set w. P x"
    and "\<And>u v p'. s = u @ v \<Longrightarrow> u \<noteq> [] \<Longrightarrow> k p' v c = None"
    and "k (after_word p w) s c = Some r"
  shows "rx_m (RPlus (RCh P)) p (w @ s) c k = Some r"
proof -
  obtain x u where w: "w = x # u" using assms(1) by (cases w) auto
  have "rx_m (RStar (RCh P)) (Some x) (u @ s) c k = Some r"
    using assms w by (intro star_class_stop) (auto simp: after_word_def split: if_splits)
  with w assms(2) show ?thesis by (simp add: RPlus_def)
qed

text \<open>What a pattern consumes lies in any class that holds all its character classes.\<close>

fun rx_over :: "(nat \<Rightarrow> bool) \<Rightarrow> rx \<Rightarrow> bool" where
  "rx_over P (RCh Q) = (\<forall>x. Q x \<longrightarrow> P x)"
| "rx_over P (RSeq a b) = (rx_over P a \<and> rx_over P b)"
| "rx_over P (RAlt a b) = (rx_over P a \<and> rx_over P b)"
| "rx_over P (RStar a) = rx_over P a"
| "rx_over P (RLazy a) = rx_over P a"
| "rx_over P (RGrp i a) = rx_over P a"
| "rx_over P (RRef i) = False"
| "rx_over P _ = True"

lemma rx_over_consumes:
  assumes "rx_m r p s c k = Some y" "rx_over P r"
  shows "\<exists>u v p' c'. s = u @ v \<and> list_all P u \<and> k p' v c' = Some y"
  using assms
proof (induction r p s c k rule: rx_m.induct)
  case (1 p s c k)
  then show ?case by force
next
  case (2 Q p s c k)
  then obtain x t where "s = [x] @ t" "P x" "k (Some x) t c = Some y"
    by (auto split: list.splits if_splits)
  then show ?case by (metis list.pred_inject)
next
  case (3 a b p s c k)
  then obtain u v p' c' where 1: "s = u @ v" "list_all P u" "rx_m b p' v c' k = Some y" by auto
  with 3 obtain u' v' p'' c'' where "v = u' @ v'" "list_all P u'" "k p'' v' c'' = Some y"
    by (metis rx_over.simps(2))
  with 1 show ?case by (metis append.assoc list_all_append)
next
  case (4 a b p s c k)
  then show ?case by (auto split: option.splits)
next
  case (5 a p s c k)
  show ?case
  proof (cases "rx_m a p s c (\<lambda>p' s' c'. if length s' < length s then rx_m (RStar a) p' s' c' k else None)")
    case None
    with "5.prems"(1) have "k p s c = Some y" by (simp add: rx_m.simps(5))
    then show ?thesis by (metis append_Nil list.pred_inject(1))
  next
    case (Some z)
    with 5 have "z = y" by (simp add: rx_m.simps(5))
    with Some have m: "rx_m a p s c (\<lambda>p' s' c'. if length s' < length s then rx_m (RStar a) p' s' c' k else None) = Some y"
      by simp
    from "5.IH"(2) [OF m] "5.prems"(2) obtain u v p' c' where 1: "s = u @ v" "list_all P u"
      "(if length v < length s then rx_m (RStar a) p' v c' k else None) = Some y" by auto
    then have l: "length v < length s" "rx_m (RStar a) p' v c' k = Some y" by (auto split: if_splits)
    from "5.IH"(1) [OF l] "5.prems"(2) obtain u' v' p'' c''
      where "v = u' @ v'" "list_all P u'" "k p'' v' c'' = Some y" by auto
    with 1 show ?thesis by (metis append.assoc list_all_append)
  qed
next
  case (6 a p s c k)
  show ?case
  proof (cases "k p s c")
    case (Some z)
    with 6 show ?thesis by (simp add: rx_m.simps(6)) (metis append_Nil list.pred_inject(1))
  next
    case None
    with 6 have "rx_m a p s c (\<lambda>p' s' c'. if length s' < length s then rx_m (RLazy a) p' s' c' k else None) = Some y"
      by (simp add: rx_m.simps(6))
    from "6.IH"(2) [OF None this] "6.prems"(2) obtain u v p' c' where 1: "s = u @ v" "list_all P u"
      "(if length v < length s then rx_m (RLazy a) p' v c' k else None) = Some y" by auto
    then have l: "length v < length s" "rx_m (RLazy a) p' v c' k = Some y" by (auto split: if_splits)
    from "6.IH"(1) [OF None l] "6.prems"(2) obtain u' v' p'' c''
      where "v = u' @ v'" "list_all P u'" "k p'' v' c'' = Some y" by auto
    with 1 show ?thesis by (metis append.assoc list_all_append)
  qed
next
  case (7 i a p s c k)
  then show ?case by fastforce
qed (auto split: if_splits, (metis append_Nil list.pred_inject(1))+)

text \<open>\<open>s.replace(re, m => f(m))\<close> for a pattern without the global flag: only the first match.\<close>

definition rx_replace1 :: "rx \<Rightarrow> (caps \<Rightarrow> jstr) \<Rightarrow> jstr \<Rightarrow> jstr" where
  "rx_replace1 r f s = (case rx_find (RGrp 0 r) None s of
      None \<Rightarrow> s
    | Some (_, s', c) \<Rightarrow> take (length s - length s' - length (cap c 0)) s @ f c @ s')"

end
