(* ===== verification/Js_Value.thy ===== *)
theory Js_Value
  imports Js_String
begin

text \<open>
  Dynamic values: what \<open>unknown\<close>, \<open>Record<string, unknown>\<close> and parsed JSON hold. Objects
  are association lists in the order of \<open>Object.entries\<close>: array-index keys ascending, then
  the others in insertion order. \<open>JSON.stringify\<close> and \<open>JSON.parse\<close> are modelled on code
  units; the parser has fuel, the length of its input, which \<open>json_parse_text\<close> shows to be
  enough for every text the printer produces.
\<close>

section \<open>Values\<close>

datatype jval =
    VUndef
  | VNull
  | VBool bool
  | VNum jnum
  | VStr jstr
  | VArr "jval list"
  | VObj "(jstr \<times> jval) list"

text \<open>\<open>Boolean(v)\<close>.\<close>

fun truthy :: "jval \<Rightarrow> bool" where
  "truthy VUndef = False"
| "truthy VNull = False"
| "truthy (VBool b) = b"
| "truthy (VNum x) = num_truthy x"
| "truthy (VStr s) = (s \<noteq> [])"
| "truthy (VArr _) = True"
| "truthy (VObj _) = True"

definition nullish :: "jval \<Rightarrow> bool" where
  "nullish v = (v = VUndef \<or> v = VNull)"

text \<open>\<open>a || b\<close> and \<open>a ?? b\<close>.\<close>

definition vor :: "jval \<Rightarrow> jval \<Rightarrow> jval" where
  "vor a b = (if truthy a then a else b)"

definition vnull_or :: "jval \<Rightarrow> jval \<Rightarrow> jval" where
  "vnull_or a b = (if nullish a then b else a)"

definition sor :: "jstr \<Rightarrow> jstr \<Rightarrow> jstr" where
  "sor s d = (if s = [] then d else s)"

subsection \<open>Objects\<close>

definition array_index :: "jstr \<Rightarrow> int option" where
  "array_index k =
     (if k \<noteq> [] \<and> list_all is_digit k \<and> (k = [48] \<or> hd k \<noteq> 48) \<and> digits_val k < 4294967295
      then Some (digits_val k) else None)"

fun index_insert :: "int \<Rightarrow> jstr \<Rightarrow> 'v \<Rightarrow> (jstr \<times> 'v) list \<Rightarrow> (jstr \<times> 'v) list" where
  "index_insert i k v [] = [(k, v)]"
| "index_insert i k v ((k', v') # r) =
     (case array_index k' of
        Some j \<Rightarrow> if j < i then (k', v') # index_insert i k v r else (k, v) # (k', v') # r
      | None \<Rightarrow> (k, v) # (k', v') # r)"

definition obj_put :: "jstr \<Rightarrow> 'v \<Rightarrow> (jstr \<times> 'v) list \<Rightarrow> (jstr \<times> 'v) list" where
  "obj_put k v m =
     (if k \<in> fst ` set m then assoc_put k v m
      else case array_index k of Some i \<Rightarrow> index_insert i k v m | None \<Rightarrow> m @ [(k, v)])"

definition vget :: "(jstr \<times> jval) list \<Rightarrow> string \<Rightarrow> jval" where
  "vget m k = (case map_of m (js k) of None \<Rightarrow> VUndef | Some v \<Rightarrow> v)"

definition vhas :: "(jstr \<times> jval) list \<Rightarrow> string \<Rightarrow> bool" where
  "vhas m k = (js k \<in> fst ` set m)"

lemma set_index_insert: "set (index_insert i k v m) = insert (k, v) (set m)"
  by (induction i k v m rule: index_insert.induct) (auto split: option.splits)

lemma map_of_index_insert:
  "k \<notin> fst ` set m \<Longrightarrow> map_of (index_insert i k v m) = (map_of m)(k \<mapsto> v)"
  by (induction i k v m rule: index_insert.induct) (auto simp: fun_eq_iff split: option.splits)

lemma map_of_snoc_new: "k \<notin> fst ` set m \<Longrightarrow> map_of (m @ [(k, v)]) = (map_of m)(k \<mapsto> v)"
  by (induction m) (auto simp: fun_eq_iff)

lemma map_of_obj_put [simp]: "map_of (obj_put k v m) = (map_of m)(k \<mapsto> v)"
  by (simp add: obj_put_def map_of_index_insert map_of_snoc_new del: map_of_append split: option.splits)

lemma vget_obj_put: "vget (obj_put (js k) v m) k' = (if k' = k then v else vget m k')"
  by (simp add: vget_def)

lemma vget_assoc_del: "vget (assoc_del (js k) m) k' = (if k' = k then VUndef else vget m k')"
  by (simp add: vget_def)

lemma vhas_iff: "vhas m k \<longleftrightarrow> map_of m (js k) \<noteq> None"
  by (simp add: vhas_def map_of_eq_None_iff)

lemma fst_obj_put: "fst ` set (obj_put k v m) = insert k (fst ` set m)"
proof -
  have "dom (map_of (obj_put k v m)) = insert k (dom (map_of m))" by simp
  then show ?thesis by (simp only: dom_map_of_conv_image_fst)
qed

lemma fst_assoc_del: "fst ` set (assoc_del k m) = fst ` set m - {k}"
  by (auto simp: assoc_del_def image_iff)

lemma vhas_obj_put: "vhas (obj_put (js k) v m) k' = (k' = k \<or> vhas m k')"
  by (auto simp: vhas_def fst_obj_put)

lemma vhas_assoc_del: "vhas (assoc_del (js k) m) k' = (k' \<noteq> k \<and> vhas m k')"
  by (auto simp: vhas_def fst_assoc_del)

lemmas obj_simps = vget_obj_put vget_assoc_del vhas_obj_put vhas_assoc_del

text \<open>\<open>String(v)\<close> for the values the sources print, and \<open>Number(v)\<close>.\<close>

fun val_to_str :: "jval \<Rightarrow> jstr" where
  "val_to_str VUndef = js ''undefined''"
| "val_to_str VNull = js ''null''"
| "val_to_str (VBool b) = (if b then js ''true'' else js ''false'')"
| "val_to_str (VNum x) = num_to_str x"
| "val_to_str (VStr s) = s"
| "val_to_str (VArr vs) = join (js '','') (map (\<lambda>v. if nullish v then [] else val_to_str v) vs)"
| "val_to_str (VObj _) = js ''[object Object]''"

fun val_to_num :: "jval \<Rightarrow> jnum" where
  "val_to_num VUndef = JNaN"
| "val_to_num VNull = JFin 0"
| "val_to_num (VBool b) = (if b then JFin 1 else JFin 0)"
| "val_to_num (VNum x) = x"
| "val_to_num (VStr s) = str_to_num s"
| "val_to_num (VArr vs) = str_to_num (val_to_str (VArr vs))"
| "val_to_num (VObj _) = JNaN"


section \<open>JSON text\<close>

definition hex_digit :: "nat \<Rightarrow> nat" where
  "hex_digit n = (if n < 10 then 48 + n else 87 + n)"

definition hex4 :: "nat \<Rightarrow> jstr" where
  "hex4 c = [hex_digit (c div 4096 mod 16), hex_digit (c div 256 mod 16),
     hex_digit (c div 16 mod 16), hex_digit (c mod 16)]"

definition is_high :: "nat \<Rightarrow> bool" where
  "is_high c = (55296 \<le> c \<and> c \<le> 56319)"

definition is_low :: "nat \<Rightarrow> bool" where
  "is_low c = (56320 \<le> c \<and> c \<le> 57343)"

definition json_esc1 :: "nat \<Rightarrow> jstr" where
  "json_esc1 c =
     (if c = 34 then [92, 34] else if c = 92 then [92, 92]
      else if c = 8 then [92, 98] else if c = 12 then [92, 102] else if c = 10 then [92, 110]
      else if c = 13 then [92, 114] else if c = 9 then [92, 116]
      else if c < 32 \<or> is_high c \<or> is_low c then 92 # 117 # hex4 c else [c])"

text \<open>A surrogate pair is copied, a lone surrogate is escaped.\<close>

fun json_esc :: "jstr \<Rightarrow> jstr" where
  "json_esc [] = []"
| "json_esc [c] = json_esc1 c"
| "json_esc (c # d # s) =
     (if is_high c \<and> is_low d then c # d # json_esc s else json_esc1 c @ json_esc (d # s))"

definition json_quote :: "jstr \<Rightarrow> jstr" where
  "json_quote s = 34 # json_esc s @ [34]"

text \<open>\<open>JSON.stringify(v)\<close>; \<open>None\<close> is \<open>undefined\<close>, which arrays print as null and objects omit.\<close>

fun json_text :: "jval \<Rightarrow> jstr option" where
  "json_text VUndef = None"
| "json_text VNull = Some (js ''null'')"
| "json_text (VBool b) = Some (if b then js ''true'' else js ''false'')"
| "json_text (VNum x) = Some (if is_finite x then num_to_str x else js ''null'')"
| "json_text (VStr s) = Some (json_quote s)"
| "json_text (VArr vs) = Some (91 # join [44]
     (map (\<lambda>v. case json_text v of None \<Rightarrow> js ''null'' | Some t \<Rightarrow> t) vs) @ [93])"
| "json_text (VObj m) = Some (123 # join [44]
     (concat (map (\<lambda>(k, v). case json_text v of None \<Rightarrow> []
        | Some t \<Rightarrow> [json_quote k @ 58 # t]) m)) @ [125])"

definition json_stringify :: "jval \<Rightarrow> jstr" where
  "json_stringify v = (case json_text v of None \<Rightarrow> js ''undefined'' | Some t \<Rightarrow> t)"

subsection \<open>Parsing\<close>

definition json_ws :: "nat \<Rightarrow> bool" where
  "json_ws c = (c = 32 \<or> c = 9 \<or> c = 10 \<or> c = 13)"

abbreviation skip_ws :: "jstr \<Rightarrow> jstr" where
  "skip_ws \<equiv> dropWhile json_ws"

definition hex4_val :: "nat \<Rightarrow> nat \<Rightarrow> nat \<Rightarrow> nat \<Rightarrow> nat option" where
  "hex4_val a b c d = (if list_all (is_radix_digit 16) [a, b, c, d]
     then Some (nat (radix_val 16 [a, b, c, d])) else None)"

definition simple_escape :: "nat \<Rightarrow> nat option" where
  "simple_escape e = (if e = 34 \<or> e = 92 \<or> e = 47 then Some e else if e = 98 then Some 8
     else if e = 102 then Some 12 else if e = 110 then Some 10 else if e = 114 then Some 13
     else if e = 116 then Some 9 else None)"

text \<open>The characters of a string literal after its opening quote, and what follows it.\<close>

fun json_str_body :: "jstr \<Rightarrow> (jstr \<times> jstr) option" where
  "json_str_body [] = None"
| "json_str_body (x # s) =
     (if x = 34 then Some ([], s)
      else if x < 32 then None
      else if x \<noteq> 92 then map_option (\<lambda>(w, r). (x # w, r)) (json_str_body s)
      else case s of
          [] \<Rightarrow> None
        | e # t \<Rightarrow>
            if e = 117 then (case t of
                a # b # c # d # u \<Rightarrow> (case hex4_val a b c d of None \<Rightarrow> None
                  | Some y \<Rightarrow> map_option (\<lambda>(w, r). (y # w, r)) (json_str_body u))
              | _ \<Rightarrow> None)
            else (case simple_escape e of None \<Rightarrow> None
              | Some y \<Rightarrow> map_option (\<lambda>(w, r). (y # w, r)) (json_str_body t)))"

definition num_char :: "nat \<Rightarrow> bool" where
  "num_char c = (is_digit c \<or> c = 45 \<or> c = 43 \<or> c = 46 \<or> c = 101 \<or> c = 69)"

definition json_exp_ok :: "jstr \<Rightarrow> bool" where
  "json_exp_ok r = (case r of [] \<Rightarrow> True | e # t \<Rightarrow>
     (e = 101 \<or> e = 69) \<and>
     (let w = (if t \<noteq> [] \<and> (hd t = 43 \<or> hd t = 45) then tl t else t)
      in w \<noteq> [] \<and> list_all is_digit w))"

definition json_num_ok :: "jstr \<Rightarrow> bool" where
  "json_num_ok t = (let u = (if t \<noteq> [] \<and> hd t = 45 then tl t else t);
      i = takeWhile is_digit u; r = dropWhile is_digit u in
    i \<noteq> [] \<and> (i = [48] \<or> hd i \<noteq> 48) \<and>
    (if r \<noteq> [] \<and> hd r = 46
     then takeWhile is_digit (tl r) \<noteq> [] \<and> json_exp_ok (dropWhile is_digit (tl r))
     else json_exp_ok r))"

definition json_number :: "jstr \<Rightarrow> (jval \<times> jstr) option" where
  "json_number s = (let t = takeWhile num_char s in
     if json_num_ok t then Some (VNum (str_to_num t), dropWhile num_char s) else None)"

definition json_word :: "jstr \<Rightarrow> (jval \<times> jstr) option" where
  "json_word s =
     (if starts_with (js ''true'') s then Some (VBool True, drop 4 s)
      else if starts_with (js ''false'') s then Some (VBool False, drop 5 s)
      else if starts_with (js ''null'') s then Some (VNull, drop 4 s)
      else json_number s)"

definition obj_of :: "(jstr \<times> 'v) list \<Rightarrow> (jstr \<times> 'v) list" where
  "obj_of kvs = foldl (\<lambda>m (k, v). obj_put k v m) [] kvs"

fun json_value :: "nat \<Rightarrow> jstr \<Rightarrow> (jval \<times> jstr) option"
  and json_elems :: "nat \<Rightarrow> jstr \<Rightarrow> (jval list \<times> jstr) option"
  and json_members :: "nat \<Rightarrow> jstr \<Rightarrow> ((jstr \<times> jval) list \<times> jstr) option" where
  "json_value 0 s = None"
| "json_value (Suc n) s = (case skip_ws s of
      [] \<Rightarrow> None
    | c # t \<Rightarrow>
        if c = 34 then map_option (\<lambda>(w, r). (VStr w, r)) (json_str_body t)
        else if c = 91 then
          (if skip_ws t \<noteq> [] \<and> hd (skip_ws t) = 93 then Some (VArr [], tl (skip_ws t))
           else map_option (\<lambda>(vs, r). (VArr vs, r)) (json_elems n t))
        else if c = 123 then
          (if skip_ws t \<noteq> [] \<and> hd (skip_ws t) = 125 then Some (VObj [], tl (skip_ws t))
           else map_option (\<lambda>(m, r). (VObj (obj_of m), r)) (json_members n t))
        else json_word (c # t))"
| "json_elems 0 s = None"
| "json_elems (Suc n) s = (case json_value n s of None \<Rightarrow> None
    | Some (v, r) \<Rightarrow> (case skip_ws r of [] \<Rightarrow> None
        | c # t \<Rightarrow> if c = 44 then map_option (\<lambda>(vs, q). (v # vs, q)) (json_elems n t)
            else if c = 93 then Some ([v], t) else None))"
| "json_members 0 s = None"
| "json_members (Suc n) s = (case skip_ws s of [] \<Rightarrow> None
    | c # t \<Rightarrow> if c \<noteq> 34 then None else
        (case json_str_body t of None \<Rightarrow> None
         | Some (k, r) \<Rightarrow> (case skip_ws r of [] \<Rightarrow> None
             | c # t \<Rightarrow> if c \<noteq> 58 then None else
                 (case json_value n t of None \<Rightarrow> None
                  | Some (v, r) \<Rightarrow> (case skip_ws r of [] \<Rightarrow> None
                      | c # t \<Rightarrow>
                          if c = 44 then map_option (\<lambda>(m, q). ((k, v) # m, q)) (json_members n t)
                          else if c = 125 then Some ([(k, v)], t) else None)))))"

text \<open>\<open>JSON.parse(s)\<close>; \<open>None\<close> is the \<open>SyntaxError\<close>.\<close>

definition json_parse :: "jstr \<Rightarrow> jval option" where
  "json_parse s = (case json_value (Suc (2 * length s)) s of
      Some (v, r) \<Rightarrow> if skip_ws r = [] then Some v else None
    | None \<Rightarrow> None)"

section \<open>Printing and parsing are inverse\<close>

definition code_units :: "jstr \<Rightarrow> bool" where
  "code_units s = list_all (\<lambda>c. c < 65536) s"

lemma hex_digit_of: "n < 16 \<Longrightarrow> digit_of (hex_digit n) = Some n"
  by (auto simp: hex_digit_def digit_of_def is_digit_def)

lemma hex4_val_hex4:
  assumes "c < 65536"
  shows "hex4_val (hex_digit (c div 4096 mod 16)) (hex_digit (c div 256 mod 16))
    (hex_digit (c div 16 mod 16)) (hex_digit (c mod 16)) = Some c"
proof -
  let ?e = "16 * (16 * (16 * (c div 4096 mod 16) + c div 256 mod 16) + c div 16 mod 16) + c mod 16"
  have "c div 4096 mod 16 = c div 4096" using assms by simp
  moreover have "c div 256 = 16 * (c div 4096) + c div 256 mod 16"
    using mult_div_mod_eq [of 16 "c div 256"] by (simp add: div_mult2_eq [symmetric])
  moreover have "c div 16 = 16 * (c div 256) + c div 16 mod 16"
    using mult_div_mod_eq [of 16 "c div 16"] by (simp add: div_mult2_eq [symmetric])
  moreover have "c = 16 * (c div 16) + c mod 16" by simp
  ultimately have e: "?e = c" by metis
  have "hex4_val (hex_digit (c div 4096 mod 16)) (hex_digit (c div 256 mod 16))
      (hex_digit (c div 16 mod 16)) (hex_digit (c mod 16)) = Some (nat (int ?e))"
    by (simp add: hex4_val_def is_radix_digit_def radix_val_def hex_digit_of algebra_simps)
  then show ?thesis by (simp only: e nat_int)
qed

lemma json_str_body_esc1:
  assumes "c < 65536"
  shows "json_str_body (json_esc1 c @ s) = map_option (\<lambda>(w, r). (c # w, r)) (json_str_body s)"
proof (cases "c < 32 \<and> c \<notin> {8, 9, 10, 12, 13} \<or> is_high c \<or> is_low c")
  case True
  then have "json_esc1 c = 92 # 117 # hex4 c"
    by (auto simp: json_esc1_def is_high_def is_low_def)
  then show ?thesis using hex4_val_hex4 [OF assms] by (simp add: hex4_def)
next
  case False
  then show ?thesis by (auto simp: json_esc1_def simple_escape_def)
qed

lemma json_str_body_esc:
  "code_units s \<Longrightarrow> json_str_body (json_esc s @ 34 # r) = Some (s, r)"
proof (induction s rule: json_esc.induct)
  case 1
  then show ?case by simp
next
  case (2 c)
  then show ?case by (simp add: json_str_body_esc1 code_units_def)
next
  case (3 c d s)
  show ?case
  proof (cases "is_high c \<and> is_low d")
    case True
    then have "c > 92" "d > 92" by (auto simp: is_high_def is_low_def)
    with True 3 show ?thesis by (simp add: code_units_def)
  next
    case False
    with 3 show ?thesis by (auto simp: json_str_body_esc1 code_units_def)
  qed
qed

lemma json_quote_body:
  "code_units s \<Longrightarrow> json_quote s @ r = 34 # json_esc s @ 34 # r
     \<and> json_str_body (json_esc s @ 34 # r) = Some (s, r)"
  by (simp add: json_quote_def json_str_body_esc)

lemma json_value_quote:
  "code_units s \<Longrightarrow> json_value (Suc n) (json_quote s @ r) = Some (VStr s, r)"
  by (simp add: json_quote_def json_str_body_esc json_ws_def)

text \<open>Values whose text reads back: code units in strings, numbers whose shortest text
  reads back, canonical key order, no \<open>undefined\<close> inside.\<close>

definition num_plain :: "jnum \<Rightarrow> bool" where
  "num_plain x = (is_finite x \<and> list_all num_char (num_to_str x)
     \<and> json_num_ok (num_to_str x) \<and> str_to_num (num_to_str x) = x)"

fun json_plain :: "jval \<Rightarrow> bool" where
  "json_plain VUndef = False"
| "json_plain VNull = True"
| "json_plain (VBool _) = True"
| "json_plain (VNum x) = num_plain x"
| "json_plain (VStr s) = code_units s"
| "json_plain (VArr vs) = list_all json_plain vs"
| "json_plain (VObj m) = (obj_of m = m \<and> list_all (\<lambda>(k, v). code_units k \<and> json_plain v) m)"

definition stops :: "jstr \<Rightarrow> bool" where
  "stops r = (r = [] \<or> hd r = 44 \<or> hd r = 93 \<or> hd r = 125)"

lemma stops_simps [simp]: "stops []" "stops (44 # r)" "stops (93 # r)" "stops (125 # r)"
  by (simp_all add: stops_def)

lemma json_number_text:
  assumes "num_plain x" "stops r"
  shows "json_number (num_to_str x @ r) = Some (VNum x, r)"
proof -
  have r: "r = [] \<or> \<not> num_char (hd r)"
    using assms(2) by (auto simp: stops_def num_char_def is_digit_def)
  have all: "\<forall>c\<in>set (num_to_str x). num_char c"
    using assms(1) by (simp add: num_plain_def list_all_iff)
  have "takeWhile num_char (num_to_str x @ r) = num_to_str x"
    "dropWhile num_char (num_to_str x @ r) = r"
    using r all by (cases r; simp)+
  with assms(1) show ?thesis by (simp add: json_number_def num_plain_def Let_def)
qed

lemma num_head:
  assumes "num_plain x"
  obtains c t where "num_to_str x = c # t" "is_digit c \<or> c = 45"
proof (cases "num_to_str x")
  case Nil
  with assms have False by (simp add: num_plain_def json_num_ok_def)
  then show ?thesis ..
next
  case (Cons c t)
  have "is_digit c" if "c \<noteq> 45"
    using assms Cons that by (auto simp: num_plain_def json_num_ok_def Let_def split: if_splits)
  with Cons that show ?thesis by blast
qed

lemma json_value_num:
  assumes "num_plain x" "stops r"
  shows "json_value (Suc n) (num_to_str x @ r) = Some (VNum x, r)"
proof -
  obtain c t where c: "num_to_str x = c # t" "is_digit c \<or> c = 45"
    using assms(1) by (rule num_head)
  from c(2) have "\<not> json_ws c" "c \<noteq> 34" "c \<noteq> 91" "c \<noteq> 123" "c \<noteq> 116" "c \<noteq> 102" "c \<noteq> 110"
    by (auto simp: is_digit_def json_ws_def)
  with c(1) json_number_text [OF assms] show ?thesis
    by (simp add: json_word_def js_def)
qed

text \<open>\<open>t\<close> reads back as \<open>v\<close> in front of anything a value can stop at.\<close>

definition reads :: "jval \<Rightarrow> jstr \<Rightarrow> bool" where
  "reads v t = (t \<noteq> [] \<and> \<not> json_ws (hd t) \<and> hd t \<noteq> 93 \<and>
     (\<forall>n r. 2 * length t < n \<longrightarrow> stops r \<longrightarrow> json_value n (t @ r) = Some (v, r)))"

lemma readsD: "reads v t \<Longrightarrow> 2 * length t < n \<Longrightarrow> stops r \<Longrightarrow> json_value n (t @ r) = Some (v, r)"
  by (simp add: reads_def)

lemma skip_ws_reads: "reads v t \<Longrightarrow> skip_ws (t @ r) = t @ r"
  by (cases t) (auto simp: reads_def)

lemma readsI:
  assumes "t \<noteq> []" "\<not> json_ws (hd t)" "hd t \<noteq> 93"
    and "\<And>n r. 2 * length t < Suc n \<Longrightarrow> stops r \<Longrightarrow> json_value (Suc n) (t @ r) = Some (v, r)"
  shows "reads v t"
  unfolding reads_def
proof (intro conjI allI impI)
  fix n r assume *: "2 * length t < n" "stops r"
  then obtain k where "n = Suc k" by (cases n) auto
  with assms(4) * show "json_value n (t @ r) = Some (v, r)" by simp
qed (use assms in auto)

lemma json_elems_join:
  assumes "vts \<noteq> []" "\<forall>(v, t)\<in>set vts. reads v t" "2 * length (join [44] (map snd vts)) + 1 < n"
  shows "json_elems n (join [44] (map snd vts) @ 93 # r) = Some (map fst vts, r)"
  using assms
proof (induction vts arbitrary: n)
  case Nil
  then show ?case by simp
next
  case (Cons vt vts)
  obtain v t where vt: "vt = (v, t)" by force
  from Cons.prems(3) obtain m where n: "n = Suc m" by (cases n) auto
  have v: "reads v t" using Cons.prems(2) vt by simp
  show ?case
  proof (cases "vts = []")
    case True
    then have "2 * length t < m" using Cons.prems(3) vt n by simp
    with readsD [OF v, of m "93 # r"] True vt n show ?thesis by (simp add: json_ws_def)
  next
    case False
    then have j: "join [44] (map snd (vt # vts)) = t @ 44 # join [44] (map snd vts)"
      using vt by (simp add: join_Cons)
    with Cons.prems(3) n have "2 * length t < m" "2 * length (join [44] (map snd vts)) + 1 < m"
      by simp_all
    then have "json_value m (t @ 44 # join [44] (map snd vts) @ 93 # r)
        = Some (v, 44 # join [44] (map snd vts) @ 93 # r)"
      "json_elems m (join [44] (map snd vts) @ 93 # r) = Some (map fst vts, r)"
      using readsD [OF v] Cons.IH Cons.prems(2) False by auto
    then have "json_elems (Suc m) (t @ 44 # join [44] (map snd vts) @ 93 # r) = Some (v # map fst vts, r)"
      by (simp add: json_ws_def)
    then show ?thesis unfolding j n by (simp add: vt del: json_elems.simps)
  qed
qed

lemma json_members_join:
  assumes "kvts \<noteq> []" "\<forall>(k, v, t)\<in>set kvts. code_units k \<and> reads v t"
    and "2 * length (join [44] (map (\<lambda>(k, v, t). json_quote k @ 58 # t) kvts)) + 1 < n"
  shows "json_members n (join [44] (map (\<lambda>(k, v, t). json_quote k @ 58 # t) kvts) @ 125 # r)
    = Some (map (\<lambda>(k, v, t). (k, v)) kvts, r)"
  using assms
proof (induction kvts arbitrary: n)
  case Nil
  then show ?case by simp
next
  case (Cons kvt kvts)
  obtain k v t where kvt: "kvt = (k, v, t)" by (cases kvt) auto
  let ?j = "join [44] (map (\<lambda>(k, v, t). json_quote k @ 58 # t) kvts)"
  from Cons.prems(3) obtain m where n: "n = Suc m" by (cases n) auto
  have v: "reads v t" and k: "code_units k" using Cons.prems(2) kvt by simp_all
  have split: "json_quote k @ s = 34 # json_esc k @ 34 # s" for s by (simp add: json_quote_def)
  show ?case
  proof (cases "kvts = []")
    case True
    then have "2 * length t < m" using Cons.prems(3) kvt n by simp
    with readsD [OF v, of m "125 # r"] True k show ?thesis
      by (simp add: json_ws_def n kvt split json_str_body_esc)
  next
    case False
    then have j: "join [44] (map (\<lambda>(k, v, t). json_quote k @ 58 # t) (kvt # kvts))
        = json_quote k @ 58 # t @ 44 # ?j"
      using kvt by (simp add: join_Cons)
    with Cons.prems(3) n have "2 * length t < m" "2 * length ?j + 1 < m" by simp_all
    then have "json_value m (t @ 44 # ?j @ 125 # r) = Some (v, 44 # ?j @ 125 # r)"
      "json_members m (?j @ 125 # r) = Some (map (\<lambda>(k, v, t). (k, v)) kvts, r)"
      using readsD [OF v] Cons.IH Cons.prems(2) False by auto
    with k have "json_members (Suc m) (json_quote k @ 58 # t @ 44 # ?j @ 125 # r)
        = Some ((k, v) # map (\<lambda>(k, v, t). (k, v)) kvts, r)"
      by (simp add: json_ws_def split json_str_body_esc)
    then show ?thesis unfolding j n by (simp add: kvt del: json_members.simps)
  qed
qed

lemma reads_leaf:
  assumes "json_plain v" "json_text v = Some t" "\<forall>vs. v \<noteq> VArr vs" "\<forall>m. v \<noteq> VObj m"
  shows "reads v t"
proof (cases v)
  case (VNum x)
  with assms have t: "t = num_to_str x" and p: "num_plain x" by (simp_all add: num_plain_def)
  obtain c u where c: "num_to_str x = c # u" "is_digit c \<or> c = 45" using p by (rule num_head)
  then have "\<not> json_ws c" "c \<noteq> 93" by (auto simp: is_digit_def json_ws_def)
  then have "reads (VNum x) (num_to_str x)"
    using c(1) json_value_num [OF p] by (intro readsI) (simp_all del: json_value.simps)
  then show ?thesis using VNum t by simp
next
  case (VStr s)
  with assms have "t = json_quote s" "code_units s" by simp_all
  moreover from this(2) have "reads (VStr s) (json_quote s)"
    by (intro readsI json_value_quote) (simp_all add: json_quote_def json_ws_def)
  ultimately show ?thesis using VStr by simp
next
  case VNull
  with assms show ?thesis by (auto intro!: readsI simp: js_def json_ws_def json_word_def)
next
  case (VBool b)
  with assms show ?thesis by (cases b) (auto intro!: readsI simp: js_def json_ws_def json_word_def)
qed (use assms in simp_all)

lemma reads_head_join:
  assumes "\<forall>t\<in>set ts. t \<noteq> [] \<and> \<not> json_ws (hd t) \<and> hd t \<noteq> x" "ts \<noteq> []"
  shows "\<exists>c w. join sep ts = c # w \<and> \<not> json_ws c \<and> c \<noteq> x"
proof (cases ts)
  case (Cons t us)
  with assms obtain c w where "t = c # w" "\<not> json_ws c" "c \<noteq> x" by (cases t) auto
  with Cons show ?thesis by (cases us) auto
qed (use assms in simp)

lemma reads_arr:
  assumes "\<forall>(v, t)\<in>set vts. reads v t"
  shows "reads (VArr (map fst vts)) (91 # join [44] (map snd vts) @ [93])"
proof (rule readsI)
  fix n r assume n: "2 * length (91 # join [44] (map snd vts) @ [93]) < Suc n" and "stops r"
  show "json_value (Suc n) ((91 # join [44] (map snd vts) @ [93]) @ r) = Some (VArr (map fst vts), r)"
  proof (cases "vts = []")
    case True
    then show ?thesis by (simp add: json_ws_def)
  next
    case False
    have "\<exists>c w. join [44] (map snd vts) = c # w \<and> \<not> json_ws c \<and> c \<noteq> 93"
      by (rule reads_head_join) (use assms False in \<open>auto simp: reads_def\<close>)
    then obtain c w where c: "join [44] (map snd vts) = c # w" "\<not> json_ws c" "c \<noteq> 93" by blast
    have "json_elems n (join [44] (map snd vts) @ 93 # r) = Some (map fst vts, r)"
      using n by (intro json_elems_join False assms) simp
    with c show ?thesis by (simp add: json_ws_def)
  qed
qed (simp_all add: json_ws_def)

lemma reads_obj:
  assumes "\<forall>(k, v, t)\<in>set kvts. code_units k \<and> reads v t"
    and "obj_of (map (\<lambda>(k, v, t). (k, v)) kvts) = m"
  shows "reads (VObj m) (123 # join [44] (map (\<lambda>(k, v, t). json_quote k @ 58 # t) kvts) @ [125])"
    (is "reads _ (123 # ?j @ [125])")
proof (rule readsI)
  fix n r assume n: "2 * length (123 # ?j @ [125]) < Suc n" and "stops r"
  show "json_value (Suc n) ((123 # ?j @ [125]) @ r) = Some (VObj m, r)"
  proof (cases "kvts = []")
    case True
    with assms(2) show ?thesis by (simp add: json_ws_def obj_of_def)
  next
    case False
    have "\<exists>c w. ?j = c # w \<and> \<not> json_ws c \<and> c \<noteq> 125"
      by (rule reads_head_join) (use False in \<open>auto simp: json_quote_def json_ws_def\<close>)
    then obtain c w where c: "?j = c # w" "\<not> json_ws c" "c \<noteq> 125" by blast
    have "json_members n (?j @ 125 # r) = Some (map (\<lambda>(k, v, t). (k, v)) kvts, r)"
      using n by (intro json_members_join False assms(1)) simp
    with c assms(2) show ?thesis by (simp add: json_ws_def)
  qed
qed (simp_all add: json_ws_def)

definition text_of :: "jval \<Rightarrow> jstr" where
  "text_of v = the (json_text v)"

lemma json_plain_reads: "json_plain v \<Longrightarrow> json_text v = Some (text_of v) \<and> reads v (text_of v)"
proof (induction v rule: json_plain.induct)
  case (6 vs)
  then have IH: "\<And>v. v \<in> set vs \<Longrightarrow> json_text v = Some (text_of v) \<and> reads v (text_of v)"
    by (simp add: list_all_iff)
  have t: "json_text (VArr vs) = Some (91 # join [44] (map text_of vs) @ [93])"
    using IH by (simp cong: map_cong)
  have "reads (VArr (map fst (map (\<lambda>v. (v, text_of v)) vs)))
      (91 # join [44] (map snd (map (\<lambda>v. (v, text_of v)) vs)) @ [93])"
    using IH by (intro reads_arr) auto
  moreover have "text_of (VArr vs) = 91 # join [44] (map text_of vs) @ [93]"
    using t unfolding text_of_def [of "VArr vs"] by (simp only: option.sel)
  ultimately show ?case using t by (simp add: o_def del: json_text.simps)
next
  case (7 m)
  then have IH: "\<And>k v. (k, v) \<in> set m \<Longrightarrow> code_units k \<and> json_text v = Some (text_of v) \<and> reads v (text_of v)"
    by (fastforce simp: list_all_iff)
  let ?kvts = "map (\<lambda>(k, v). (k, v, text_of v)) m"
  have "\<forall>(k, v)\<in>set m. json_text v = Some (text_of v)"
    using IH by auto
  then have "concat (map (\<lambda>(k, v). case json_text v of None \<Rightarrow> [] | Some t \<Rightarrow> [json_quote k @ 58 # t]) m)
      = map (\<lambda>(k, v, t). json_quote k @ 58 # t) ?kvts"
    by (induction m) auto
  then have t: "json_text (VObj m)
      = Some (123 # join [44] (map (\<lambda>(k, v, t). json_quote k @ 58 # t) ?kvts) @ [125])"
    by simp
  have "obj_of m = m" using 7(2) by (simp del: json_text.simps)
  then have "obj_of (map (\<lambda>(k, v, t). (k, v)) ?kvts) = m"
    by (simp add: o_def case_prod_beta)
  then have "reads (VObj m) (123 # join [44] (map (\<lambda>(k, v, t). json_quote k @ 58 # t) ?kvts) @ [125])"
    using IH by (intro reads_obj) auto
  moreover have "text_of (VObj m)
      = 123 # join [44] (map (\<lambda>(k, v, t). json_quote k @ 58 # t) ?kvts) @ [125]"
    using t unfolding text_of_def [of "VObj m"] by (simp only: option.sel)
  ultimately show ?case using t by (simp del: json_text.simps)
qed (auto intro!: reads_leaf simp: text_of_def num_plain_def)

theorem json_parse_text:
  assumes "json_plain v"
  shows "json_parse (json_stringify v) = Some v"
proof -
  have t: "json_text v = Some (text_of v)" and r: "reads v (text_of v)"
    using json_plain_reads [OF assms] by auto
  have "json_value (Suc (2 * length (text_of v))) (text_of v @ []) = Some (v, [])"
    using r by (rule readsD) simp_all
  with t show ?thesis by (simp add: json_parse_def json_stringify_def)
qed

section \<open>Members of values\<close>

text \<open>The own members a spread copies: of an object, of an array and of a text by index.\<close>

definition indexed :: "jval list \<Rightarrow> (jstr \<times> jval) list" where
  "indexed xs = map (\<lambda>(i, v). (dec_digits (int i), v)) (zip [0..<length xs] xs)"

definition spread_members :: "jval \<Rightarrow> (jstr \<times> jval) list" where
  "spread_members v = (case v of VObj m \<Rightarrow> m | VArr xs \<Rightarrow> indexed xs | VStr s \<Rightarrow> indexed (map (\<lambda>c. VStr [c]) s) | _ \<Rightarrow> [])"

section \<open>Conditional members\<close>

text \<open>\<open>if (c) o[k] = v\<close>.\<close>

definition put_if :: "bool \<Rightarrow> string \<Rightarrow> jval \<Rightarrow> (jstr \<times> jval) list \<Rightarrow> (jstr \<times> jval) list" where
  "put_if c k v m = (if c then obj_put (js k) v m else m)"

lemma fields_put_if:
  "vget (put_if c k v m) k' = (if k' = k \<and> c then v else vget m k')"
  "vhas (put_if c k v m) k' = (k' = k \<and> c \<or> vhas m k')"
  by (auto simp: put_if_def obj_simps)

end
