(* ===== verification/StatusCodes.thy ===== *)
theory StatusCodes
  imports Js_Regex Js_Value
begin

text \<open>
  Status-code rules: the parser of \<open>lib/http-status-code-rules.ts\<close> (a list of codes and
  ranges, normalised to a canonical text) and the guard on risky redirects of
  \<open>features/channels/lib/status-code-risk-guard.ts\<close>. Codes that passed \<open>isValidCode\<close> are
  integers, held as \<open>int\<close>; before that they are numbers as \<open>parseInt\<close> returns them.
\<close>

section \<open>Ranges\<close>

record StatusCodeRange =
  range_start :: int
  range_end :: int

record ParsedHttpStatusCodeRules =
  pr_ok :: bool
  pr_ranges :: "StatusCodeRange list"
  pr_tokens :: "jstr list"
  pr_normalized :: jstr
  pr_invalidTokens :: "jstr list"

definition isNumber :: "jstr \<Rightarrow> bool" where
  "isNumber s = rx_test (rx_whole (RPlus (RCh is_digit))) s"

definition isValidCode :: "jnum \<Rightarrow> bool" where
  "isValidCode code = (is_finite code \<and> jge code (jint 100) \<and> jle code (jint 599))"

text \<open>The destructuring \<open>[a, b] = cleaned.split('-')\<close> drops what follows a second dash.\<close>

definition parseToken :: "jstr \<Rightarrow> StatusCodeRange option" where
  "parseToken token = (let cleaned = filter (\<lambda>c. \<not> is_space c) (trim token) in
     if cleaned = [] then None
     else if has_sub (js ''-'') cleaned then
       let parts = split_on 45 cleaned; a = parts ! 0; b = parts ! 1 in
       if \<not> isNumber a \<or> \<not> isNumber b then None
       else let s = parse_int10 a; e = parse_int10 b in
         if \<not> isValidCode s \<or> \<not> isValidCode e \<or> jgt s e then None
         else Some \<lparr> range_start = int_of_num s, range_end = int_of_num e \<rparr>
     else if \<not> isNumber cleaned then None
     else let code = parse_int10 cleaned in
       if \<not> isValidCode code then None
       else Some \<lparr> range_start = int_of_num code, range_end = int_of_num code \<rparr>)"

definition range_le :: "StatusCodeRange \<Rightarrow> StatusCodeRange \<Rightarrow> bool" where
  "range_le a b = ((if range_start a \<noteq> range_start b then range_start a - range_start b
     else range_end a - range_end b) \<le> 0)"

definition merge_step :: "StatusCodeRange list \<Rightarrow> StatusCodeRange \<Rightarrow> StatusCodeRange list" where
  "merge_step merged current =
     (if merged = [] \<or> range_start current > range_end (last merged) + 1 then merged @ [current]
      else butlast merged @
        [(last merged)\<lparr> range_end := max (range_end (last merged)) (range_end current) \<rparr>])"

definition mergeRanges :: "StatusCodeRange list \<Rightarrow> StatusCodeRange list" where
  "mergeRanges ranges = (if ranges = [] then [] else foldl merge_step [] (sort_by range_le ranges))"

definition range_token :: "StatusCodeRange \<Rightarrow> jstr" where
  "range_token r = (if range_start r = range_end r then int_to_str (range_start r)
     else int_to_str (range_start r) @ js ''-'' @ int_to_str (range_end r))"

definition rule_segments :: "jstr \<Rightarrow> jstr list" where
  "rule_segments raw =
     filter (\<lambda>s. s \<noteq> []) (map trim (split_on 44 (map (\<lambda>c. if c = 65292 then 44 else c) raw)))"

definition rule_input :: "jval \<Rightarrow> jstr" where
  "rule_input input = trim (val_to_str (vnull_or input (VStr [])))"

definition parseHttpStatusCodeRules :: "jval \<Rightarrow> ParsedHttpStatusCodeRules" where
  "parseHttpStatusCodeRules input = (let raw = rule_input input in
     if length raw = 0 then
       \<lparr> pr_ok = True, pr_ranges = [], pr_tokens = [], pr_normalized = [], pr_invalidTokens = [] \<rparr>
     else
       let segments = rule_segments raw;
           ranges = List.map_filter parseToken segments;
           invalidTokens = filter (\<lambda>s. parseToken s = None) segments in
       if length invalidTokens > 0 then
         \<lparr> pr_ok = False, pr_ranges = [], pr_tokens = [], pr_normalized = raw,
           pr_invalidTokens = invalidTokens \<rparr>
       else
         let merged = mergeRanges ranges; tokens = map range_token merged in
         \<lparr> pr_ok = True, pr_ranges = merged, pr_tokens = tokens,
           pr_normalized = join (js '','') tokens, pr_invalidTokens = [] \<rparr>)"

subsection \<open>Merging\<close>

definition codes_of :: "StatusCodeRange \<Rightarrow> int set" where
  "codes_of r = {range_start r .. range_end r}"

definition covered :: "StatusCodeRange list \<Rightarrow> int set" where
  "covered rs = (\<Union>r\<in>set rs. codes_of r)"

text \<open>Canonical lists: ascending, with a gap of at least one code between neighbours.\<close>

definition canonical :: "StatusCodeRange list \<Rightarrow> bool" where
  "canonical rs = (sorted_wrt (\<lambda>a b. range_end a + 1 < range_start b) rs
     \<and> (\<forall>r\<in>set rs. range_start r \<le> range_end r))"

interpretation range_order: comparator range_le
  by unfold_locales (auto simp: range_le_def split: if_splits)

lemma covered_simps [simp]:
  "covered [] = {}" "covered (r # rs) = codes_of r \<union> covered rs"
  "covered (rs @ ss) = covered rs \<union> covered ss"
  by (auto simp: covered_def)

lemma covered_mset: "mset rs = mset ss \<Longrightarrow> covered rs = covered ss"
  by (metis covered_def set_mset_mset)

lemma merge_step_spec:
  assumes "canonical ms" "range_start c \<le> range_end c"
    and "ms \<noteq> [] \<Longrightarrow> range_start (last ms) \<le> range_start c"
  shows "canonical (merge_step ms c)" "covered (merge_step ms c) = covered ms \<union> codes_of c"
    and "range_start (last (merge_step ms c)) \<le> range_start c"
proof -
  have "canonical (merge_step ms c) \<and> covered (merge_step ms c) = covered ms \<union> codes_of c
    \<and> range_start (last (merge_step ms c)) \<le> range_start c"
  proof (cases ms rule: rev_cases)
    case Nil
    with assms show ?thesis by (simp add: merge_step_def canonical_def)
  next
    case (snoc us l)
    with assms have l: "range_start l \<le> range_end l" "range_start l \<le> range_start c"
      and us: "canonical us" "\<And>u. u \<in> set us \<Longrightarrow> range_end u + 1 < range_start l"
      by (auto simp: canonical_def sorted_wrt_append)
    show ?thesis
    proof (cases "range_start c > range_end l + 1")
      case True
      moreover have "\<And>u. u \<in> set us \<Longrightarrow> range_end u + 1 < range_start c"
        using us(2) l(2) by fastforce
      ultimately show ?thesis using assms snoc
        by (auto simp: merge_step_def canonical_def sorted_wrt_append)
    next
      case False
      then have "codes_of (l\<lparr>range_end := max (range_end l) (range_end c)\<rparr>) = codes_of l \<union> codes_of c"
        using l assms(2) by (auto simp: codes_of_def)
      with False us l snoc show ?thesis
        by (auto simp: merge_step_def canonical_def sorted_wrt_append)
    qed
  qed
  then show "canonical (merge_step ms c)" "covered (merge_step ms c) = covered ms \<union> codes_of c"
    "range_start (last (merge_step ms c)) \<le> range_start c" by simp_all
qed

lemma foldl_merge:
  assumes "canonical ms" "sorted_wrt range_le rs" "\<forall>r\<in>set rs. range_start r \<le> range_end r"
    and "ms \<noteq> [] \<Longrightarrow> rs \<noteq> [] \<Longrightarrow> range_start (last ms) \<le> range_start (hd rs)"
  shows "canonical (foldl merge_step ms rs) \<and> covered (foldl merge_step ms rs) = covered ms \<union> covered rs"
  using assms
proof (induction rs arbitrary: ms)
  case Nil
  then show ?case by simp
next
  case (Cons r rs)
  have r: "range_start r \<le> range_end r" "ms \<noteq> [] \<Longrightarrow> range_start (last ms) \<le> range_start r"
    using Cons.prems by auto
  note step = merge_step_spec [OF Cons.prems(1) r]
  have "range_start r \<le> range_start (hd rs)" if "rs \<noteq> []"
    using Cons.prems(2) that by (cases rs) (auto simp: range_le_def split: if_splits)
  then have "canonical (foldl merge_step (merge_step ms r) rs)
      \<and> covered (foldl merge_step (merge_step ms r) rs) = covered (merge_step ms r) \<union> covered rs"
    using step(3) Cons.prems by (intro Cons.IH step(1)) fastforce+
  with step(2) show ?case by auto
qed

lemma mergeRanges_spec:
  assumes "\<forall>r\<in>set rs. range_start r \<le> range_end r"
  shows "canonical (mergeRanges rs)" "covered (mergeRanges rs) = covered rs"
  using foldl_merge [of "[]" "sort_by range_le rs"] assms range_order.sorted_sort_by [of rs]
    covered_mset [of "sort_by range_le rs" rs]
  by (auto simp: mergeRanges_def canonical_def)

lemma foldl_merge_canonical:
  assumes "canonical (ms @ rs)"
  shows "foldl merge_step ms rs = ms @ rs"
  using assms
proof (induction rs arbitrary: ms)
  case (Cons r rs)
  then have "merge_step ms r = ms @ [r]"
    by (cases ms rule: rev_cases) (auto simp: merge_step_def canonical_def sorted_wrt_append)
  with Cons show ?case by simp
qed simp

lemma mergeRanges_canonical: "canonical rs \<Longrightarrow> mergeRanges rs = rs"
proof -
  assume c: "canonical rs"
  then have "sorted_wrt (\<lambda>a b. range_end a + 1 < range_start b) rs" by (simp add: canonical_def)
  then have "sorted_wrt range_le rs"
    by (rule sorted_wrt_mono_rel [rotated]) (use c in \<open>fastforce simp: range_le_def canonical_def\<close>)
  then show ?thesis using foldl_merge_canonical [of "[]" rs] c
    by (simp add: mergeRanges_def range_order.sort_by_sorted)
qed

subsection \<open>Tokens\<close>

lemma isNumber_iff: "isNumber s \<longleftrightarrow> s \<noteq> [] \<and> list_all is_digit s"
  by (simp add: isNumber_def rx_test_whole_plus)

lemma split_on_nth0: "split_on c xs ! 0 = takeWhile (\<lambda>x. x \<noteq> c) xs"
proof (induction xs)
  case (Cons x xs)
  then show ?case by (cases "split_on c xs") (auto split: list.splits)
qed simp

lemma split_on_dash:
  assumes "c \<notin> set a"
  shows "split_on c (a @ c # s) ! 0 = a" "split_on c (a @ c # s) ! 1 = takeWhile (\<lambda>x. x \<noteq> c) s"
  using split_on_append_sep [OF assms, of s] split_on_nth0 [of c s] by simp_all

lemma digit_facts: "is_digit c \<Longrightarrow> c \<noteq> 45 \<and> c \<noteq> 44 \<and> c \<noteq> 65292 \<and> \<not> is_space c"
  using digit_not_space by (auto simp: is_digit_def)

lemma int_to_str_digits: "0 \<le> n \<Longrightarrow> list_all is_digit (int_to_str n) \<and> int_to_str n \<noteq> []"
  by (auto simp: int_to_str_def list_all_iff intro: dec_digits_all_digits)

lemma parse_int10_str: "0 \<le> n \<Longrightarrow> n \<le> 599 \<Longrightarrow> parse_int10 (int_to_str n) = jint n"
  by (simp add: int_to_str_def parse_int10_dec_digits)

lemma isValidCode_jint [simp]: "isValidCode (jint n) \<longleftrightarrow> 100 \<le> n \<and> n \<le> 599"
  by (simp add: isValidCode_def del: of_int_numeral of_int_1)

definition code_range :: "StatusCodeRange \<Rightarrow> bool" where
  "code_range r = (100 \<le> range_start r \<and> range_start r \<le> range_end r \<and> range_end r \<le> 599)"

lemma jvalid_bounds:
  assumes "isValidCode x"
  obtains q where "x = JFin q" "100 \<le> \<lfloor>q\<rfloor>" "\<lfloor>q\<rfloor> \<le> 599"
proof (cases x)
  case (JFin q)
  with assms have "100 \<le> q" "q \<le> 599" by (simp_all add: isValidCode_def)
  then have "100 \<le> \<lfloor>q\<rfloor>" "\<lfloor>q\<rfloor> \<le> 599" by (simp_all add: le_floor_iff floor_le_iff)
  with JFin that show ?thesis by blast
qed (use assms in \<open>simp_all add: isValidCode_def\<close>)

lemma parseToken_range: "parseToken token = Some r \<Longrightarrow> code_range r"
proof -
  have floors: "isValidCode x \<Longrightarrow> isValidCode y \<Longrightarrow> \<not> jgt x y \<Longrightarrow>
      code_range \<lparr> range_start = int_of_num x, range_end = int_of_num y \<rparr>" for x y
    by (elim jvalid_bounds) (auto simp: code_range_def floor_mono)
  have "isValidCode x \<Longrightarrow> code_range \<lparr> range_start = int_of_num x, range_end = int_of_num x \<rparr>" for x
    by (elim jvalid_bounds) (auto simp: code_range_def)
  with floors show "parseToken token = Some r \<Longrightarrow> code_range r"
    unfolding parseToken_def Let_def by (auto split: if_splits)
qed

text \<open>A dash and anything after a complete range is ignored.\<close>

lemma parseToken_dash:
  assumes "code_range r" "rest = [] \<or> hd rest = 45" "\<And>c. c \<in> set rest \<Longrightarrow> \<not> is_space c"
  shows "parseToken (int_to_str (range_start r) @ js ''-'' @ int_to_str (range_end r) @ rest) = Some r"
proof -
  let ?a = "int_to_str (range_start r)" and ?b = "int_to_str (range_end r)"
  have d: "list_all is_digit ?a \<and> ?a \<noteq> []" "list_all is_digit ?b \<and> ?b \<noteq> []"
    using assms(1) by (auto simp: code_range_def intro!: int_to_str_digits)
  then have na: "45 \<notin> set ?a" "45 \<notin> set ?b" and nb: "isNumber ?a" "isNumber ?b"
    using digit_facts by (auto simp: list_all_iff isNumber_iff)
  let ?t = "?a @ js ''-'' @ ?b @ rest"
  have sp: "\<not> is_space c" if "c \<in> set ?t" for c
    using that d assms(3) digit_facts by (auto simp: list_all_iff js_def is_space_def)
  then have "trim ?t = ?t" by (rule trim_no_space)
  with sp have cl: "filter (\<lambda>c. \<not> is_space c) (trim ?t) = ?t"
    by (simp only: filter_id_conv) blast
  have "takeWhile (\<lambda>x. x \<noteq> 45) (?b @ rest) = ?b"
    using na(2) assms(2) by (cases rest) (auto simp: takeWhile_eq_all_conv takeWhile_append)
  then have parts: "split_on 45 ?t ! 0 = ?a" "split_on 45 ?t ! 1 = ?b"
    using split_on_dash [OF na(1), of "?b @ rest"] by (simp_all add: js_def)
  have sub: "has_sub (js ''-'') ?t" by (auto simp: has_sub_iff)
  have v: "parse_int10 ?a = jint (range_start r)" "parse_int10 ?b = jint (range_end r)"
    using assms(1) by (simp_all add: code_range_def parse_int10_str)
  have "\<not> jgt (jint (range_start r)) (jint (range_end r))" "?t \<noteq> []"
    using assms(1) by (simp_all add: code_range_def js_def)
  with sub parts nb v assms(1) show ?thesis
    unfolding parseToken_def cl Let_def by (simp add: code_range_def)
qed

lemma parseToken_range_token: "code_range r \<Longrightarrow> parseToken (range_token r) = Some r"
proof (cases "range_start r = range_end r")
  case False
  assume "code_range r"
  with False parseToken_dash [of r "[]"] show ?thesis by (simp add: range_token_def)
next
  case True
  assume r: "code_range r"
  let ?a = "int_to_str (range_start r)"
  have d: "list_all is_digit ?a" "?a \<noteq> []"
    using int_to_str_digits [of "range_start r"] r by (simp_all add: code_range_def)
  have cl: "filter (\<lambda>c. \<not> is_space c) (trim ?a) = ?a"
    using d digit_facts by (simp add: trim_no_space filter_id_conv list_all_iff)
  have "\<not> has_sub (js ''-'') ?a"
    using d digit_facts [of 45] by (auto simp: has_sub_iff list_all_iff js_def)
  moreover have "parse_int10 ?a = jint (range_start r)"
    using r by (simp add: code_range_def parse_int10_str)
  moreover have "range_token r = ?a" using True by (simp add: range_token_def)
  ultimately show ?thesis using d r True
    by (simp add: parseToken_def cl [unfolded True] isNumber_iff code_range_def Let_def)
qed

lemma range_token_chars:
  assumes "code_range r"
  shows "range_token r \<noteq> []" "c \<in> set (range_token r) \<Longrightarrow> c \<noteq> 44 \<and> c \<noteq> 65292 \<and> \<not> is_space c"
proof -
  have d: "list_all is_digit (int_to_str (range_start r))" "list_all is_digit (int_to_str (range_end r))"
    "int_to_str (range_start r) \<noteq> []" "int_to_str (range_end r) \<noteq> []"
    using int_to_str_digits [of "range_start r"] int_to_str_digits [of "range_end r"] assms
    by (simp_all add: code_range_def)
  then show "range_token r \<noteq> []" by (simp add: range_token_def)
  assume "c \<in> set (range_token r)"
  then have "is_digit c \<or> c = 45" using d by (auto simp: range_token_def list_all_iff js_def split: if_splits)
  then show "c \<noteq> 44 \<and> c \<noteq> 65292 \<and> \<not> is_space c" using digit_facts by (auto simp: is_space_def)
qed

lemma set_join: "set (join sep ws) \<subseteq> (\<Union>w\<in>set ws. set w) \<union> set sep"
  by (induction sep ws rule: join.induct) auto

lemma rule_segments_join:
  assumes "\<forall>r\<in>set rs. code_range r" "rs \<noteq> []"
  shows "rule_segments (join (js '','') (map range_token rs)) = map range_token rs"
    and "trim (join (js '','') (map range_token rs)) = join (js '','') (map range_token rs)"
proof -
  let ?t = "join (js '','') (map range_token rs)"
  have cs: "c \<noteq> 65292 \<and> \<not> is_space c" if "c \<in> set ?t" for c
    using that set_join [of "js '',''" "map range_token rs"] assms(1) range_token_chars(2)
    by (fastforce simp: js_def is_space_def)
  then have m: "map (\<lambda>c. if c = 65292 then 44 else c) ?t = ?t" by (simp add: map_idI)
  have "44 \<notin> set w" if "w \<in> set (map range_token rs)" for w
    using that assms(1) range_token_chars(2) by fastforce
  then have sp: "split_on 44 ?t = map range_token rs"
    using split_on_join [of "map range_token rs" 44] assms(2) by (simp add: js_def)
  have "trim (range_token r) = range_token r" if "r \<in> set rs" for r
    using that assms(1) range_token_chars(2) by (blast intro: trim_no_space)
  then have "map trim (map range_token rs) = map range_token rs" by simp
  moreover have "\<forall>w\<in>set (map range_token rs). w \<noteq> []" using assms(1) range_token_chars(1) by auto
  ultimately show "rule_segments ?t = map range_token rs"
    unfolding rule_segments_def m sp by (simp add: filter_id_conv)
  show "trim ?t = ?t" using cs by (blast intro: trim_no_space)
qed

subsection \<open>The parser's contract\<close>

lemma segments_parsed:
  assumes "\<forall>s\<in>set segs. parseToken s \<noteq> None"
  shows "map Some (List.map_filter parseToken segs) = map parseToken segs"
  using assms by (induction segs) (auto simp: List.map_filter_simps)

lemma map_filter_ranges: "r \<in> set (List.map_filter parseToken segs) \<Longrightarrow> code_range r"
  using parseToken_range by (auto simp: List.map_filter_def)

lemma map_filter_le:
  "\<forall>r\<in>set (List.map_filter parseToken segs). range_start r \<le> range_end r"
  using map_filter_ranges by (auto simp: code_range_def)

lemma rule_segments_empty: "trim raw = [] \<Longrightarrow> rule_input (VStr raw) = []"
  by (simp add: rule_input_def vnull_or_def nullish_def)

lemma covered_codes: "(\<And>r. r \<in> set rs \<Longrightarrow> code_range r) \<Longrightarrow> covered rs \<subseteq> {100..599}"
  by (fastforce simp: covered_def codes_of_def code_range_def)

lemma canonical_codes:
  assumes "canonical rs" "covered rs \<subseteq> {100..599}" "r \<in> set rs"
  shows "code_range r"
proof -
  have "range_start r \<le> range_end r" using assms by (simp add: canonical_def)
  then have "range_start r \<in> covered rs" "range_end r \<in> covered rs"
    using assms(3) by (auto simp: covered_def codes_of_def)
  with assms(2) \<open>range_start r \<le> range_end r\<close> show ?thesis by (auto simp: code_range_def)
qed

text \<open>The result in terms of what the parser read: the segments of the trimmed input.\<close>

lemma parse_rules_cases:
  fixes v :: jval
  defines "segs \<equiv> rule_segments (rule_input v)"
  shows "parseHttpStatusCodeRules v =
    (if \<exists>s\<in>set segs. parseToken s = None
     then \<lparr> pr_ok = False, pr_ranges = [], pr_tokens = [], pr_normalized = rule_input v,
       pr_invalidTokens = filter (\<lambda>s. parseToken s = None) segs \<rparr>
     else let merged = mergeRanges (List.map_filter parseToken segs) in
       \<lparr> pr_ok = True, pr_ranges = merged, pr_tokens = map range_token merged,
         pr_normalized = join (js '','') (map range_token merged), pr_invalidTokens = [] \<rparr>)"
proof (cases "rule_input v = []")
  case True
  then have "segs = []" by (simp add: segs_def rule_segments_def)
  then have "\<not> (\<exists>s\<in>set segs. parseToken s = None)" "List.map_filter parseToken segs = []"
    by (simp_all add: List.map_filter_simps)
  with True show ?thesis
    by (simp add: parseHttpStatusCodeRules_def mergeRanges_def)
next
  case False
  then show ?thesis
    unfolding parseHttpStatusCodeRules_def segs_def
    by (auto simp: Let_def filter_empty_conv simp del: length_0_conv split: if_splits)
qed

lemma parsed_ranges:
  "canonical (pr_ranges (parseHttpStatusCodeRules v))"
  "covered (pr_ranges (parseHttpStatusCodeRules v)) \<subseteq> {100..599}"
  using mergeRanges_spec [OF map_filter_le] covered_codes [OF map_filter_ranges]
  by (simp_all add: parse_rules_cases Let_def canonical_def)

text \<open>C11. Whatever the input, the ranges the parser returns are in ascending order, pairwise
  disjoint and never adjacent (the merge is maximal), and hold only codes from 100 to 599; when
  the input is accepted they hold exactly the codes of the parsed segments.\<close>

theorem status_rules_canonical:
  "canonical (pr_ranges (parseHttpStatusCodeRules v)) \<and>
   covered (pr_ranges (parseHttpStatusCodeRules v)) \<subseteq> {100..599} \<and>
   covered (pr_ranges (parseHttpStatusCodeRules v)) =
     (if pr_ok (parseHttpStatusCodeRules v)
      then covered (List.map_filter parseToken (rule_segments (rule_input v))) else {})"
  using parsed_ranges [of v] mergeRanges_spec(2) [OF map_filter_le]
  by (auto simp: parse_rules_cases Let_def)

text \<open>C17. The normalised text of an accepted input is a fixed point: parsing it again gives
  the same ranges, tokens and normalised text.\<close>

theorem status_rules_roundtrip:
  assumes "pr_ok (parseHttpStatusCodeRules v)"
  shows "parseHttpStatusCodeRules (VStr (pr_normalized (parseHttpStatusCodeRules v)))
    = parseHttpStatusCodeRules v"
proof -
  define rs where "rs = pr_ranges (parseHttpStatusCodeRules v)"
  have v: "parseHttpStatusCodeRules v = \<lparr> pr_ok = True, pr_ranges = rs, pr_tokens = map range_token rs,
      pr_normalized = join (js '','') (map range_token rs), pr_invalidTokens = [] \<rparr>"
    using assms unfolding rs_def by (auto simp: parse_rules_cases Let_def split: if_splits)
  have can: "canonical rs" and codes: "\<And>r. r \<in> set rs \<Longrightarrow> code_range r"
    using parsed_ranges [of v] canonical_codes unfolding rs_def by blast+
  let ?t = "join (js '','') (map range_token rs)"
  have input: "rule_input (VStr ?t) = ?t" and segs: "rule_segments ?t = map range_token rs"
    using rule_segments_join [of rs] codes
    by (cases "rs = []"; force simp: rule_input_def rule_segments_def vnull_or_def nullish_def)+
  have "List.map_filter parseToken (map range_token rs) = rs"
    using codes by (induction rs) (simp_all add: List.map_filter_simps parseToken_range_token)
  moreover have "\<not> (\<exists>s\<in>set (map range_token rs). parseToken s = None)"
    using codes by (auto simp: parseToken_range_token)
  ultimately have "parseHttpStatusCodeRules (VStr ?t) = \<lparr> pr_ok = True, pr_ranges = rs,
      pr_tokens = map range_token rs, pr_normalized = ?t, pr_invalidTokens = [] \<rparr>"
    unfolding parse_rules_cases input segs by (simp add: Let_def mergeRanges_canonical [OF can])
  then show ?thesis by (simp add: v)
qed

theorem status_rules_roundtrip_witness:
  "parseHttpStatusCodeRules (VStr (pr_normalized (parseHttpStatusCodeRules (VStr (js ''200'')))))
    = parseHttpStatusCodeRules (VStr (js ''200''))"
proof (rule status_rules_roundtrip)
  have r: "code_range \<lparr> range_start = 200, range_end = 200 \<rparr>" by (simp add: code_range_def)
  have "range_token \<lparr> range_start = 200, range_end = 200 \<rparr> = js ''200''"
    by (simp add: range_token_def int_to_str_def dec_digits_eval js_def)
  with rule_segments_join [of "[\<lparr> range_start = 200, range_end = 200 \<rparr>]"] parseToken_range_token [OF r] r
  show "pr_ok (parseHttpStatusCodeRules (VStr (js ''200'')))"
    by (simp add: parse_rules_cases rule_input_def vnull_or_def nullish_def Let_def)
qed

text \<open>Parsing is all or nothing: the input is accepted exactly when every segment is a code
  or a range, and then no invalid token is reported; otherwise the invalid segments are reported
  in their order, no range survives and the text is kept as typed.\<close>

theorem status_rules_all_or_nothing:
  "let p = parseHttpStatusCodeRules v; segs = rule_segments (rule_input v) in
   pr_ok p = (\<forall>s\<in>set segs. parseToken s \<noteq> None) \<and>
   pr_ok p = (pr_invalidTokens p = []) \<and>
   pr_invalidTokens p = filter (\<lambda>s. parseToken s = None) segs \<and>
   (\<not> pr_ok p \<longrightarrow> pr_ranges p = [] \<and> pr_tokens p = [] \<and> pr_normalized p = rule_input v)"
  by (auto simp: parse_rules_cases Let_def filter_empty_conv)

theorem status_rules_all_or_nothing_witness:
  "\<not> pr_ok (parseHttpStatusCodeRules (VStr (js ''abc''))) \<and>
   pr_ranges (parseHttpStatusCodeRules (VStr (js ''abc''))) = []"
proof -
  have "rule_segments (rule_input (VStr (js ''abc''))) = [js ''abc'']"
    by (simp add: rule_segments_def rule_input_def vnull_or_def nullish_def js_def trim_def is_space_def)
  moreover have "parseToken (js ''abc'') = None"
    by (simp add: parseToken_def isNumber_iff has_sub_def is_digit_def js_def trim_def is_space_def)
  ultimately show ?thesis
    using status_rules_all_or_nothing [of "VStr (js ''abc'')"] by (simp add: Let_def)
qed

text \<open>A token with a second dash is accepted: \<open>a-b-anything\<close> is read as \<open>a-b\<close>, the rest
  is dropped without an error.\<close>

theorem status_token_extra_dash:
  assumes "100 \<le> a" "a \<le> b" "b \<le> 599" "\<forall>c\<in>set junk. \<not> is_space c"
  shows "parseToken (int_to_str a @ js ''-'' @ int_to_str b @ js ''-'' @ junk)
    = Some \<lparr> range_start = a, range_end = b \<rparr>"
proof -
  have "\<not> is_space 45" by (simp add: is_space_def)
  then have "\<not> is_space c" if "c \<in> set (js ''-'' @ junk)" for c
    using that assms(4) by (cases "c = 45") (simp_all add: js_def)
  moreover have "code_range \<lparr> range_start = a, range_end = b \<rparr>" using assms by (simp add: code_range_def)
  ultimately show ?thesis
    using parseToken_dash [of "\<lparr> range_start = a, range_end = b \<rparr>" "js ''-'' @ junk"]
    by (simp add: js_def)
qed

theorem status_token_extra_dash_witness:
  "parseToken (int_to_str 200 @ js ''-'' @ int_to_str 299 @ js ''-'' @ js ''x'')
    = Some \<lparr> range_start = 200, range_end = 299 \<rparr>"
  by (rule status_token_extra_dash) (simp_all add: js_def is_space_def)

section \<open>The redirect guard\<close>

definition NON_REDIRECTABLE_STATUS_CODES :: "int list" where
  "NON_REDIRECTABLE_STATUS_CODES = [504, 524]"

definition is_code_text :: "jstr \<Rightarrow> bool" where
  "is_code_text s = rx_test (rx_whole (RClasses [\<lambda>c. 49 \<le> c \<and> c \<le> 53, is_digit, is_digit])) s"

definition parseStatusCodeKey :: "jstr \<Rightarrow> int option" where
  "parseStatusCodeKey rawKey = (let normalized = trim rawKey in
     if \<not> is_code_text normalized then None else Some (int_of_num (parse_int10 normalized)))"

definition parseStatusCodeMappingTarget :: "jval \<Rightarrow> int option" where
  "parseStatusCodeMappingTarget rawValue = (case rawValue of
      VNum x \<Rightarrow> if jis_integer x \<and> jge x (jint 100) \<and> jle x (jint 599)
        then Some (int_of_num x) else None
    | VStr s \<Rightarrow> (let normalized = trim s in
        if \<not> is_code_text normalized then None
        else let code = parse_int10 normalized in
          if jge code (jint 100) \<and> jle code (jint 599) then Some (int_of_num code) else None)
    | _ \<Rightarrow> None)"

text \<open>The entries of the mapping; the empty list when the text is blank, is not JSON or is not
  an object.\<close>

definition mapping_entries :: "jstr \<Rightarrow> (jstr \<times> jval) list" where
  "mapping_entries s = (if trim s = [] then []
     else case json_parse s of Some (VObj m) \<Rightarrow> m | _ \<Rightarrow> [])"

definition collectInvalidStatusCodeEntries :: "jstr \<Rightarrow> jstr list" where
  "collectInvalidStatusCodeEntries s =
     concat (map (\<lambda>(rawKey, rawValue).
       if parseStatusCodeKey rawKey = None \<or> parseStatusCodeMappingTarget rawValue = None
       then [rawKey @ [32, 8594, 32] @ val_to_str rawValue] else []) (mapping_entries s))"

definition risky_entry :: "jstr \<times> jval \<Rightarrow> jstr option" where
  "risky_entry e = (case (parseStatusCodeKey (fst e), parseStatusCodeMappingTarget (snd e)) of
      (Some fromCode, Some toCode) \<Rightarrow>
        if fromCode \<notin> set NON_REDIRECTABLE_STATUS_CODES then None
        else if fromCode = toCode then None
        else Some (int_to_str fromCode @ js '' -> '' @ int_to_str toCode)
    | _ \<Rightarrow> None)"

definition collectDisallowedStatusCodeRedirects :: "jstr \<Rightarrow> jstr list" where
  "collectDisallowedStatusCodeRedirects s =
     sort_by str_le (uniq (List.map_filter risky_entry (mapping_entries s)))"

definition collectNewDisallowedStatusCodeRedirects :: "jstr \<Rightarrow> jstr \<Rightarrow> jstr list" where
  "collectNewDisallowedStatusCodeRedirects originalStr currentStr =
     (let currentRisky = collectDisallowedStatusCodeRedirects currentStr in
      if length currentRisky = 0 then []
      else let originalRiskySet = collectDisallowedStatusCodeRedirects originalStr in
        filter (\<lambda>mapping. mapping \<notin> set originalRiskySet) currentRisky)"

lemma sorted_disallowed:
  "sorted_wrt str_le (collectDisallowedStatusCodeRedirects s)"
  "distinct (collectDisallowedStatusCodeRedirects s)"
  by (simp_all add: collectDisallowedStatusCodeRedirects_def str_order.sorted_sort_by)

lemma risky_entry_Some:
  "risky_entry (k, v) = Some x \<longleftrightarrow> (\<exists>from to. parseStatusCodeKey k = Some from \<and>
      parseStatusCodeMappingTarget v = Some to \<and> (from = 504 \<or> from = 524) \<and> from \<noteq> to \<and>
      x = int_to_str from @ js '' -> '' @ int_to_str to)"
  by (cases "parseStatusCodeKey k"; cases "parseStatusCodeMappingTarget v")
    (auto simp: risky_entry_def NON_REDIRECTABLE_STATUS_CODES_def)

lemma sorted_wrt_filter_str: "sorted_wrt str_le xs \<Longrightarrow> sorted_wrt str_le (filter P xs)"
  by (rule sorted_wrt_filter)

text \<open>The guard reports a redirect exactly when an entry sends 504 or 524 to a different
  valid code.\<close>

theorem risky_redirects_exact:
  "x \<in> set (collectDisallowedStatusCodeRedirects s) \<longleftrightarrow>
   (\<exists>k v. (k, v) \<in> set (mapping_entries s) \<and> (\<exists>from to. parseStatusCodeKey k = Some from \<and>
      parseStatusCodeMappingTarget v = Some to \<and> (from = 504 \<or> from = 524) \<and> from \<noteq> to \<and>
      x = int_to_str from @ js '' -> '' @ int_to_str to))"
proof -
  have "x \<in> set (collectDisallowedStatusCodeRedirects s) \<longleftrightarrow>
      (\<exists>e \<in> set (mapping_entries s). risky_entry e = Some x)"
    by (force simp: collectDisallowedStatusCodeRedirects_def List.map_filter_def)
  also have "\<dots> \<longleftrightarrow> (\<exists>k v. (k, v) \<in> set (mapping_entries s) \<and> risky_entry (k, v) = Some x)"
    by auto
  also have "\<dots> \<longleftrightarrow> (\<exists>k v. (k, v) \<in> set (mapping_entries s) \<and> (\<exists>from to. parseStatusCodeKey k = Some from \<and>
      parseStatusCodeMappingTarget v = Some to \<and> (from = 504 \<or> from = 524) \<and> from \<noteq> to \<and>
      x = int_to_str from @ js '' -> '' @ int_to_str to))"
    by (simp only: risky_entry_Some)
  finally show ?thesis .
qed

text \<open>Editing a mapping needs confirmation exactly for the risky redirects it adds: the
  result is the ordered difference of the two reports, and saving an unchanged mapping never
  asks.\<close>

theorem new_risky_redirects:
  "set (collectNewDisallowedStatusCodeRedirects old new) =
     set (collectDisallowedStatusCodeRedirects new) - set (collectDisallowedStatusCodeRedirects old) \<and>
   sorted_wrt str_le (collectNewDisallowedStatusCodeRedirects old new) \<and>
   distinct (collectNewDisallowedStatusCodeRedirects old new) \<and>
   collectNewDisallowedStatusCodeRedirects old old = []"
  using sorted_disallowed [of new]
  by (auto simp: collectNewDisallowedStatusCodeRedirects_def Let_def filter_empty_conv
      intro!: sorted_wrt_filter_str)

end
