(* ===== verification/BillingExpr.thy ===== *)
theory BillingExpr
  imports Js_Regex Js_Value
begin

text \<open>
  The billing-expression library of the pricing feature, \<open>features/pricing/lib/billing-expr.ts\<close>:
  the registry of billing variables, the parser of tiered price expressions, the parser and the
  printer of request-rule multipliers, and the functions that join and split the two parts. Each
  pattern literal of the source is a term of \<open>rx\<close>. \<open>JSON.parse\<close> may throw inside the rule parser
  and nothing there catches it, so the parser's results are \<open>js_error + 'a\<close>.
\<close>

section \<open>Errors as values\<close>

datatype js_error = SyntaxError

fun bind_res :: "js_error + 'a \<Rightarrow> ('a \<Rightarrow> js_error + 'b) \<Rightarrow> js_error + 'b" where
  "bind_res (Inl e) f = Inl e"
| "bind_res (Inr x) f = f x"

definition json_parse_res :: "jstr \<Rightarrow> js_error + jval" where
  "json_parse_res s = (case json_parse s of None \<Rightarrow> Inl SyntaxError | Some v \<Rightarrow> Inr v)"

section \<open>The variable registry\<close>

datatype side = Side_input | Side_output | Side_condition

record BillingVar =
  bv_key :: jstr
  bv_field :: "jstr option"
  bv_tierField :: "jstr option"
  bv_label :: jstr
  bv_shortLabel :: jstr
  bv_side :: side
  bv_isBase :: bool
  bv_isConditionOnly :: bool
  bv_group :: "jstr option"

definition BILLING_VARS :: "BillingVar list" where
  "BILLING_VARS = [
    \<lparr> bv_key = js ''p'', bv_field = Some (js ''inputPrice''),
      bv_tierField = Some (js ''input_unit_cost''), bv_label = js ''Input price'',
      bv_shortLabel = js ''Input'', bv_side = Side_input, bv_isBase = True,
      bv_isConditionOnly = False, bv_group = None \<rparr>,
    \<lparr> bv_key = js ''c'', bv_field = Some (js ''outputPrice''),
      bv_tierField = Some (js ''output_unit_cost''), bv_label = js ''Completion price'',
      bv_shortLabel = js ''Output'', bv_side = Side_output, bv_isBase = True,
      bv_isConditionOnly = False, bv_group = None \<rparr>,
    \<lparr> bv_key = js ''len'', bv_field = None, bv_tierField = None, bv_label = js ''Input length'',
      bv_shortLabel = js ''Length'', bv_side = Side_condition, bv_isBase = False,
      bv_isConditionOnly = True, bv_group = None \<rparr>,
    \<lparr> bv_key = js ''cr'', bv_field = Some (js ''cacheReadPrice''),
      bv_tierField = Some (js ''cache_read_unit_cost''), bv_label = js ''Cache read price'',
      bv_shortLabel = js ''Cache Read'', bv_side = Side_input, bv_isBase = False,
      bv_isConditionOnly = False, bv_group = Some (js ''cache'') \<rparr>,
    \<lparr> bv_key = js ''cc'', bv_field = Some (js ''cacheCreatePrice''),
      bv_tierField = Some (js ''cache_create_unit_cost''), bv_label = js ''Cache create price'',
      bv_shortLabel = js ''Cache Write'', bv_side = Side_input, bv_isBase = False,
      bv_isConditionOnly = False, bv_group = Some (js ''cache'') \<rparr>,
    \<lparr> bv_key = js ''cc1h'', bv_field = Some (js ''cacheCreate1hPrice''),
      bv_tierField = Some (js ''cache_create_1h_unit_cost''), bv_label = js ''Cache create (1h) price'',
      bv_shortLabel = js ''Cache Write (1h)'', bv_side = Side_input, bv_isBase = False,
      bv_isConditionOnly = False, bv_group = Some (js ''cache'') \<rparr>,
    \<lparr> bv_key = js ''img'', bv_field = Some (js ''imagePrice''),
      bv_tierField = Some (js ''image_unit_cost''), bv_label = js ''Image input price'',
      bv_shortLabel = js ''Image In'', bv_side = Side_input, bv_isBase = False,
      bv_isConditionOnly = False, bv_group = Some (js ''media'') \<rparr>,
    \<lparr> bv_key = js ''img_o'', bv_field = Some (js ''imageOutputPrice''),
      bv_tierField = Some (js ''image_output_unit_cost''), bv_label = js ''Image output price'',
      bv_shortLabel = js ''Image Out'', bv_side = Side_output, bv_isBase = False,
      bv_isConditionOnly = False, bv_group = Some (js ''media'') \<rparr>,
    \<lparr> bv_key = js ''ai'', bv_field = Some (js ''audioInputPrice''),
      bv_tierField = Some (js ''audio_input_unit_cost''), bv_label = js ''Audio input price'',
      bv_shortLabel = js ''Audio In'', bv_side = Side_input, bv_isBase = False,
      bv_isConditionOnly = False, bv_group = Some (js ''media'') \<rparr>,
    \<lparr> bv_key = js ''ao'', bv_field = Some (js ''audioOutputPrice''),
      bv_tierField = Some (js ''audio_output_unit_cost''), bv_label = js ''Audio output price'',
      bv_shortLabel = js ''Audio Out'', bv_side = Side_output, bv_isBase = False,
      bv_isConditionOnly = False, bv_group = Some (js ''media'') \<rparr>]"

definition BILLING_PRICING_VARS :: "BillingVar list" where
  "BILLING_PRICING_VARS = filter (\<lambda>v. \<not> bv_isConditionOnly v) BILLING_VARS"

definition BILLING_CONDITION_VARS :: "jstr list" where
  "BILLING_CONDITION_VARS =
     map bv_key (filter (\<lambda>v. bv_isBase v \<or> bv_isConditionOnly v) BILLING_VARS)"

definition BILLING_VAR_KEY_TO_FIELD :: "(jstr \<times> jstr) list" where
  "BILLING_VAR_KEY_TO_FIELD = map (\<lambda>v. (bv_key v, the (bv_field v))) BILLING_PRICING_VARS"

definition BILLING_EXTRA_VARS :: "BillingVar list" where
  "BILLING_EXTRA_VARS = filter (\<lambda>v. \<not> bv_isBase v \<and> \<not> bv_isConditionOnly v) BILLING_VARS"

text \<open>Pairs of \<open>field\<close> and \<open>exprVar\<close>.\<close>

definition BILLING_CACHE_VAR_MAP :: "(jstr \<times> jstr) list" where
  "BILLING_CACHE_VAR_MAP = map (\<lambda>v. (the (bv_tierField v), bv_key v)) BILLING_EXTRA_VARS"

abbreviation RSpaces :: rx where
  "RSpaces \<equiv> RStar (RCh is_space)"

definition BILLING_VAR_REGEX :: rx where
  "BILLING_VAR_REGEX = RSeqs [RWordB, RGrp 1 (RAlts (map (\<lambda>v. RStr (bv_key v)) BILLING_PRICING_VARS)),
     RSpaces, RLit 42, RSpaces, RGrp 2 (RPlus (RCh num_char))]"

section \<open>Request-rule data\<close>

definition SOURCE_PARAM :: jstr where "SOURCE_PARAM = js ''param''"
definition SOURCE_HEADER :: jstr where "SOURCE_HEADER = js ''header''"
definition SOURCE_TIME :: jstr where "SOURCE_TIME = js ''time''"
definition MATCH_EQ :: jstr where "MATCH_EQ = js ''eq''"
definition MATCH_CONTAINS :: jstr where "MATCH_CONTAINS = js ''contains''"
definition MATCH_GT :: jstr where "MATCH_GT = js ''gt''"
definition MATCH_GTE :: jstr where "MATCH_GTE = js ''gte''"
definition MATCH_LT :: jstr where "MATCH_LT = js ''lt''"
definition MATCH_LTE :: jstr where "MATCH_LTE = js ''lte''"
definition MATCH_EXISTS :: jstr where "MATCH_EXISTS = js ''exists''"
definition MATCH_RANGE :: jstr where "MATCH_RANGE = js ''range''"

lemmas match_defs = SOURCE_PARAM_def SOURCE_HEADER_def SOURCE_TIME_def MATCH_EQ_def
  MATCH_CONTAINS_def MATCH_GT_def MATCH_GTE_def MATCH_LT_def MATCH_LTE_def MATCH_EXISTS_def
  MATCH_RANGE_def

definition TIME_FUNCS :: "jstr list" where
  "TIME_FUNCS = [js ''hour'', js ''minute'', js ''weekday'', js ''month'', js ''day'']"

definition COMMON_TIMEZONES :: "(jstr \<times> jstr) list" where
  "COMMON_TIMEZONES = [
    (js ''Asia/Shanghai'', js ''UTC+8 Shanghai (Asia/Shanghai)''),
    (js ''UTC'', js ''UTC''),
    (js ''America/New_York'', js ''UTC-5 New York (America/New_York)''),
    (js ''America/Los_Angeles'', js ''UTC-8 Los Angeles (America/Los_Angeles)''),
    (js ''America/Chicago'', js ''UTC-6 Chicago (America/Chicago)''),
    (js ''Europe/London'', js ''UTC+0 London (Europe/London)''),
    (js ''Europe/Berlin'', js ''UTC+1 Berlin (Europe/Berlin)''),
    (js ''Asia/Tokyo'', js ''UTC+9 Tokyo (Asia/Tokyo)''),
    (js ''Asia/Singapore'', js ''UTC+8 Singapore (Asia/Singapore)''),
    (js ''Asia/Seoul'', js ''UTC+9 Seoul (Asia/Seoul)''),
    (js ''Australia/Sydney'', js ''UTC+10 Sydney (Australia/Sydney)'')]"

definition NUMERIC_LITERAL_REGEX :: rx where
  "NUMERIC_LITERAL_REGEX = RSeqs [RBol, ROpt (RLit 45),
     RAlt (RSeqs [RPlus (RCh is_digit), ROpt (RLit 46), RStar (RCh is_digit)])
          (RSeqs [RLit 46, RPlus (RCh is_digit)]),
     ROpt (RSeqs [RCh (\<lambda>c. c = 101 \<or> c = 69), ROpt (RCh (\<lambda>c. c = 43 \<or> c = 45)), RPlus (RCh is_digit)]),
     REol]"

definition is_numeric_literal :: "jstr \<Rightarrow> bool" where
  "is_numeric_literal s = rx_test NUMERIC_LITERAL_REGEX s"

record ParamHeaderCondition =
  ph_source :: jstr
  ph_path :: jstr
  ph_mode :: jstr
  ph_value :: jstr

record TimeCondition =
  tc_timeFunc :: jstr
  tc_timezone :: jstr
  tc_mode :: jstr
  tc_value :: jstr
  tc_rangeStart :: jstr
  tc_rangeEnd :: jstr

datatype RequestCondition = Time_cond TimeCondition | PH_cond ParamHeaderCondition

record RequestRuleGroup =
  rg_conditions :: "RequestCondition list"
  rg_multiplier :: jstr

record TierCondition =
  tier_var :: jstr
  tier_op :: jstr
  tier_value :: jnum

record ParsedTier =
  pt_label :: jstr
  pt_conditions :: "TierCondition list"
  pt_fields :: "(jstr \<times> jnum) list"

section \<open>The tier parser\<close>

definition stripExprVersion :: "jstr \<Rightarrow> jnum \<times> jstr" where
  "stripExprVersion exprStr = (if exprStr = [] then (JFin 1, [])
     else case rx_match (RSeqs [RBol, RLit 118, RGrp 1 (RPlus (RCh is_digit)), RLit 58,
         RGrp 2 (RStar (RCh (\<lambda>_. True))), REol]) exprStr of
       Some m \<Rightarrow> (str_to_num (cap m 1), cap m 2)
     | None \<Rightarrow> (JFin 1, exprStr))"

definition coeffs_of :: "jstr \<Rightarrow> (jstr \<times> jnum) list" where
  "coeffs_of bodyStr = foldl (\<lambda>coeffs m. if cap m 1 \<in> fst ` set coeffs then coeffs
     else coeffs @ [(cap m 1, str_to_num (cap m 2))]) [] (rx_all BILLING_VAR_REGEX None bodyStr)"

definition parseTierBody :: "jstr \<Rightarrow> (jstr \<times> jnum) list" where
  "parseTierBody bodyStr = (let coeffs = coeffs_of bodyStr in
     map (\<lambda>(varName, field). (field, case map_of coeffs varName of None \<Rightarrow> JFin 0
       | Some x \<Rightarrow> jor x (JFin 0))) BILLING_VAR_KEY_TO_FIELD)"

definition cond_num :: "nat \<Rightarrow> bool" where
  "cond_num c = (is_digit c \<or> c = 46 \<or> c = 101 \<or> c = 69 \<or> c = 43)"

definition rx_cond_var :: rx where
  "rx_cond_var = RAlts [RStr (js ''p''), RStr (js ''c''), RStr (js ''len'')]"

definition rx_cond_op :: rx where
  "rx_cond_op = RAlts [RStr (js ''<''), RStr (js ''<=''), RStr (js ''>''), RStr (js ''>='')]"

definition rx_cond_group :: rx where
  "rx_cond_group = RGrp 1 (RSeqs
     [rx_cond_var, RSpaces, rx_cond_op, RSpaces, RPlus (RCh cond_num),
      RStar (RSeqs [RSpaces, RStr (js ''&&''), RSpaces, rx_cond_var, RSpaces, rx_cond_op, RSpaces,
        RPlus (RCh cond_num)])])"

definition tier_regex :: rx where
  "tier_regex = RSeqs [ROpt (RSeqs [rx_cond_group, RSpaces, RLit 63, RSpaces]),
     RStr (js ''tier(\"''), RGrp 2 (RStar (RCh (\<lambda>c. c \<noteq> 34))), RStr (js ''\",''), RSpaces,
     RGrp 3 (RPlus (RCh (\<lambda>c. c \<noteq> 41))), RLit 41]"

text \<open>\<open>condStr.split(/\s*&&\s*/)\<close>: the pieces between matches of the separator.\<close>

definition rx_and_sep :: rx where
  "rx_and_sep = RSeqs [RSpaces, RStr (js ''&&''), RSpaces]"

fun split_rx :: "nat \<Rightarrow> rx \<Rightarrow> jstr \<Rightarrow> jstr \<Rightarrow> jstr list" where
  "split_rx 0 r acc s = [acc @ s]"
| "split_rx (Suc n) r acc s = (case s of [] \<Rightarrow> [acc]
    | c # t \<Rightarrow> (case rx_at r None s of
        Some (_, s', _) \<Rightarrow> if length s' < length s then acc # split_rx n r [] s'
          else split_rx n r (acc @ [c]) t
      | None \<Rightarrow> split_rx n r (acc @ [c]) t))"

definition parse_tier_condition :: "jstr \<Rightarrow> TierCondition option" where
  "parse_tier_condition cp = map_option
     (\<lambda>cm. \<lparr> tier_var = cap cm 1, tier_op = cap cm 2, tier_value = str_to_num (cap cm 3) \<rparr>)
     (rx_match (RSeqs [RBol, RGrp 1 rx_cond_var, RSpaces, RGrp 2 rx_cond_op, RSpaces,
        RGrp 3 (RPlus (RCh cond_num)), REol]) (trim cp))"

definition tier_of_match :: "caps \<Rightarrow> ParsedTier" where
  "tier_of_match m = (let condStr = cap m 1 in
     \<lparr> pt_label = cap m 2,
       pt_conditions = (if condStr = [] then []
         else List.map_filter parse_tier_condition
           (split_rx (length condStr) rx_and_sep [] condStr)),
       pt_fields = parseTierBody (cap m 3) \<rparr>)"

definition parseTiersFromExpr :: "jstr \<Rightarrow> ParsedTier list" where
  "parseTiersFromExpr exprStr = (if exprStr = [] then []
     else map tier_of_match (rx_all tier_regex None (snd (stripExprVersion exprStr))))"

text \<open>The comparison signs of a label in their ASCII form; \<open>lower\<close> is \<open>toLowerCase\<close>.\<close>

fun fold_signs :: "nat \<Rightarrow> nat list \<Rightarrow> nat list \<Rightarrow> jstr \<Rightarrow> jstr" where
  "fold_signs sign heads singles [] = []"
| "fold_signs sign heads singles [c] = (if c \<in> set heads \<or> c \<in> set singles then [sign] else [c])"
| "fold_signs sign heads singles (c # d # s) =
     (if c \<in> set heads then
        sign # (if d = 61 \<or> d = 65309 then fold_signs sign heads singles s
                else fold_signs sign heads singles (d # s))
      else (if c \<in> set singles then sign else c) # fold_signs sign heads singles (d # s))"

definition normalizeTierLabel :: "(jstr \<Rightarrow> jstr) \<Rightarrow> jstr option \<Rightarrow> jstr" where
  "normalizeTierLabel lower label = (case label of None \<Rightarrow> []
    | Some s \<Rightarrow> if s = [] then []
        else lower (filter (\<lambda>c. \<not> is_space c)
          (fold_signs 62 [62, 65310] [8805] (fold_signs 60 [60, 65308] [8804] s))))"

end
