(* ===== verification/BillingRules.thy ===== *)
theory BillingRules
  imports BillingExpr
begin

text \<open>
  The request-rule part of \<open>features/pricing/lib/billing-expr.ts\<close>: the top-level splitters, the
  parser of rule factors, the functions joining and splitting billing expression and rules, and
  the editor's normaliser and printer.
\<close>

section \<open>Splitting at top level\<close>

text \<open>
  The loop shared by the two splitters. The source walks an index and cuts slices; here \<open>cur\<close> is
  the slice from \<open>start\<close> to the index. A separator is skipped as a whole.
\<close>

function split_top :: "jstr \<Rightarrow> int \<Rightarrow> jstr \<Rightarrow> jstr \<Rightarrow> jstr list" where
  "split_top sep depth cur [] = [trim cur]"
| "split_top sep depth cur (c # s) =
     (let depth' = (if c = 40 then depth + 1 else if c = 41 then depth - 1 else depth) in
      if depth' = 0 \<and> starts_with sep (c # s)
      then trim cur # split_top sep depth' [] (drop (length sep - 1) s)
      else split_top sep depth' (cur @ [c]) s)"
  by pat_completeness auto
termination by (relation "measure (\<lambda>(sep, depth, cur, s). length s)") auto

definition splitTopLevelMultiply :: "jstr \<Rightarrow> jstr list" where
  "splitTopLevelMultiply expr = filter (\<lambda>p. p \<noteq> []) (split_top (js '' * '') 0 [] expr)"

definition splitTopLevelAnd :: "jstr \<Rightarrow> jstr list" where
  "splitTopLevelAnd expr = filter (\<lambda>p. p \<noteq> []) (split_top (js '' && '') 0 [] expr)"

section \<open>The rule parser\<close>

text \<open>A literal that is not \<open>true\<close>, \<open>false\<close> or a number is read as JSON; \<open>VNull\<close> stands for
  the source's \<open>null\<close>, which a syntax error gives as well.\<close>

definition parseExprLiteral :: "jstr \<Rightarrow> jval" where
  "parseExprLiteral raw = (let text = trim raw in
     if text = js ''true'' \<or> text = js ''false'' then VStr text
     else if is_numeric_literal text then VStr text
     else case json_parse text of Some v \<Rightarrow> v | None \<Rightarrow> VNull)"

definition rx_time_func :: rx where
  "rx_time_func = RAlts [RStr (js ''hour''), RStr (js ''minute''), RStr (js ''weekday''),
     RStr (js ''month''), RStr (js ''day'')]"

definition rx_quoted :: "nat \<Rightarrow> rx" where
  "rx_quoted i = RGrp i (RPlus (RCh (\<lambda>c. c \<noteq> 34)))"

definition rx_num :: "nat \<Rightarrow> rx" where
  "rx_num i = RGrp i (RPlus (RCh num_char))"

definition line_end :: "nat \<Rightarrow> bool" where
  "line_end c = (c = 10 \<or> c = 13 \<or> c = 8232 \<or> c = 8233)"

definition rx_json_char :: rx where
  "rx_json_char = RAlt (RCh (\<lambda>c. c \<noteq> 34 \<and> c \<noteq> 92)) (RSeq (RLit 92) (RCh (\<lambda>c. \<not> line_end c)))"

definition rx_json_string :: "nat \<Rightarrow> rx" where
  "rx_json_string i = RGrp i (RSeqs [RLit 34, RStar rx_json_char, RLit 34])"

definition rx_time_range :: "rx list" where
  "rx_time_range = [RGrp 1 rx_time_func, RStr (js ''(\"''), rx_quoted 2, RStr (js ''\") >= ''), rx_num 3,
     RStr (js '' || ''), RRef 1, RStr (js ''(\"''), RRef 2, RStr (js ''\") < ''), rx_num 4]"

definition tryParseTimeCondition :: "jstr \<Rightarrow> RequestCondition option" where
  "tryParseTimeCondition expr =
     (case rx_match (RSeqs (RBol # rx_time_range @ [REol])) expr of
        Some m \<Rightarrow> Some (Time_cond \<lparr> tc_timeFunc = cap m 1, tc_timezone = cap m 2,
          tc_mode = MATCH_RANGE, tc_value = [], tc_rangeStart = cap m 3, tc_rangeEnd = cap m 4 \<rparr>)
      | None \<Rightarrow>
     (case rx_match (RSeqs (RBol # RLit 40 # rx_time_range @ [RLit 41, REol])) expr of
        Some m \<Rightarrow> Some (Time_cond \<lparr> tc_timeFunc = cap m 1, tc_timezone = cap m 2,
          tc_mode = MATCH_RANGE, tc_value = [], tc_rangeStart = cap m 3, tc_rangeEnd = cap m 4 \<rparr>)
      | None \<Rightarrow>
     (case rx_match (RSeqs [RBol, RGrp 1 rx_time_func, RStr (js ''(\"''), rx_quoted 2,
         RStr (js ''\") ''), RGrp 3 (RAlts [RStr (js ''==''), RStr (js ''>=''), RStr (js ''<'')]),
         RStr (js '' ''), rx_num 4, REol]) expr of
        Some m \<Rightarrow> Some (Time_cond \<lparr> tc_timeFunc = cap m 1, tc_timezone = cap m 2,
          tc_mode = (if cap m 3 = js ''=='' then MATCH_EQ else if cap m 3 = js ''>='' then MATCH_GTE
            else if cap m 3 = js ''<'' then MATCH_LT else MATCH_EQ),
          tc_value = cap m 4, tc_rangeStart = [], tc_rangeEnd = [] \<rparr>)
      | None \<Rightarrow> None)))"

abbreviation ph_cond :: "jstr \<Rightarrow> jstr \<Rightarrow> jstr \<Rightarrow> jstr \<Rightarrow> RequestCondition" where
  "ph_cond s p m v \<equiv> PH_cond \<lparr> ph_source = s, ph_path = p, ph_mode = m, ph_value = v \<rparr>"

definition rx_header_exists :: rx where
  "rx_header_exists = RSeqs [RBol, RStr (js ''header(\"''), rx_quoted 1, RStr (js ''\") != \"\"''), REol]"

definition rx_param_exists :: rx where
  "rx_param_exists = RSeqs [RBol, RStr (js ''param(\"''), rx_quoted 1, RStr (js ''\") != nil''), REol]"

definition rx_header_has :: rx where
  "rx_header_has = RSeqs [RBol, RStr (js ''has(header(\"''), rx_quoted 1, RStr (js ''\"), ''),
     rx_json_string 2, RLit 41, REol]"

definition rx_param_has :: rx where
  "rx_param_has = RSeqs [RBol, RStr (js ''param(\"''), rx_quoted 1,
     RStr (js ''\") != nil && has(param(\"''), rx_quoted 2, RStr (js ''\"), ''), rx_json_string 3,
     RLit 41, REol]"

definition rx_param_cmp :: rx where
  "rx_param_cmp = RSeqs [RBol, RStr (js ''param(\"''), rx_quoted 1,
     RStr (js ''\") != nil && param(\"''), rx_quoted 2, RStr (js ''\") ''),
     RGrp 3 (RAlts [RStr (js ''>''), RStr (js ''>=''), RStr (js ''<''), RStr (js ''<='')]),
     RStr (js '' ''), rx_num 4, REol]"

definition rx_eq :: rx where
  "rx_eq = RSeqs [RBol, RGrp 1 (RAlts [RStr (js ''param''), RStr (js ''header'')]), RStr (js ''(\"''),
     rx_quoted 2, RStr (js ''\") == ''), RGrp 3 (RPlus (RCh (\<lambda>c. \<not> line_end c))), REol]"

definition cmp_mode :: "jstr \<Rightarrow> jstr" where
  "cmp_mode op = (if op = js ''>'' then MATCH_GT else if op = js ''>='' then MATCH_GTE
     else if op = js ''<'' then MATCH_LT else MATCH_LTE)"

text \<open>\<open>JSON.parse(m) as string\<close>: the pattern leaves only string literals.\<close>

definition parsed_string :: "jval \<Rightarrow> jstr" where
  "parsed_string v = (case v of VStr s \<Rightarrow> s | _ \<Rightarrow> [])"

definition tryParseRequestCondition :: "jstr \<Rightarrow> js_error + RequestCondition option" where
  "tryParseRequestCondition expr = (case tryParseTimeCondition expr of
      Some tc \<Rightarrow> Inr (Some tc)
    | None \<Rightarrow> (case rx_match rx_header_exists expr of
        Some m \<Rightarrow> Inr (Some (ph_cond SOURCE_HEADER (cap m 1) MATCH_EXISTS []))
    | None \<Rightarrow> (case rx_match rx_param_exists expr of
        Some m \<Rightarrow> Inr (Some (ph_cond SOURCE_PARAM (cap m 1) MATCH_EXISTS []))
    | None \<Rightarrow> (case rx_match rx_header_has expr of
        Some m \<Rightarrow> bind_res (json_parse_res (cap m 2)) (\<lambda>v.
          Inr (Some (ph_cond SOURCE_HEADER (cap m 1) MATCH_CONTAINS (parsed_string v))))
    | None \<Rightarrow>
      let mh = rx_match rx_param_has expr in
      if mh \<noteq> None \<and> cap (the mh) 1 = cap (the mh) 2 then
        bind_res (json_parse_res (cap (the mh) 3)) (\<lambda>v.
          Inr (Some (ph_cond SOURCE_PARAM (cap (the mh) 1) MATCH_CONTAINS (parsed_string v))))
      else let mc = rx_match rx_param_cmp expr in
      if mc \<noteq> None \<and> cap (the mc) 1 = cap (the mc) 2 then
        Inr (Some (ph_cond SOURCE_PARAM (cap (the mc) 1) (cmp_mode (cap (the mc) 3)) (cap (the mc) 4)))
      else (case rx_match rx_eq expr of
        Some m \<Rightarrow> (let parsedValue = parseExprLiteral (cap m 3) in
          if parsedValue = VNull then Inr None
          else Inr (Some (ph_cond (cap m 1) (cap m 2) MATCH_EQ (val_to_str parsedValue))))
      | None \<Rightarrow> Inr None)))))"

definition rx_rule_factor :: rx where
  "rx_rule_factor = RSeqs [RBol, RLit 40, RGrp 1 (RPlus (RCh (\<lambda>_. True))), RStr (js '' ? ''), rx_num 2,
     RStr (js '' : 1)''), REol]"

text \<open>The loop over the conjuncts: the first one that is no condition ends it with \<open>null\<close>.\<close>

fun parse_conditions :: "jstr list \<Rightarrow> js_error + RequestCondition list option" where
  "parse_conditions [] = Inr (Some [])"
| "parse_conditions (ap # aps) = bind_res (tryParseRequestCondition (trim ap)) (\<lambda>cond. case cond of
      None \<Rightarrow> Inr None
    | Some c \<Rightarrow> bind_res (parse_conditions aps) (\<lambda>r. Inr (map_option (\<lambda>cs. c # cs) r)))"

definition tryParseRuleGroupFactor :: "jstr \<Rightarrow> js_error + RequestRuleGroup option" where
  "tryParseRuleGroupFactor part = (case rx_match rx_rule_factor part of
      None \<Rightarrow> Inr None
    | Some m \<Rightarrow> bind_res (parse_conditions (splitTopLevelAnd (cap m 1))) (\<lambda>r. case r of
          None \<Rightarrow> Inr None
        | Some conditions \<Rightarrow> if conditions = [] then Inr None
            else Inr (Some \<lparr> rg_conditions = conditions, rg_multiplier = cap m 2 \<rparr>)))"

fun parse_factors :: "jstr list \<Rightarrow> js_error + RequestRuleGroup list option" where
  "parse_factors [] = Inr (Some [])"
| "parse_factors (part # parts) = bind_res (tryParseRuleGroupFactor part) (\<lambda>r. case r of
      None \<Rightarrow> Inr None
    | Some g \<Rightarrow> bind_res (parse_factors parts) (\<lambda>r'. Inr (map_option (\<lambda>gs. g # gs) r')))"

definition tryParseRequestRuleExpr :: "jstr \<Rightarrow> js_error + RequestRuleGroup list option" where
  "tryParseRequestRuleExpr expr = (let trimmed = trim expr in
     if trimmed = [] then Inr (Some []) else parse_factors (splitTopLevelMultiply trimmed))"

section \<open>Joining and splitting\<close>

fun outer_parens_loop :: "int \<Rightarrow> jstr \<Rightarrow> bool" where
  "outer_parens_loop depth [] = (depth = 0)"
| "outer_parens_loop depth (c # s) =
     (let depth' = (if c = 40 then depth + 1 else if c = 41 then depth - 1 else depth) in
      if depth' = 0 \<and> s \<noteq> [] then False else outer_parens_loop depth' s)"

definition hasFullOuterParens :: "jstr \<Rightarrow> bool" where
  "hasFullOuterParens expr =
     (if \<not> starts_with (js ''('') expr \<or> \<not> ends_with (js '')'') expr then False
      else outer_parens_loop 0 expr)"

text \<open>\<open>current.slice(1, -1)\<close>.\<close>

definition strip_ends :: "jstr \<Rightarrow> jstr" where
  "strip_ends s = butlast (tl s)"

lemma length_trim: "length (trim s) \<le> length s"
  by (metis length_dropWhile_le length_rev order.trans trim_def)

function unwrap_loop :: "jstr \<Rightarrow> jstr" where
  "unwrap_loop current = (if hasFullOuterParens current
     then unwrap_loop (trim (strip_ends current)) else current)"
  by pat_completeness auto
termination
proof (relation "measure length")
  fix s assume "hasFullOuterParens s"
  then have "s \<noteq> []" by (auto simp: hasFullOuterParens_def starts_with_def)
  then have "length (strip_ends s) < length s" by (simp add: strip_ends_def less_imp_diff_less)
  with le_less_trans [OF length_trim this] show "(trim (strip_ends s), s) \<in> measure length"
    by simp
qed simp

declare unwrap_loop.simps [simp del]

definition unwrapOuterParens :: "jstr \<Rightarrow> jstr" where
  "unwrapOuterParens expr = unwrap_loop (trim expr)"

text \<open>Which parts of a product are rules; a thrown error leaves the loop.\<close>

fun rule_flags :: "jstr list \<Rightarrow> js_error + bool list" where
  "rule_flags [] = Inr []"
| "rule_flags (part # parts) = bind_res (tryParseRequestRuleExpr part) (\<lambda>parsed.
     bind_res (rule_flags parts) (\<lambda>fs.
       Inr ((case parsed of Some gs \<Rightarrow> length gs > 0 | None \<Rightarrow> False) # fs)))"

record SplitExpr =
  billingExpr :: jstr
  requestRuleExpr :: jstr

definition splitBillingExprAndRequestRules :: "jstr \<Rightarrow> js_error + SplitExpr" where
  "splitBillingExprAndRequestRules expr = (let trimmed = trim expr in
     if trimmed = [] then Inr \<lparr> billingExpr = [], requestRuleExpr = [] \<rparr>
     else let parts = splitTopLevelMultiply trimmed in
       if length parts \<le> 1 then Inr \<lparr> billingExpr = trimmed, requestRuleExpr = [] \<rparr>
       else bind_res (rule_flags parts) (\<lambda>fs.
         let ruleParts = map fst (filter snd (zip parts fs));
             baseParts = map fst (filter (\<lambda>pf. \<not> snd pf) (zip parts fs)) in
         if ruleParts = [] \<or> length baseParts \<noteq> 1
         then Inr \<lparr> billingExpr = trimmed, requestRuleExpr = [] \<rparr>
         else Inr \<lparr> billingExpr = unwrapOuterParens (hd baseParts),
                requestRuleExpr = join (js '' * '') ruleParts \<rparr>))"

definition combineBillingExpr :: "jstr \<Rightarrow> jstr \<Rightarrow> jstr" where
  "combineBillingExpr baseExpr requestRule = (let base = trim baseExpr; rules = trim requestRule in
     if base = [] then [] else if rules = [] then base
     else js ''('' @ base @ js '') * '' @ rules)"

section \<open>The editor\<close>

definition createEmptyCondition :: RequestCondition where
  "createEmptyCondition = ph_cond SOURCE_PARAM [] MATCH_EQ []"

definition createEmptyTimeCondition :: RequestCondition where
  "createEmptyTimeCondition = Time_cond \<lparr> tc_timeFunc = js ''hour'', tc_timezone = js ''Asia/Shanghai'',
     tc_mode = MATCH_GTE, tc_value = [], tc_rangeStart = [], tc_rangeEnd = [] \<rparr>"

definition createEmptyRuleGroup :: RequestRuleGroup where
  "createEmptyRuleGroup = \<lparr> rg_conditions = [createEmptyCondition], rg_multiplier = [] \<rparr>"

definition createEmptyTimeRuleGroup :: RequestRuleGroup where
  "createEmptyTimeRuleGroup = \<lparr> rg_conditions = [createEmptyTimeCondition], rg_multiplier = [] \<rparr>"

text \<open>Pairs of \<open>value\<close> and \<open>labelKey\<close>.\<close>

definition getRequestRuleMatchOptions :: "jstr \<Rightarrow> (jstr \<times> jstr) list" where
  "getRequestRuleMatchOptions source =
     (if source = SOURCE_TIME then
        [(MATCH_EQ, js ''Equals''), (MATCH_GTE, js ''Greater than or equal''),
         (MATCH_LT, js ''Less than''), (MATCH_RANGE, js ''Overnight range'')]
      else let base = [(MATCH_EQ, js ''Equals''), (MATCH_CONTAINS, js ''Contains''),
          (MATCH_EXISTS, js ''Exists'')] in
        if source = SOURCE_HEADER then base
        else base @ [(MATCH_GT, js ''Greater than''), (MATCH_GTE, js ''Greater than or equal''),
          (MATCH_LT, js ''Less than''), (MATCH_LTE, js ''Less than or equal'')])"

text \<open>A \<open>Partial<RequestCondition>\<close>: a missing field, \<open>null\<close> and \<open>undefined\<close> are \<open>None\<close>.\<close>

record PartialCondition =
  pc_source :: "jstr option"
  pc_timeFunc :: "jstr option"
  pc_timezone :: "jstr option"
  pc_path :: "jstr option"
  pc_mode :: "jstr option"
  pc_value :: "jstr option"
  pc_rangeStart :: "jstr option"
  pc_rangeEnd :: "jstr option"

definition opt_str :: "jstr option \<Rightarrow> jstr" where
  "opt_str x = (case x of None \<Rightarrow> [] | Some s \<Rightarrow> s)"

definition isTimeFunc :: "jstr option \<Rightarrow> bool" where
  "isTimeFunc v = (case v of None \<Rightarrow> False | Some s \<Rightarrow> s \<in> set TIME_FUNCS)"

definition pick_mode :: "jstr \<Rightarrow> jstr option \<Rightarrow> jstr \<Rightarrow> jstr" where
  "pick_mode source mode fallback =
     (if \<exists>item\<in>set (getRequestRuleMatchOptions source). Some (fst item) = mode then the mode else fallback)"

definition normalize_partial :: "PartialCondition option \<Rightarrow> RequestCondition" where
  "normalize_partial cond =
     (let field = (\<lambda>f. case cond of None \<Rightarrow> None | Some c \<Rightarrow> f c);
          source = (if field pc_source = Some (js ''time'') then SOURCE_TIME
            else if field pc_source = Some (js ''header'') then SOURCE_HEADER else SOURCE_PARAM) in
      if source = SOURCE_TIME then
        Time_cond \<lparr> tc_timeFunc = (if isTimeFunc (field pc_timeFunc) then the (field pc_timeFunc)
            else js ''hour''),
          tc_timezone = sor (opt_str (field pc_timezone)) (js ''Asia/Shanghai''),
          tc_mode = pick_mode SOURCE_TIME (field pc_mode) MATCH_GTE,
          tc_value = opt_str (field pc_value), tc_rangeStart = opt_str (field pc_rangeStart),
          tc_rangeEnd = opt_str (field pc_rangeEnd) \<rparr>
      else PH_cond \<lparr> ph_source = source, ph_path = opt_str (field pc_path),
          ph_mode = pick_mode source (field pc_mode) MATCH_EQ, ph_value = opt_str (field pc_value) \<rparr>)"

text \<open>A complete condition is a partial one with every field of its type present.\<close>

fun partial_of :: "RequestCondition \<Rightarrow> PartialCondition" where
  "partial_of (Time_cond t) = \<lparr> pc_source = Some SOURCE_TIME, pc_timeFunc = Some (tc_timeFunc t),
     pc_timezone = Some (tc_timezone t), pc_path = None, pc_mode = Some (tc_mode t),
     pc_value = Some (tc_value t), pc_rangeStart = Some (tc_rangeStart t),
     pc_rangeEnd = Some (tc_rangeEnd t) \<rparr>"
| "partial_of (PH_cond c) = \<lparr> pc_source = Some (ph_source c), pc_timeFunc = None, pc_timezone = None,
     pc_path = Some (ph_path c), pc_mode = Some (ph_mode c), pc_value = Some (ph_value c),
     pc_rangeStart = None, pc_rangeEnd = None \<rparr>"

definition normalizeCondition :: "RequestCondition \<Rightarrow> RequestCondition" where
  "normalizeCondition c = normalize_partial (Some (partial_of c))"

definition buildExprLiteral :: "jstr \<Rightarrow> jstr \<Rightarrow> jstr" where
  "buildExprLiteral mode v = (let text = trim v in
     if mode = MATCH_CONTAINS then json_quote text
     else if text = js ''true'' \<or> text = js ''false'' then text
     else if is_numeric_literal text then text
     else json_quote text)"

definition time_expr :: "TimeCondition \<Rightarrow> jstr" where
  "time_expr n = (let tz = json_quote (tc_timezone n); fn = tc_timeFunc n @ js ''('' @ tz @ js '')'' in
     if tc_mode n = MATCH_RANGE then
       let s = trim (tc_rangeStart n); e = trim (tc_rangeEnd n) in
       if \<not> is_numeric_literal s \<or> \<not> is_numeric_literal e then []
       else fn @ js '' >= '' @ s @ js '' || '' @ fn @ js '' < '' @ e
     else let v = trim (tc_value n) in
       if \<not> is_numeric_literal v then []
       else fn @ js '' '' @ (if tc_mode n = MATCH_EQ then js ''=='' else if tc_mode n = MATCH_GTE
           then js ''>='' else if tc_mode n = MATCH_LT then js ''<'' else js ''=='') @ js '' '' @ v)"

definition cmp_op :: "jstr \<Rightarrow> jstr" where
  "cmp_op mode = (if mode = MATCH_GT then js ''>'' else if mode = MATCH_GTE then js ''>=''
     else if mode = MATCH_LT then js ''<'' else js ''<='')"

definition ph_expr :: "ParamHeaderCondition \<Rightarrow> jstr" where
  "ph_expr n = (let path = trim (ph_path n) in
     if path = [] then []
     else let header = (ph_source n = SOURCE_HEADER);
         sourceExpr = (if header then js ''header('' else js ''param('') @ json_quote path @ js '')'' in
       if ph_mode n = MATCH_EXISTS then
         (if header then sourceExpr @ js '' != \"\"'' else sourceExpr @ js '' != nil'')
       else if ph_mode n = MATCH_CONTAINS then
         (if header then js ''has('' @ sourceExpr @ js '', '' @ buildExprLiteral (ph_mode n) (ph_value n) @ js '')''
          else sourceExpr @ js '' != nil && has('' @ sourceExpr @ js '', ''
            @ buildExprLiteral (ph_mode n) (ph_value n) @ js '')'')
       else if ph_mode n \<in> {MATCH_GT, MATCH_GTE, MATCH_LT, MATCH_LTE} then
         (let numText = trim (ph_value n) in
          if \<not> is_numeric_literal numText then []
          else sourceExpr @ js '' != nil && '' @ sourceExpr @ js '' '' @ cmp_op (ph_mode n) @ js '' '' @ numText)
       else sourceExpr @ js '' == '' @ buildExprLiteral (ph_mode n) (ph_value n))"

definition buildRequestConditionExpr :: "RequestCondition \<Rightarrow> jstr" where
  "buildRequestConditionExpr cond =
     (case normalizeCondition cond of Time_cond n \<Rightarrow> time_expr n | PH_cond n \<Rightarrow> ph_expr n)"

definition buildRuleGroupFactor :: "RequestRuleGroup \<Rightarrow> jstr" where
  "buildRuleGroupFactor g = (let multiplier = trim (rg_multiplier g) in
     if \<not> is_numeric_literal multiplier then []
     else let condExprs = filter (\<lambda>e. e \<noteq> []) (map buildRequestConditionExpr (rg_conditions g)) in
       if condExprs = [] then []
       else let combined = (if length condExprs = 1 then hd condExprs
           else join (js '' && '') (map (\<lambda>e. if has_sub (js '' || '') e
             then js ''('' @ e @ js '')'' else e) condExprs)) in
         js ''('' @ combined @ js '' ? '' @ multiplier @ js '' : 1)'')"

definition buildRequestRuleExpr :: "RequestRuleGroup list \<Rightarrow> jstr" where
  "buildRequestRuleExpr groups =
     join (js '' * '') (filter (\<lambda>e. e \<noteq> []) (map buildRuleGroupFactor groups))"

end
