(* ===== verification/BillingRoundtrip.thy ===== *)
theory BillingRoundtrip
  imports BillingRules
begin

text \<open>
  What the printer of request rules writes, the parser reads back: the facts about literals,
  quoted texts, depths and separators it takes, one evaluation lemma per printed form, and the
  round trip itself; then the two printed forms the parser cannot read, and the behaviour of the
  join and the split of billing expression and rules.
\<close>

section \<open>Literals\<close>

lemma numeric_literal_chars:
  assumes "is_numeric_literal s"
  shows "s \<noteq> [] \<and> list_all num_char s"
proof -
  let ?r = "RSeqs [ROpt (RLit 45),
     RAlt (RSeqs [RPlus (RCh is_digit), ROpt (RLit 46), RStar (RCh is_digit)])
          (RSeqs [RLit 46, RPlus (RCh is_digit)]),
     ROpt (RSeqs [RCh (\<lambda>c. c = 101 \<or> c = 69), ROpt (RCh (\<lambda>c. c = 43 \<or> c = 45)), RPlus (RCh is_digit)])]"
  have ne: "rx_m ?r p [] c k = None" for p c and k :: "nat option \<Rightarrow> jstr \<Rightarrow> caps \<Rightarrow> caps option"
    by (simp add: ROpt_def RLit_def RPlus_def)
  from assms have "rx_m ?r None s [] (\<lambda>p' s' c'. rx_m REol p' s' c' (\<lambda>p' s' c'. Some c')) \<noteq> None"
    by (simp add: is_numeric_literal_def NUMERIC_LITERAL_REGEX_def rx_test_RBol rx_match_RBol)
  then obtain y where y: "rx_m ?r None s [] (\<lambda>p' s' c'. rx_m REol p' s' c' (\<lambda>p' s' c'. Some c')) = Some y" by blast
  have over: "rx_over num_char ?r"
    by (auto simp: ROpt_def RLit_def RPlus_def num_char_def)
  from rx_over_consumes [OF y over] obtain u v where "s = u @ v" "list_all num_char u" "v = []"
    by (auto split: if_splits)
  with y ne show ?thesis by (cases "s = []") auto
qed

lemma num_char_facts:
  "num_char c \<Longrightarrow> c \<noteq> 34 \<and> c \<noteq> 38 \<and> c \<noteq> 40 \<and> c \<noteq> 41 \<and> c \<noteq> 124 \<and> c \<noteq> 32 \<and> c \<noteq> 63 \<and> \<not> is_space c \<and> \<not> line_end c"
  by (auto simp: num_char_def is_digit_def is_space_def line_end_def)

lemma num_trim: "list_all num_char s \<Longrightarrow> trim s = s"
  by (rule trim_no_space) (auto simp: list_all_iff dest: num_char_facts)

text \<open>Text that is printed and read without escapes and cannot be taken for syntax.\<close>

definition safe_char :: "nat \<Rightarrow> bool" where
  "safe_char c = (c \<noteq> 34 \<and> c \<noteq> 92 \<and> c \<noteq> 40 \<and> c \<noteq> 41 \<and> c \<noteq> 38 \<and> c \<noteq> 124 \<and> 32 \<le> c \<and> c < 8232)"

definition safe_text :: "jstr \<Rightarrow> bool" where
  "safe_text s = (list_all safe_char s \<and> trim s = s)"

lemma safe_json_esc: "list_all safe_char s \<Longrightarrow> json_esc s = s"
  by (induction s rule: json_esc.induct)
    (auto simp: json_esc1_def safe_char_def is_high_def is_low_def)

lemma safe_quote: "list_all safe_char s \<Longrightarrow> json_quote s = 34 # s @ [34]"
  by (simp add: json_quote_def safe_json_esc)

lemma safe_code_units: "list_all safe_char s \<Longrightarrow> code_units s"
  by (induction s) (simp_all add: code_units_def safe_char_def)

lemma safe_json_parse: "list_all safe_char s \<Longrightarrow> json_parse (34 # s @ [34]) = Some (VStr s)"
  using json_parse_text [of "VStr s"] safe_quote [of s] safe_code_units [of s]
  by (simp add: json_stringify_def)

section \<open>Separators and depth\<close>

definition bal :: "jstr \<Rightarrow> int" where
  "bal s = int (length (filter (\<lambda>c. c = 40) s)) - int (length (filter (\<lambda>c. c = 41) s))"

lemma bal_simps [simp]:
  "bal [] = 0" "bal (c # s) = (if c = 40 then 1 else if c = 41 then - 1 else 0) + bal s"
  "bal (s @ t) = bal s + bal t"
  by (simp_all add: bal_def)

lemma bal_none: "40 \<notin> set s \<Longrightarrow> 41 \<notin> set s \<Longrightarrow> bal s = 0"
  by (induction s) auto

fun depths_ok :: "int \<Rightarrow> jstr \<Rightarrow> bool" where
  "depths_ok d [] = True"
| "depths_ok d (c # s) = (let d' = (if c = 40 then d + 1 else if c = 41 then d - 1 else d)
     in 1 \<le> d' \<and> depths_ok d' s)"

lemma depths_ok_append [simp]: "depths_ok d (s @ t) = (depths_ok d s \<and> depths_ok (d + bal s) t)"
  by (induction s arbitrary: d) (auto simp: Let_def algebra_simps)

lemma depths_ok_none: "1 \<le> d \<Longrightarrow> 40 \<notin> set s \<Longrightarrow> 41 \<notin> set s \<Longrightarrow> depths_ok d s"
  by (induction s) auto

definition nest :: "jstr \<Rightarrow> bool" where
  "nest s = (bal s = 0 \<and> (\<forall>d\<ge>1. depths_ok d s))"

lemma nest_append: "nest s \<Longrightarrow> nest t \<Longrightarrow> nest (s @ t)"
  by (simp add: nest_def)

lemma nest_none: "40 \<notin> set s \<Longrightarrow> 41 \<notin> set s \<Longrightarrow> nest s"
  by (simp add: nest_def bal_none depths_ok_none)

lemma nest_Nil [simp]: "nest []"
  by (simp add: nest_def)

lemma nest_paren: "nest s \<Longrightarrow> nest (40 # s @ [41])"
  by (simp add: nest_def)

lemma nest_Cons: "nest s \<Longrightarrow> c \<noteq> 40 \<Longrightarrow> c \<noteq> 41 \<Longrightarrow> nest (c # s)"
  by (simp add: nest_def)

lemma nest_paren_app: "nest s \<Longrightarrow> nest t \<Longrightarrow> nest (40 # s @ 41 # t)"
  by (simp add: nest_def)

text \<open>Inside parentheses nothing is split; and a text without the second character of the
  separator is never split, at any depth.\<close>

lemma split_top_depths:
  "depths_ok d e \<Longrightarrow> split_top sep d cur (e @ s) = split_top sep (d + bal e) (cur @ e) s"
  by (induction e arbitrary: d cur) (auto simp: Let_def algebra_simps)

lemma split_top_nest:
  assumes "nest e"
  shows "split_top sep 0 cur (40 # e @ 41 # s)
    = (if starts_with sep (41 # s) then trim (cur @ 40 # e) # split_top sep 0 [] (drop (length sep - 1) s)
       else split_top sep 0 (cur @ 40 # e @ [41]) s)"
proof -
  have "split_top sep 1 (cur @ [40]) (e @ 41 # s) = split_top sep 1 (cur @ 40 # e) (41 # s)"
    using assms split_top_depths [of 1 e sep "cur @ [40]" "41 # s"] by (simp add: nest_def)
  then show ?thesis by simp
qed

lemma split_top_free:
  assumes "y \<notin> set e" "e = [] \<or> last e \<noteq> 32" "sep = 32 # y # sep'"
  shows "split_top sep d cur (e @ s) = split_top sep (d + bal e) (cur @ e) s"
  using assms(1,2)
proof (induction e arbitrary: d cur)
  case (Cons c e)
  have "\<not> starts_with sep (c # e @ s)"
    using Cons.prems assms(3) by (cases e) auto
  with Cons show ?case by (auto simp: Let_def algebra_simps split: if_splits)
qed simp

lemma split_top_Nil: "split_top sep d cur [] = [trim cur]"
  by simp

section \<open>Evaluating the patterns\<close>

lemma safe_not_quote: "list_all safe_char w \<Longrightarrow> \<forall>x\<in>set w. x \<noteq> 34"
  by (induction w) (auto simp: safe_char_def)

lemma quoted_delim:
  assumes "list_all safe_char w" "w \<noteq> []" "\<And>p' x t c'. x \<noteq> 34 \<Longrightarrow> k p' (x # t) c' = None"
  shows "rx_m (rx_quoted i) p (w @ 34 # s) c k = k (after_word p w) (34 # s) ((i, w) # c)"
  unfolding rx_quoted_def using assms safe_not_quote
  by (subst grp_class_delim) auto

lemma num_delim:
  assumes "list_all num_char w" "w \<noteq> []" "\<And>p' x t c'. num_char x \<Longrightarrow> k p' (x # t) c' = None"
  shows "rx_m (rx_num i) p (w @ 32 # s) c k = k (after_word p w) (32 # s) ((i, w) # c)"
  unfolding rx_num_def using assms num_char_facts [of 32]
  by (subst grp_class_delim) (auto simp: list_all_iff)

lemma num_end:
  assumes "list_all num_char w" "w \<noteq> []" "\<And>p' x t c'. num_char x \<Longrightarrow> k p' (x # t) c' = None"
  shows "rx_m (rx_num i) p w c k = k (after_word p w) [] ((i, w) # c)"
  unfolding rx_num_def using assms
  by (subst grp_class_end) (auto simp: list_all_iff)

lemma num_end_paren:
  assumes "list_all num_char w" "w \<noteq> []" "\<And>p' x t c'. num_char x \<Longrightarrow> k p' (x # t) c' = None"
  shows "rx_m (rx_num i) p (w @ [41]) c k = k (after_word p w) [41] ((i, w) # c)"
  unfolding rx_num_def using assms num_char_facts [of 41]
  by (subst grp_class_delim) (auto simp: list_all_iff)

text \<open>A quoted text of safe characters as a JSON string literal.\<close>

lemma json_char_step:
  "x \<noteq> 34 \<Longrightarrow> x \<noteq> 92 \<Longrightarrow> rx_m rx_json_char p (x # t) c k = k (Some x) t c"
  "rx_m rx_json_char p (34 # t) c k = None"
  by (cases "k (Some x) t c"; simp add: rx_json_char_def RLit_def)+

lemma json_string_star:
  assumes "list_all safe_char w" "\<And>p' x t c'. x \<noteq> 34 \<Longrightarrow> k p' (x # t) c' = None"
  shows "rx_m (RStar rx_json_char) p (w @ 34 # s) c k = k (after_word p w) (34 # s) c"
  using assms(1)
proof (induction w arbitrary: p)
  case Nil
  then show ?case by (subst rx_m.simps(5)) (simp add: json_char_step after_word_def)
next
  case (Cons x w)
  then have x: "x \<noteq> 34" "x \<noteq> 92" "safe_char x" by (simp_all add: safe_char_def)
  with Cons have "rx_m (RStar rx_json_char) (Some x) (w @ 34 # s) c k = k (after_word p (x # w)) (34 # s) c"
    by (simp add: after_word_def)
  with x assms(2) [of x p "w @ 34 # s" c] show ?case
    by (subst rx_m.simps(5), cases "k (after_word p (x # w)) (34 # s) c") (simp_all add: json_char_step)
qed

lemma json_string_delim:
  assumes "list_all safe_char w"
  shows "rx_m (rx_json_string i) p (34 # w @ 34 # s) c k
    = k (Some 34) s ((i, 34 # w @ [34]) # c)"
proof -
  have "take (Suc (Suc (length w + length s)) - length s) (34 # w @ 34 # s) = 34 # w @ [34]"
    by (simp add: Suc_diff_le)
  with assms show ?thesis unfolding rx_json_string_def
    by (simp add: json_string_star RLit_def del: take_Suc_Cons)
qed

lemma num_char_neq: "num_char x \<Longrightarrow> 32 \<noteq> x" "num_char x \<Longrightarrow> 41 \<noteq> x" "num_char x \<Longrightarrow> x \<noteq> 41"
  using num_char_facts by auto

lemmas rx_eval = num_char_neq rx_match_RBol rx_m_RStr rx_m_grp_RStr rx_m_grp_RAlt quoted_delim num_delim num_end
  num_end_paren json_string_delim RLit_def rx_time_range_def rx_time_func_def

section \<open>Conditions\<close>

lemma time_none: "tryParseTimeCondition (js ''header('' @ s) = None"
  "tryParseTimeCondition (js ''param('' @ s) = None"
  "tryParseTimeCondition (js ''has('' @ s) = None"
  unfolding tryParseTimeCondition_def
  by (simp_all add: rx_eval js_def del: rx_m.simps(7) RStr_simps)

lemma time_range_parse:
  assumes "f \<in> set TIME_FUNCS" "list_all safe_char z" "z \<noteq> []" "list_all num_char a" "a \<noteq> []"
    "list_all num_char b" "b \<noteq> []"
  defines "e \<equiv> f @ js ''(\"'' @ z @ js ''\") >= '' @ a @ js '' || '' @ f @ js ''(\"'' @ z @ js ''\") < '' @ b"
  defines "tc \<equiv> Time_cond \<lparr> tc_timeFunc = f, tc_timezone = z, tc_mode = MATCH_RANGE, tc_value = [],
    tc_rangeStart = a, tc_rangeEnd = b \<rparr>"
  shows "tryParseTimeCondition e = Some tc" "tryParseTimeCondition (js ''('' @ e @ js '')'') = Some tc"
proof -
  from assms(1) consider "f = js ''hour''" | "f = js ''minute''" | "f = js ''weekday''"
    | "f = js ''month''" | "f = js ''day''"
    unfolding TIME_FUNCS_def by force
  then show "tryParseTimeCondition e = Some tc"
    unfolding tryParseTimeCondition_def e_def tc_def
    by cases (use assms(2-7) in \<open>simp add: rx_eval cap_def js_def del: rx_m.simps(7) RStr_simps\<close>)+
  from assms(1) consider "f = js ''hour''" | "f = js ''minute''" | "f = js ''weekday''"
    | "f = js ''month''" | "f = js ''day''"
    unfolding TIME_FUNCS_def by force
  then show "tryParseTimeCondition (js ''('' @ e @ js '')'') = Some tc"
    unfolding tryParseTimeCondition_def e_def tc_def
    by cases (use assms(2-7) in \<open>simp add: rx_eval cap_def js_def del: rx_m.simps(7) RStr_simps\<close>)+
qed

lemma time_cmp_parse:
  assumes "f \<in> set TIME_FUNCS" "list_all safe_char z" "z \<noteq> []" "list_all num_char v" "v \<noteq> []"
    "mode \<in> {MATCH_EQ, MATCH_GTE, MATCH_LT}"
  shows "tryParseTimeCondition (f @ js ''(\"'' @ z @ js ''\") '' @ (if mode = MATCH_EQ then js ''=='' else
      if mode = MATCH_GTE then js ''>='' else js ''<'') @ js '' '' @ v)
    = Some (Time_cond \<lparr> tc_timeFunc = f, tc_timezone = z, tc_mode = mode, tc_value = v,
        tc_rangeStart = [], tc_rangeEnd = [] \<rparr>)"
proof -
  have op: "tryParseTimeCondition (f @ js ''(\"'' @ z @ js ''\") '' @ w @ js '' '' @ v)
      = Some (Time_cond \<lparr> tc_timeFunc = f, tc_timezone = z, tc_mode = m, tc_value = v,
        tc_rangeStart = [], tc_rangeEnd = [] \<rparr>)"
    if "w = js ''=='' \<and> m = MATCH_EQ \<or> w = js ''>='' \<and> m = MATCH_GTE \<or> w = js ''<'' \<and> m = MATCH_LT" for w m
  proof -
    from assms(1) consider "f = js ''hour''" | "f = js ''minute''" | "f = js ''weekday''"
      | "f = js ''month''" | "f = js ''day''"
      unfolding TIME_FUNCS_def by force
    then show ?thesis using that unfolding tryParseTimeCondition_def match_defs
      by cases (elim disjE conjE; use assms(2-5) in
        \<open>simp add: rx_eval cap_def js_def del: rx_m.simps(7) RStr_simps\<close>)+
  qed
  have "MATCH_GTE \<noteq> MATCH_EQ" "MATCH_LT \<noteq> MATCH_EQ" "MATCH_LT \<noteq> MATCH_GTE" by (simp_all add: match_defs)
  with assms(6) op [of "js ''==''" MATCH_EQ] op [of "js ''>=''" MATCH_GTE] op [of "js ''<''" MATCH_LT]
  show ?thesis by auto
qed

lemma header_exists_parse:
  assumes "list_all safe_char z" "z \<noteq> []"
  shows "tryParseRequestCondition (js ''header(\"'' @ z @ js ''\") != \"\"'')
    = Inr (Some (ph_cond SOURCE_HEADER z MATCH_EXISTS []))"
  using assms time_none(1) [of "34 # z @ js ''\") != \"\"''"]
  unfolding tryParseRequestCondition_def rx_header_exists_def
  by (simp add: rx_eval cap_def js_def del: rx_m.simps(7) RStr_simps)

lemma param_exists_parse:
  assumes "list_all safe_char z" "z \<noteq> []"
  shows "tryParseRequestCondition (js ''param(\"'' @ z @ js ''\") != nil'')
    = Inr (Some (ph_cond SOURCE_PARAM z MATCH_EXISTS []))"
  using assms time_none(2) [of "34 # z @ js ''\") != nil''"]
  unfolding tryParseRequestCondition_def rx_header_exists_def rx_param_exists_def
  by (simp add: rx_eval cap_def js_def del: rx_m.simps(7) RStr_simps)

lemma header_has_parse:
  assumes "list_all safe_char z" "z \<noteq> []" "list_all safe_char v"
  shows "tryParseRequestCondition (js ''has(header(\"'' @ z @ js ''\"), \"'' @ v @ js ''\")'')
    = Inr (Some (ph_cond SOURCE_HEADER z MATCH_CONTAINS v))"
  using assms time_none(3) [of "js ''header(\"'' @ z @ js ''\"), \"'' @ v @ js ''\")''"]
  unfolding tryParseRequestCondition_def rx_header_exists_def rx_param_exists_def rx_header_has_def
  by (simp add: rx_eval cap_def js_def json_parse_res_def safe_json_parse parsed_string_def
      del: rx_m.simps(7) RStr_simps)

lemma eq_value_end:
  assumes "\<forall>x\<in>set w. \<not> line_end x" "w \<noteq> []" "\<And>p' x t c'. k p' (x # t) c' = None"
  shows "rx_m (RGrp i (RPlus (RCh (\<lambda>c. \<not> line_end c)))) p w c k = k (after_word p w) [] ((i, w) # c)"
  using assms by (subst grp_class_end) auto

lemma safe_no_line_end: "list_all safe_char w \<Longrightarrow> \<forall>x\<in>set w. \<not> line_end x"
  by (induction w) (auto simp: safe_char_def line_end_def)

lemma eq_parse:
  assumes "list_all safe_char z" "z \<noteq> []" "\<forall>x\<in>set l. \<not> line_end x" "l \<noteq> []"
    "parseExprLiteral l = VStr v"
  shows "tryParseRequestCondition (js ''header(\"'' @ z @ js ''\") == '' @ l)
      = Inr (Some (ph_cond SOURCE_HEADER z MATCH_EQ v))"
    and "tryParseRequestCondition (js ''param(\"'' @ z @ js ''\") == '' @ l)
      = Inr (Some (ph_cond SOURCE_PARAM z MATCH_EQ v))"
proof -
  show "tryParseRequestCondition (js ''header(\"'' @ z @ js ''\") == '' @ l)
      = Inr (Some (ph_cond SOURCE_HEADER z MATCH_EQ v))"
    using assms time_none(1) [of "34 # z @ js ''\") == '' @ l"]
    unfolding tryParseRequestCondition_def rx_header_exists_def rx_param_exists_def rx_header_has_def
      rx_param_has_def rx_param_cmp_def rx_eq_def SOURCE_HEADER_def
    by (simp add: rx_eval cap_def js_def eq_value_end del: rx_m.simps(7) RStr_simps)
  show "tryParseRequestCondition (js ''param(\"'' @ z @ js ''\") == '' @ l)
      = Inr (Some (ph_cond SOURCE_PARAM z MATCH_EQ v))"
    using assms time_none(2) [of "34 # z @ js ''\") == '' @ l"]
    unfolding tryParseRequestCondition_def rx_header_exists_def rx_param_exists_def rx_header_has_def
      rx_param_has_def rx_param_cmp_def rx_eq_def SOURCE_PARAM_def
    by (simp add: rx_eval cap_def js_def eq_value_end del: rx_m.simps(7) RStr_simps)
qed

lemma literal_roundtrip:
  assumes "safe_text v"
  shows "parseExprLiteral (buildExprLiteral MATCH_EQ v) = VStr v"
    and "\<forall>x\<in>set (buildExprLiteral MATCH_EQ v). \<not> line_end x" "buildExprLiteral MATCH_EQ v \<noteq> []"
    and "\<forall>x\<in>set (buildExprLiteral MATCH_EQ v). x \<noteq> 38 \<and> x \<noteq> 40 \<and> x \<noteq> 41 \<and> x \<noteq> 124"
    and "\<not> is_space (last (buildExprLiteral MATCH_EQ v))"
proof -
  let ?l = "buildExprLiteral MATCH_EQ v"
  have v: "list_all safe_char v" "trim v = v" using assms by (simp_all add: safe_text_def)
  have "MATCH_EQ \<noteq> MATCH_CONTAINS" by (simp add: match_defs)
  then have l: "?l = (if v = js ''true'' \<or> v = js ''false'' \<or> is_numeric_literal v then v else 34 # v @ [34])"
    using v by (simp add: buildExprLiteral_def safe_quote)
  have sp: "\<not> is_space 34" by (simp add: is_space_def)
  then have t: "trim (34 # v @ [34]) = 34 # v @ [34]"
    by (intro trim_id) (simp add: trimmed_def)
  have nn: "\<not> is_numeric_literal (34 # v @ [34])" using numeric_literal_chars by (fastforce simp: num_char_facts dest: num_char_facts)
  show "parseExprLiteral ?l = VStr v"
    using v t nn by (auto simp: l parseExprLiteral_def safe_json_parse) (auto simp: js_def safe_json_parse)
  show "\<forall>x\<in>set ?l. \<not> line_end x"
    using v(1) safe_no_line_end [OF v(1)] by (auto simp: l line_end_def)
  have "v \<noteq> []" if "v = js ''true'' \<or> v = js ''false'' \<or> is_numeric_literal v"
    using that numeric_literal_chars by (auto simp: js_def)
  then show "?l \<noteq> []" by (simp add: l)
  have "\<forall>x\<in>set v. x \<noteq> 38 \<and> x \<noteq> 40 \<and> x \<noteq> 41 \<and> x \<noteq> 124"
    using v(1) by (simp add: list_all_iff safe_char_def)
  then show "\<forall>x\<in>set ?l. x \<noteq> 38 \<and> x \<noteq> 40 \<and> x \<noteq> 41 \<and> x \<noteq> 124" by (simp add: l)
  have "\<not> is_space (last v)" if "v = js ''true'' \<or> v = js ''false'' \<or> is_numeric_literal v"
    using that
  proof (elim disjE)
    assume "is_numeric_literal v"
    then have "v \<noteq> []" "list_all num_char v" using numeric_literal_chars by auto
    then have "num_char (last v)" by (simp add: list_all_iff)
    then show ?thesis using num_char_facts by blast
  qed (simp_all add: js_def is_space_def)
  with sp show "\<not> is_space (last ?l)" by (simp add: l)
qed

section \<open>Printed conditions\<close>

definition is_range :: "RequestCondition \<Rightarrow> bool" where
  "is_range c = (case c of Time_cond t \<Rightarrow> tc_mode t = MATCH_RANGE | PH_cond _ \<Rightarrow> False)"

text \<open>The conditions the editor's parser can read back.\<close>

fun wf_cond :: "RequestCondition \<Rightarrow> bool" where
  "wf_cond (Time_cond t) =
     (tc_timeFunc t \<in> set TIME_FUNCS \<and> list_all safe_char (tc_timezone t) \<and> tc_timezone t \<noteq> [] \<and>
      (if tc_mode t = MATCH_RANGE
       then tc_value t = [] \<and> is_numeric_literal (tc_rangeStart t) \<and> is_numeric_literal (tc_rangeEnd t)
       else tc_mode t \<in> {MATCH_EQ, MATCH_GTE, MATCH_LT} \<and> is_numeric_literal (tc_value t)
         \<and> tc_rangeStart t = [] \<and> tc_rangeEnd t = []))"
| "wf_cond (PH_cond c) =
     (safe_text (ph_path c) \<and> ph_path c \<noteq> [] \<and> safe_text (ph_value c) \<and>
      (ph_source c = SOURCE_HEADER \<and> ph_mode c \<in> {MATCH_EXISTS, MATCH_CONTAINS, MATCH_EQ}
       \<or> ph_source c = SOURCE_PARAM \<and> ph_mode c \<in> {MATCH_EXISTS, MATCH_EQ}) \<and>
      (ph_mode c = MATCH_EXISTS \<longrightarrow> ph_value c = []))"

definition good :: "jstr \<Rightarrow> bool" where
  "good e = (e \<noteq> [] \<and> \<not> is_space (hd e) \<and> \<not> is_space (last e) \<and> 38 \<notin> set e \<and> nest e)"

definition printed :: "RequestCondition \<Rightarrow> jstr \<Rightarrow> bool" where
  "printed c e = (good e \<and> tryParseRequestCondition e = Inr (Some c) \<and>
     (has_sub (js '' || '') e \<longrightarrow>
        tryParseRequestCondition (js ''('' @ e @ js '')'') = Inr (Some c)))"

lemma no_bar: "124 \<notin> set e \<Longrightarrow> \<not> has_sub (js '' || '') e"
  by (auto simp: has_sub_iff js_def)

lemma time_funcs_facts:
  "f \<in> set TIME_FUNCS \<Longrightarrow> f \<noteq> [] \<and> \<not> is_space (hd f) \<and> 38 \<notin> set f \<and> 40 \<notin> set f \<and> 41 \<notin> set f \<and> 124 \<notin> set f"
  by (auto simp: TIME_FUNCS_def js_def is_space_def)

lemma safe_facts: "list_all safe_char z \<Longrightarrow> 38 \<notin> set z \<and> 40 \<notin> set z \<and> 41 \<notin> set z \<and> 124 \<notin> set z"
  by (auto simp: list_all_iff safe_char_def)

lemma num_facts: "list_all num_char z \<Longrightarrow> 38 \<notin> set z \<and> 40 \<notin> set z \<and> 41 \<notin> set z \<and> 124 \<notin> set z"
  using num_char_facts by (auto simp: list_all_iff)

lemma num_last: "list_all num_char z \<Longrightarrow> z \<noteq> [] \<Longrightarrow> \<not> is_space (last z)"
  using num_char_facts by (simp add: list_all_iff)

lemmas nest_intros = nest_append nest_paren_app nest_Cons nest_none nest_Nil

lemma printedI:
  "good e \<Longrightarrow> 124 \<notin> set e \<Longrightarrow> tryParseRequestCondition e = Inr (Some c) \<Longrightarrow> printed c e"
  using no_bar by (simp add: printed_def)

lemma printed_time_range:
  assumes "f \<in> set TIME_FUNCS" "list_all safe_char z" "z \<noteq> []" "list_all num_char a" "a \<noteq> []"
    "list_all num_char b" "b \<noteq> []"
  shows "printed (Time_cond \<lparr> tc_timeFunc = f, tc_timezone = z, tc_mode = MATCH_RANGE, tc_value = [],
      tc_rangeStart = a, tc_rangeEnd = b \<rparr>)
    (f @ js ''(\"'' @ z @ js ''\") >= '' @ a @ js '' || '' @ f @ js ''(\"'' @ z @ js ''\") < '' @ b)"
proof -
  note f = time_funcs_facts [OF assms(1)] and z = safe_facts [OF assms(2)]
    and n = num_facts [OF assms(4)] num_facts [OF assms(6)] num_last [OF assms(6,7)]
  have "good (f @ js ''(\"'' @ z @ js ''\") >= '' @ a @ js '' || '' @ f @ js ''(\"'' @ z @ js ''\") < '' @ b)"
    using f z n assms(7) by (simp add: good_def js_def nest_def bal_none depths_ok_none)
  with time_range_parse [OF assms] show ?thesis
    by (simp add: printed_def tryParseRequestCondition_def)
qed

lemma printed_time_cmp:
  assumes "f \<in> set TIME_FUNCS" "list_all safe_char z" "z \<noteq> []" "list_all num_char v" "v \<noteq> []"
    "mode \<in> {MATCH_EQ, MATCH_GTE, MATCH_LT}"
  shows "printed (Time_cond \<lparr> tc_timeFunc = f, tc_timezone = z, tc_mode = mode, tc_value = v,
      tc_rangeStart = [], tc_rangeEnd = [] \<rparr>)
    (f @ js ''(\"'' @ z @ js ''\") '' @ (if mode = MATCH_EQ then js ''=='' else
      if mode = MATCH_GTE then js ''>='' else js ''<'') @ js '' '' @ v)"
proof -
  note f = time_funcs_facts [OF assms(1)] and z = safe_facts [OF assms(2)]
    and n = num_facts [OF assms(4)] num_last [OF assms(4,5)]
  let ?e = "f @ js ''(\"'' @ z @ js ''\") '' @ (if mode = MATCH_EQ then js ''=='' else
      if mode = MATCH_GTE then js ''>='' else js ''<'') @ js '' '' @ v"
  have "good ?e" using f z n assms(5) by (simp add: good_def js_def nest_def bal_none depths_ok_none)
  moreover have "\<not> has_sub (js '' || '') ?e" using f z n by (intro no_bar) (simp add: js_def)
  ultimately show ?thesis using time_cmp_parse [OF assms]
    by (simp add: printed_def tryParseRequestCondition_def)
qed

lemma printed_ph:
  assumes "list_all safe_char z" "z \<noteq> []" "safe_text v"
  shows "printed (ph_cond SOURCE_HEADER z MATCH_EXISTS []) (js ''header(\"'' @ z @ js ''\") != \"\"'')"
    and "printed (ph_cond SOURCE_PARAM z MATCH_EXISTS []) (js ''param(\"'' @ z @ js ''\") != nil'')"
    and "printed (ph_cond SOURCE_HEADER z MATCH_CONTAINS v)
      (js ''has(header(\"'' @ z @ js ''\"), \"'' @ v @ js ''\")'')"
    and "printed (ph_cond SOURCE_HEADER z MATCH_EQ v)
      (js ''header(\"'' @ z @ js ''\") == '' @ buildExprLiteral MATCH_EQ v)"
    and "printed (ph_cond SOURCE_PARAM z MATCH_EQ v)
      (js ''param(\"'' @ z @ js ''\") == '' @ buildExprLiteral MATCH_EQ v)"
proof -
  note z = safe_facts [OF assms(1)]
  have v: "list_all safe_char v" "38 \<notin> set v \<and> 40 \<notin> set v \<and> 41 \<notin> set v \<and> 124 \<notin> set v"
    using assms(3) safe_facts by (simp_all add: safe_text_def)
  note parse = header_exists_parse [OF assms(1,2)] param_exists_parse [OF assms(1,2)]
    header_has_parse [OF assms(1,2) v(1)]
    eq_parse [OF assms(1,2) literal_roundtrip(2,3,1) [OF assms(3)]]
  note l = literal_roundtrip(3-5) [OF assms(3)]
  have sp: "\<not> is_space 34" "\<not> is_space 41" "\<not> is_space 104" "\<not> is_space 108" "\<not> is_space 112"
    by (simp_all add: is_space_def)
  have nest_l: "nest (buildExprLiteral MATCH_EQ v)" using l(2) by (intro nest_none) auto
  show "printed (ph_cond SOURCE_HEADER z MATCH_EXISTS []) (js ''header(\"'' @ z @ js ''\") != \"\"'')"
    by (rule printedI) (use parse z v l sp nest_l in \<open>auto simp: good_def js_def nest_def bal_none depths_ok_none\<close>)
  show "printed (ph_cond SOURCE_PARAM z MATCH_EXISTS []) (js ''param(\"'' @ z @ js ''\") != nil'')"
    by (rule printedI) (use parse z v l sp nest_l in \<open>auto simp: good_def js_def nest_def bal_none depths_ok_none\<close>)
  show "printed (ph_cond SOURCE_HEADER z MATCH_CONTAINS v)
      (js ''has(header(\"'' @ z @ js ''\"), \"'' @ v @ js ''\")'')"
    by (rule printedI) (use parse z v l sp nest_l in \<open>auto simp: good_def js_def nest_def bal_none depths_ok_none\<close>)
  show "printed (ph_cond SOURCE_HEADER z MATCH_EQ v)
      (js ''header(\"'' @ z @ js ''\") == '' @ buildExprLiteral MATCH_EQ v)"
    by (rule printedI) (use parse z v l sp nest_l in \<open>auto simp: good_def js_def nest_def bal_none depths_ok_none\<close>)
  show "printed (ph_cond SOURCE_PARAM z MATCH_EQ v)
      (js ''param(\"'' @ z @ js ''\") == '' @ buildExprLiteral MATCH_EQ v)"
    by (rule printedI) (use parse z v l sp nest_l in \<open>auto simp: good_def js_def nest_def bal_none depths_ok_none\<close>)
qed

lemma quote_app: "json_quote z @ s = 34 # json_esc z @ 34 # s"
  by (simp add: json_quote_def)

lemma wf_printed: "wf_cond c \<Longrightarrow> printed c (buildRequestConditionExpr c)"
proof (induction c rule: wf_cond.induct)
  case (1 t)
  obtain f z m v a b where t: "t = \<lparr> tc_timeFunc = f, tc_timezone = z, tc_mode = m, tc_value = v,
      tc_rangeStart = a, tc_rangeEnd = b \<rparr>" by (cases t)
  with 1 have f: "f \<in> set TIME_FUNCS" and z: "list_all safe_char z" "z \<noteq> []"
    and modes: "m \<in> {MATCH_RANGE, MATCH_EQ, MATCH_GTE, MATCH_LT}" by (auto split: if_splits)
  have norm: "normalizeCondition (Time_cond t) = Time_cond t"
    using f z(2) modes t
    by (auto simp: normalizeCondition_def normalize_partial_def isTimeFunc_def opt_str_def sor_def
        pick_mode_def getRequestRuleMatchOptions_def match_defs Let_def)
  have num: "is_numeric_literal w \<Longrightarrow> list_all num_char w \<and> w \<noteq> [] \<and> trim w = w" for w
    using numeric_literal_chars num_trim by blast
  show ?case
  proof (cases "m = MATCH_RANGE")
    case True
    with 1 t have n: "is_numeric_literal a" "is_numeric_literal b" and v: "v = []" by simp_all
    have "buildRequestConditionExpr (Time_cond t)
        = f @ js ''(\"'' @ z @ js ''\") >= '' @ a @ js '' || '' @ f @ js ''(\"'' @ z @ js ''\") < '' @ b"
      using True n num z unfolding t by (simp add: buildRequestConditionExpr_def norm [unfolded t True] time_expr_def quote_app safe_json_esc js_def)
    with printed_time_range [OF f z] num [OF n(1)] num [OF n(2)] True v t show ?thesis by simp
  next
    case False
    with 1 t have n: "is_numeric_literal v" and ab: "a = []" "b = []"
      and m: "m \<in> {MATCH_EQ, MATCH_GTE, MATCH_LT}" by simp_all
    have "buildRequestConditionExpr (Time_cond t)
        = f @ js ''(\"'' @ z @ js ''\") '' @ (if m = MATCH_EQ then js ''=='' else
      if m = MATCH_GTE then js ''>='' else js ''<'') @ js '' '' @ v"
      using False n num z m unfolding t
      by (auto simp: buildRequestConditionExpr_def norm [unfolded t] time_expr_def quote_app safe_json_esc js_def)
    with printed_time_cmp [OF f z] num [OF n] m ab t show ?thesis by simp
  qed
next
  case (2 c)
  obtain src p m v where c: "c = \<lparr> ph_source = src, ph_path = p, ph_mode = m, ph_value = v \<rparr>" by (cases c)
  with 2 have p: "list_all safe_char p" "p \<noteq> []" "trim p = p" and v: "safe_text v" "trim v = v" "list_all safe_char v"
    by (simp_all add: safe_text_def)
  have norm: "normalizeCondition (PH_cond c) = PH_cond c"
    using 2 c by (auto simp: normalizeCondition_def normalize_partial_def opt_str_def
        pick_mode_def getRequestRuleMatchOptions_def match_defs Let_def)
  note pr = printed_ph [OF p(1,2) v(1)]
  have build: "buildRequestConditionExpr (PH_cond c) = ph_expr c"
    by (simp add: buildRequestConditionExpr_def norm)
  have ne: "MATCH_EQ \<notin> {MATCH_EXISTS, MATCH_CONTAINS, MATCH_GT, MATCH_GTE, MATCH_LT, MATCH_LTE}"
    "MATCH_CONTAINS \<noteq> MATCH_EXISTS" "SOURCE_PARAM \<noteq> SOURCE_HEADER" by (simp_all add: match_defs)
  have has: "buildExprLiteral MATCH_CONTAINS v = 34 # v @ [34]"
    using v by (simp add: buildExprLiteral_def safe_quote)
  from 2 c have "src = SOURCE_HEADER \<and> m = MATCH_EXISTS \<and> v = [] \<or> src = SOURCE_PARAM \<and> m = MATCH_EXISTS \<and> v = []
    \<or> src = SOURCE_HEADER \<and> m = MATCH_CONTAINS \<or> src = SOURCE_HEADER \<and> m = MATCH_EQ \<or> src = SOURCE_PARAM \<and> m = MATCH_EQ"
    by auto
  then show ?case unfolding build using pr ne has p c
    by (elim disjE conjE) (simp_all add: ph_expr_def Let_def quote_app safe_json_esc js_def)
qed

section \<open>Rule factors\<close>

definition wrapped :: "jstr \<Rightarrow> jstr" where
  "wrapped e = (if has_sub (js '' || '') e then js ''('' @ e @ js '')'' else e)"

lemma good_trim: "good e \<Longrightarrow> trim e = e"
  by (rule trim_id) (simp add: good_def trimmed_def)

lemma good_last: "good e \<Longrightarrow> last e \<noteq> 32"
  by (auto simp: good_def is_space_def)

lemma good_wrapped: "good e \<Longrightarrow> good (wrapped e)"
  by (simp add: wrapped_def good_def nest_paren is_space_def js_def)

lemma printed_wrapped:
  "printed c e \<Longrightarrow> good (wrapped e) \<and> tryParseRequestCondition (wrapped e) = Inr (Some c)"
  by (simp add: printed_def good_wrapped) (simp add: wrapped_def)

lemma split_and_join:
  assumes "ws \<noteq> []" "\<forall>w\<in>set ws. good w"
  shows "split_top (js '' && '') 0 [] (join (js '' && '') ws) = ws"
  using assms
proof (induction ws)
  case (Cons w ws)
  let ?sep = "js '' && ''"
  have w: "good w" "bal w = 0" "38 \<notin> set w" "last w \<noteq> 32"
    using Cons.prems good_last by (auto simp: good_def nest_def)
  have step: "split_top ?sep 0 [] (w @ s) = split_top ?sep 0 w s" for s
    using split_top_free [of 38 w ?sep "[38, 32]" 0 "[]" s] w by (simp add: js_def)
  show ?case
  proof (cases "ws = []")
    case True
    with step [of "[]"] good_trim [OF w(1)] show ?thesis by simp
  next
    case False
    have "split_top ?sep 0 w (?sep @ join ?sep ws) = trim w # split_top ?sep 0 [] (join ?sep ws)"
      by (simp add: js_def)
    with Cons False step good_trim [OF w(1)] show ?thesis by (simp add: join_Cons)
  qed
qed simp

lemma splitTopLevelAnd_join:
  assumes "ws \<noteq> []" "\<forall>w\<in>set ws. good w"
  shows "splitTopLevelAnd (join (js '' && '') ws) = ws"
proof -
  have "\<forall>w\<in>set ws. w \<noteq> []" using assms(2) by (auto simp: good_def)
  then show ?thesis using split_and_join [OF assms] by (simp add: splitTopLevelAnd_def filter_id_conv)
qed

lemma parse_conditions_all:
  assumes "list_all2 (\<lambda>c w. trim w = w \<and> tryParseRequestCondition w = Inr (Some c)) cs ws"
  shows "parse_conditions ws = Inr (Some cs)"
  using assms by (induction rule: list_all2_induct) simp_all

definition factor_text :: "jstr \<Rightarrow> jstr \<Rightarrow> jstr" where
  "factor_text comb m = js ''('' @ comb @ js '' ? '' @ m @ js '' : 1)''"

text \<open>The greedy \<open>(.+)\<close> stops at the last \<open> ? \<close>: nothing after it contains another.\<close>

lemma rule_factor_match:
  assumes "comb \<noteq> []" "list_all num_char m" "m \<noteq> []"
  shows "rx_match rx_rule_factor (factor_text comb m) = Some [(2, m), (1, comb)]"
proof -
  let ?tail = "32 # 63 # 32 # m @ [32, 58, 32, 49, 41]"
  let ?k = "\<lambda>p' s' (c' :: caps). rx_m (RSeqs [RStr (js '' ? ''), rx_num 2, RStr (js '' : 1)''), REol]) p' s'
    ((1 :: nat, take (length (comb @ ?tail) - length s') (comb @ ?tail)) # c') (\<lambda>p' s' c'. Some c')"
  have m63: "63 \<notin> set m" using assms(2) num_char_facts by (auto simp: list_all_iff)
  have stop: "?k p' v c = None" if tl: "?tail = u @ v" and ne: "u \<noteq> []" for u v p' c
  proof -
    obtain x u' where "u = x # u'" using ne by (cases u) auto
    with tl have uv: "63 # 32 # m @ [32, 58, 32, 49, 41] = u' @ v" by simp
    have "\<not> starts_with [32, 63, 32] v"
    proof
      assume "starts_with [32, 63, 32] v"
      then obtain t where v: "v = 32 # 63 # 32 # t"
        by (metis append_Cons append_Nil append_take_drop_id starts_with_def)
      with uv have "63 \<in> set (32 # m @ [32, 58, 32, 49, 41]) \<or> u' = []" by (cases u') auto
      with uv v m63 show False by auto
    qed
    then show ?thesis by (simp add: rx_m_RStr js_def del: RStr_simps)
  qed
  have "take (length (comb @ ?tail) - length ?tail) (comb @ ?tail) = comb" by simp
  then have "?k (after_word (Some 40) comb) ?tail [] = Some [(2, m), (1, comb)]"
    using assms by (simp add: rx_eval js_def del: rx_m.simps(7) RStr_simps)
  then have "rx_m (RPlus (RCh (\<lambda>_. True))) (Some 40) (comb @ ?tail) [] ?k = Some [(2, m), (1, comb)]"
    using assms(1) stop by (intro plus_class_stop) auto
  moreover have "factor_text comb m = 40 # comb @ ?tail" by (simp add: factor_text_def js_def)
  ultimately show ?thesis
    unfolding rx_rule_factor_def rx_match_RBol RSeqs.simps by (simp add: RLit_def del: RStr_simps)
qed

definition wf_group :: "RequestRuleGroup \<Rightarrow> bool" where
  "wf_group g = (rg_conditions g \<noteq> [] \<and> list_all wf_cond (rg_conditions g) \<and>
     is_numeric_literal (rg_multiplier g))"

lemma build_factor:
  assumes "wf_group g"
  defines "es \<equiv> map buildRequestConditionExpr (rg_conditions g)"
  shows "buildRuleGroupFactor g = factor_text
    (if length es = 1 then hd es else join (js '' && '') (map wrapped es)) (rg_multiplier g)"
proof -
  have "is_numeric_literal (rg_multiplier g)" "trim (rg_multiplier g) = rg_multiplier g"
    using assms(1) numeric_literal_chars num_trim by (auto simp: wf_group_def)
  moreover have "\<forall>e\<in>set es. e \<noteq> []"
    using assms wf_printed by (fastforce simp: wf_group_def list_all_iff printed_def good_def)
  then have "filter (\<lambda>e. e \<noteq> []) es = es" by (simp add: filter_id_conv)
  moreover have "es \<noteq> []" using assms by (simp add: wf_group_def)
  moreover have "(\<lambda>e. if has_sub (js '' || '') e then js ''('' @ e @ js '')'' else e) = wrapped"
    by (simp add: wrapped_def fun_eq_iff)
  ultimately show ?thesis
    unfolding buildRuleGroupFactor_def es_def [symmetric]
    by (simp add: Let_def factor_text_def)
qed

lemma factor_roundtrip:
  assumes "wf_group g"
  shows "tryParseRuleGroupFactor (buildRuleGroupFactor g) = Inr (Some g)"
    and "\<exists>e. buildRuleGroupFactor g = 40 # e @ [41] \<and> nest e"
proof -
  let ?cs = "rg_conditions g" and ?m = "rg_multiplier g"
  let ?es = "map buildRequestConditionExpr ?cs"
  let ?comb = "if length ?es = 1 then hd ?es else join (js '' && '') (map wrapped ?es)"
  have m: "list_all num_char ?m" "?m \<noteq> []"
    using assms numeric_literal_chars by (auto simp: wf_group_def)
  have pr: "printed c (buildRequestConditionExpr c)" if "c \<in> set ?cs" for c
    using that assms wf_printed by (auto simp: wf_group_def list_all_iff)
  have ne: "?cs \<noteq> []" using assms by (simp add: wf_group_def)
  define ws where "ws = (if length ?es = 1 then ?es else map wrapped ?es)"
  have ws: "ws \<noteq> []" "\<forall>w\<in>set ws. good w" and comb: "?comb = join (js '' && '') ws"
    using ne pr printed_wrapped by (auto simp: ws_def printed_def length_Suc_conv)
  have len: "length ws = length ?cs" by (simp add: ws_def)
  have par: "list_all2 (\<lambda>c w. trim w = w \<and> tryParseRequestCondition w = Inr (Some c)) ?cs ws"
    unfolding list_all2_conv_all_nth len
  proof (intro conjI allI impI)
    fix i assume "i < length ?cs"
    then have "printed (?cs ! i) (buildRequestConditionExpr (?cs ! i))" "ws ! i \<in> set ws"
      using pr len by simp_all
    with \<open>i < length ?cs\<close> printed_wrapped ws(2) good_trim
    show "trim (ws ! i) = ws ! i" "tryParseRequestCondition (ws ! i) = Inr (Some (?cs ! i))"
      by (auto simp: ws_def printed_def)
  qed simp
  have build: "buildRuleGroupFactor g = factor_text (join (js '' && '') ws) ?m"
    using build_factor [OF assms] comb by simp
  have cne: "join (js '' && '') ws \<noteq> []"
    using ws by (cases ws; cases "tl ws") (auto simp: good_def js_def)
  show "tryParseRuleGroupFactor (buildRuleGroupFactor g) = Inr (Some g)"
    unfolding build tryParseRuleGroupFactor_def rule_factor_match [OF cne m]
    using splitTopLevelAnd_join [OF ws] parse_conditions_all [OF par] ne
    by (simp add: cap_def)
  have "nest (join (js '' && '') ws)"
    using ws(2)
  proof (induction ws)
    case (Cons w ws)
    then have "nest w" "nest (join (js '' && '') ws)" by (simp_all add: good_def)
    moreover have "nest (js '' && '')" by (rule nest_none) (simp_all add: js_def)
    ultimately show ?case by (cases ws) (auto intro: nest_append)
  qed simp
  moreover have "nest (js '' ? '' @ ?m @ js '' : 1'')"
    using num_facts [OF m(1)] by (intro nest_none) (auto simp: js_def)
  ultimately have "nest (join (js '' && '') ws @ js '' ? '' @ ?m @ js '' : 1'')" by (rule nest_append)
  then show "\<exists>e. buildRuleGroupFactor g = 40 # e @ [41] \<and> nest e"
    by (intro exI [of _ "join (js '' && '') ws @ js '' ? '' @ ?m @ js '' : 1''"])
      (simp add: build factor_text_def js_def)
qed

section \<open>Products of factors\<close>

definition factor_like :: "jstr \<Rightarrow> bool" where
  "factor_like f = (\<exists>e. f = 40 # e @ [41] \<and> nest e)"

lemma factor_like_facts:
  assumes "factor_like f"
  shows "f \<noteq> []" "trim f = f" "hd f = 40" "last f = 41" "nest f"
proof -
  obtain e where f: "f = 40 # e @ [41]" "nest e" using assms by (auto simp: factor_like_def)
  then show "f \<noteq> []" "hd f = 40" "last f = 41" "nest f" by (simp_all add: nest_paren)
  have "\<not> is_space 40" "\<not> is_space 41" by (simp_all add: is_space_def)
  with f(1) show "trim f = f" by (intro trim_id) (simp add: trimmed_def)
qed

lemma split_multiply_join:
  assumes "fs \<noteq> []" "\<forall>f\<in>set fs. factor_like f"
  shows "split_top (js '' * '') 0 [] (join (js '' * '') fs) = fs"
  using assms
proof (induction fs)
  case (Cons f fs)
  let ?sep = "js '' * ''"
  obtain e where e: "f = 40 # e @ [41]" "nest e" using Cons.prems by (auto simp: factor_like_def)
  have t: "trim f = f" using Cons.prems factor_like_facts(2) by simp
  have step: "split_top ?sep 0 [] (f @ s) = split_top ?sep 0 f s" for s
    using split_top_nest [OF e(2), of ?sep "[]" s] e(1) by (simp add: js_def)
  show ?case
  proof (cases "fs = []")
    case True
    with step [of "[]"] t show ?thesis by simp
  next
    case False
    have "split_top ?sep 0 f (?sep @ join ?sep fs) = trim f # split_top ?sep 0 [] (join ?sep fs)"
      by (simp add: js_def)
    with Cons False step t show ?thesis by (simp add: join_Cons)
  qed
qed simp

lemma splitTopLevelMultiply_join:
  assumes "fs \<noteq> []" "\<forall>f\<in>set fs. factor_like f"
  shows "splitTopLevelMultiply (join (js '' * '') fs) = fs"
proof -
  have "\<forall>f\<in>set fs. f \<noteq> []" using assms(2) factor_like_facts(1) by blast
  then show ?thesis using split_multiply_join [OF assms] by (simp add: splitTopLevelMultiply_def filter_id_conv)
qed

lemma join_factors_ends:
  assumes "fs \<noteq> []" "\<forall>f\<in>set fs. factor_like f"
  shows "join (js '' * '') fs \<noteq> [] \<and> hd (join (js '' * '') fs) = 40 \<and> last (join (js '' * '') fs) = 41"
  using assms
proof (induction fs)
  case (Cons f fs)
  then show ?case using factor_like_facts [of f]
    by (cases "fs = []") (auto simp: join_Cons js_def)
qed simp

lemma trim_join_factors:
  assumes "fs \<noteq> []" "\<forall>f\<in>set fs. factor_like f"
  shows "trim (join (js '' * '') fs) = join (js '' * '') fs"
proof -
  have "\<not> is_space 40" "\<not> is_space 41" by (simp_all add: is_space_def)
  with join_factors_ends [OF assms] show ?thesis by (intro trim_id) (simp add: trimmed_def)
qed

lemma build_rules_join:
  assumes "list_all wf_group gs"
  shows "buildRequestRuleExpr gs = join (js '' * '') (map buildRuleGroupFactor gs)"
    and "\<forall>f\<in>set (map buildRuleGroupFactor gs). factor_like f"
proof -
  show fl: "\<forall>f\<in>set (map buildRuleGroupFactor gs). factor_like f"
    using assms factor_roundtrip(2) by (auto simp: list_all_iff factor_like_def)
  then have "filter (\<lambda>e. e \<noteq> []) (map buildRuleGroupFactor gs) = map buildRuleGroupFactor gs"
    using factor_like_facts(1) by (simp only: filter_id_conv) blast
  then show "buildRequestRuleExpr gs = join (js '' * '') (map buildRuleGroupFactor gs)"
    by (simp add: buildRequestRuleExpr_def)
qed

lemma parse_factors_build:
  "list_all wf_group gs \<Longrightarrow> parse_factors (map buildRuleGroupFactor gs) = Inr (Some gs)"
  by (induction gs) (simp_all add: factor_roundtrip(1))

section \<open>The round trip\<close>

lemma parse_built_rules:
  assumes "list_all wf_group gs"
  shows "tryParseRequestRuleExpr (buildRequestRuleExpr gs) = Inr (Some gs)"
proof (cases "gs = []")
  case True
  then show ?thesis by (simp add: tryParseRequestRuleExpr_def buildRequestRuleExpr_def)
next
  case False
  let ?fs = "map buildRuleGroupFactor gs"
  have fs: "?fs \<noteq> []" "\<forall>f\<in>set ?fs. factor_like f"
    using False build_rules_join(2) [OF assms] by simp_all
  show ?thesis
    using join_factors_ends [OF fs] parse_factors_build [OF assms]
    by (simp add: tryParseRequestRuleExpr_def build_rules_join(1) [OF assms] trim_join_factors [OF fs]
        splitTopLevelMultiply_join [OF fs])
qed

text \<open>C1. What the rule editor prints, the parser reads back: for every list of rule groups whose
  conditions are of the readable forms (time conditions; header conditions; parameter conditions
  that test existence or equality) with plain texts, parsing the built expression returns exactly
  those groups.\<close>

theorem rule_expr_roundtrip:
  assumes "list_all wf_group gs"
  shows "tryParseRequestRuleExpr (buildRequestRuleExpr gs) = Inr (Some gs)"
  by (rule parse_built_rules) (rule assms)

lemma numeric_literal_digit: "is_numeric_literal [50]"
  by code_simp

theorem rule_expr_roundtrip_witness:
  "let gs = [\<lparr> rg_conditions = [ph_cond SOURCE_HEADER (js ''x-tier'') MATCH_CONTAINS (js ''fast'')],
      rg_multiplier = js ''2'' \<rparr>]
   in tryParseRequestRuleExpr (buildRequestRuleExpr gs) = Inr (Some gs)"
  unfolding Let_def
  by (rule rule_expr_roundtrip)
    (use numeric_literal_digit in \<open>simp add: wf_group_def safe_text_def safe_char_def match_defs js_def trim_def is_space_def\<close>)

lemma param_second_half:
  assumes "list_all safe_char z" "z \<noteq> []" "list_all safe_char v" "list_all num_char n" "n \<noteq> []"
    "op \<in> {js ''>'', js ''>='', js ''<'', js ''<=''}"
  shows "tryParseRequestCondition (js ''param(\"'' @ z @ js ''\") '' @ op @ js '' '' @ n) = Inr None"
    and "tryParseRequestCondition (js ''has(param(\"'' @ z @ js ''\"), \"'' @ v @ js ''\")'') = Inr None"
proof -
  show "tryParseRequestCondition (js ''param(\"'' @ z @ js ''\") '' @ op @ js '' '' @ n) = Inr None"
    using assms time_none(2) [of "34 # z @ js ''\") '' @ op @ js '' '' @ n"]
    unfolding tryParseRequestCondition_def rx_header_exists_def rx_param_exists_def rx_header_has_def
      rx_param_has_def rx_param_cmp_def rx_eq_def
    by (auto simp: rx_eval js_def simp del: rx_m.simps(7) RStr_simps)
  show "tryParseRequestCondition (js ''has(param(\"'' @ z @ js ''\"), \"'' @ v @ js ''\")'') = Inr None"
    using assms time_none(3) [of "js ''param(\"'' @ z @ js ''\"), \"'' @ v @ js ''\")''"]
    unfolding tryParseRequestCondition_def rx_header_exists_def rx_param_exists_def rx_header_has_def
      rx_param_has_def rx_param_cmp_def rx_eq_def
    by (simp add: rx_eval js_def del: rx_m.simps(7) RStr_simps)
qed

lemma param_pair_unreadable:
  assumes "list_all safe_char z" "z \<noteq> []" "good p2" "tryParseRequestCondition p2 = Inr None"
    "list_all num_char m" "m \<noteq> []"
  shows "tryParseRequestRuleExpr (factor_text (js ''param(\"'' @ z @ js ''\") != nil && '' @ p2) m) = Inr None"
proof -
  let ?p1 = "js ''param(\"'' @ z @ js ''\") != nil''"
  define comb where "comb = join (js '' && '') [?p1, p2]"
  have p1: "good ?p1" "tryParseRequestCondition ?p1 = Inr (Some (ph_cond SOURCE_PARAM z MATCH_EXISTS []))"
    using printed_ph(2) [OF assms(1,2), of "[]"] by (simp_all add: printed_def safe_text_def)
  have comb: "js ''param(\"'' @ z @ js ''\") != nil && '' @ p2 = comb" by (simp add: js_def comb_def)
  have ne: "comb \<noteq> []" by (simp add: js_def comb_def)
  have "splitTopLevelAnd comb = [?p1, p2]"
    unfolding comb_def using p1(1) assms(3) by (intro splitTopLevelAnd_join) simp_all
  then have "parse_conditions (splitTopLevelAnd comb) = Inr None"
    using p1(2) assms(4) good_trim [OF p1(1)] good_trim [OF assms(3)] by simp
  then have group: "tryParseRuleGroupFactor (factor_text comb m) = Inr None"
    unfolding tryParseRuleGroupFactor_def rule_factor_match [OF ne assms(5,6)]
    by (simp add: cap_def)
  have sep: "nest (js '' && '')" by (rule nest_none) (simp_all add: js_def)
  have "nest ?p1" "nest p2" using p1(1) assms(3) unfolding good_def by blast+
  then have "nest (?p1 @ (js '' && '' @ p2))" by (rule nest_append [OF _ nest_append [OF sep]])
  moreover have "comb = ?p1 @ (js '' && '' @ p2)" by (simp add: comb_def)
  ultimately have "nest comb" by (simp only:)
  moreover have "nest (js '' ? '' @ m @ js '' : 1'')"
    using num_facts [OF assms(5)] by (intro nest_none) (auto simp: js_def)
  ultimately have "nest (comb @ js '' ? '' @ m @ js '' : 1'')" by (rule nest_append)
  then have "factor_like (factor_text comb m)"
    unfolding factor_like_def factor_text_def
    by (intro exI [of _ "comb @ js '' ? '' @ m @ js '' : 1''"]) (simp add: js_def)
  then have "splitTopLevelMultiply (factor_text comb m) = [factor_text comb m]"
    "trim (factor_text comb m) = factor_text comb m" "factor_text comb m \<noteq> []"
    using splitTopLevelMultiply_join [of "[factor_text comb m]"] factor_like_facts by simp_all
  then show ?thesis unfolding comb tryParseRequestRuleExpr_def by (simp add: group)
qed

text \<open>C5. Two forms the editor offers and prints are unreadable: a comparison of a parameter, and a
  parameter that contains a text, are printed as a conjunction with an existence test, which the
  parser splits at the \<open>&&\<close>; the second half matches no pattern and the whole rule is rejected.\<close>

theorem param_rules_unreadable:
  assumes "safe_text z" "z \<noteq> []" "is_numeric_literal m"
    and "mode = MATCH_CONTAINS \<and> safe_text v \<or>
      mode \<in> {MATCH_GT, MATCH_GTE, MATCH_LT, MATCH_LTE} \<and> is_numeric_literal v"
  shows "tryParseRequestRuleExpr (buildRequestRuleExpr
    [\<lparr> rg_conditions = [ph_cond SOURCE_PARAM z mode v], rg_multiplier = m \<rparr>]) = Inr None"
proof -
  have z: "list_all safe_char z" "trim z = z" using assms(1) by (simp_all add: safe_text_def)
  have m: "list_all num_char m" "m \<noteq> []" "trim m = m" using numeric_literal_chars [OF assms(3)] num_trim by auto
  let ?p2 = "if mode = MATCH_CONTAINS then js ''has(param(\"'' @ z @ js ''\"), \"'' @ v @ js ''\")''
    else js ''param(\"'' @ z @ js ''\") '' @ cmp_op mode @ js '' '' @ v"
  have norm: "normalizeCondition (ph_cond SOURCE_PARAM z mode v) = ph_cond SOURCE_PARAM z mode v"
    using assms(4) by (auto simp: normalizeCondition_def normalize_partial_def opt_str_def
        pick_mode_def getRequestRuleMatchOptions_def match_defs Let_def)
  have op: "cmp_op mode \<in> {js ''>'', js ''>='', js ''<'', js ''<=''}" by (simp add: cmp_op_def)
  have vn: "is_numeric_literal v \<Longrightarrow> list_all num_char v \<and> v \<noteq> [] \<and> trim v = v"
    using numeric_literal_chars num_trim by blast
  have e: "buildRequestConditionExpr (ph_cond SOURCE_PARAM z mode v)
      = js ''param(\"'' @ z @ js ''\") != nil && '' @ ?p2"
  proof (cases "mode = MATCH_CONTAINS")
    case True
    with assms(4) have v: "list_all safe_char v" "trim v = v" by (auto simp: safe_text_def match_defs)
    have "MATCH_CONTAINS \<noteq> MATCH_EXISTS" "SOURCE_PARAM \<noteq> SOURCE_HEADER" by (simp_all add: match_defs)
    with True assms(2) z v norm show ?thesis
      by (simp add: buildRequestConditionExpr_def ph_expr_def Let_def buildExprLiteral_def)
        (simp add: quote_app safe_json_esc safe_quote js_def)
  next
    case False
    with assms(4) have mode: "mode \<in> {MATCH_GT, MATCH_GTE, MATCH_LT, MATCH_LTE}" "is_numeric_literal v" by auto
    then have "mode \<noteq> MATCH_EXISTS" "SOURCE_PARAM \<noteq> SOURCE_HEADER" by (auto simp: match_defs)
    with False mode assms(2) z vn norm show ?thesis
      by (simp add: buildRequestConditionExpr_def ph_expr_def Let_def)
        (simp add: quote_app safe_json_esc js_def)
  qed
  have p2: "tryParseRequestCondition ?p2 = Inr None" "good ?p2"
  proof -
    have "\<not> is_space 112" "\<not> is_space 104" "\<not> is_space 41" by (simp_all add: is_space_def)
    note facts = this safe_facts [OF z(1)] op
    show "tryParseRequestCondition ?p2 = Inr None"
      using param_second_half [OF z(1) assms(2) _ _ _ op] assms(4) vn
        param_second_half(2) [OF z(1) assms(2), of v "[50]" "js ''>''"]
        param_second_half(1) [OF z(1) assms(2), of "[]" v "cmp_op mode"] op
      by (auto simp: safe_text_def match_defs num_char_def is_digit_def)
    show "good ?p2"
    proof (cases "mode = MATCH_CONTAINS")
      case True
      with assms(4) have "list_all safe_char v" by (auto simp: safe_text_def match_defs)
      with facts safe_facts [of v] True show ?thesis
        by (simp add: good_def js_def nest_def bal_none depths_ok_none)
    next
      case False
      with assms(4) vn have "list_all num_char v" "v \<noteq> []" by auto
      with facts num_facts [of v] num_last [of v] False show ?thesis
        by (auto simp: good_def js_def nest_def bal_none depths_ok_none)
    qed
  qed
  have ne: "js ''param(\"'' @ z @ js ''\") != nil && '' @ ?p2 \<noteq> []" by (simp add: js_def)
  have "buildRequestRuleExpr [\<lparr> rg_conditions = [ph_cond SOURCE_PARAM z mode v], rg_multiplier = m \<rparr>]
      = factor_text (js ''param(\"'' @ z @ js ''\") != nil && '' @ ?p2) m"
    using assms(3) m(3) ne
    by (simp only: buildRequestRuleExpr_def buildRuleGroupFactor_def RequestRuleGroup.simps list.map e)
      (simp add: factor_text_def Let_def)
  then show ?thesis
    using param_pair_unreadable [OF z(1) assms(2) p2(2,1) m(1,2)] by simp
qed

theorem param_rules_unreadable_witness:
  "tryParseRequestRuleExpr (buildRequestRuleExpr
    [\<lparr> rg_conditions = [ph_cond SOURCE_PARAM (js ''max_tokens'') MATCH_GT [50]], rg_multiplier = [50] \<rparr>]) = Inr None"
  by (rule param_rules_unreadable)
    (use numeric_literal_digit in \<open>simp_all add: safe_text_def safe_char_def js_def trim_def is_space_def\<close>)

text \<open>A string literal that is no JSON makes the parser throw instead of answering \<open>null\<close>:
  the call of \<open>JSON.parse\<close> on a header pattern is not guarded.\<close>

theorem rule_parser_throws:
  "tryParseRequestRuleExpr (js ''(has(header(\"x\"), \"'' @ [92, 113] @ js ''\") ? 2 : 1)'') = Inl SyntaxError"
proof -
  let ?c = "js ''has(header(\"x\"), \"'' @ [92, 113] @ js ''\")''"
  have f: "js ''(has(header(\"x\"), \"'' @ [92, 113] @ js ''\") ? 2 : 1)'' = factor_text ?c [50]"
    by (simp add: factor_text_def js_def)
  have c: "good ?c"
    by (simp add: good_def js_def is_space_def nest_def bal_none depths_ok_none)
  have quoted: "rx_m (rx_json_string i) p (34 # 92 # 113 # 34 # s) c k = k (Some 34) s ((i, [34, 92, 113, 34]) # c)"
    for i p s c and k :: "nat option \<Rightarrow> jstr \<Rightarrow> caps \<Rightarrow> caps option"
    unfolding rx_json_string_def
    by (cases "k (Some 34) s ((i, [34, 92, 113, 34]) # c)")
      (simp_all add: RLit_def rx_json_char_def line_end_def rx_m.simps(5) [of "RAlt a b" for a b])
  have "json_value (Suc (2 * length [34, 92, 113, 34 :: nat])) [34, 92, 113, 34] = None"
    by (simp only: json_value.simps) (simp add: json_ws_def simple_escape_def)
  then have "json_parse [34, 92, 113, 34] = None"
    unfolding json_parse_def by (simp only: option.case)
  then have "tryParseRequestCondition ?c = Inl SyntaxError"
    using time_none(3) [of "js ''header(\"x\"), \"'' @ [92, 113] @ js ''\")''"]
      quoted_delim [of "[120]"]
    unfolding tryParseRequestCondition_def rx_header_exists_def rx_param_exists_def rx_header_has_def
    by (simp add: rx_eval js_def json_parse_res_def cap_def quoted safe_char_def
        quoted_delim [of "[120]", simplified] del: rx_m.simps(7) RStr_simps)
  then have group: "tryParseRuleGroupFactor (factor_text ?c [50]) = Inl SyntaxError"
    using splitTopLevelAnd_join [of "[?c]"] c good_trim [OF c]
    unfolding tryParseRuleGroupFactor_def
    by (simp add: rule_factor_match num_char_def is_digit_def cap_def)
  have "factor_like (factor_text ?c [50])"
    unfolding factor_like_def factor_text_def
    by (intro exI [of _ "?c @ js '' ? 2 : 1''"]) (simp add: js_def nest_def bal_none depths_ok_none)
  then have "splitTopLevelMultiply (factor_text ?c [50]) = [factor_text ?c [50]]"
    "trim (factor_text ?c [50]) = factor_text ?c [50]" "factor_text ?c [50] \<noteq> []"
    using splitTopLevelMultiply_join [of "[factor_text ?c [50]]"] factor_like_facts by simp_all
  then show ?thesis unfolding f tryParseRequestRuleExpr_def by (simp only: Let_def if_False parse_factors.simps group bind_res.simps)
qed

section \<open>Joining and splitting\<close>

lemma outer_parens_nest:
  "depths_ok d e \<Longrightarrow> 1 \<le> d + bal e \<Longrightarrow> outer_parens_loop d (e @ s) = outer_parens_loop (d + bal e) s"
  by (induction e arbitrary: d) (auto simp: Let_def algebra_simps)

lemma full_parens: "nest b \<Longrightarrow> hasFullOuterParens (40 # b @ [41])"
  using outer_parens_nest [of 1 b "[41]"]
  by (simp add: hasFullOuterParens_def nest_def js_def ends_with_def)

lemma unwrap_step: "nest b \<Longrightarrow> unwrap_loop (40 # b @ [41]) = unwrap_loop (trim b)"
  by (subst unwrap_loop.simps) (simp add: full_parens strip_ends_def)

lemma trimmed_unwrap: "trim s = s \<Longrightarrow> trim (unwrap_loop s) = unwrap_loop s"
proof (induction s rule: unwrap_loop.induct)
  case (1 s)
  then show ?case by (subst (1 2) unwrap_loop.simps) simp
qed

lemma unwrap_none: "\<not> hasFullOuterParens (unwrap_loop s)"
proof (induction s rule: unwrap_loop.induct)
  case (1 s)
  then show ?case by (subst unwrap_loop.simps) simp
qed

lemma depths_ok_mono: "depths_ok d s \<Longrightarrow> d \<le> d' \<Longrightarrow> depths_ok d' s"
  by (induction s arbitrary: d d') (fastforce simp: Let_def)+

text \<open>A loop that succeeds has met the closing parenthesis of the first one at the end only.\<close>

lemma outer_parens_inside:
  "outer_parens_loop d (m @ [41]) \<Longrightarrow> 1 \<le> d \<Longrightarrow> depths_ok d m \<and> d + bal m = 1"
proof (induction m arbitrary: d)
  case (Cons c m)
  let ?d = "if c = 40 then d + 1 else if c = 41 then d - 1 else d"
  have "?d \<noteq> 0" "outer_parens_loop ?d (m @ [41])"
    using Cons.prems(1) by (auto simp: Let_def simp del: bal_simps split: if_splits)
  moreover from this have "1 \<le> ?d" using Cons.prems(2) by (auto split: if_splits)
  ultimately have "depths_ok ?d m" "?d + bal m = 1" using Cons.IH by blast+
  with \<open>1 \<le> ?d\<close> show ?case by (auto simp: Let_def split: if_splits)
qed simp

lemma full_parens_iff: "hasFullOuterParens s \<longleftrightarrow> (\<exists>m. s = 40 # m @ [41] \<and> nest m)"
proof
  assume h: "hasFullOuterParens s"
  then have ends: "starts_with (js ''('') s" "ends_with (js '')'') s" "outer_parens_loop 0 s"
    by (auto simp: hasFullOuterParens_def split: if_splits)
  then obtain t where t: "s = 40 # t" by (cases s) (auto simp: starts_with_def js_def)
  with ends(2) obtain m where m: "t = m @ [41]"
    by (cases t rule: rev_cases) (auto simp: ends_with_def js_def)
  have "outer_parens_loop 1 (m @ [41])" using ends(3) t m by simp
  then have "depths_ok 1 m" "bal m = 0" using outer_parens_inside [of 1 m] by simp_all
  then have "nest m" using depths_ok_mono [of 1 m] by (simp add: nest_def)
  with t m show "\<exists>m. s = 40 # m @ [41] \<and> nest m" by blast
qed (auto intro: full_parens)

lemma trim_blanks:
  assumes "list_all is_space u" "list_all is_space v"
  shows "trim (u @ s @ v) = trim s"
proof -
  have drop: "dropWhile is_space (w @ xs) = dropWhile is_space xs" if "list_all is_space w" for w xs
    using that by (induction w) auto
  have u: "dropWhile is_space (u @ s @ v) = dropWhile is_space (s @ v)" by (rule drop [OF assms(1)])
  show ?thesis
  proof (cases "list_all is_space s")
    case True
    then have "dropWhile is_space (s @ v) = []" "dropWhile is_space s = []"
      using assms(2) by (auto simp: list_all_iff dropWhile_eq_Nil_conv)
    then show ?thesis unfolding trim_def u by (simp only:)
  next
    case False
    then have "dropWhile is_space (s @ v) = dropWhile is_space s @ v"
      by (metis Ball_set dropWhile_append1)
    then show ?thesis using drop [of "rev v"] assms(2) by (simp add: trim_def u list_all_iff)
  qed
qed

lemma blanks_around: "\<exists>u v. s = u @ trim s @ v \<and> list_all is_space u \<and> list_all is_space v"
proof -
  let ?d = "dropWhile is_space s"
  have "?d = rev (dropWhile is_space (rev ?d)) @ rev (takeWhile is_space (rev ?d))"
    by (metis rev_append rev_rev_ident takeWhile_dropWhile_id)
  then have "s = takeWhile is_space s @ trim s @ rev (takeWhile is_space (rev ?d))"
    unfolding trim_def by (metis takeWhile_dropWhile_id)
  moreover have "list_all is_space (takeWhile is_space xs)" for xs by (auto simp: list_all_iff dest: set_takeWhileD)
  ultimately show ?thesis by (metis list_all_rev)
qed

text \<open>A text with any number of layers of matching parentheses around it, with white space inside
  each.\<close>

inductive paren_layers :: "jstr \<Rightarrow> jstr \<Rightarrow> bool" for core where
  bare: "paren_layers core core"
| layer: "paren_layers core s \<Longrightarrow> list_all is_space u \<Longrightarrow> list_all is_space v \<Longrightarrow> nest (u @ s @ v) \<Longrightarrow>
    paren_layers core (40 # u @ s @ v @ [41])"

lemma layers_trim: "paren_layers core s \<Longrightarrow> trim core = core \<Longrightarrow> trim s = s"
  by (induction rule: paren_layers.induct) (auto intro!: trim_id simp: trimmed_def is_space_def)

lemma layers_unwrap:
  "paren_layers core s \<Longrightarrow> trim core = core \<Longrightarrow> \<not> hasFullOuterParens core \<Longrightarrow> unwrap_loop s = core"
proof (induction rule: paren_layers.induct)
  case bare
  then show ?case by (subst unwrap_loop.simps) simp
next
  case (layer s u v)
  have "trim (u @ s @ v) = s" using layer layers_trim by (simp add: trim_blanks)
  then show ?case using unwrap_step [OF layer.hyps(4)] layer by simp
qed

lemma unwrap_layers: "trim s = s \<Longrightarrow> paren_layers (unwrap_loop s) s"
proof (induction s rule: unwrap_loop.induct)
  case (1 s)
  show ?case
  proof (cases "hasFullOuterParens s")
    case True
    then obtain m where m: "s = 40 # m @ [41]" "nest m" by (auto simp: full_parens_iff)
    then have step: "strip_ends s = m" by (simp add: strip_ends_def)
    obtain u v where uv: "m = u @ trim m @ v" "list_all is_space u" "list_all is_space v" using blanks_around by blast
    have "paren_layers (unwrap_loop (trim m)) (trim m)" using 1 True step by simp
    then have "paren_layers (unwrap_loop (trim m)) (40 # u @ trim m @ v @ [41])"
      using uv m(2) by (intro paren_layers.layer) simp_all
    moreover have "40 # u @ trim m @ v @ [41] = s" using uv(1) m(1) by simp
    moreover have "unwrap_loop s = unwrap_loop (trim m)" by (subst unwrap_loop.simps) (simp add: True step)
    ultimately show ?thesis by simp
  next
    case False
    then show ?thesis by (subst unwrap_loop.simps) (simp add: paren_layers.bare)
  qed
qed

text \<open>C40. Unwrapping strips exactly the enclosing parentheses: its result is the one text that is
  trimmed, is not itself a text in a pair of matching parentheses, and gives the trimmed input when paren_layers
  in some number of such pairs, with white space between them.\<close>

theorem unwrap_outer_parens_exact:
  "unwrapOuterParens e = r \<longleftrightarrow>
     paren_layers r (trim e) \<and> trim r = r \<and> \<not> (\<exists>m. r = 40 # m @ [41] \<and> nest m)"
  unfolding unwrapOuterParens_def full_parens_iff [symmetric]
  using layers_unwrap unwrap_layers unwrap_none trimmed_unwrap by (metis trim_trim)









section \<open>The editor's normal form\<close>

text \<open>Whatever the editor is given, nothing included, the normalised condition has a source of
  one of the three kinds, a mode its source offers, a known time function and a time zone; and a
  normalised condition is left as it is.\<close>

theorem normalize_condition_valid:
  "(case normalize_partial c of
      Time_cond t \<Rightarrow> tc_timeFunc t \<in> set TIME_FUNCS \<and> tc_timezone t \<noteq> [] \<and>
        tc_mode t \<in> fst ` set (getRequestRuleMatchOptions SOURCE_TIME)
    | PH_cond p \<Rightarrow> ph_source p \<in> {SOURCE_PARAM, SOURCE_HEADER} \<and>
        ph_mode p \<in> fst ` set (getRequestRuleMatchOptions (ph_source p)))
   \<and> normalizeCondition (normalize_partial c) = normalize_partial c"
proof -
  have pick: "pick_mode s m d \<in> fst ` set (getRequestRuleMatchOptions s)"
    if "d \<in> fst ` set (getRequestRuleMatchOptions s)" for s m d
    using that by (force simp: pick_mode_def)
  have pick_id: "pick_mode s (Some m) d = m" if "m \<in> fst ` set (getRequestRuleMatchOptions s)" for s m d
    using that by (force simp: pick_mode_def)
  have opts: "MATCH_GTE \<in> fst ` set (getRequestRuleMatchOptions SOURCE_TIME)"
    "MATCH_EQ \<in> fst ` set (getRequestRuleMatchOptions s)" for s
    by (simp_all add: getRequestRuleMatchOptions_def Let_def)
  have src: "SOURCE_PARAM \<noteq> SOURCE_TIME" "SOURCE_HEADER \<noteq> SOURCE_TIME" "SOURCE_PARAM \<noteq> SOURCE_HEADER"
    "js ''time'' = SOURCE_TIME" "js ''header'' = SOURCE_HEADER" by (simp_all add: match_defs)
  have tf: "js ''hour'' \<in> set TIME_FUNCS" by (simp add: TIME_FUNCS_def)
  have zone: "sor z (js ''Asia/Shanghai'') \<noteq> []" for z by (simp add: sor_def)
  have isF: "isTimeFunc x \<Longrightarrow> the x \<in> set TIME_FUNCS" for x by (cases x) (simp_all add: isTimeFunc_def)
  show ?thesis
    using pick opts tf zone isF src
    by (cases c) (auto simp: normalize_partial_def normalizeCondition_def Let_def pick_id opt_str_def
        isTimeFunc_def sor_def split: if_splits)
qed


end
