(* ===== verification/TierExpr.thy ===== *)
theory TierExpr
  imports BillingExpr
begin

text \<open>
  The visual tier editor, \<open>features/pricing/lib/tier-expr.ts\<close>: tiers as dynamic objects (the
  source indexes them by field name), the normaliser, the printer of billing expressions, the
  parser that accepts an expression only if printing its result gives it back, and the local
  estimator, whose evaluator (\<open>new Function\<close>) is the parameter \<open>run\<close>.
\<close>

type_synonym tier_obj = "(jstr \<times> jval) list"

record VisualConfig =
  vc_tiers :: "tier_obj list"

definition CACHE_MODE_TIMED :: jstr where "CACHE_MODE_TIMED = js ''timed''"
definition CACHE_MODE_GENERIC :: jstr where "CACHE_MODE_GENERIC = js ''generic''"

definition getTierCacheMode :: "tier_obj option \<Rightarrow> jstr" where
  "getTierCacheMode tier = (let get = (\<lambda>k. case tier of None \<Rightarrow> VUndef | Some t \<Rightarrow> vget t k) in
     if get ''cache_mode'' = VStr CACHE_MODE_TIMED then CACHE_MODE_TIMED
     else if get ''cache_mode'' = VStr CACHE_MODE_GENERIC then CACHE_MODE_GENERIC
     else if jgt (val_to_num (get ''cache_create_1h_unit_cost'')) (JFin 0) then CACHE_MODE_TIMED
     else CACHE_MODE_GENERIC)"

text \<open>\<open>Number(v) || 0\<close>.\<close>

definition num_or_0 :: "jval \<Rightarrow> jnum" where
  "num_or_0 v = jor (val_to_num v) (JFin 0)"

definition cost_fields :: "string list" where
  "cost_fields = [''cache_read_unit_cost'', ''cache_create_unit_cost'', ''cache_create_1h_unit_cost'',
     ''image_unit_cost'', ''image_output_unit_cost'', ''audio_input_unit_cost'', ''audio_output_unit_cost'']"

definition tier_defaults :: "tier_obj \<Rightarrow> tier_obj" where
  "tier_defaults tier =
     [(js ''label'', vnull_or (vget tier ''label'') (VStr [])),
      (js ''input_unit_cost'', VNum (num_or_0 (vget tier ''input_unit_cost''))),
      (js ''output_unit_cost'', VNum (num_or_0 (vget tier ''output_unit_cost''))),
      (js ''cache_mode'', VStr (getTierCacheMode (Some tier))),
      (js ''conditions'', case vget tier ''conditions'' of VArr cs \<Rightarrow> VArr cs | _ \<Rightarrow> VArr [])]"

text \<open>The object literal of the source: defaults, then the spread of the argument, then the cache,
  image and audio costs.\<close>

definition normalizeVisualTier :: "tier_obj \<Rightarrow> tier_obj" where
  "normalizeVisualTier tier =
     foldl (\<lambda>t f. assoc_put (js f) (VNum (num_or_0 (vget tier f))) t)
       (assoc_spread (tier_defaults tier) tier) cost_fields"

definition createDefaultVisualConfig :: VisualConfig where
  "createDefaultVisualConfig = \<lparr> vc_tiers = [normalizeVisualTier
     [(js ''conditions'', VArr []), (js ''input_unit_cost'', VNum (JFin 0)),
      (js ''output_unit_cost'', VNum (JFin 0)), (js ''label'', VStr (js ''base'')),
      (js ''cache_mode'', VStr CACHE_MODE_GENERIC)]] \<rparr>"

definition normalizeVisualConfig :: "VisualConfig option \<Rightarrow> VisualConfig" where
  "normalizeVisualConfig config = (case config of
      None \<Rightarrow> createDefaultVisualConfig
    | Some c \<Rightarrow> if vc_tiers c = [] then createDefaultVisualConfig
        else c\<lparr> vc_tiers := map normalizeVisualTier (vc_tiers c) \<rparr>)"

section \<open>Printing\<close>

fun cond_text :: "jval \<Rightarrow> jstr option" where
  "cond_text (VObj c) =
     (if truthy (vget c ''var'') \<and> truthy (vget c ''op'') \<and> \<not> nullish (vget c ''value'')
         \<and> vget c ''value'' \<noteq> VStr []
      then Some (val_to_str (vget c ''var'') @ [32] @ val_to_str (vget c ''op'') @ [32]
        @ val_to_str (vget c ''value''))
      else None)"
| "cond_text _ = None"

definition buildConditionStr :: "jval \<Rightarrow> jstr" where
  "buildConditionStr conditions = (case conditions of
      VArr cs \<Rightarrow> join (js '' && '') (List.map_filter cond_text cs)
    | _ \<Rightarrow> [])"

definition buildTierBodyExpr :: "tier_obj \<Rightarrow> jstr" where
  "buildTierBodyExpr tier =
     (let ic = num_or_0 (vget tier ''input_unit_cost'');
          oc = num_or_0 (vget tier ''output_unit_cost'');
          extra = concat (map (\<lambda>(field, exprVar).
            let v = (case map_of tier field of None \<Rightarrow> num_or_0 VUndef | Some x \<Rightarrow> num_or_0 x) in
            if \<not> jeq v (JFin 0) then [exprVar @ js '' * '' @ num_to_str v] else []) BILLING_CACHE_VAR_MAP)
      in join (js '' + '') ((js ''p * '' @ num_to_str ic) # (js ''c * '' @ num_to_str oc) # extra))"

definition tier_call :: "jstr \<Rightarrow> tier_obj \<Rightarrow> jstr" where
  "tier_call label tier = js ''tier(\"'' @ label @ js ''\", '' @ buildTierBodyExpr tier @ js '')''"

definition label_or :: "tier_obj \<Rightarrow> jstr \<Rightarrow> jstr" where
  "label_or tier d = val_to_str (vor (vget tier ''label'') (VStr d))"

fun tier_parts :: "nat \<Rightarrow> nat \<Rightarrow> tier_obj list \<Rightarrow> jstr list" where
  "tier_parts n i [] = []"
| "tier_parts n i (tier # tiers) =
     (let body = tier_call (label_or tier (js ''tier_'' @ int_to_str (int i + 1))) tier;
          cond = buildConditionStr (vget tier ''conditions'') in
      (if i < n - 1 \<and> cond \<noteq> [] then cond @ js '' ? '' @ body else body) # tier_parts n (Suc i) tiers)"

definition generateExprFromVisualConfig :: "VisualConfig option \<Rightarrow> jstr" where
  "generateExprFromVisualConfig config = (case config of
      None \<Rightarrow> js ''p * 0 + c * 0''
    | Some cfg \<Rightarrow> (case vc_tiers cfg of
        [] \<Rightarrow> js ''p * 0 + c * 0''
      | [tier] \<Rightarrow>
          (let body = tier_call (label_or tier (js ''default'')) tier;
               cond = buildConditionStr (vget tier ''conditions'') in
           if cond \<noteq> [] then cond @ js '' ? '' @ body @ js '' : p * 0 + c * 0'' else body)
      | tiers \<Rightarrow> join (js '' : '') (tier_parts (length tiers) 0 tiers)))"

section \<open>Parsing\<close>

definition rx_version :: rx where
  "rx_version = RSeqs [RBol, RLit 118, RPlus (RCh is_digit), RLit 58, RGrp 1 (RStar (RCh (\<lambda>_. True))), REol]"

definition rx_opt_cache :: "nat \<Rightarrow> jstr \<Rightarrow> rx" where
  "rx_opt_cache i v = ROpt (RSeqs [RSpaces, RLit 43, RSpaces, RStr v, RSpaces, RLit 42, RSpaces,
     RGrp i (RPlus (RCh num_char))])"

text \<open>\<open>bodyPat\<close>, its first group numbered \<open>i\<close>.\<close>

definition rx_body :: "nat \<Rightarrow> rx list" where
  "rx_body i = [RStr (js ''p''), RSpaces, RLit 42, RSpaces, RGrp i (RPlus (RCh num_char)), RSpaces,
      RLit 43, RSpaces, RStr (js ''c''), RSpaces, RLit 42, RSpaces, RGrp (i + 1) (RPlus (RCh num_char))]
     @ map2 rx_opt_cache [i + 2 ..< i + 2 + length BILLING_CACHE_VAR_MAP] (map snd BILLING_CACHE_VAR_MAP)"

definition rx_tier_head :: "nat \<Rightarrow> rx list" where
  "rx_tier_head i = [RStr (js ''tier(\"''), RGrp i (RStar (RCh (\<lambda>c. c \<noteq> 34))), RStr (js ''\",''), RSpaces]"

definition rx_single :: rx where
  "rx_single = RSeqs (RBol # rx_tier_head 1 @ rx_body 2 @ [RLit 41, REol])"

definition rx_tiers :: rx where
  "rx_tiers = RSeqs (ROpt (RSeqs [rx_cond_group, RSpaces, RLit 63, RSpaces])
     # rx_tier_head 2 @ rx_body 3 @ [RLit 41])"

text \<open>The tier a match describes; groups of optional parts that took no part add no field.\<close>

definition tier_from :: "jval list \<Rightarrow> caps \<Rightarrow> nat \<Rightarrow> tier_obj" where
  "tier_from conditions m i =
     foldl (\<lambda>t (j, field). case map_of m j of None \<Rightarrow> t | Some w \<Rightarrow> assoc_put field (VNum (str_to_num w)) t)
       [(js ''conditions'', VArr conditions), (js ''input_unit_cost'', VNum (str_to_num (cap m (i + 1)))),
        (js ''output_unit_cost'', VNum (str_to_num (cap m (i + 2)))), (js ''label'', VStr (cap m i))]
       (zip [i + 3 ..< i + 3 + length BILLING_CACHE_VAR_MAP] (map fst BILLING_CACHE_VAR_MAP))"

definition conditions_from :: "jstr \<Rightarrow> jval list" where
  "conditions_from condStr = (if condStr = [] then []
     else map (\<lambda>c. VObj [(js ''var'', VStr (tier_var c)), (js ''op'', VStr (tier_op c)),
        (js ''value'', VNum (tier_value c))])
       (List.map_filter parse_tier_condition (split_rx (length condStr) rx_and_sep [] condStr)))"

definition strip_spaces :: "jstr \<Rightarrow> jstr" where
  "strip_spaces s = filter (\<lambda>c. \<not> is_space c) s"

definition version_body :: "jstr \<Rightarrow> jstr" where
  "version_body exprStr = (case rx_match rx_version exprStr of Some m \<Rightarrow> cap m 1 | None \<Rightarrow> exprStr)"

definition tryParseVisualConfig :: "jstr option \<Rightarrow> VisualConfig option" where
  "tryParseVisualConfig exprStr = (case exprStr of None \<Rightarrow> None
    | Some e \<Rightarrow> if e = [] then None else
      (let body = version_body e in
       case rx_match rx_single body of
         Some simple \<Rightarrow> Some (normalizeVisualConfig (Some \<lparr> vc_tiers =
           [normalizeVisualTier (tier_from [] simple 1)] \<rparr>))
       | None \<Rightarrow>
         let tiers = map (\<lambda>m. normalizeVisualTier (tier_from (conditions_from (cap m 1)) m 2))
           (rx_all rx_tiers None body) in
         if tiers = [] then None
         else let cfg = normalizeVisualConfig (Some \<lparr> vc_tiers = tiers \<rparr>);
                  regenerated = generateExprFromVisualConfig (Some cfg) in
           if strip_spaces regenerated \<noteq> strip_spaces body then None else Some cfg))"

section \<open>The estimator\<close>

definition ESTIMATOR_VARS :: "(jstr \<times> jstr) list" where
  "ESTIMATOR_VARS = [(js ''cr'', js ''cacheReadTokens''), (js ''cc'', js ''cacheCreateTokens''),
     (js ''cc1h'', js ''cacheCreate1hTokens''), (js ''img'', js ''imageTokens''),
     (js ''img_o'', js ''imageOutputTokens''), (js ''ai'', js ''audioInputTokens''),
     (js ''ao'', js ''audioOutputTokens'')]"

record EvalResult =
  er_cost :: jnum
  er_matchedTier :: jstr
  er_error :: "jstr option"

text \<open>\<open>run env e\<close> evaluates the expression: \<open>Inl\<close> is the message of what it throws, \<open>Inr\<close> its value
  with the name the last call of \<open>tier\<close> was given, if any.\<close>

definition estimator_env :: "jnum \<Rightarrow> jnum \<Rightarrow> (jstr \<Rightarrow> jnum) \<Rightarrow> (jstr \<times> jnum) list" where
  "estimator_env promptTokens completionTokens extra =
     (let val = (\<lambda>k. jor (extra k) (JFin 0));
          len = jadd (jadd (jadd promptTokens (val (js ''cacheReadTokens'')))
            (val (js ''cacheCreateTokens''))) (val (js ''cacheCreate1hTokens'')) in
      [(js ''p'', promptTokens), (js ''c'', completionTokens), (js ''len'', len)]
      @ map (\<lambda>(v, k). (v, val k)) ESTIMATOR_VARS)"

definition evalExprLocally :: "((jstr \<times> jnum) list \<Rightarrow> jstr \<Rightarrow> jstr + jval \<times> jstr option)
    \<Rightarrow> jstr \<Rightarrow> jnum \<Rightarrow> jnum \<Rightarrow> (jstr \<Rightarrow> jnum) \<Rightarrow> EvalResult" where
  "evalExprLocally run exprStr promptTokens completionTokens extra =
     (if exprStr = [] \<or> trim exprStr = [] then \<lparr> er_cost = JFin 0, er_matchedTier = [], er_error = None \<rparr>
      else case run (estimator_env promptTokens completionTokens extra) exprStr of
        Inr (v, t) \<Rightarrow> \<lparr> er_cost = num_or_0 v,
          er_matchedTier = (case t of None \<Rightarrow> [] | Some name \<Rightarrow> name), er_error = None \<rparr>
      | Inl message \<Rightarrow> \<lparr> er_cost = JFin 0, er_matchedTier = [], er_error = Some message \<rparr>)"

definition exprUsesExtraVars :: "jstr \<Rightarrow> bool" where
  "exprUsesExtraVars exprStr = (if exprStr = [] then False
     else rx_test (RSeqs [RWordB, RGrp 1 (RAlts (map (\<lambda>v. RStr (fst v)) ESTIMATOR_VARS)), RWordB]) exprStr)"

section \<open>The normaliser\<close>

lemma assoc_put_keys: "fst ` set (assoc_put k v m) = insert k (fst ` set m)"
  using keys_assoc_put [of k v m] by (metis dom_map_of_conv_image_fst fun_upd_apply map_of_assoc_put dom_fun_upd option.distinct(1))

lemma vget_put: "vget (assoc_put (js f) v m) g = (if f = g then v else vget m g)"
  by (simp add: vget_def)

lemma foldl_puts:
  "vget (foldl (\<lambda>t f. assoc_put (js f) (h f) t) m fs) g = (if g \<in> set fs then h g else vget m g)"
  by (induction fs arbitrary: m) (auto simp: vget_put)

lemma foldl_puts_distinct:
  "distinct (map fst m) \<Longrightarrow> distinct (map fst (foldl (\<lambda>t f. assoc_put (js f) (h f) t) m fs))"
  by (induction fs arbitrary: m) simp_all

lemma vget_spread:
  "distinct (map fst b) \<Longrightarrow> vget (assoc_spread a b) g = (if vhas b g then vget b g else vget a g)"
  by (auto simp: vget_def map_of_assoc_spread vhas_iff map_add_def split: option.splits)

lemma distinct_spread: "distinct (map fst a) \<Longrightarrow> distinct (map fst (assoc_spread a b))"
proof -
  assume "distinct (map fst a)"
  then show ?thesis unfolding assoc_spread_def
    by (induction b arbitrary: a) (simp_all add: case_prod_beta)
qed

lemma vget_normalize:
  assumes "distinct (map fst t)"
  shows "vget (normalizeVisualTier t) g = (if g \<in> set cost_fields then VNum (num_or_0 (vget t g))
    else if vhas t g then vget t g else vget (tier_defaults t) g)"
  using vget_spread [OF assms] by (simp add: normalizeVisualTier_def foldl_puts)

lemma jor_idem: "jor (jor x (JFin 0)) (JFin 0) = jor x (JFin 0)"
  by (simp add: jor_def)

lemma num_or_0_facts: "num_or_0 (VNum (num_or_0 v)) = num_or_0 v" "num_or_0 v \<noteq> JNaN"
  by (simp_all add: num_or_0_def jor_def num_truthy_def)

lemma distinct_normalize: "distinct (map fst (normalizeVisualTier t))"
  unfolding normalizeVisualTier_def
  by (intro foldl_puts_distinct distinct_spread) (simp add: tier_defaults_def)

text \<open>The normaliser makes every cache, image and audio cost a number that is not NaN, but the
  spread of the argument undoes its treatment of the other fields: a label, base cost, cache mode
  or condition list the argument has is kept as it is, whatever it is; normalising twice is
  normalising once.\<close>

theorem normalize_visual_tier_fields:
  assumes "distinct (map fst t)"
  shows "(g \<in> set cost_fields \<longrightarrow> (\<exists>x. vget (normalizeVisualTier t) g = VNum x \<and> x \<noteq> JNaN)) \<and>
    (g \<in> {''label'', ''input_unit_cost'', ''output_unit_cost'', ''cache_mode'', ''conditions''} \<and> vhas t g \<longrightarrow>
       vget (normalizeVisualTier t) g = vget t g) \<and>
    vget (normalizeVisualTier (normalizeVisualTier t)) g = vget (normalizeVisualTier t) g"
proof -
  have "vget (normalizeVisualTier (normalizeVisualTier t)) g = vget (normalizeVisualTier t) g"
  proof (cases "g \<in> set cost_fields \<or> vhas (normalizeVisualTier t) g")
    case True
    then show ?thesis using vget_normalize [OF assms, of g]
      by (auto simp: vget_normalize [OF distinct_normalize] num_or_0_facts)
  next
    case False
    then have u: "vget (normalizeVisualTier t) g = VUndef"
      by (simp add: vhas_iff vget_def)
    have "vhas (normalizeVisualTier t) h" if "vhas (tier_defaults t) h" for h
    proof -
      have "vhas (assoc_put (js f) v m) h" if "vhas m h" for f v m
        using that by (simp add: vhas_def assoc_put_keys)
      then have puts: "vhas (foldl (\<lambda>u f. assoc_put (js f) (z f) u) m fs) h" if "vhas m h" for z m fs
        using that by (induction fs arbitrary: m) simp_all
      have "vhas (assoc_spread (tier_defaults t) t) h"
        using that assms by (simp add: vhas_iff map_of_assoc_spread)
      then show ?thesis unfolding normalizeVisualTier_def by (rule puts)
    qed
    then have "\<not> vhas (tier_defaults t) g" using False by blast
    moreover have "map fst (tier_defaults t) = map fst (tier_defaults (normalizeVisualTier t))"
      by (simp add: tier_defaults_def)
    ultimately have "\<not> vhas (tier_defaults (normalizeVisualTier t)) g"
      unfolding vhas_def by (metis list.set_map)
    then have "vget (tier_defaults (normalizeVisualTier t)) g = VUndef" by (simp add: vhas_iff vget_def)
    with False u show ?thesis
      by (simp add: vget_normalize [OF distinct_normalize])
  qed
  then show ?thesis using num_or_0_facts(2) by (auto simp: vget_normalize [OF assms] cost_fields_def)
qed

theorem normalize_visual_tier_fields_witness:
  "vget (normalizeVisualTier [(js ''input_unit_cost'', VStr (js ''abc''))]) ''input_unit_cost'' = VStr (js ''abc'')"
  using normalize_visual_tier_fields [of "[(js ''input_unit_cost'', VStr (js ''abc''))]" "''input_unit_cost''"]
  by (simp add: vhas_def vget_def)

text \<open>The estimator is total: an expression that throws costs 0 with the message reported, a blank
  one costs 0 without a message, and the cost is never NaN.\<close>

theorem estimator_total:
  "er_cost (evalExprLocally run e p c x) \<noteq> JNaN \<and>
   (er_error (evalExprLocally run e p c x) \<noteq> None \<longleftrightarrow>
      trim e \<noteq> [] \<and> (\<exists>m. run (estimator_env p c x) e = Inl m)) \<and>
   (er_error (evalExprLocally run e p c x) \<noteq> None \<longrightarrow>
      er_cost (evalExprLocally run e p c x) = JFin 0 \<and> er_matchedTier (evalExprLocally run e p c x) = [])"
  using num_or_0_facts(2) by (auto simp: evalExprLocally_def split: sum.splits option.splits)

theorem estimator_total_witness:
  "er_cost (evalExprLocally (\<lambda>_ _. Inl (js ''boom'')) (js ''x'') (JFin 1) (JFin 1) (\<lambda>_. JFin 0)) = JFin 0"
  using estimator_total [of "\<lambda>_ _. Inl (js ''boom'')" "js ''x''" "JFin 1" "JFin 1" "\<lambda>_. JFin 0"]
  by (simp add: js_def trim_def is_space_def)

section \<open>A printed tier is read back\<close>

text \<open>Each pricing variable with the cost the tier holds for it.\<close>

definition tier_cost :: "tier_obj \<Rightarrow> BillingVar \<Rightarrow> jnum" where
  "tier_cost tier v = (case map_of tier (the (bv_tierField v)) of
     None \<Rightarrow> num_or_0 VUndef | Some x \<Rightarrow> num_or_0 x)"

definition item_text :: "jstr \<times> jnum \<Rightarrow> jstr" where
  "item_text kx = fst kx @ js '' * '' @ num_to_str (snd kx)"

definition pricing_keys :: "jstr list" where
  "pricing_keys = map bv_key BILLING_PRICING_VARS"

lemmas pricing_eval = pricing_keys_def BILLING_PRICING_VARS_def BILLING_VARS_def

lemma star_space: 
  assumes "\<And>p' t c'. k p' (32 # t) c' = None" "x \<noteq> 32" "\<not> is_space x"
  shows "rx_m RSpaces p (32 # x # s) c k = k (Some 32) (x # s) c"
proof -
  have "is_space 32" by (simp add: is_space_def)
  with assms show ?thesis
    by (cases "k (Some 32) (x # s) c") (simp_all add: rx_m_star_class_step)
qed

lemma star_space0: "\<not> is_space x \<Longrightarrow> rx_m RSpaces p (x # s) c k = k p (x # s) c"
  by (simp add: rx_m_star_class_step)

definition var_tail :: rx where
  "var_tail = RSeqs [RSpaces, RLit 42, RSpaces, RGrp 2 (RPlus (RCh num_char))]"

lemma var_regex: "BILLING_VAR_REGEX
    = RSeq RWordB (RSeq (RGrp 1 (RAlts (map (\<lambda>v. RStr (bv_key v)) BILLING_PRICING_VARS))) var_tail)"
  by (simp add: BILLING_VAR_REGEX_def var_tail_def)

lemma item_match:
  assumes "k \<in> set pricing_keys" "p = None \<or> p = Some 32" "list_all num_char w" "w \<noteq> []" "s = [] \<or> hd s = 32"
  shows "\<exists>q. rx_at BILLING_VAR_REGEX p (k @ js '' * '' @ w @ s) = Some (q, s, [(2, w), (1, k)])"
proof -
  have sp: "is_space 32" "\<not> is_space 42" "\<not> is_word 32" by (simp_all add: is_space_def is_word_def is_digit_def)
  have ns: "\<not> num_char 32" using num_char_def by (simp add: is_digit_def)
  obtain x u where w: "w = x # u" using assms(4) by (cases w) auto
  with assms(3) have x: "\<not> is_space x" by (auto simp: num_char_def is_digit_def is_space_def)
  have num: "rx_m (RGrp 2 (RPlus (RCh num_char))) q (w @ s) c (\<lambda>p' s' c'. Some (p', s', c'))
      = Some (after_word q w, s, (2, w) # c)" for q c
  proof -
    have "rx_m (RPlus (RCh num_char)) q (w @ s) c (\<lambda>p' s' c'. Some (p', s', (2, take (length (w @ s) - length s') (w @ s)) # c'))
      = Some (after_word q w, s, (2, take (length (w @ s) - length s) (w @ s)) # c)"
      using assms(3,4,5) ns by (intro rx_m_plus_class_hit) (auto simp: list_all_iff)
    then show ?thesis by simp
  qed
  have tail: "rx_m var_tail q (32 # 42 # 32 # w @ s) c
      (\<lambda>p' s' c'. Some (p', s', c')) = Some (after_word (Some 32) w, s, (2, w) # c)" for q c
    unfolding var_tail_def using num x w sp
    by (simp add: star_space star_space0 RLit_def rx_m_star_class_step del: rx_m.simps(7) append_Cons)
      (simp add: rx_m_star_class_step del: rx_m.simps(7))
  have tail_none: "rx_m var_tail q (y # t) c
      (\<lambda>p' s' c'. Some (p', s', c')) = None" if "\<not> is_space y" "y \<noteq> 42" for q c y t
    using that by (simp add: var_tail_def rx_m_star_class_step RLit_def)
  have wb: "at_word_boundary p (y # t)" if "is_word y" for y t
    using that assms(2) sp by (auto simp: at_word_boundary_def)
  have alts: "RAlts (map (\<lambda>v. RStr (bv_key v)) BILLING_PRICING_VARS) = RAlts (map RStr pricing_keys)"
    by (simp add: pricing_keys_def o_def)
  have keys: "pricing_keys = [js ''p'', js ''c'', js ''cr'', js ''cc'', js ''cc1h'', js ''img'', js ''img_o'', js ''ai'', js ''ao'']"
    by (simp add: pricing_eval)
  have words: "is_word 112" "is_word 99" "is_word 105" "is_word 97"
    and plain: "\<not> is_space 114" "\<not> is_space 99" "\<not> is_space 49" "\<not> is_space 95"
    by (simp_all add: is_word_def is_digit_def is_space_def)
  from assms(1) show ?thesis
    unfolding rx_at_def var_regex alts keys list.set insert_iff empty_iff
    by (elim disjE FalseE; hypsubst; simp add: js_def rx_m_grp_RAlt rx_m_grp_RStr tail tail_none wb words plain
        del: rx_m.simps(7) RStr_simps)
qed

lemma var_at_none: "x \<notin> {112, 99, 105, 97} \<Longrightarrow> rx_at BILLING_VAR_REGEX p (x # t) = None"
  "rx_at BILLING_VAR_REGEX p [] = None"
  unfolding rx_at_def var_regex pricing_eval
  by (simp_all add: js_def rx_m_grp_RAlt rx_m_grp_RStr del: rx_m.simps(7) RStr_simps)

lemma var_find_skip:
  "rx_find BILLING_VAR_REGEX q (js '' + '' @ s) = rx_find BILLING_VAR_REGEX (Some 32) s"
  by (simp add: js_def rx_find.simps [of _ _ "_ # _"] var_at_none del: rx_find.simps)

definition item_ok :: "jstr \<times> jnum \<Rightarrow> bool" where
  "item_ok kx = (fst kx \<in> set pricing_keys \<and> list_all num_char (num_to_str (snd kx)) \<and> num_to_str (snd kx) \<noteq> [])"

lemma item_find:
  assumes "item_ok kx" "p = None \<or> p = Some 32" "s = [] \<or> hd s = 32"
  shows "\<exists>q. rx_find BILLING_VAR_REGEX p (item_text kx @ s)
    = Some (q, s, [(2, num_to_str (snd kx)), (1, fst kx)])"
  using item_match [of "fst kx" p "num_to_str (snd kx)" s] assms
  by (subst rx_find.simps) (auto simp: item_ok_def item_text_def)

lemma items_all:
  assumes "kxs \<noteq> []" "\<forall>kx\<in>set kxs. item_ok kx" "p = None \<or> p = Some 32"
  shows "rx_all BILLING_VAR_REGEX p (join (js '' + '') (map item_text kxs))
    = map (\<lambda>kx. [(2, num_to_str (snd kx)), (1, fst kx)]) kxs"
  using assms
proof (induction kxs arbitrary: p)
  case (Cons kx kxs)
  have ok: "item_ok kx" using Cons.prems by simp
  have ne: "item_text kx \<noteq> []" by (simp add: item_text_def js_def)
  show ?case
  proof (cases "kxs = []")
    case True
    obtain q where "rx_find BILLING_VAR_REGEX p (item_text kx) = Some (q, [], [(2, num_to_str (snd kx)), (1, fst kx)])"
      using item_find [OF ok Cons.prems(3), of "[]"] by auto
    moreover have "rx_all BILLING_VAR_REGEX q [] = []"
      by (subst rx_all.simps) (simp add: rx_find.simps [of _ _ "[]"] var_at_none)
    ultimately show ?thesis using True ne by (subst rx_all.simps) simp
  next
    case False
    let ?rest = "join (js '' + '') (map item_text kxs)"
    have sep: "hd (js '' + '' @ ?rest) = 32" by (simp add: js_def)
    obtain q where q: "rx_find BILLING_VAR_REGEX p (item_text kx @ js '' + '' @ ?rest)
        = Some (q, js '' + '' @ ?rest, [(2, num_to_str (snd kx)), (1, fst kx)])"
      using item_find [OF ok Cons.prems(3), of "js '' + '' @ ?rest"] sep by auto
    have IH: "rx_all BILLING_VAR_REGEX (Some 32) ?rest = map (\<lambda>kx. [(2, num_to_str (snd kx)), (1, fst kx)]) kxs"
      using Cons False by simp
    have "rx_all BILLING_VAR_REGEX q (js '' + '' @ ?rest) = rx_all BILLING_VAR_REGEX (Some 32) ?rest"
    proof (cases "rx_find BILLING_VAR_REGEX (Some 32) ?rest")
      case None
      then show ?thesis by (subst (1 2) rx_all.simps) (simp add: var_find_skip)
    next
      case (Some r)
      obtain kx' ks where k: "kxs = kx' # ks" using False by (cases kxs) auto
      have "\<exists>s'. ?rest = item_text kx' @ s' \<and> (s' = [] \<or> hd s' = 32)"
        using k by (cases ks) (auto simp: join_Cons js_def)
      then obtain s' where s': "?rest = item_text kx' @ s'" "s' = [] \<or> hd s' = 32" by blast
      have "item_ok kx'" using Cons.prems k by simp
      from item_find [OF this, of "Some 32" s'] s' obtain q' where
        "rx_find BILLING_VAR_REGEX (Some 32) ?rest = Some (q', s', [(2, num_to_str (snd kx')), (1, fst kx')])"
        by auto
      moreover have "length s' < length ?rest" using s'(1) by (simp add: item_text_def js_def)
      ultimately show ?thesis
        by (subst (1 2) rx_all.simps) (simp add: var_find_skip)
    qed
    with q IH False ne show ?thesis by (subst rx_all.simps) (simp add: join_Cons)
  qed
qed simp

lemma coeffs_items:
  assumes "kxs \<noteq> []" "\<forall>kx\<in>set kxs. item_ok kx \<and> str_to_num (num_to_str (snd kx)) = snd kx" "distinct (map fst kxs)"
  shows "coeffs_of (join (js '' + '') (map item_text kxs)) = kxs"
proof -
  have fold: "foldl (\<lambda>coeffs m. if cap m 1 \<in> fst ` set coeffs then coeffs
      else coeffs @ [(cap m 1, str_to_num (cap m 2))]) acc
      (map (\<lambda>kx. [(2, num_to_str (snd kx)), (1, fst kx)]) kxs) = acc @ kxs"
    if "distinct (map fst (acc @ kxs))" "\<forall>kx\<in>set kxs. str_to_num (num_to_str (snd kx)) = snd kx" for acc kxs
    using that
  proof (induction kxs arbitrary: acc)
    case (Cons kx kxs)
    from Cons.prems have "fst kx \<notin> fst ` set acc" by auto
    with Cons.prems Cons.IH [of "acc @ [kx]"] show ?case by (simp add: cap_def)
  qed simp
  have "rx_all BILLING_VAR_REGEX None (join (js '' + '') (map item_text kxs))
      = map (\<lambda>kx. [(2, num_to_str (snd kx)), (1, fst kx)]) kxs"
    using assms by (intro items_all) auto
  with fold [of "[]" kxs] assms show ?thesis by (simp add: coeffs_of_def)
qed

definition tier_items :: "tier_obj \<Rightarrow> (jstr \<times> jnum) list" where
  "tier_items tier = map (\<lambda>v. (bv_key v, tier_cost tier v))
     (filter (\<lambda>v. bv_isBase v \<or> tier_cost tier v \<noteq> JFin 0) BILLING_PRICING_VARS)"

definition plain_tier :: "tier_obj \<Rightarrow> bool" where
  "plain_tier tier = list_all (\<lambda>v. num_plain (tier_cost tier v)) BILLING_PRICING_VARS"

lemma tier_cost_vget: "tier_cost tier v = num_or_0 (case map_of tier (the (bv_tierField v)) of None \<Rightarrow> VUndef | Some x \<Rightarrow> x)"
  by (cases "map_of tier (the (bv_tierField v))") (simp_all add: tier_cost_def)

lemma jeq_zero: "x \<noteq> JNaN \<Longrightarrow> jeq x (JFin 0) \<longleftrightarrow> x = JFin 0"
  by (cases x) (simp_all add: jeq_def)

lemma body_items: "buildTierBodyExpr tier = join (js '' + '') (map item_text (tier_items tier))"
proof -
  have extra: "concat (map (\<lambda>v. if \<not> jeq (tier_cost tier v) (JFin 0)
        then [bv_key v @ js '' * '' @ num_to_str (tier_cost tier v)] else []) vs)
      = map item_text (map (\<lambda>v. (bv_key v, tier_cost tier v)) (filter (\<lambda>v. tier_cost tier v \<noteq> JFin 0) vs))" for vs
    by (induction vs) (simp_all add: item_text_def jeq_zero tier_cost_vget num_or_0_facts)
  have base: "filter (\<lambda>v. bv_isBase v \<or> tier_cost tier v \<noteq> JFin 0) BILLING_PRICING_VARS
      = take 2 BILLING_PRICING_VARS @ filter (\<lambda>v. tier_cost tier v \<noteq> JFin 0) BILLING_EXTRA_VARS"
    by (simp add: BILLING_PRICING_VARS_def BILLING_EXTRA_VARS_def BILLING_VARS_def)
  have two: "map (\<lambda>v. item_text (bv_key v, tier_cost tier v)) (take 2 BILLING_PRICING_VARS)
      = [js ''p * '' @ num_to_str (num_or_0 (vget tier ''input_unit_cost'')),
         js ''c * '' @ num_to_str (num_or_0 (vget tier ''output_unit_cost''))]"
    by (simp add: BILLING_PRICING_VARS_def BILLING_VARS_def item_text_def tier_cost_vget vget_def js_def)
  show ?thesis
    unfolding tier_items_def base buildTierBodyExpr_def BILLING_CACHE_VAR_MAP_def
    using two extra [of BILLING_EXTRA_VARS]
    by (simp add: Let_def o_def tier_cost_def [symmetric] cong: if_cong)
qed

lemma keys_distinct: "distinct (map bv_key BILLING_PRICING_VARS)"
  by (simp add: BILLING_PRICING_VARS_def BILLING_VARS_def)

lemma map_of_keyed:
  "distinct (map key vs) \<Longrightarrow> w \<in> set vs \<Longrightarrow>
     map_of (map (\<lambda>v. (key v, f v)) (filter P vs)) (key w) = (if P w then Some (f w) else None)"
proof (induction vs)
  case (Cons v vs)
  show ?case
  proof (cases "w = v")
    case True
    with Cons.prems have "key w \<notin> key ` set vs" by auto
    then have "map_of (map (\<lambda>v. (key v, f v)) (filter P vs)) (key w) = None"
      by (auto simp: map_of_eq_None_iff)
    with True show ?thesis by simp
  next
    case False
    with Cons.prems have "key v \<noteq> key w" by auto
    with Cons False show ?thesis by auto
  qed
qed simp

lemma items_ok:
  assumes "plain_tier tier"
  shows "tier_items tier \<noteq> []"
    "\<forall>kx\<in>set (tier_items tier). item_ok kx \<and> str_to_num (num_to_str (snd kx)) = snd kx"
    "distinct (map fst (tier_items tier))"
proof -
  show "tier_items tier \<noteq> []" by (simp add: tier_items_def BILLING_PRICING_VARS_def BILLING_VARS_def)
  have "num_to_str x \<noteq> []" if "num_plain x" for x by (rule num_head [OF that]) simp
  moreover have "num_plain (tier_cost tier v)" if "v \<in> set BILLING_PRICING_VARS" for v
    using that assms by (simp add: plain_tier_def list_all_iff)
  moreover have "\<exists>v\<in>set BILLING_PRICING_VARS. kx = (bv_key v, tier_cost tier v)" if "kx \<in> set (tier_items tier)" for kx
    using that by (auto simp: tier_items_def)
  ultimately show "\<forall>kx\<in>set (tier_items tier). item_ok kx \<and> str_to_num (num_to_str (snd kx)) = snd kx"
    by (fastforce simp: item_ok_def pricing_keys_def num_plain_def)
  have "map fst (tier_items tier)
      = map bv_key (filter (\<lambda>v. bv_isBase v \<or> tier_cost tier v \<noteq> JFin 0) BILLING_PRICING_VARS)"
    by (simp add: tier_items_def o_def)
  then show "distinct (map fst (tier_items tier))"
    using distinct_map_filter [OF keys_distinct] by simp
qed

lemma parse_built_body:
  assumes "plain_tier tier"
  shows "parseTierBody (buildTierBodyExpr tier)
    = map (\<lambda>v. (the (bv_field v), tier_cost tier v)) BILLING_PRICING_VARS"
proof -
  have c: "coeffs_of (buildTierBodyExpr tier) = tier_items tier"
    unfolding body_items by (rule coeffs_items [OF items_ok [OF assms]])
  have "(case map_of (tier_items tier) (bv_key v) of None \<Rightarrow> JFin 0 | Some x \<Rightarrow> jor x (JFin 0)) = tier_cost tier v"
    if "v \<in> set BILLING_PRICING_VARS" for v
    unfolding tier_items_def map_of_keyed [OF keys_distinct that]
    by (auto simp: tier_cost_vget num_or_0_def jor_idem)
  then show ?thesis
    by (simp add: parseTierBody_def c BILLING_VAR_KEY_TO_FIELD_def o_def)
qed

lemma body_chars:
  assumes "plain_tier tier"
  shows "\<forall>c\<in>set (buildTierBodyExpr tier). c \<noteq> 41" "\<exists>t. buildTierBodyExpr tier = 112 # t"
proof -
  have "c \<noteq> 41" if "kx \<in> set (tier_items tier)" "c \<in> set (item_text kx)" for kx c
  proof -
    have "fst kx \<in> set pricing_keys" "list_all num_char (num_to_str (snd kx))"
      using items_ok(2) [OF assms] that(1) by (auto simp: item_ok_def)
    moreover have "41 \<notin> set k" if "k \<in> set pricing_keys" for k
      using that by (auto simp: pricing_eval js_def)
    moreover have "\<not> num_char 41" by (simp add: num_char_def is_digit_def)
    ultimately show ?thesis using that(2) by (auto simp: item_text_def js_def list_all_iff)
  qed
  moreover have "set (join sep ws) \<subseteq> (\<Union>w\<in>set ws. set w) \<union> set sep" for sep :: jstr and ws
    by (induction sep ws rule: join.induct) auto
  ultimately show "\<forall>c\<in>set (buildTierBodyExpr tier). c \<noteq> 41"
    unfolding body_items by (fastforce simp: js_def)
  show "\<exists>t. buildTierBodyExpr tier = 112 # t"
    by (simp add: buildTierBodyExpr_def Let_def js_def)
qed

lemma tier_not_version: "stripExprVersion (js ''tier('' @ s) = (JFin 1, js ''tier('' @ s)"
  by (simp add: stripExprVersion_def rx_match_RBol js_def RLit_def)

lemma tier_call_match:
  assumes "34 \<notin> set l" "\<forall>c\<in>set b. c \<noteq> 41" "b = 112 # t"
  shows "\<exists>q. rx_find tier_regex None (js ''tier(\"'' @ l @ js ''\", '' @ b @ js '')'') = Some (q, [], [(3, b), (2, l)])"
proof -
  have sp: "\<not> is_space 112" "is_space 32" by (simp_all add: is_space_def)
  let ?S = "js ''tier(\"'' @ l @ js ''\", '' @ b @ js '')''"
  let ?K = "\<lambda>p' s' c'. Some (p', s', c')"
  let ?R3 = "RSeq (RGrp 3 (RPlus (RCh (\<lambda>c. c \<noteq> 41)))) (RSeq (RLit 41) REps)"
  have g3: "\<exists>q. rx_m ?R3 p (b @ [41]) [(2, l)] ?K = Some (q, [], [(3, b), (2, l)])" for p
  proof -
    have "rx_m (RGrp 3 (RPlus (RCh (\<lambda>c. c \<noteq> 41)))) p (b @ [41]) [(2, l)] (\<lambda>p' s' c'. rx_m (RSeq (RLit 41) REps) p' s' c' ?K)
      = (if b = [] then None else rx_m (RSeq (RLit 41) REps) (after_word p b) [41] ((3, b) # [(2, l)]) ?K)"
      using assms(2) by (intro grp_class_delim) (auto simp: RLit_def)
    then show ?thesis using assms(3) by (simp add: RLit_def del: rx_m.simps(7))
  qed
  have spaces: "\<exists>q. rx_m (RSeq RSpaces ?R3) p (32 # b @ [41]) [(2, l)] ?K = Some (q, [], [(3, b), (2, l)])" for p
  proof -
    obtain q where "rx_m ?R3 (Some 32) (b @ [41]) [(2, l)] ?K = Some (q, [], [(3, b), (2, l)])" using g3 by blast
    then have "rx_m RSpaces p ([32] @ b @ [41]) [(2, l)] (\<lambda>p' s' c'. rx_m ?R3 p' s' c' ?K)
        = Some (q, [], [(3, b), (2, l)])"
      using sp assms(3) by (intro rx_m_star_class_hit) (auto simp: after_word_def)
    then show ?thesis by simp
  qed
  let ?R2 = "RSeq (RStr (js ''\",'')) (RSeq RSpaces ?R3)"
  have "\<exists>q. rx_m (RSeq (RGrp 2 (RStar (RCh (\<lambda>c. c \<noteq> 34)))) ?R2) p (l @ 34 # 44 # 32 # b @ [41]) [] ?K
      = Some (q, [], [(3, b), (2, l)])" for p
  proof -
    obtain q where q: "rx_m (RSeq RSpaces ?R3) (after_word (after_word p l) [34, 44]) (32 # b @ [41]) [(2, l)] ?K
        = Some (q, [], [(3, b), (2, l)])" using spaces by blast
    have "rx_m (RStar (RCh (\<lambda>c. c \<noteq> 34))) p (l @ 34 # 44 # 32 # b @ [41]) []
        (\<lambda>p' s' c'. rx_m ?R2 p' s' ((2, take (length (l @ 34 # 44 # 32 # b @ [41]) - length s') (l @ 34 # 44 # 32 # b @ [41])) # c') ?K)
        = Some (q, [], [(3, b), (2, l)])"
    proof (rule rx_m_star_class_hit)
      have "take (length (l @ 34 # 44 # 32 # b @ [41]) - length (34 # 44 # 32 # b @ [41])) (l @ 34 # 44 # 32 # b @ [41]) = l"
        by simp
      with q show "rx_m ?R2 (after_word p l) (34 # 44 # 32 # b @ [41])
          ((2, take (length (l @ 34 # 44 # 32 # b @ [41]) - length (34 # 44 # 32 # b @ [41])) (l @ 34 # 44 # 32 # b @ [41])) # []) ?K
        = Some (q, [], [(3, b), (2, l)])"
        by (simp only: rx_m.simps(3) rx_m_RStr) (simp add: js_def)
    qed (use assms(1) in auto)
    then show ?thesis by simp
  qed
  then have head: "\<exists>q. rx_m (RSeq (RStr (js ''tier(\"'')) (RSeq (RGrp 2 (RStar (RCh (\<lambda>c. c \<noteq> 34)))) ?R2)) None ?S [] ?K
      = Some (q, [], [(3, b), (2, l)])"
    by (simp only: rx_m.simps(3) rx_m_RStr) (simp add: js_def del: RStr_simps rx_m.simps)
  have opt: "rx_m (ROpt (RSeqs [rx_cond_group, RSpaces, RLit 63, RSpaces])) None ?S [] k = k None ?S []"
    for k :: "nat option \<Rightarrow> jstr \<Rightarrow> caps \<Rightarrow> (nat option \<times> jstr \<times> caps) option"
    by (simp add: rx_m_ROpt rx_cond_group_def rx_cond_var_def js_def rx_m_RStr del: RStr_simps)
  have "\<exists>q. rx_at tier_regex None ?S = Some (q, [], [(3, b), (2, l)])"
    using head unfolding rx_at_def tier_regex_def RSeqs.simps
    by (simp only: rx_m.simps(3) opt [unfolded RSeqs.simps])
  then show ?thesis by (subst rx_find.simps) auto
qed

text \<open>C2. What the visual editor prints for a single unconditional tier, the billing parser reads as
  that tier: its label, no condition, and for every pricing variable the cost the tier held. The
  label is not empty and has no double quote, which would be printed without an escape, and the costs
  are numbers whose printed text reads back.\<close>

theorem single_tier_roundtrip:
  assumes "vget tier ''label'' = VStr l" "l \<noteq> []" "34 \<notin> set l" "vget tier ''conditions'' = VArr []"
    and "plain_tier tier"
  shows "parseTiersFromExpr (generateExprFromVisualConfig (Some \<lparr> vc_tiers = [tier] \<rparr>))
    = [\<lparr> pt_label = l, pt_conditions = [],
         pt_fields = map (\<lambda>v. (the (bv_field v), tier_cost tier v)) BILLING_PRICING_VARS \<rparr>]"
proof -
  let ?e = "tier_call l tier"
  have gen: "generateExprFromVisualConfig (Some \<lparr> vc_tiers = [tier] \<rparr>) = ?e"
    using assms(1,2,4) by (simp add: generateExprFromVisualConfig_def buildConditionStr_def label_or_def vor_def
        List.map_filter_simps)
  obtain q where "rx_find tier_regex None ?e = Some (q, [], [(3, buildTierBodyExpr tier), (2, l)])"
    using tier_call_match [OF assms(3) body_chars(1) [OF assms(5)]] body_chars(2) [OF assms(5)]
    by (auto simp: tier_call_def)
  moreover have "rx_find tier_regex q [] = None"
    by (subst rx_find.simps) (simp add: rx_at_def tier_regex_def rx_m_ROpt rx_cond_group_def rx_cond_var_def
        js_def rx_m_RStr del: RStr_simps)
  moreover have "?e \<noteq> []" by (simp add: tier_call_def js_def)
  ultimately have "rx_all tier_regex None ?e = [[(3, buildTierBodyExpr tier), (2, l)]]"
    by (subst rx_all.simps) (simp add: rx_all.simps [of _ _ "[]"])
  moreover have "stripExprVersion ?e = (JFin 1, ?e)"
    using tier_not_version [of "34 # l @ js ''\", '' @ buildTierBodyExpr tier @ js '')''"]
    by (simp add: tier_call_def js_def)
  ultimately show ?thesis using \<open>?e \<noteq> []\<close>
    by (simp add: gen parseTiersFromExpr_def tier_of_match_def cap_def parse_built_body [OF assms(5)] Let_def)
qed

lemmas num_plain_eval = num_plain_def js_def num_char_def json_num_ok_def json_exp_ok_def
  str_to_num_def trim_def is_space_def radix_prefix_def scan_number_def signed_scan_def
  scan_decimal_def scan_exponent_def is_digit_def digits_val_def ten_pow_def double_eval Let_def

lemma num_text_2: "num_to_str (JFin 2) = [50]"
  by code_simp

lemma num_plain_0: "num_plain (JFin 0)"
  by (simp add: num_plain_eval)

lemma num_plain_2: "num_plain (JFin 2)"
  by (simp add: num_text_2 num_plain_eval del: num_to_str.simps)

theorem single_tier_roundtrip_witness:
  "let tier = [(js ''label'', VStr (js ''base'')), (js ''conditions'', VArr []), (js ''input_unit_cost'', VNum (JFin 2))]
   in parseTiersFromExpr (generateExprFromVisualConfig (Some \<lparr> vc_tiers = [tier] \<rparr>))
    = [\<lparr> pt_label = js ''base'', pt_conditions = [],
         pt_fields = map (\<lambda>v. (the (bv_field v), tier_cost tier v)) BILLING_PRICING_VARS \<rparr>]"
  unfolding Let_def
proof (rule single_tier_roundtrip)
  let ?t = "[(js ''label'', VStr (js ''base'')), (js ''conditions'', VArr []), (js ''input_unit_cost'', VNum (JFin 2))]"
  have "tier_cost ?t v = JFin 0 \<or> tier_cost ?t v = JFin 2" if "v \<in> set BILLING_PRICING_VARS" for v
    using that by (auto simp: BILLING_PRICING_VARS_def BILLING_VARS_def tier_cost_def num_or_0_def jor_def num_truthy_def)
  with num_plain_0 num_plain_2 have "num_plain (tier_cost ?t v)" if "v \<in> set BILLING_PRICING_VARS" for v
    using that by metis
  then show "plain_tier ?t" by (simp only: plain_tier_def list_all_iff) blast
qed (simp_all add: vget_def js_def)

end
