(* ===== verification/ChannelTypes.thy ===== *)
theory ChannelTypes
  imports Js_String Js_Value
begin

text \<open>
  Channels, the tables: \<open>features/channels/constants.ts\<close> (types, statuses, prompts),
  \<open>features/channels/lib/channel-type-config.ts\<close> (what each provider needs) and
  \<open>features/channels/lib/multi-key-utils.ts\<close>. An object literal with numeric keys is an
  association list in the order of its keys; reading a key that is absent gives \<open>undefined\<close>.
\<close>

section \<open>Channel types\<close>

definition CHANNEL_TYPES :: "(int \<times> jstr) list" where
  "CHANNEL_TYPES =
    [(0, js ''Unknown''), (1, js ''OpenAI''), (2, js ''Midjourney''), (3, js ''Azure''),
     (4, js ''Ollama''), (5, js ''MidjourneyPlus''), (6, js ''OpenAIMax''), (7, js ''OhMyGPT''),
     (8, js ''Custom''), (9, js ''AILS''), (10, js ''AI Proxy''), (11, js ''PaLM''),
     (12, js ''API2GPT''), (13, js ''AIGC2D''), (14, js ''Anthropic''), (15, js ''Baidu''),
     (16, js ''Zhipu''), (17, js ''Ali''), (18, js ''Xunfei''), (19, js ''360''),
     (20, js ''OpenRouter''), (21, js ''AI Proxy Library''), (22, js ''FastGPT''),
     (23, js ''Tencent''), (24, js ''Gemini''), (25, js ''Moonshot''), (26, js ''Zhipu V4''),
     (27, js ''Perplexity''), (31, js ''LingYiWanWu''), (33, js ''AWS''), (34, js ''Cohere''),
     (35, js ''MiniMax''), (36, js ''SunoAPI''), (37, js ''Dify''), (38, js ''Jina''),
     (39, js ''Cloudflare''), (40, js ''SiliconFlow''), (41, js ''Vertex AI''),
     (42, js ''Mistral''), (43, js ''DeepSeek''), (44, js ''MokaAI''), (45, js ''VolcEngine''),
     (46, js ''Baidu V2''), (47, js ''Xinference''), (48, js ''xAI''), (49, js ''Coze''),
     (50, js ''Kling''), (51, js ''Jimeng''), (52, js ''Vidu''), (53, js ''Submodel''),
     (54, js ''DoubaoVideo''), (55, js ''Sora''), (56, js ''Replicate''), (57, js ''Codex''),
     (58, js ''LiblibAI''), (59, [35270, 39057, 32593, 20851]), (60, [22270, 20687, 32593, 20851])]"

definition CHANNEL_TYPE_DISPLAY_ORDER :: "int list" where
  "CHANNEL_TYPE_DISPLAY_ORDER =
    [1, 14, 33, 24, 43, 3, 41, 48, 42, 34, 20, 4, 40, 27, 25, 17, 26, 15, 46, 23, 18, 45, 31, 35,
     49, 19, 47, 37, 38, 39, 11, 8, 57, 22, 21, 44, 2, 5, 36, 50, 51, 52, 53, 54, 55, 56, 58, 59,
     60]"

record TypeOption =
  opt_value :: int
  opt_label :: jstr

text \<open>The immediately invoked function: the types in display order, then those the order forgets;
  type 0 is never offered. \<open>ordered_options\<close> is its first loop, with the set \<open>seen\<close>.\<close>

definition ordered_options :: "int list \<Rightarrow> TypeOption list \<times> int set" where
  "ordered_options ids = foldl (\<lambda>(ordered, seen) i. case map_of CHANNEL_TYPES i of
      Some label \<Rightarrow> if label = [] then (ordered, seen)
        else (ordered @ [\<lparr> opt_value = i, opt_label = label \<rparr>], insert i seen)
    | None \<Rightarrow> (ordered, seen)) ([], {}) ids"

definition CHANNEL_TYPE_OPTIONS :: "TypeOption list" where
  "CHANNEL_TYPE_OPTIONS = (let (ordered, seen) = ordered_options CHANNEL_TYPE_DISPLAY_ORDER in
     foldl (\<lambda>acc (i, label). if i \<noteq> 0 \<and> i \<notin> seen
       then acc @ [\<lparr> opt_value = i, opt_label = label \<rparr>] else acc) ordered CHANNEL_TYPES)"

definition TYPE_TO_KEY_PROMPT :: "(int \<times> jstr) list" where
  "TYPE_TO_KEY_PROMPT =
    [(15, js ''Format: APIKey|SecretKey''), (18, js ''Format: APPID|APISecret|APIKey''),
     (22, js ''Format: APIKey-AppId, e.g., fastgpt-0sp2gtvfdgyi4k30jwlgwf1i-64f335d84283f05518e9e041''),
     (23, js ''Format: AppId|SecretId|SecretKey''), (33, js ''Format: Ak|Sk|Region''),
     (50, js ''Format: AccessKey|SecretKey (or just ApiKey if upstream is New API)''),
     (51, js ''Format: Access Key ID|Secret Access Key''),
     (57, js ''Paste Codex OAuth JSON credential (access_token / refresh_token / account_id)'')]"

definition CHANNEL_TYPE_WARNINGS :: "(int \<times> jstr) list" where
  "CHANNEL_TYPE_WARNINGS =
    [(3, js ''For channels added after May 10, 2025, no need to remove \".\" from model names during deployment''),
     (8, js ''If connecting to upstream One API or New API relay projects, use OpenAI type instead unless you know what you are doing''),
     (37, js ''Dify channels only support chatflow and agent, and agent does not support images'')]"

definition MODEL_FETCHABLE_TYPES :: "int list" where
  "MODEL_FETCHABLE_TYPES =
    [1, 4, 14, 17, 20, 23, 24, 25, 26, 27, 31, 34, 35, 40, 42, 43, 47, 48]"

section \<open>Statuses\<close>

text \<open>A badge: the variant, the label and whether a dot is shown (absent for keys).\<close>

datatype Variant = Success | Info | Warning | Danger | Neutral

record Badge =
  badge_variant :: Variant
  badge_label :: jstr
  badge_showDot :: "bool option"

definition STATUS_UNKNOWN :: int where "STATUS_UNKNOWN = 0"
definition STATUS_ENABLED :: int where "STATUS_ENABLED = 1"
definition STATUS_MANUAL_DISABLED :: int where "STATUS_MANUAL_DISABLED = 2"
definition STATUS_AUTO_DISABLED :: int where "STATUS_AUTO_DISABLED = 3"

lemmas status_codes = STATUS_UNKNOWN_def STATUS_ENABLED_def STATUS_MANUAL_DISABLED_def
  STATUS_AUTO_DISABLED_def

definition CHANNEL_STATUS_LABELS :: "(int \<times> jstr) list" where
  "CHANNEL_STATUS_LABELS = [(STATUS_UNKNOWN, js ''Unknown''), (STATUS_ENABLED, js ''Enabled''),
     (STATUS_MANUAL_DISABLED, js ''Disabled''), (STATUS_AUTO_DISABLED, js ''Auto Disabled'')]"

definition CHANNEL_STATUS_CONFIG :: "(int \<times> Badge) list" where
  "CHANNEL_STATUS_CONFIG =
    [(STATUS_UNKNOWN, \<lparr> badge_variant = Neutral, badge_label = js ''Unknown'', badge_showDot = Some True \<rparr>),
     (STATUS_ENABLED, \<lparr> badge_variant = Success, badge_label = js ''Enabled'', badge_showDot = Some True \<rparr>),
     (STATUS_MANUAL_DISABLED, \<lparr> badge_variant = Neutral, badge_label = js ''Disabled'', badge_showDot = Some True \<rparr>),
     (STATUS_AUTO_DISABLED, \<lparr> badge_variant = Danger, badge_label = js ''Auto Disabled'', badge_showDot = Some True \<rparr>)]"

definition MULTI_KEY_STATUS_LABELS :: "(int \<times> jstr) list" where
  "MULTI_KEY_STATUS_LABELS = [(STATUS_ENABLED, js ''Enabled''),
     (STATUS_MANUAL_DISABLED, js ''Manual Disabled''), (STATUS_AUTO_DISABLED, js ''Auto Disabled'')]"

definition MULTI_KEY_STATUS_CONFIG :: "(int \<times> Badge) list" where
  "MULTI_KEY_STATUS_CONFIG =
    [(STATUS_ENABLED, \<lparr> badge_variant = Success, badge_label = js ''Enabled'', badge_showDot = None \<rparr>),
     (STATUS_MANUAL_DISABLED, \<lparr> badge_variant = Neutral, badge_label = js ''Manual Disabled'', badge_showDot = None \<rparr>),
     (STATUS_AUTO_DISABLED, \<lparr> badge_variant = Danger, badge_label = js ''Auto Disabled'', badge_showDot = None \<rparr>)]"

text \<open>\<open>TABLE[k] || d\<close>: the entries are objects, so a hit is never falsy.\<close>

definition lookup_or :: "('k \<times> 'v) list \<Rightarrow> 'k \<Rightarrow> 'v \<Rightarrow> 'v" where
  "lookup_or t k d = (case map_of t k of Some v \<Rightarrow> v | None \<Rightarrow> d)"

definition getMultiKeyStatusConfig :: "int \<Rightarrow> Badge" where
  "getMultiKeyStatusConfig status = lookup_or MULTI_KEY_STATUS_CONFIG status
     \<lparr> badge_variant = Neutral, badge_label = js ''Unknown'', badge_showDot = None \<rparr>"

section \<open>Actions on the keys of a channel\<close>

datatype MultiKeyAction = Enable | Disable | Delete | EnableAll | DisableAll | DeleteDisabled

record MultiKeyConfirmAction =
  action_type :: MultiKeyAction
  action_keyIndex :: "int option"

fun MULTI_KEY_CONFIRM_MESSAGES :: "MultiKeyAction \<Rightarrow> jstr" where
  "MULTI_KEY_CONFIRM_MESSAGES Delete =
     js ''Are you sure you want to delete this key? This action cannot be undone.''"
| "MULTI_KEY_CONFIRM_MESSAGES Enable = js ''Enable this key?''"
| "MULTI_KEY_CONFIRM_MESSAGES Disable = js ''Disable this key?''"
| "MULTI_KEY_CONFIRM_MESSAGES EnableAll = js ''Are you sure you want to enable all keys?''"
| "MULTI_KEY_CONFIRM_MESSAGES DisableAll =
     js ''Are you sure you want to disable all enabled keys?''"
| "MULTI_KEY_CONFIRM_MESSAGES DeleteDisabled =
     js ''Are you sure you want to delete all auto-disabled keys? This action cannot be undone.''"

definition getMultiKeyConfirmMessage :: "MultiKeyConfirmAction option \<Rightarrow> jstr" where
  "getMultiKeyConfirmMessage action = (case action of None \<Rightarrow> []
    | Some a \<Rightarrow> MULTI_KEY_CONFIRM_MESSAGES (action_type a))"

definition isDestructiveAction :: "MultiKeyConfirmAction option \<Rightarrow> bool" where
  "isDestructiveAction action = (case action of None \<Rightarrow> False
    | Some a \<Rightarrow> action_type a = Delete \<or> action_type a = DeleteDisabled \<or> action_type a = DisableAll)"

section \<open>Provider configuration\<close>

record ChannelHints =
  hint_baseUrl :: "jstr option"
  hint_key :: "jstr option"
  hint_models :: "jstr option"
  hint_other :: "jstr option"

text \<open>\<open>keyFormat\<close> is the prefix the one regular expression of the table asks for.\<close>

record KeyValidation =
  keyFormat :: "jstr option"
  keyMinLength :: "nat option"

record ChannelTypeConfig =
  cfg_id :: int
  cfg_name :: jstr
  cfg_icon :: jstr
  cfg_defaultBaseUrl :: "jstr option"
  cfg_requiresOrganization :: "bool option"
  cfg_requiresRegion :: "bool option"
  cfg_hints :: "ChannelHints option"
  cfg_validation :: "KeyValidation option"

definition type_name :: "int \<Rightarrow> jstr" where
  "type_name i = lookup_or CHANNEL_TYPES i (js ''Unknown'')"

definition hints :: "jstr option \<Rightarrow> jstr option \<Rightarrow> jstr option \<Rightarrow> jstr option \<Rightarrow> ChannelHints option" where
  "hints b k m x = Some \<lparr> hint_baseUrl = b, hint_key = k, hint_models = m, hint_other = x \<rparr>"

definition plain_config :: "int \<Rightarrow> jstr \<Rightarrow> ChannelTypeConfig" where
  "plain_config i ic = \<lparr> cfg_id = i, cfg_name = type_name i, cfg_icon = ic, cfg_defaultBaseUrl = None,
     cfg_requiresOrganization = None, cfg_requiresRegion = None, cfg_hints = None, cfg_validation = None \<rparr>"

definition CHANNEL_TYPE_CONFIGS :: "(int \<times> ChannelTypeConfig) list" where
  "CHANNEL_TYPE_CONFIGS =
    [(1, (plain_config 1 (js ''openai''))\<lparr> cfg_defaultBaseUrl := Some (js ''https://api.openai.com''),
        cfg_requiresOrganization := Some True,
        cfg_hints := hints (Some (js ''Default: https://api.openai.com'')) (Some (js ''Format: sk-...''))
          (Some (js ''gpt-4,gpt-4-turbo,gpt-3.5-turbo'')) None,
        cfg_validation := Some \<lparr> keyFormat = Some (js ''sk-''), keyMinLength = Some 20 \<rparr> \<rparr>),
     (3, (plain_config 3 (js ''azure''))\<lparr> cfg_requiresRegion := Some True,
        cfg_hints := hints (Some (js ''Azure OpenAI Endpoint'')) (Some (js ''Azure API Key''))
          (Some (js ''Deployment names'')) None \<rparr>),
     (14, (plain_config 14 (js ''anthropic''))\<lparr>
        cfg_defaultBaseUrl := Some (js ''https://api.anthropic.com''),
        cfg_hints := hints None (Some (js ''Format: sk-ant-...''))
          (Some (js ''claude-3-opus,claude-3-sonnet,claude-3-haiku'')) None \<rparr>),
     (24, (plain_config 24 (js ''google''))\<lparr> cfg_hints := hints None (Some (js ''Google API Key''))
          (Some (js ''gemini-pro,gemini-pro-vision'')) None \<rparr>),
     (41, (plain_config 41 (js ''google''))\<lparr> cfg_requiresRegion := Some True,
        cfg_hints := hints None (Some (js ''Service account JSON or API key''))
          (Some (js ''gemini-pro,gemini-1.5-pro'')) (Some (js ''Region config: {\"default\": \"us-central1\"}'')) \<rparr>),
     (43, (plain_config 43 (js ''deepseek''))\<lparr>
        cfg_defaultBaseUrl := Some (js ''https://api.deepseek.com''),
        cfg_hints := hints None (Some (js ''DeepSeek API Key''))
          (Some (js ''deepseek-chat,deepseek-coder'')) None \<rparr>),
     (20, (plain_config 20 (js ''openrouter''))\<lparr>
        cfg_defaultBaseUrl := Some (js ''https://openrouter.ai/api''),
        cfg_hints := hints None (Some (js ''OpenRouter API Key''))
          (Some (js ''Use model IDs from OpenRouter'')) None \<rparr>),
     (56, (plain_config 56 (js ''replicate''))\<lparr>
        cfg_defaultBaseUrl := Some (js ''https://api.replicate.com''),
        cfg_hints := hints (Some (js ''Default: https://api.replicate.com''))
          (Some (js ''Replicate API Token'')) (Some (js ''Replicate model IDs'')) None \<rparr>)]"

definition getChannelTypeConfig :: "int \<Rightarrow> ChannelTypeConfig" where
  "getChannelTypeConfig i = lookup_or CHANNEL_TYPE_CONFIGS i (plain_config i (js ''openai''))"

definition requiresOrganization :: "int \<Rightarrow> bool" where
  "requiresOrganization i = (case map_of CHANNEL_TYPE_CONFIGS i of None \<Rightarrow> False
    | Some c \<Rightarrow> cfg_requiresOrganization c = Some True)"

definition requiresRegion :: "int \<Rightarrow> bool" where
  "requiresRegion i = (case map_of CHANNEL_TYPE_CONFIGS i of None \<Rightarrow> False
    | Some c \<Rightarrow> cfg_requiresRegion c = Some True)"

definition getDefaultBaseUrl :: "int \<Rightarrow> jstr" where
  "getDefaultBaseUrl i = (case map_of CHANNEL_TYPE_CONFIGS i of None \<Rightarrow> []
    | Some c \<Rightarrow> (case cfg_defaultBaseUrl c of None \<Rightarrow> [] | Some u \<Rightarrow> u))"

definition getChannelTypeHints :: "int \<Rightarrow> ChannelHints" where
  "getChannelTypeHints i =
     (let none = \<lparr> hint_baseUrl = None, hint_key = None, hint_models = None, hint_other = None \<rparr> in
      case map_of CHANNEL_TYPE_CONFIGS i of None \<Rightarrow> none
    | Some c \<Rightarrow> (case cfg_hints c of None \<Rightarrow> none | Some h \<Rightarrow> h))"

definition validateKeyFormat :: "int \<Rightarrow> jstr \<Rightarrow> bool" where
  "validateKeyFormat i key = (case map_of CHANNEL_TYPE_CONFIGS i of None \<Rightarrow> True
    | Some c \<Rightarrow> (case cfg_validation c of None \<Rightarrow> True
      | Some v \<Rightarrow>
          if (case keyMinLength v of Some n \<Rightarrow> n \<noteq> 0 \<and> length key < n | None \<Rightarrow> False) then False
          else if (case keyFormat v of Some p \<Rightarrow> \<not> starts_with p key | None \<Rightarrow> False) then False
          else True))"

text \<open>The two loops, in closed form.\<close>

definition type_option :: "int \<Rightarrow> TypeOption" where
  "type_option i = \<lparr> opt_value = i, opt_label = type_name i \<rparr>"

definition named_type :: "int \<Rightarrow> bool" where
  "named_type i = (case map_of CHANNEL_TYPES i of Some label \<Rightarrow> label \<noteq> [] | None \<Rightarrow> False)"

lemma ordered_options_eq:
  "ordered_options ids = (map type_option (filter named_type ids), set (filter named_type ids))"
  by (induction ids rule: rev_induct)
    (auto simp: ordered_options_def type_option_def named_type_def type_name_def lookup_or_def split: option.splits)

lemma channel_types_table:
  "distinct (map fst CHANNEL_TYPES)" "list_all (\<lambda>(_, label). label \<noteq> []) CHANNEL_TYPES"
  by (simp_all add: CHANNEL_TYPES_def)

lemma channel_type_entry:
  assumes "(i, label) \<in> set CHANNEL_TYPES"
  shows "named_type i" "type_name i = label"
proof -
  have "map_of CHANNEL_TYPES i = Some label"
    using assms channel_types_table(1) by (simp add: map_of_eq_Some_iff)
  moreover have "label \<noteq> []" using assms channel_types_table(2) by (auto simp: list_all_iff)
  ultimately show "named_type i" "type_name i = label"
    by (simp_all add: named_type_def type_name_def lookup_or_def)
qed

lemma named_type_entry: "named_type i \<Longrightarrow> (i, type_name i) \<in> set CHANNEL_TYPES"
  by (auto simp: named_type_def type_name_def lookup_or_def dest: map_of_SomeD split: option.splits)

lemma rest_options_eq:
  "foldl (\<lambda>acc (i, label). if P i then acc @ [\<lparr> opt_value = i, opt_label = label \<rparr>] else acc) acc ts
     = acc @ map (\<lambda>(i, label). \<lparr> opt_value = i, opt_label = label \<rparr>) (filter (P \<circ> fst) ts)"
  by (induction ts arbitrary: acc) auto

lemma channel_type_options_eq:
  "CHANNEL_TYPE_OPTIONS = map type_option (filter named_type CHANNEL_TYPE_DISPLAY_ORDER)
     @ map (\<lambda>(i, label). \<lparr> opt_value = i, opt_label = label \<rparr>)
         (filter (\<lambda>(i, label). i \<noteq> 0 \<and> i \<notin> set (filter named_type CHANNEL_TYPE_DISPLAY_ORDER)) CHANNEL_TYPES)"
  unfolding CHANNEL_TYPE_OPTIONS_def ordered_options_eq Let_def prod.case
    rest_options_eq [of "\<lambda>i. i \<noteq> 0 \<and> i \<notin> set (filter named_type CHANNEL_TYPE_DISPLAY_ORDER)"]
  by (simp add: comp_def case_prod_unfold)

text \<open>The selector offers every known type but 0 exactly once, under its name.\<close>

lemma channel_type_options_complete:
  "distinct (map opt_value CHANNEL_TYPE_OPTIONS) \<and>
   set CHANNEL_TYPE_OPTIONS = {\<lparr> opt_value = i, opt_label = label \<rparr> | i label.
     (i, label) \<in> set CHANNEL_TYPES \<and> i \<noteq> 0}"
proof
  have order: "distinct CHANNEL_TYPE_DISPLAY_ORDER" "0 \<notin> set CHANNEL_TYPE_DISPLAY_ORDER"
    by (simp_all add: CHANNEL_TYPE_DISPLAY_ORDER_def)
  have vals: "map opt_value CHANNEL_TYPE_OPTIONS = filter named_type CHANNEL_TYPE_DISPLAY_ORDER
     @ map fst (filter (\<lambda>(i, label). i \<noteq> 0 \<and> i \<notin> set (filter named_type CHANNEL_TYPE_DISPLAY_ORDER)) CHANNEL_TYPES)"
    by (simp add: channel_type_options_eq type_option_def comp_def case_prod_unfold)
  show "distinct (map opt_value CHANNEL_TYPE_OPTIONS)"
    unfolding vals using order channel_types_table(1)
    by (auto simp: distinct_map inj_on_def)
  show "set CHANNEL_TYPE_OPTIONS = {\<lparr> opt_value = i, opt_label = label \<rparr> | i label.
     (i, label) \<in> set CHANNEL_TYPES \<and> i \<noteq> 0}"
    using order(2) named_type_entry channel_type_entry
    by (fastforce simp: channel_type_options_eq type_option_def)
qed

end
