(* ===== verification/Currency.thy ===== *)
theory Currency
  imports Js_Regex Js_Value "HOL-Library.Word"
begin

text \<open>
  Amounts: \<open>lib/currency.ts\<close> (display of USD amounts in the currency the administrator chose),
  \<open>lib/format.ts\<close> (quota units, tokens, times, colours) and the currency part of
  \<open>stores/system-config-store.ts\<close>. The locale-dependent printer \<open>Intl.NumberFormat\<close> and the
  date library are parameters (\<open>intl\<close>, \<open>day\<close>); the store's state is the argument \<open>st\<close>.
\<close>

section \<open>Configuration\<close>

datatype CurrencyDisplayType = USD | CNY | TOKENS | CUSTOM

record CurrencyConfig =
  displayInCurrency :: bool
  quotaDisplayType :: CurrencyDisplayType
  quotaPerUnit :: jnum
  usdExchangeRate :: jnum
  customCurrencySymbol :: jstr
  customCurrencyExchangeRate :: jnum

definition DEFAULT_CURRENCY_CONFIG :: CurrencyConfig where
  "DEFAULT_CURRENCY_CONFIG = \<lparr> displayInCurrency = True, quotaDisplayType = USD,
     quotaPerUnit = JFin 500000, usdExchangeRate = JFin 1, customCurrencySymbol = [164],
     customCurrencyExchangeRate = JFin 1 \<rparr>"

text \<open>What the store holds may be partial (it is rehydrated from the browser's storage), and updates are
  partial: a field that is absent is \<open>None\<close>.\<close>

record CurrencyPatch =
  p_displayInCurrency :: "bool option"
  p_quotaDisplayType :: "CurrencyDisplayType option"
  p_quotaPerUnit :: "jnum option"
  p_usdExchangeRate :: "jnum option"
  p_customCurrencySymbol :: "jstr option"
  p_customCurrencyExchangeRate :: "jnum option"

record SystemConfig =
  systemName :: jstr
  logo :: jstr
  footerHtml :: "jstr option"
  demoSiteEnabled :: "bool option"
  displayTokenStatEnabled :: "bool option"
  sys_currency :: "CurrencyPatch option"

record SystemConfigState =
  sc_config :: SystemConfig
  sc_loading :: bool
  sc_loadedLogoUrl :: jstr

record SystemConfigPatch =
  p_systemName :: "jstr option"
  p_logo :: "jstr option"
  p_footerHtml :: "jstr option"
  p_demoSiteEnabled :: "bool option"
  p_displayTokenStatEnabled :: "bool option"
  p_currency :: "CurrencyPatch option"

definition empty_currency :: CurrencyPatch where
  "empty_currency = \<lparr> p_displayInCurrency = None, p_quotaDisplayType = None, p_quotaPerUnit = None,
     p_usdExchangeRate = None, p_customCurrencySymbol = None, p_customCurrencyExchangeRate = None \<rparr>"

definition full_currency :: "CurrencyConfig \<Rightarrow> CurrencyPatch" where
  "full_currency c = \<lparr> p_displayInCurrency = Some (displayInCurrency c),
     p_quotaDisplayType = Some (quotaDisplayType c), p_quotaPerUnit = Some (quotaPerUnit c),
     p_usdExchangeRate = Some (usdExchangeRate c), p_customCurrencySymbol = Some (customCurrencySymbol c),
     p_customCurrencyExchangeRate = Some (customCurrencyExchangeRate c) \<rparr>"

definition initial_state :: "jstr \<Rightarrow> jstr \<Rightarrow> SystemConfigState" where
  "initial_state name logo_url = \<lparr> sc_config = \<lparr> systemName = name, logo = logo_url, footerHtml = None,
       demoSiteEnabled = None, displayTokenStatEnabled = None,
       sys_currency = Some (full_currency DEFAULT_CURRENCY_CONFIG) \<rparr>,
     sc_loading = True, sc_loadedLogoUrl = logo_url \<rparr>"

definition patch_currency :: "CurrencyPatch \<Rightarrow> CurrencyConfig \<Rightarrow> CurrencyConfig" where
  "patch_currency p c = \<lparr> displayInCurrency = upd (p_displayInCurrency p) (displayInCurrency c),
     quotaDisplayType = upd (p_quotaDisplayType p) (quotaDisplayType c),
     quotaPerUnit = upd (p_quotaPerUnit p) (quotaPerUnit c),
     usdExchangeRate = upd (p_usdExchangeRate p) (usdExchangeRate c),
     customCurrencySymbol = upd (p_customCurrencySymbol p) (customCurrencySymbol c),
     customCurrencyExchangeRate = upd (p_customCurrencyExchangeRate p) (customCurrencyExchangeRate c) \<rparr>"

definition or_some :: "'a option \<Rightarrow> 'a option \<Rightarrow> 'a option" where
  "or_some p x = (case p of None \<Rightarrow> x | Some y \<Rightarrow> Some y)"

definition merge_currency :: "CurrencyPatch option \<Rightarrow> CurrencyPatch option \<Rightarrow> CurrencyPatch option" where
  "merge_currency old new = (case (old, new) of
      (None, None) \<Rightarrow> Some empty_currency | (Some c, None) \<Rightarrow> Some c | (None, Some p) \<Rightarrow> Some p
    | (Some c, Some p) \<Rightarrow> Some \<lparr> p_displayInCurrency = or_some (p_displayInCurrency p) (p_displayInCurrency c),
        p_quotaDisplayType = or_some (p_quotaDisplayType p) (p_quotaDisplayType c),
        p_quotaPerUnit = or_some (p_quotaPerUnit p) (p_quotaPerUnit c),
        p_usdExchangeRate = or_some (p_usdExchangeRate p) (p_usdExchangeRate c),
        p_customCurrencySymbol = or_some (p_customCurrencySymbol p) (p_customCurrencySymbol c),
        p_customCurrencyExchangeRate = or_some (p_customCurrencyExchangeRate p) (p_customCurrencyExchangeRate c) \<rparr>)"

definition setConfig :: "SystemConfigPatch \<Rightarrow> SystemConfigState \<Rightarrow> SystemConfigState" where
  "setConfig p st = (let c = sc_config st in st\<lparr> sc_config :=
     \<lparr> systemName = upd (p_systemName p) (systemName c), logo = upd (p_logo p) (logo c),
       footerHtml = or_some (p_footerHtml p) (footerHtml c),
       demoSiteEnabled = or_some (p_demoSiteEnabled p) (demoSiteEnabled c),
       displayTokenStatEnabled = or_some (p_displayTokenStatEnabled p) (displayTokenStatEnabled c),
       sys_currency = merge_currency (sys_currency c) (p_currency p) \<rparr> \<rparr>)"

definition setLoadedLogoUrl :: "jstr \<Rightarrow> SystemConfigState \<Rightarrow> SystemConfigState" where
  "setLoadedLogoUrl url st = st\<lparr> sc_loadedLogoUrl := url \<rparr>"

definition setLoading :: "bool \<Rightarrow> SystemConfigState \<Rightarrow> SystemConfigState" where
  "setLoading b st = st\<lparr> sc_loading := b \<rparr>"

definition getSystemName :: "SystemConfigState \<Rightarrow> jstr" where
  "getSystemName st = systemName (sc_config st)"

definition getLogo :: "SystemConfigState \<Rightarrow> jstr" where
  "getLogo st = logo (sc_config st)"

definition getFooterHtml :: "SystemConfigState \<Rightarrow> jstr option" where
  "getFooterHtml st = footerHtml (sc_config st)"

section \<open>Display metadata\<close>

record CurrencyFormatOptions =
  o_digitsLarge :: "nat option"
  o_digitsSmall :: "nat option"
  o_abbreviate :: "bool option"
  o_minimumNonZero :: "jnum option"

record FormatOptions =
  digitsLarge :: nat
  digitsSmall :: nat
  abbreviate :: bool
  minimumNonZero :: jnum

datatype DisplayMeta =
    Meta_currency jstr jstr jnum
  | Meta_custom jstr jnum
  | Meta_tokens jnum

definition DEFAULT_FORMAT_OPTIONS :: FormatOptions where
  "DEFAULT_FORMAT_OPTIONS = \<lparr> digitsLarge = 2, digitsSmall = 4, abbreviate = True, minimumNonZero = JFin 0 \<rparr>"

definition DISPLAY_TYPE_VALUES :: "(jstr \<times> CurrencyDisplayType) list" where
  "DISPLAY_TYPE_VALUES = [(js ''USD'', USD), (js ''CNY'', CNY), (js ''TOKENS'', TOKENS), (js ''CUSTOM'', CUSTOM)]"

definition isCurrencyDisplayType :: "jval \<Rightarrow> bool" where
  "isCurrencyDisplayType v = (case v of VStr s \<Rightarrow> s \<in> fst ` set DISPLAY_TYPE_VALUES | _ \<Rightarrow> False)"

definition parseCurrencyDisplayType :: "jval \<Rightarrow> CurrencyDisplayType \<Rightarrow> CurrencyDisplayType" where
  "parseCurrencyDisplayType v fallback = (if isCurrencyDisplayType v
     then the (map_of DISPLAY_TYPE_VALUES (val_to_str v)) else fallback)"

text \<open>\<open>x && x > 0 ? x : d\<close>.\<close>

definition positive_or :: "jnum \<Rightarrow> jnum \<Rightarrow> jnum" where
  "positive_or x d = (if num_truthy x \<and> jgt x (JFin 0) then x else d)"

definition getConfig :: "SystemConfigState \<Rightarrow> CurrencyConfig" where
  "getConfig st = (let currency = (case sys_currency (sc_config st) of
       None \<Rightarrow> DEFAULT_CURRENCY_CONFIG | Some c \<Rightarrow> patch_currency c DEFAULT_CURRENCY_CONFIG) in
     currency\<lparr> quotaPerUnit := positive_or (quotaPerUnit currency) (quotaPerUnit DEFAULT_CURRENCY_CONFIG),
       usdExchangeRate := positive_or (usdExchangeRate currency) (usdExchangeRate DEFAULT_CURRENCY_CONFIG),
       customCurrencyExchangeRate := positive_or (customCurrencyExchangeRate currency)
         (customCurrencyExchangeRate DEFAULT_CURRENCY_CONFIG),
       customCurrencySymbol := sor (trim (customCurrencySymbol currency))
         (customCurrencySymbol DEFAULT_CURRENCY_CONFIG) \<rparr>)"

definition getDisplayMeta :: "CurrencyConfig \<Rightarrow> DisplayMeta" where
  "getDisplayMeta config = (case quotaDisplayType config of
      CNY \<Rightarrow> Meta_currency [165] (js ''CNY'') (usdExchangeRate config)
    | CUSTOM \<Rightarrow> Meta_custom (customCurrencySymbol config) (customCurrencyExchangeRate config)
    | TOKENS \<Rightarrow> Meta_tokens (quotaPerUnit config)
    | USD \<Rightarrow> Meta_currency (js ''$'') (js ''USD'') (JFin 1))"

definition getBillingDisplayMeta :: "CurrencyConfig \<Rightarrow> DisplayMeta" where
  "getBillingDisplayMeta config = (case getDisplayMeta config of
      Meta_tokens _ \<Rightarrow> Meta_currency (js ''$'') (js ''USD'') (JFin 1)
    | meta \<Rightarrow> meta)"

definition mergeOptions :: "CurrencyFormatOptions option \<Rightarrow> FormatOptions" where
  "mergeOptions opts = (case opts of None \<Rightarrow> DEFAULT_FORMAT_OPTIONS
    | Some o' \<Rightarrow> \<lparr> digitsLarge = upd (o_digitsLarge o') (digitsLarge DEFAULT_FORMAT_OPTIONS),
        digitsSmall = upd (o_digitsSmall o') (digitsSmall DEFAULT_FORMAT_OPTIONS),
        abbreviate = upd (o_abbreviate o') (abbreviate DEFAULT_FORMAT_OPTIONS),
        minimumNonZero = upd (o_minimumNonZero o') (minimumNonZero DEFAULT_FORMAT_OPTIONS) \<rparr>)"

section \<open>Printing amounts\<close>

text \<open>The options given to \<open>Intl.NumberFormat\<close>; the locale is the host's.\<close>

datatype NumberFormat =
    NF_currency jstr nat
  | NF_decimal nat
  | NF_compact nat
  | NF_percent nat

type_synonym intl = "NumberFormat \<Rightarrow> jnum \<Rightarrow> jstr"

definition removeTrailingZeros :: "jstr \<Rightarrow> jstr" where
  "removeTrailingZeros str = (if \<not> has_sub (js ''.'') str then str
     else rx_replace1 (RSeq (RLit 46) REol) (\<lambda>_. [])
       (rx_replace1 (RSeqs [RGrp 1 (RSeq (RLit 46) (RLazy (RCh is_digit))), RPlus (RLit 48), REol])
          (\<lambda>c. cap c 1) str))"

definition formatNumberWithSuffix :: "jnum \<Rightarrow> nat \<Rightarrow> nat \<Rightarrow> bool \<Rightarrow> jstr" where
  "formatNumberWithSuffix v dLarge dSmall abbrev = (let a = jabs v in
     if abbrev \<and> jge a (JFin 1000)
     then removeTrailingZeros (to_fixed 1 (jdiv v (JFin 1000))) @ js ''k''
     else let digits = (if jge a (JFin 1) then dLarge else dSmall) in
       removeTrailingZeros (to_fixed digits v))"

definition adjustForMinimum :: "jnum \<Rightarrow> nat \<Rightarrow> jnum \<Rightarrow> jnum" where
  "adjustForMinimum v digits minNonZero = (if jeq v (JFin 0) then v
     else let threshold = (if jgt minNonZero (JFin 0) then minNonZero else to_double (1 / 10 ^ digits));
              a = jabs v in
       if jgt a (JFin 0) \<and> jlt a threshold
       then (if jgt v (JFin 0) then threshold else jneg threshold) else v)"

definition formatCurrencyValue :: "intl \<Rightarrow> jnum \<Rightarrow> FormatOptions \<Rightarrow> DisplayMeta \<Rightarrow> jstr" where
  "formatCurrencyValue intl v opts meta =
     (let digits = (if jge (jabs v) (JFin 1) then digitsLarge opts else digitsSmall opts);
          adjusted = adjustForMinimum v digits (minimumNonZero opts) in
      case meta of
        Meta_tokens _ \<Rightarrow> formatNumberWithSuffix v (digitsLarge opts) (digitsSmall opts) (abbreviate opts)
      | Meta_currency _ code _ \<Rightarrow> intl (NF_currency code digits) adjusted
      | Meta_custom symbol _ \<Rightarrow> symbol @ intl (NF_decimal digits) adjusted)"

definition getCurrencyDisplay :: "SystemConfigState \<Rightarrow> CurrencyConfig \<times> DisplayMeta" where
  "getCurrencyDisplay st = (let config = getConfig st in (config, getDisplayMeta config))"

definition no_amount :: "jnum option \<Rightarrow> bool" where
  "no_amount a = (a = None \<or> a = Some JNaN)"

definition formatCurrencyFromUSD ::
  "intl \<Rightarrow> SystemConfigState \<Rightarrow> jnum option \<Rightarrow> CurrencyFormatOptions option \<Rightarrow> jstr" where
  "formatCurrencyFromUSD intl st amountUSD opts = (if no_amount amountUSD then js ''-''
     else let (config, meta) = getCurrencyDisplay st; merged = mergeOptions opts; amount = the amountUSD in
       case meta of
         Meta_tokens _ \<Rightarrow> formatNumberWithSuffix (jmul amount (quotaPerUnit config)) 0
           (digitsSmall merged) (abbreviate merged)
       | Meta_currency _ _ rate \<Rightarrow> formatCurrencyValue intl (jmul amount rate) merged meta
       | Meta_custom _ rate \<Rightarrow> formatCurrencyValue intl (jmul amount rate) merged meta)"

definition formatBillingCurrencyFromUSD ::
  "intl \<Rightarrow> SystemConfigState \<Rightarrow> jnum option \<Rightarrow> CurrencyFormatOptions option \<Rightarrow> jstr" where
  "formatBillingCurrencyFromUSD intl st amountUSD opts = (if no_amount amountUSD then js ''-''
     else let (config, _) = getCurrencyDisplay st; meta = getBillingDisplayMeta config;
              merged = mergeOptions opts; amount = the amountUSD;
              v = (case meta of Meta_currency _ _ rate \<Rightarrow> jmul amount rate
                 | Meta_custom _ rate \<Rightarrow> jmul amount rate | Meta_tokens _ \<Rightarrow> amount) in
       formatCurrencyValue intl v merged meta)"

definition formatQuotaWithCurrency ::
  "intl \<Rightarrow> SystemConfigState \<Rightarrow> jnum option \<Rightarrow> CurrencyFormatOptions option \<Rightarrow> jstr" where
  "formatQuotaWithCurrency intl st quota opts = (if no_amount quota then js ''-''
     else let (config, _) = getCurrencyDisplay st; amountUSD = jdiv (the quota) (quotaPerUnit config) in
       formatCurrencyFromUSD intl st (Some amountUSD) opts)"

definition getCurrencyLabel :: "SystemConfigState \<Rightarrow> jstr" where
  "getCurrencyLabel st = (let (config, meta) = getCurrencyDisplay st in
     case meta of Meta_tokens _ \<Rightarrow> js ''Tokens''
     | _ \<Rightarrow> (case quotaDisplayType config of
         CNY \<Rightarrow> js ''CNY''
       | CUSTOM \<Rightarrow> (case meta of Meta_custom symbol _ \<Rightarrow> symbol | _ \<Rightarrow> js ''Custom'')
       | _ \<Rightarrow> js ''USD''))"

definition isCurrencyDisplayEnabled :: "SystemConfigState \<Rightarrow> bool" where
  "isCurrencyDisplayEnabled st = (case snd (getCurrencyDisplay st) of Meta_tokens _ \<Rightarrow> False | _ \<Rightarrow> True)"

definition formatLocalCurrencyAmount ::
  "intl \<Rightarrow> SystemConfigState \<Rightarrow> jnum option \<Rightarrow> CurrencyFormatOptions option \<Rightarrow> jstr" where
  "formatLocalCurrencyAmount intl st amount opts = (if no_amount amount then js ''-''
     else let (config, _) = getCurrencyDisplay st; meta = getBillingDisplayMeta config;
              merged = mergeOptions opts in
       formatCurrencyValue intl (the amount) merged meta)"

section \<open>Formats built on them\<close>

definition formatNumber :: "intl \<Rightarrow> jnum option \<Rightarrow> jstr" where
  "formatNumber intl v = (if no_amount v then js ''-'' else intl (NF_decimal 2) (the v))"

definition formatCompactNumber :: "intl \<Rightarrow> jnum option \<Rightarrow> jstr" where
  "formatCompactNumber intl v = (if no_amount v then js ''-'' else intl (NF_compact 1) (the v))"

definition formatPercent :: "intl \<Rightarrow> jnum option \<Rightarrow> jstr" where
  "formatPercent intl v = (if no_amount v then js ''-'' else intl (NF_percent 2) (jdiv (the v) (JFin 100)))"

definition formatCurrencyUSD :: "intl \<Rightarrow> SystemConfigState \<Rightarrow> jnum option \<Rightarrow> jstr" where
  "formatCurrencyUSD intl st v = formatCurrencyFromUSD intl st v None"

definition formatQuota :: "intl \<Rightarrow> SystemConfigState \<Rightarrow> jnum \<Rightarrow> jstr" where
  "formatQuota intl st quota = formatQuotaWithCurrency intl st (Some quota)
     (Some \<lparr> o_digitsLarge = Some 2, o_digitsSmall = Some 4, o_abbreviate = Some True, o_minimumNonZero = None \<rparr>)"

definition meta_rate :: "DisplayMeta \<Rightarrow> jnum" where
  "meta_rate meta = (case meta of Meta_currency _ _ r \<Rightarrow> r | Meta_custom _ r \<Rightarrow> r | Meta_tokens _ \<Rightarrow> JFin 1)"

definition parseQuotaFromDollars :: "SystemConfigState \<Rightarrow> jnum \<Rightarrow> jnum" where
  "parseQuotaFromDollars st amount = (if \<not> is_finite amount then JFin 0
     else let (config, meta) = getCurrencyDisplay st in
       case meta of Meta_tokens _ \<Rightarrow> jround amount
       | _ \<Rightarrow> (let exchangeRate = meta_rate meta;
             usdAmount = (if jgt exchangeRate (JFin 0) then jdiv amount exchangeRate else amount) in
           jround (jmul usdAmount (quotaPerUnit config))))"

definition quotaUnitsToDollars :: "SystemConfigState \<Rightarrow> jnum \<Rightarrow> jnum" where
  "quotaUnitsToDollars st units = (let (config, meta) = getCurrencyDisplay st in
     case meta of Meta_tokens _ \<Rightarrow> units
     | _ \<Rightarrow> (let usdAmount = jdiv units (quotaPerUnit config) in jmul usdAmount (meta_rate meta)))"

text \<open>Times; \<open>day format ms\<close> is \<open>dayjs(ms).format(format)\<close>, \<open>get_time\<close> is \<open>new Date(s).getTime()\<close>.\<close>

type_synonym dayjs = "jstr \<Rightarrow> jnum \<Rightarrow> jstr"

definition formatTimestampToDate :: "dayjs \<Rightarrow> jnum option \<Rightarrow> bool \<Rightarrow> jstr" where
  "formatTimestampToDate day timestamp seconds = (case timestamp of None \<Rightarrow> js ''-''
    | Some t \<Rightarrow> if \<not> num_truthy t \<or> jeq t (JFin (- 1)) \<or> jeq t (JFin 0) then js ''-''
        else day (js ''YYYY-MM-DD HH:mm:ss'') (if seconds then jmul t (JFin 1000) else t))"

definition formatTimestamp :: "dayjs \<Rightarrow> jnum \<Rightarrow> jstr" where
  "formatTimestamp day timestamp = (if jeq timestamp (JFin (- 1)) then js ''Never''
     else formatTimestampToDate day (Some timestamp) True)"

definition formatDateTimeStr :: "dayjs \<Rightarrow> jnum \<Rightarrow> jstr" where
  "formatDateTimeStr day date = day (js ''YYYY-MM-DD HH:mm:ss'') date"

definition formatDateStr :: "dayjs \<Rightarrow> jnum \<Rightarrow> jstr" where
  "formatDateStr day date = day (js ''YYYY-MM-DD'') date"

definition formatTimeStr :: "dayjs \<Rightarrow> jnum \<Rightarrow> jstr" where
  "formatTimeStr day date = day (js ''HH:mm:ss'') date"

definition formatLogQuota :: "intl \<Rightarrow> SystemConfigState \<Rightarrow> jnum \<Rightarrow> jstr" where
  "formatLogQuota intl st quota = formatQuotaWithCurrency intl st (Some quota)
     (Some \<lparr> o_digitsLarge = Some 4, o_digitsSmall = Some 6, o_abbreviate = Some False, o_minimumNonZero = None \<rparr>)"

definition formatTokens :: "jnum \<Rightarrow> jstr" where
  "formatTokens tokens = (if jeq tokens (JFin 0) then js ''-''
     else if jlt tokens (JFin 1000) then num_to_str tokens
     else if jlt tokens (JFin 1000000) then to_fixed 1 (jdiv tokens (JFin 1000)) @ js ''K''
     else to_fixed 2 (jdiv tokens (JFin 1000000)) @ js ''M'')"

definition formatUseTime :: "jnum \<Rightarrow> jstr" where
  "formatUseTime seconds = (if jlt seconds (JFin 60) then to_fixed 1 seconds @ js ''s''
     else let minutes = jfloor (jdiv seconds (JFin 60)); remainingSeconds = jmod seconds (JFin 60) in
       num_to_str minutes @ js ''m '' @ to_fixed 0 remainingSeconds @ js ''s'')"

definition formatTimestampForInput :: "dayjs \<Rightarrow> jnum \<Rightarrow> jstr" where
  "formatTimestampForInput day timestamp = (if jeq timestamp (JFin (- 1)) then []
     else day (js ''YYYY-MM-DDTHH:mm'') (jmul timestamp (JFin 1000)))"

definition parseTimestampFromInput :: "(jstr \<Rightarrow> jnum) \<Rightarrow> jstr \<Rightarrow> jnum" where
  "parseTimestampFromInput get_time v = (if v = [] then JFin (- 1) else jfloor (jdiv (get_time v) (JFin 1000)))"

section \<open>Colours\<close>

text \<open>The hash wraps at 32 bits in each round; between the wraps the values are exact integers, so
  the round is one step of word arithmetic. The last three numbers are signed.\<close>

definition color_hash :: "jstr \<Rightarrow> 32 word" where
  "color_hash str = foldl (\<lambda>hash c. word_of_nat c + (push_bit 5 hash - hash)) 0 str"

definition js_rem :: "int \<Rightarrow> int \<Rightarrow> int" where
  "js_rem a b = sgn a * (\<bar>a\<bar> mod \<bar>b\<bar>)"

definition color_parts :: "jstr \<Rightarrow> int \<times> int \<times> int" where
  "color_parts str = (let h = sint (color_hash str) in
     (\<bar>js_rem h 360\<bar>, 65 + js_rem \<bar>h\<bar> 10, 55 + js_rem \<bar>h div 256\<bar> 10))"

definition stringToColor :: "jstr \<Rightarrow> jstr" where
  "stringToColor str = (if str = [] then js ''gray''
     else let (hue, saturation, lightness) = color_parts str in
       js ''hsl('' @ int_to_str hue @ js '', '' @ int_to_str saturation @ js ''%, '' @ int_to_str lightness @ js ''%)'')"

section \<open>The configuration in use\<close>

lemma positive_or_pos: "jgt d (JFin 0) \<Longrightarrow> jgt (positive_or x d) (JFin 0)"
  by (simp add: positive_or_def)

lemma positive_or_idem [simp]: "positive_or (positive_or x d) d = positive_or x d"
  by (simp add: positive_or_def)

abbreviation with_currency :: "SystemConfigState \<Rightarrow> CurrencyConfig \<Rightarrow> SystemConfigState" where
  "with_currency st c \<equiv> st\<lparr> sc_config := (sc_config st)\<lparr> sys_currency := Some (full_currency c) \<rparr> \<rparr>"

lemma trim_symbol [simp]: "trim (sor (trim s) [164]) = sor (trim s) [164]"
  by (cases "trim s = []") (simp_all add: sor_def, simp add: trim_def is_space_def)

lemma getConfig_fixed:
  "getConfig (with_currency st ((getConfig st)\<lparr> quotaDisplayType := t \<rparr>))
     = (getConfig st)\<lparr> quotaDisplayType := t \<rparr>"
  by (simp add: getConfig_def Let_def DEFAULT_CURRENCY_CONFIG_def full_currency_def patch_currency_def upd_def)
    (simp add: sor_def)

text \<open>Whatever has been written to the store, the configuration that the formatters use has
  positive rates and a visible symbol without blanks around it, and is a fixed point of
  \<open>getConfig\<close>.\<close>

lemma config_in_use_sound:
  "jgt (quotaPerUnit (getConfig st)) (JFin 0) \<and> jgt (usdExchangeRate (getConfig st)) (JFin 0)
     \<and> jgt (customCurrencyExchangeRate (getConfig st)) (JFin 0)
     \<and> trim (customCurrencySymbol (getConfig st)) = customCurrencySymbol (getConfig st)
     \<and> customCurrencySymbol (getConfig st) \<noteq> []
     \<and> getConfig (with_currency st (getConfig st)) = getConfig st"
  using getConfig_fixed [where t = "quotaDisplayType (getConfig st)" and st = st]
  by (simp add: positive_or_pos getConfig_def Let_def DEFAULT_CURRENCY_CONFIG_def) (simp add: sor_def)

text \<open>The state shown in dollars where it is shown in tokens.\<close>

definition in_dollars :: "SystemConfigState \<Rightarrow> SystemConfigState" where
  "in_dollars st = (let c = getConfig st in with_currency st
     (c\<lparr> quotaDisplayType := if quotaDisplayType c = TOKENS then USD else quotaDisplayType c \<rparr>))"

text \<open>The billing display of a USD amount is the general display in the state whose display type
  is \<open>USD\<close> where it was \<open>TOKENS\<close>, and unchanged otherwise: every branch, options and missing
  amounts included.\<close>

lemma billing_display_is_money_display:
  "formatBillingCurrencyFromUSD intl st a opts = formatCurrencyFromUSD intl (in_dollars st) a opts"
  by (cases "quotaDisplayType (getConfig st)")
    (simp_all add: formatBillingCurrencyFromUSD_def formatCurrencyFromUSD_def in_dollars_def Let_def
      getCurrencyDisplay_def getConfig_fixed getDisplayMeta_def getBillingDisplayMeta_def)

lemma getDisplayMeta_tokens: "getDisplayMeta c = Meta_tokens v \<Longrightarrow> quotaDisplayType c = TOKENS"
  by (cases "quotaDisplayType c") (simp_all add: getDisplayMeta_def)

lemma meta_rate_in_use:
  "jgt (meta_rate (getDisplayMeta (getConfig st))) (JFin 0)"
  using config_in_use_sound [of st]
  by (cases "quotaDisplayType (getConfig st)") (simp_all add: getDisplayMeta_def meta_rate_def)


section \<open>Quota units and amounts\<close>

text \<open>\<open>near k f\<close>: the factor \<open>f\<close> is what \<open>k\<close> roundings in the normal range make of \<open>1\<close>.\<close>

definition near :: "nat \<Rightarrow> rat \<Rightarrow> bool" where
  "near k f = ((1 - two_pow (- 53)) ^ k \<le> f \<and> f \<le> (1 + two_pow (- 53)) ^ k)"

lemma near_one: "near 0 1"
  by (simp add: near_def)

lemma near_mult: "near j f \<Longrightarrow> near k g \<Longrightarrow> near (j + k) (f * g)"
proof -
  assume f: "near j f" and g: "near k g"
  have "0 \<le> (1 - two_pow (- 53)) ^ m" for m by (simp add: two_pow_def)
  moreover have "0 \<le> f" "0 \<le> g" using f g calculation by (auto simp: near_def intro: order_trans)
  ultimately show ?thesis using f g
    by (simp add: near_def power_add mult_mono add_nonneg_nonneg)
qed

lemma near_wide: "near k f \<Longrightarrow> k \<le> 4 \<Longrightarrow> two_pow (- 1) \<le> f \<and> f \<le> two_pow 1"
proof -
  assume f: "near k f" and k: "k \<le> 4"
  then have "k = 0 \<or> k = 1 \<or> k = 2 \<or> k = 3 \<or> k = 4" by linarith
  then have "two_pow (- 1) \<le> (1 - two_pow (- 53)) ^ k \<and> (1 + two_pow (- 53)) ^ k \<le> two_pow 1"
    by (elim disjE) (simp_all add: two_pow_def power_divide)
  with f show ?thesis by (auto simp: near_def)
qed

lemma fl_factor:
  assumes "two_pow a \<le> x" "x \<le> two_pow b" "- 400 \<le> a" "b \<le> 400" "near k f" "k \<le> 4"
  obtains g where "to_double (x * f) = JFin (x * g)" "near (Suc k) g"
proof -
  note w = near_wide [OF assms(5,6)]
  have x: "0 < x" using assms(1) two_pow_pos(1) [of a] by linarith
  have f: "0 < f" using w two_pow_pos(1) [of "- 1"] by linarith
  have "two_pow (a + - 1) \<le> x * f" "x * f \<le> two_pow (b + 1)"
    unfolding two_pow_add using assms(1,2) w x f by (intro mult_mono; simp)+
  moreover have "two_pow (- 1022) \<le> two_pow (a + - 1)" "two_pow (b + 1) \<le> two_pow 1000"
    using assms(3,4) by (simp_all only: two_pow_le)
  ultimately have "two_pow (- 1022) \<le> x * f" "x * f \<le> two_pow 1000" by linarith+
  then obtain d where d: "to_double (x * f) = JFin d" "\<bar>d - x * f\<bar> \<le> x * f * two_pow (- 53)"
    by (rule to_double_near)
  have "near 1 (d / (x * f))"
    using d(2) x f by (simp add: near_def le_divide_eq divide_le_eq abs_le_iff algebra_simps)
  from near_mult [OF assms(5) this] have "near (Suc k) (d / x)" using f x by (simp add: field_simps)
  then show ?thesis using d(1) x by (intro that [of "d / x"]) simp_all
qed

lemma four_roundings:
  assumes n: "1 \<le> n" "n \<le> two_pow 49"
    and q: "two_pow (- 100) \<le> q" "q \<le> two_pow 100"
    and r: "two_pow (- 100) \<le> r" "r \<le> two_pow 100"
  obtains d where "jmul (jdiv (jmul (jdiv (JFin n) (JFin q)) (JFin r)) (JFin r)) (JFin q) = JFin d"
    "\<bar>d - n\<bar> < 1 / 2"
proof -
  have pos: "0 < q" "0 < r" using q(1) r(1) two_pow_pos(1) [of "- 100"] by linarith+
  have n0: "two_pow 0 \<le> n" "0 < n" using n by (simp_all add: two_pow_def)
  have inv: "two_pow (- 100) \<le> 1 / q" "1 / q \<le> two_pow 100"
    using q pos unfolding two_pow_minus by (simp_all add: field_simps)
  have b1: "two_pow (0 + - 100) \<le> n * (1 / q)" "n * (1 / q) \<le> two_pow (49 + 100)"
    unfolding two_pow_add using n0 n(2) inv pos by (intro mult_mono; simp)+
  have b2: "two_pow (0 + - 100 + - 100) \<le> n * (1 / q) * r" "n * (1 / q) * r \<le> two_pow (49 + 100 + 100)"
    using mult_mono [OF b1(1) r(1)] mult_mono [OF b1(2) r(2)] n0 pos
    by (simp_all add: two_pow_add [of "- 100" "- 100", simplified] two_pow_add [of 149 100, simplified])
  obtain f1 where f1: "to_double (n * (1 / q) * 1) = JFin (n * (1 / q) * f1)" "near (Suc 0) f1"
    by (rule fl_factor [OF b1 _ _ near_one]; (rule that; assumption | simp))
  obtain f2 where f2: "to_double (n * (1 / q) * r * f1) = JFin (n * (1 / q) * r * f2)" "near (Suc (Suc 0)) f2"
    by (rule fl_factor [OF b2 _ _ f1(2)]; (rule that; assumption | simp))
  obtain f3 where f3: "to_double (n * (1 / q) * f2) = JFin (n * (1 / q) * f3)" "near (Suc (Suc (Suc 0))) f3"
    by (rule fl_factor [OF b1 _ _ f2(2)]; (rule that; assumption | simp))
  obtain f4 where f4: "to_double (n * f3) = JFin (n * f4)" "near (Suc (Suc (Suc (Suc 0)))) f4"
    by (rule fl_factor [OF n0(1) n(2) _ _ f3(2)]; (rule that; assumption | simp))
  have "jmul (jdiv (jmul (jdiv (JFin n) (JFin q)) (JFin r)) (JFin r)) (JFin q) = JFin (n * f4)"
    using f1(1) f2(1) f3(1) f4(1) pos by (simp add: mult_ac)
  moreover have "\<bar>n * f4 - n\<bar> < 1 / 2"
  proof -
    have "\<bar>f4 - 1\<bar> \<le> 3 / 2 * two_pow (- 51)"
      using f4(2) by (cases "1 \<le> f4") (simp_all add: near_def two_pow_def power_divide)
    then have "n * \<bar>f4 - 1\<bar> \<le> two_pow 49 * (3 / 2 * two_pow (- 51))"
      using n0(2) n(2) by (intro mult_mono) simp_all
    moreover have "\<bar>n * f4 - n\<bar> = n * \<bar>f4 - 1\<bar>"
      using n0(2) abs_mult [of n "f4 - 1"] by (simp add: right_diff_distrib)
    ultimately show ?thesis by (simp add: two_pow_def)
  qed
  ultimately show ?thesis by (rule that)
qed

text \<open>C30. A number of quota units between 1 and $2^49$ survives being shown as an amount and read
  back, whatever the display type is, as long as the units per dollar and the exchange rate are
  within 100 binary orders of magnitude of 1: the four roundings cannot add up to half a unit.\<close>

lemma quota_units_roundtrip:
  assumes "quotaPerUnit (getConfig st) = JFin q" "meta_rate (getDisplayMeta (getConfig st)) = JFin r"
    and "two_pow (- 100) \<le> q" "q \<le> two_pow 100" "two_pow (- 100) \<le> r" "r \<le> two_pow 100"
    and "1 \<le> n" "n \<le> 2 ^ 49"
  shows "parseQuotaFromDollars st (quotaUnitsToDollars st (jint n)) = jint n"
proof -
  let ?x = "of_int n :: rat"
  have n: "1 \<le> ?x" "?x \<le> two_pow 49"
  proof -
    show "1 \<le> ?x" using assms(7) by simp
    have "?x \<le> of_int (2 ^ 49)" using assms(8) by (simp only: of_int_le_iff)
    then show "?x \<le> two_pow 49" by (simp add: two_pow_def)
  qed
  obtain d where d: "jmul (jdiv (jmul (jdiv (JFin ?x) (JFin q)) (JFin r)) (JFin r)) (JFin q) = JFin d"
    "\<bar>d - ?x\<bar> < 1 / 2"
    by (rule four_roundings [OF n assms(3-6)])
  have "0 < r" using assms(5) two_pow_pos(1) [of "- 100"] by linarith
  have "\<lfloor>d + 1 / 2\<rfloor> = n" using d(2) unfolding floor_eq_iff abs_less_iff by linarith
  then have R: "jround (JFin d) = jint n" "jround (jint n) = jint n" by (simp_all, linarith?)
  have fin: "is_finite (jmul (jdiv (jint n) (JFin q)) (JFin r))"
    using d(1) by (cases "jmul (jdiv (jint n) (JFin q)) (JFin r)") (auto simp: inf_sgn_def split: if_splits)
  show ?thesis
    using assms(1,2) d(1) \<open>0 < r\<close> fin R
    by (cases "getDisplayMeta (getConfig st)")
      (simp_all add: parseQuotaFromDollars_def quotaUnitsToDollars_def getCurrencyDisplay_def Let_def meta_rate_def)
qed

definition yuan_state :: SystemConfigState where
  "yuan_state = setConfig \<lparr> p_systemName = None, p_logo = None, p_footerHtml = None, p_demoSiteEnabled = None,
     p_displayTokenStatEnabled = None, p_currency = Some \<lparr> p_displayInCurrency = None,
       p_quotaDisplayType = Some CNY, p_quotaPerUnit = None, p_usdExchangeRate = Some (JFin (73 / 10)),
       p_customCurrencySymbol = None, p_customCurrencyExchangeRate = None \<rparr> \<rparr> (initial_state [] [])"

lemma yuan_config:
  "quotaPerUnit (getConfig yuan_state) = JFin 500000"
  "getDisplayMeta (getConfig yuan_state) = Meta_currency [165] (js ''CNY'') (JFin (73 / 10))"
  by (simp_all add: yuan_state_def getConfig_def setConfig_def initial_state_def upd_def or_some_def
      merge_currency_def full_currency_def
      patch_currency_def DEFAULT_CURRENCY_CONFIG_def positive_or_def getDisplayMeta_def Let_def)

lemma quota_units_roundtrip_witness:
  "parseQuotaFromDollars yuan_state (quotaUnitsToDollars yuan_state (jint 1234567)) = jint 1234567"
  by (rule quota_units_roundtrip [where q = 500000 and r = "73 / 10"])
    (simp_all add: yuan_config meta_rate_def two_pow_def)

lemma minute_is_not_carried: "formatUseTime (JFin (1196 / 10)) = js ''1m 60s''"
  by code_simp

lemma rounded_thousands: "formatTokens (JFin 999999) = js ''1000.0K''"
  by code_simp

text \<open>The colour of a tag is \<open>gray\<close> for the empty string and otherwise an HSL colour whose hue is in
  0 to 359, saturation in 65 to 74 and lightness in 55 to 64, also when the 32-bit hash wraps to a
  negative number.\<close>

lemma string_color_bounds:
  "\<exists>hue saturation lightness. color_parts str = (hue, saturation, lightness)
     \<and> stringToColor str = (if str = [] then js ''gray'' else js ''hsl('' @ int_to_str hue @ js '', ''
         @ int_to_str saturation @ js ''%, '' @ int_to_str lightness @ js ''%)'')
     \<and> 0 \<le> hue \<and> hue < 360 \<and> 65 \<le> saturation \<and> saturation < 75 \<and> 55 \<le> lightness \<and> lightness < 65"
  by (auto simp: stringToColor_def color_parts_def Let_def js_rem_def abs_mult sgn_if)

lemma tokens_display_abbreviates:
  "formatCurrencyFromUSD intl (with_currency st (DEFAULT_CURRENCY_CONFIG\<lparr> quotaDisplayType := TOKENS \<rparr>))
     (Some (JFin 10)) None = js ''5000k''"
  by (simp add: formatCurrencyFromUSD_def no_amount_def getCurrencyDisplay_def getConfig_def full_currency_def patch_currency_def upd_def
 DEFAULT_CURRENCY_CONFIG_def getDisplayMeta_def positive_or_def mergeOptions_def DEFAULT_FORMAT_OPTIONS_def
 double_eval formatNumberWithSuffix_def) code_simp

end
