(* ===== verification/Channels.thy ===== *)
theory Channels
  imports ChannelTypes Currency
begin

text \<open>
  Channels: \<open>features/channels/lib/channel-utils.ts\<close>. A channel is the record the API returns
  (\<open>features/channels/types.ts\<close>); a field of type \<open>T | null | undefined\<close> is a \<open>T nullish\<close>.
  \<open>localeCompare\<close>, the translation function, \<open>dayjs\<close> and \<open>Intl.NumberFormat\<close> are parameters.
\<close>

section \<open>Optional values\<close>

datatype 'a nullish = Undefined | Null | Val 'a

text \<open>\<open>x || d\<close> on strings and numbers, \<open>x ?? d\<close>, and \<open>===\<close> on optional numbers.\<close>

fun str_or :: "jstr nullish \<Rightarrow> jstr \<Rightarrow> jstr" where
  "str_or (Val s) d = sor s d"
| "str_or _ d = d"

fun num_or :: "jnum nullish \<Rightarrow> jnum \<Rightarrow> jnum" where
  "num_or (Val x) d = jor x d"
| "num_or _ d = d"

fun null_or :: "'a nullish \<Rightarrow> 'a \<Rightarrow> 'a" where
  "null_or (Val x) d = x"
| "null_or _ d = d"

fun num_identical :: "jnum nullish \<Rightarrow> jnum nullish \<Rightarrow> bool" where
  "num_identical (Val x) (Val y) = jeq x y"
| "num_identical x y = (x = y)"

section \<open>The channel record\<close>

datatype KeyMode = Random | Polling

record ChannelInfo =
  is_multi_key :: bool
  multi_key_size :: jnum
  multi_key_status_list :: "(jstr \<times> jnum) list option"
  multi_key_disabled_reason :: "(jstr \<times> jstr) list option"
  multi_key_disabled_time :: "(jstr \<times> jnum) list option"
  multi_key_polling_index :: jnum
  multi_key_mode :: KeyMode

record Channel =
  ch_id :: jnum
  ch_type :: int
  ch_key :: jstr
  openai_organization :: "jstr nullish"
  test_model :: "jstr nullish"
  ch_status :: int
  ch_name :: jstr
  ch_weight :: "jnum nullish"
  created_time :: jnum
  test_time :: jnum
  response_time :: jnum
  base_url :: "jstr nullish"
  ch_other :: jstr
  ch_balance :: jnum
  balance_updated_time :: jnum
  ch_models :: jstr
  ch_group :: jstr
  used_quota :: jnum
  model_mapping :: "jstr nullish"
  status_code_mapping :: "jstr nullish"
  ch_priority :: "jnum nullish"
  auto_ban :: "jnum nullish"
  other_info :: jstr
  ch_tag :: "jstr nullish"
  ch_setting :: "jstr nullish"
  param_override :: "jstr nullish"
  header_override :: "jstr nullish"
  ch_remark :: jstr
  max_input_tokens :: jnum
  channel_info :: "ChannelInfo option"
  ch_settings :: jstr

section \<open>Types and statuses\<close>

definition getChannelTypeLabel :: "int \<Rightarrow> jstr" where
  "getChannelTypeLabel i = lookup_or CHANNEL_TYPES i (js ''Unknown'')"

definition TYPE_TO_ICON :: "(int \<times> jstr) list" where
  "TYPE_TO_ICON =
    [(1, js ''OpenAI''), (6, js ''OpenAI''), (7, js ''OpenAI''), (8, js ''OpenAI''),
     (3, js ''Azure''), (14, js ''Claude''), (24, js ''Gemini''), (11, js ''Google''),
     (41, js ''Gemini''), (33, js ''Aws''), (39, js ''Cloudflare''), (15, js ''Baidu''),
     (46, js ''Baidu''), (16, js ''Zhipu''), (26, js ''Zhipu''), (17, js ''Qwen''),
     (18, js ''Spark''), (23, js ''Hunyuan''), (19, js ''Ai360''), (25, js ''Moonshot''),
     (31, js ''Yi''), (35, js ''Minimax''), (45, js ''Volcengine''), (4, js ''Ollama''),
     (27, js ''Perplexity''), (34, js ''Cohere''), (42, js ''Mistral''), (43, js ''DeepSeek''),
     (48, js ''XAI''), (49, js ''Coze''), (40, js ''SiliconCloud''), (44, js ''OpenAI''),
     (20, js ''OpenRouter''), (2, js ''Midjourney''), (5, js ''Midjourney''), (50, js ''Kling''),
     (51, js ''Jimeng''), (52, js ''Vidu''), (36, js ''Suno''), (55, js ''OpenAI''),
     (54, js ''Doubao''), (56, js ''Replicate''), (37, js ''Dify''), (38, js ''Jina''),
     (22, js ''FastGPT''), (47, js ''Xinference''), (53, js ''OpenAI''), (10, js ''OpenAI''),
     (21, js ''OpenAI''), (12, js ''OpenAI''), (13, js ''OpenAI''), (9, js ''OpenAI'')]"

definition getChannelTypeIcon :: "int \<Rightarrow> jstr" where
  "getChannelTypeIcon i = lookup_or TYPE_TO_ICON i (js ''OpenAI'')"

definition getChannelStatusBadge :: "int \<Rightarrow> Badge" where
  "getChannelStatusBadge status =
     lookup_or CHANNEL_STATUS_CONFIG status (the (map_of CHANNEL_STATUS_CONFIG 0))"

definition getMultiKeyStatusBadge :: "int \<Rightarrow> Badge" where
  "getMultiKeyStatusBadge status =
     lookup_or MULTI_KEY_STATUS_CONFIG status (the (map_of MULTI_KEY_STATUS_CONFIG 1))"

definition isChannelEnabled :: "Channel \<Rightarrow> bool" where
  "isChannelEnabled channel = (ch_status channel = 1)"

definition isMultiKeyChannel :: "Channel \<Rightarrow> bool" where
  "isMultiKeyChannel channel = (case channel_info channel of None \<Rightarrow> False | Some i \<Rightarrow> is_multi_key i)"

section \<open>Keys\<close>

definition key_lines :: "jstr \<Rightarrow> jstr list" where
  "key_lines key = filter (\<lambda>k. trim k \<noteq> []) (split_on 10 key)"

definition formatChannelKey :: "jstr \<Rightarrow> bool \<Rightarrow> jstr" where
  "formatChannelKey key isMultiKey =
     (if key = [] then []
      else if isMultiKey then int_to_str (int (length (key_lines key))) @ js '' keys''
      else if length key \<le> 16 then Js_String.slice 0 4 key @ js ''...'' @ slice_last 4 key
      else Js_String.slice 0 8 key @ js ''...'' @ slice_last 8 key)"

definition formatKeyPreview :: "jstr \<Rightarrow> nat \<Rightarrow> jstr" where
  "formatKeyPreview key maxLength =
     (if key = [] then [] else if length key \<le> maxLength then key
      else Js_String.slice 0 maxLength key @ js ''...'')"

definition countKeys :: "jstr \<Rightarrow> nat" where
  "countKeys key = (if key = [] then 0 else length (key_lines key))"

record DedupeResult =
  deduplicatedText :: jstr
  beforeCount :: nat
  afterCount :: nat
  removedCount :: int

text \<open>The loop of \<open>deduplicateKeys\<close>: the set of keys seen and the keys kept.\<close>

definition dedupe_step :: "jstr set \<times> jstr list \<Rightarrow> jstr \<Rightarrow> jstr set \<times> jstr list" where
  "dedupe_step = (\<lambda>(keySet, kept) line. let trimmedLine = trim line in
     if trimmedLine \<noteq> [] \<and> trimmedLine \<notin> keySet
     then (insert trimmedLine keySet, kept @ [trimmedLine]) else (keySet, kept))"

definition deduplicateKeys :: "jstr \<Rightarrow> DedupeResult" where
  "deduplicateKeys keysText =
     (if keysText = [] \<or> trim keysText = []
      then \<lparr> deduplicatedText = [], beforeCount = 0, afterCount = 0, removedCount = 0 \<rparr>
      else let keyLines = split_on 10 keysText;
               kept = snd (foldl dedupe_step ({}, []) keyLines) in
        \<lparr> deduplicatedText = join [10] kept, beforeCount = length keyLines, afterCount = length kept,
          removedCount = int (length keyLines) - int (length kept) \<rparr>)"

definition getKeyPromptForType :: "int \<Rightarrow> jstr" where
  "getKeyPromptForType i = lookup_or TYPE_TO_KEY_PROMPT i (js ''Enter API key for this channel'')"

section \<open>Lists of models and groups\<close>

definition comma_list :: "jstr \<Rightarrow> jstr list" where
  "comma_list s = (if s = [] then [] else filter (\<lambda>m. m \<noteq> []) (map trim (split_on 44 s)))"

definition parseModelsList :: "jstr \<Rightarrow> jstr list" where
  "parseModelsList models = comma_list models"

text \<open>\<open>collate a b\<close> is \<open>a.localeCompare(b)\<close>. The comparator answers -1 for two defaults; as the
  elements are then equal, the order it describes is the preorder \<open>group_le\<close>.\<close>

definition group_cmp :: "(jstr \<Rightarrow> jstr \<Rightarrow> int) \<Rightarrow> jstr \<Rightarrow> jstr \<Rightarrow> int" where
  "group_cmp collate a b = (if a = js ''default'' then - 1 else if b = js ''default'' then 1 else collate a b)"

definition group_le :: "(jstr \<Rightarrow> jstr \<Rightarrow> int) \<Rightarrow> jstr \<Rightarrow> jstr \<Rightarrow> bool" where
  "group_le collate a b = (group_cmp collate a b \<le> 0)"

definition parseGroupsList :: "(jstr \<Rightarrow> jstr \<Rightarrow> int) \<Rightarrow> jstr \<Rightarrow> jstr list" where
  "parseGroupsList collate groups = sort_by (group_le collate) (comma_list groups)"

definition formatModelsString :: "jstr list \<Rightarrow> jstr" where
  "formatModelsString models = join [44] models"

definition formatGroupsString :: "jstr list \<Rightarrow> jstr" where
  "formatGroupsString groups = join [44] groups"

section \<open>Settings\<close>

definition parseChannelSettings :: "jstr nullish \<Rightarrow> jval" where
  "parseChannelSettings settingStr = (let s = str_or settingStr [] in
     if s = [] then VObj [] else case json_parse s of None \<Rightarrow> VObj [] | Some v \<Rightarrow> v)"

definition parseChannelOtherSettings :: "jstr nullish \<Rightarrow> jval" where
  "parseChannelOtherSettings settingsStr = (let s = str_or settingsStr [] in
     if s = [] \<or> s = js ''{}'' then VObj [] else case json_parse s of None \<Rightarrow> VObj [] | Some v \<Rightarrow> v)"

definition validateChannelSettings :: "jstr \<Rightarrow> bool" where
  "validateChannelSettings settings = (settings = [] \<or> trim settings = [] \<or> json_parse settings \<noteq> None)"

section \<open>Balances, response times and dates\<close>

definition formatBalance :: "intl \<Rightarrow> SystemConfigState \<Rightarrow> jnum option \<Rightarrow> jstr" where
  "formatBalance intl st balance = (if no_amount balance then js ''-''
     else formatCurrencyFromUSD intl st balance (Some \<lparr> o_digitsLarge = Some 2, o_digitsSmall = Some 4,
       o_abbreviate = Some False, o_minimumNonZero = None \<rparr>))"

definition getBalanceVariant :: "jnum \<Rightarrow> Variant" where
  "getBalanceVariant balance = (if jeq balance (JFin 0) then Neutral
     else if jlt balance (JFin 1) then Danger else if jlt balance (JFin 10) then Warning else Success)"

type_synonym translate = "string \<Rightarrow> jval option \<Rightarrow> jstr"

definition formatResponseTime :: "jnum \<Rightarrow> translate option \<Rightarrow> jstr" where
  "formatResponseTime timeMs t =
     (if jeq timeMs (JFin 0) then (case t of Some t \<Rightarrow> t ''Not tested'' None | None \<Rightarrow> js ''Not tested'')
      else if jlt timeMs (JFin 1000)
      then (case t of Some t \<Rightarrow> t ''{{value}}ms'' (Some (VNum timeMs)) | None \<Rightarrow> num_to_str timeMs @ js ''ms'')
      else let secs = to_fixed 2 (jdiv timeMs (JFin 1000)) in
        (case t of Some t \<Rightarrow> t ''{{value}}s'' (Some (VStr secs)) | None \<Rightarrow> secs @ js ''s''))"

datatype Speed = EXCELLENT | GOOD | FAIR | POOR

fun RESPONSE_TIME_THRESHOLDS :: "Speed \<Rightarrow> jnum" where
  "RESPONSE_TIME_THRESHOLDS EXCELLENT = JFin 500"
| "RESPONSE_TIME_THRESHOLDS GOOD = JFin 1000"
| "RESPONSE_TIME_THRESHOLDS FAIR = JFin 2000"
| "RESPONSE_TIME_THRESHOLDS POOR = JFin 5000"

text \<open>\<open>None\<close> is the entry \<open>UNKNOWN\<close>.\<close>

fun RESPONSE_TIME_CONFIG :: "Speed option \<Rightarrow> Variant \<times> jstr" where
  "RESPONSE_TIME_CONFIG (Some EXCELLENT) = (Success, js ''Excellent'')"
| "RESPONSE_TIME_CONFIG (Some GOOD) = (Info, js ''Good'')"
| "RESPONSE_TIME_CONFIG (Some FAIR) = (Warning, js ''Fair'')"
| "RESPONSE_TIME_CONFIG (Some POOR) = (Danger, js ''Poor'')"
| "RESPONSE_TIME_CONFIG None = (Neutral, js ''Not tested'')"

definition getResponseTimeConfig :: "jnum \<Rightarrow> Variant \<times> jstr" where
  "getResponseTimeConfig timeMs =
     (if jeq timeMs (JFin 0) then RESPONSE_TIME_CONFIG None
      else if jle timeMs (RESPONSE_TIME_THRESHOLDS EXCELLENT) then RESPONSE_TIME_CONFIG (Some EXCELLENT)
      else if jle timeMs (RESPONSE_TIME_THRESHOLDS GOOD) then RESPONSE_TIME_CONFIG (Some GOOD)
      else if jle timeMs (RESPONSE_TIME_THRESHOLDS FAIR) then RESPONSE_TIME_CONFIG (Some FAIR)
      else if jle timeMs (RESPONSE_TIME_THRESHOLDS POOR) then RESPONSE_TIME_CONFIG (Some POOR)
      else RESPONSE_TIME_CONFIG (Some POOR))"

text \<open>\<open>from_now ms\<close> is \<open>dayjs(ms).fromNow()\<close>, \<open>None\<close> when it throws.\<close>

definition formatRelativeTime :: "(jnum \<Rightarrow> jstr option) \<Rightarrow> jnum \<Rightarrow> jstr" where
  "formatRelativeTime from_now timestamp =
     (if \<not> num_truthy timestamp then js ''Never''
      else case from_now (jmul timestamp (JFin 1000)) of Some s \<Rightarrow> s | None \<Rightarrow> js ''Unknown'')"

definition formatChannelTimestamp :: "dayjs \<Rightarrow> jnum \<Rightarrow> jstr" where
  "formatChannelTimestamp day timestamp =
     (if \<not> num_truthy timestamp then js ''N/A'' else formatTimestampToDate day (Some timestamp) True)"

definition formatChannelQuota :: "intl \<Rightarrow> SystemConfigState \<Rightarrow> jnum \<Rightarrow> jstr" where
  "formatChannelQuota intl st quota = formatQuotaWithCurrency intl st (Some quota)
     (Some \<lparr> o_digitsLarge = Some 2, o_digitsSmall = Some 4, o_abbreviate = Some True, o_minimumNonZero = None \<rparr>)"

fun getPriorityDisplay :: "jnum nullish \<Rightarrow> jstr" where
  "getPriorityDisplay (Val x) = num_to_str x"
| "getPriorityDisplay _ = js ''0''"

fun getWeightDisplay :: "jnum nullish \<Rightarrow> jstr" where
  "getWeightDisplay (Val x) = num_to_str x"
| "getWeightDisplay _ = js ''0''"

section \<open>Validation and attention\<close>

definition validateChannelName :: "jstr \<Rightarrow> bool" where
  "validateChannelName name = (trim name \<noteq> [])"

definition validateApiKey :: "jstr \<Rightarrow> bool" where
  "validateApiKey key = (trim key \<noteq> [])"

definition validateModels :: "jstr \<Rightarrow> bool" where
  "validateModels models = (parseModelsList models \<noteq> [])"

definition validateGroups :: "(jstr \<Rightarrow> jstr \<Rightarrow> int) \<Rightarrow> jstr \<Rightarrow> bool" where
  "validateGroups collate groups = (parseGroupsList collate groups \<noteq> [])"

text \<open>The third condition of both functions below.\<close>

definition all_keys_disabled :: "Channel \<Rightarrow> bool" where
  "all_keys_disabled channel = (case channel_info channel of None \<Rightarrow> False
    | Some i \<Rightarrow> is_multi_key i \<and> (case multi_key_status_list i of None \<Rightarrow> False
        | Some m \<Rightarrow> jge (jint (int (length m))) (multi_key_size i)))"

definition channelNeedsAttention :: "Channel \<Rightarrow> bool" where
  "channelNeedsAttention channel =
     (if ch_status channel = 3 then True
      else if jgt (ch_balance channel) (JFin 0) \<and> jlt (ch_balance channel) (JFin 1) then True
      else if all_keys_disabled channel then True
      else False)"

definition getAttentionReason :: "Channel \<Rightarrow> jstr option" where
  "getAttentionReason channel =
     (if ch_status channel = 3 then Some (js ''Auto-disabled'')
      else if jgt (ch_balance channel) (JFin 0) \<and> jlt (ch_balance channel) (JFin 1)
      then Some (js ''Low balance'')
      else if all_keys_disabled channel then Some (js ''All keys disabled'')
      else None)"

section \<open>Aggregation by tag\<close>

text \<open>
  A tag row starts as a copy of the first channel (\<open>row_base\<close>, whose fields that are not listed
  here are kept); \<open>key\<close>, \<open>id\<close>, \<open>tag\<close> and \<open>name\<close> are the tag, the constant fields are in
  \<open>new_row\<close>. The rows are held in a map by tag and in the result, which share them; as the rows are
  created in the order of the result, one list of rows stands for both.
\<close>

record TagRow =
  row_tag :: jstr
  row_base :: Channel
  row_status :: "int option"
  row_group :: jstr
  row_used_quota :: jnum
  row_response_time :: jnum
  row_priority :: "jnum nullish"
  row_weight :: "jnum nullish"
  row_children :: "Channel list"

definition tag_of :: "Channel \<Rightarrow> jstr" where
  "tag_of channel = str_or (ch_tag channel) []"

definition new_row :: "Channel \<Rightarrow> TagRow" where
  "new_row channel = (let tag = tag_of channel in
     \<lparr> row_tag = tag,
       row_base = channel\<lparr> ch_key := tag, ch_tag := Val tag, ch_name := tag, ch_type := 0, ch_balance := JFin 0,
         test_time := JFin 0, created_time := JFin 0, balance_updated_time := JFin 0, ch_models := [] \<rparr>,
       row_status = None, row_group = [], row_used_quota = JFin 0, row_response_time = JFin 0,
       row_priority = Val (JFin (- 1)), row_weight = Val (JFin (- 1)), row_children = [] \<rparr>)"

text \<open>\<open>-1\<close> stands for "no child yet", \<open>null\<close> for "the children differ".\<close>

definition combine_num :: "jnum nullish \<Rightarrow> jnum nullish \<Rightarrow> jnum nullish" where
  "combine_num old new = (if num_identical old (Val (JFin (- 1))) then new
     else if \<not> num_identical old new then Null else old)"

definition combine_group :: "jstr \<Rightarrow> jstr \<Rightarrow> jstr" where
  "combine_group old new = (if old = [] then new
     else let existingGroups = set (filter (\<lambda>g. g \<noteq> []) (split_on 44 old));
              newGroups = filter (\<lambda>g. g \<noteq> []) (split_on 44 new) in
       foldl (\<lambda>acc g. if g \<notin> existingGroups then acc @ 44 # g else acc) old newGroups)"

definition combine_status :: "int option \<Rightarrow> int \<Rightarrow> int option" where
  "combine_status old new = (if new = 1 then Some 1 else if old = None then Some new else old)"

definition absorb :: "TagRow \<Rightarrow> Channel \<Rightarrow> TagRow" where
  "absorb row channel = (let children = row_children row @ [channel]; childCount = jint (int (length children)) in
     row\<lparr> row_children := children,
       row_used_quota := jadd (row_used_quota row) (used_quota channel),
       row_response_time := jdiv (jadd (jmul (row_response_time row) (jsub childCount (JFin 1)))
         (response_time channel)) childCount,
       row_priority := combine_num (row_priority row) (ch_priority channel),
       row_weight := combine_num (row_weight row) (ch_weight channel),
       row_group := combine_group (row_group row) (ch_group channel),
       row_status := combine_status (row_status row) (ch_status channel) \<rparr>)"

definition aggregate_step :: "TagRow list \<Rightarrow> Channel \<Rightarrow> TagRow list" where
  "aggregate_step rows channel = (let tag = tag_of channel;
       rows = (if tag \<in> row_tag ` set rows then rows else rows @ [new_row channel]) in
     map (\<lambda>row. if row_tag row = tag then absorb row channel else row) rows)"

definition aggregateChannelsByTag :: "Channel list \<Rightarrow> TagRow list" where
  "aggregateChannelsByTag channels = foldl aggregate_step [] channels"

datatype Row = Channel_row Channel | Tag_row TagRow

fun isTagAggregateRow :: "Row \<Rightarrow> bool" where
  "isTagAggregateRow (Tag_row _) = True"
| "isTagAggregateRow (Channel_row _) = False"

end
