(* ===== verification/ChannelTags.thy ===== *)
theory ChannelTags
  imports Channels
begin

text \<open>
  Channels grouped by tag: the imperative aggregation of \<open>aggregateChannelsByTag\<close> is grouping
  followed by a fold over each group (\<open>group_by_tag\<close>), and what the summary columns of a row say
  about its children.
\<close>

section \<open>Aggregation is grouping\<close>

text \<open>The reference: one row for each tag in the order of first appearance, folded over the channels
  that carry it.\<close>

definition row_of :: "Channel list \<Rightarrow> TagRow" where
  "row_of cs = foldl absorb (new_row (hd cs)) cs"

definition group_by_tag :: "Channel list \<Rightarrow> TagRow list" where
  "group_by_tag cs = map (\<lambda>t. row_of (filter (\<lambda>c. tag_of c = t) cs)) (uniq (map tag_of cs))"

lemma row_tag_absorb [simp]: "row_tag (absorb r c) = row_tag r"
  by (simp add: absorb_def Let_def)

lemma row_tag_foldl [simp]: "row_tag (foldl absorb r cs) = row_tag r"
  by (induction cs arbitrary: r) simp_all

lemma row_tag_row_of:
  assumes "cs \<noteq> []" "\<And>c. c \<in> set cs \<Longrightarrow> tag_of c = t"
  shows "row_tag (row_of cs) = t"
  using assms by (simp add: row_of_def new_row_def Let_def)

lemma row_tags_group: "map row_tag (group_by_tag cs) = uniq (map tag_of cs)"
proof -
  have "row_tag (row_of (filter (\<lambda>c. tag_of c = t) cs)) = t" if "t \<in> set (uniq (map tag_of cs))" for t
    using that by (intro row_tag_row_of) (auto simp: filter_empty_conv)
  then show ?thesis by (auto simp: group_by_tag_def intro!: map_idI)
qed

lemma row_of_snoc: "cs \<noteq> [] \<Longrightarrow> row_of (cs @ [c]) = absorb (row_of cs) c"
  by (simp add: row_of_def)

lemma row_of_single: "row_of [c] = absorb (new_row c) c"
  by (simp add: row_of_def)

lemma uniq_snoc: "uniq (xs @ [x]) = (if x \<in> set xs then uniq xs else uniq xs @ [x])"
  by (simp add: uniq_append uniq_Cons)

lemma step_group: "aggregate_step (group_by_tag cs) c = group_by_tag (cs @ [c])"
proof -
  let ?t = "tag_of c"
  have tags: "row_tag ` set (group_by_tag cs) = tag_of ` set cs"
    using arg_cong [OF row_tags_group, of set cs] by simp
  have old: "(if row_tag r = ?t then absorb r c else r) = row_of (filter (\<lambda>d. tag_of d = t) (cs @ [c]))"
    if "t \<in> tag_of ` set cs" "r = row_of (filter (\<lambda>d. tag_of d = t) cs)" for t r
  proof -
    have ne: "filter (\<lambda>d. tag_of d = t) cs \<noteq> []" using that(1) by (auto simp: filter_empty_conv)
    then have "row_tag r = t" unfolding that(2) by (intro row_tag_row_of) auto
    with ne show ?thesis by (auto simp: that(2) row_of_snoc)
  qed
  let ?up = "map (\<lambda>row. if row_tag row = ?t then absorb row c else row)"
  let ?new = "\<lambda>t. row_of (filter (\<lambda>d. tag_of d = t) (cs @ [c]))"
  have up: "?up (group_by_tag cs) = map ?new (uniq (map tag_of cs))"
    using old by (simp add: group_by_tag_def)
  show ?thesis
  proof (cases "?t \<in> tag_of ` set cs")
    case True
    then have "aggregate_step (group_by_tag cs) c = ?up (group_by_tag cs)"
      by (simp add: aggregate_step_def tags)
    also have "\<dots> = group_by_tag (cs @ [c])"
      unfolding up using True by (simp add: group_by_tag_def uniq_snoc)
    finally show ?thesis .
  next
    case False
    then have "filter (\<lambda>d. tag_of d = ?t) cs = []" by (auto simp: filter_empty_conv image_iff)
    then have new: "?new ?t = absorb (new_row c) c" by (simp add: row_of_single)
    have "row_tag (new_row c) = ?t" by (simp add: new_row_def Let_def)
    with False have "aggregate_step (group_by_tag cs) c = ?up (group_by_tag cs) @ [absorb (new_row c) c]"
      by (simp add: aggregate_step_def tags)
    also have "\<dots> = group_by_tag (cs @ [c])"
      unfolding up new [symmetric] using False by (simp add: group_by_tag_def uniq_snoc)
    finally show ?thesis .
  qed
qed

lemma aggregate_group_by: "aggregateChannelsByTag channels = group_by_tag channels"
proof (induction channels rule: rev_induct)
  case Nil
  then show ?case by (simp add: aggregateChannelsByTag_def group_by_tag_def)
next
  case (snoc c cs)
  then show ?case by (simp add: aggregateChannelsByTag_def step_group)
qed


text \<open>C32. \<open>aggregateChannelsByTag\<close>, which updates shared rows while it walks the channels, computes
  the grouping by tag: one row for each tag, in the order of first appearance, each the fold of
  the channels with that tag in their order.\<close>

lemma aggregate_is_grouping:
  "aggregateChannelsByTag channels = group_by_tag channels
     \<and> map row_tag (aggregateChannelsByTag channels) = uniq (map tag_of channels)"
  by (simp add: aggregate_group_by row_tags_group)

section \<open>The summary columns\<close>

lemma foldl_absorb_fields:
  "row_children (foldl absorb r cs) = row_children r @ cs"
  "row_status (foldl absorb r cs) = foldl combine_status (row_status r) (map ch_status cs)"
  "row_priority (foldl absorb r cs) = foldl combine_num (row_priority r) (map ch_priority cs)"
  "row_weight (foldl absorb r cs) = foldl combine_num (row_weight r) (map ch_weight cs)"
  "row_group (foldl absorb r cs) = foldl combine_group (row_group r) (map ch_group cs)"
  "row_used_quota (foldl absorb r cs) = foldl jadd (row_used_quota r) (map used_quota cs)"
  by (induction cs arbitrary: r) (simp_all add: absorb_def Let_def)

lemma new_row_fields [simp]:
  "row_children (new_row c) = []" "row_status (new_row c) = None"
  "row_priority (new_row c) = Val (JFin (- 1))" "row_weight (new_row c) = Val (JFin (- 1))"
  "row_group (new_row c) = []" "row_used_quota (new_row c) = JFin 0"
  by (simp_all add: new_row_def Let_def)

lemmas row_of_fields = foldl_absorb_fields [of "new_row (hd cs)" cs for cs, folded row_of_def, simplified]

lemma status_summary:
  "xs \<noteq> [] \<Longrightarrow> foldl combine_status None xs = Some (if 1 \<in> set xs then 1 else hd xs)"
proof (induction xs rule: rev_induct)
  case (snoc x xs)
  then show ?case by (cases "xs = []") (auto simp: combine_status_def hd_append)
qed simp

text \<open>The common value of a list of optional numbers, \<open>null\<close> when they differ.\<close>

definition common_num :: "jnum nullish list \<Rightarrow> jnum nullish" where
  "common_num ps = (if list_all (num_identical (hd ps)) ps then hd ps else Null)"

lemma num_identical_refl: "p \<noteq> Val JNaN \<Longrightarrow> num_identical p p"
  by (cases p) (simp_all add: jeq_def)

lemma num_identical_eq: "num_identical p q \<Longrightarrow> p = q"
  by (cases "(p, q)" rule: num_identical.cases) (simp_all add: jeq_def)

lemma num_summary:
  "ps \<noteq> [] \<Longrightarrow> Val (JFin (- 1)) \<notin> set ps \<Longrightarrow> Val JNaN \<notin> set ps \<Longrightarrow>
    foldl combine_num (Val (JFin (- 1))) ps = common_num ps"
proof (induction ps rule: rev_induct)
  case (snoc p ps)
  show ?case
  proof (cases "ps = []")
    case True
    then show ?thesis using snoc.prems by (auto simp: combine_num_def common_num_def num_identical_refl)
  next
    case False
    then have IH: "foldl combine_num (Val (JFin (- 1))) ps = common_num ps" using snoc by simp
    have "hd ps \<noteq> Val (JFin (- 1))" using False snoc.prems(2) by (cases ps) auto
    then have "\<not> num_identical (common_num ps) (Val (JFin (- 1)))"
      by (auto simp: common_num_def dest: num_identical_eq)
    then have "foldl combine_num (Val (JFin (- 1))) (ps @ [p])
        = (if num_identical (common_num ps) p then common_num ps else Null)"
      by (simp add: IH) (simp add: combine_num_def)
    also have "\<dots> = common_num (ps @ [p])" using False by (auto simp: common_num_def)
    finally show ?thesis .
  qed
qed simp

lemma split_on_append: "split_on c (xs @ c # ys) = split_on c xs @ split_on c ys"
  by (induction xs) (auto split: list.splits)

definition group_names :: "jstr \<Rightarrow> jstr list" where
  "group_names g = filter (\<lambda>w. w \<noteq> []) (split_on 44 g)"

lemma group_names_append: "44 \<notin> set g \<Longrightarrow> g \<noteq> [] \<Longrightarrow> group_names (acc @ 44 # g) = group_names acc @ [g]"
  by (simp add: group_names_def split_on_append split_on_no_sep)

lemma group_names_foldl:
  "(\<And>g. g \<in> set gs \<Longrightarrow> 44 \<notin> set g \<and> g \<noteq> []) \<Longrightarrow>
    group_names (foldl (\<lambda>acc g. if g \<notin> E then acc @ 44 # g else acc) a gs)
      = group_names a @ filter (\<lambda>g. g \<notin> E) gs"
  by (induction gs arbitrary: a) (simp_all add: group_names_append)

lemma group_names_combine:
  "set (group_names (combine_group a b)) = set (group_names a) \<union> set (group_names b)"
proof (cases "a = []")
  case True
  then show ?thesis by (simp add: combine_group_def group_names_def)
next
  case False
  have "44 \<notin> set g \<and> g \<noteq> []" if "g \<in> set (group_names b)" for g
    using that by (auto simp: group_names_def dest: split_on_no_sep_elems)
  then show ?thesis
    using False group_names_foldl [of "group_names b" "set (group_names a)" a]
    by (auto simp: combine_group_def Let_def group_names_def [symmetric])
qed

lemma group_summary:
  "set (group_names (foldl combine_group a gs)) = set (group_names a) \<union> (\<Union>g \<in> set gs. set (group_names g))"
  by (induction gs arbitrary: a) (auto simp: group_names_combine)

lemma tag_row_facts:
  assumes "row \<in> set (aggregateChannelsByTag channels)"
  shows "row_children row = filter (\<lambda>c. tag_of c = row_tag row) channels"
    and "row_children row \<noteq> []"
    and "row_status row = Some (if \<exists>c \<in> set (row_children row). ch_status c = 1 then 1
           else ch_status (hd (row_children row)))"
    and "set (group_names (row_group row)) = (\<Union>c \<in> set (row_children row). set (group_names (ch_group c)))"
    and "Val (JFin (- 1)) \<notin> ch_priority ` set (row_children row) \<Longrightarrow> Val JNaN \<notin> ch_priority ` set (row_children row) \<Longrightarrow>
           row_priority row = common_num (map ch_priority (row_children row))"
    and "Val (JFin (- 1)) \<notin> ch_weight ` set (row_children row) \<Longrightarrow> Val JNaN \<notin> ch_weight ` set (row_children row) \<Longrightarrow>
           row_weight row = common_num (map ch_weight (row_children row))"
proof -
  from assms obtain t where t: "t \<in> tag_of ` set channels"
    and row: "row = row_of (filter (\<lambda>c. tag_of c = t) channels)"
    by (auto simp: aggregate_group_by group_by_tag_def)
  let ?cs = "filter (\<lambda>c. tag_of c = t) channels"
  have ne: "?cs \<noteq> []" using t by (auto simp: filter_empty_conv)
  have tag: "row_tag row = t" unfolding row using ne by (intro row_tag_row_of) auto
  show children: "row_children row = filter (\<lambda>c. tag_of c = row_tag row) channels"
    unfolding tag by (simp add: row row_of_fields)
  show "row_children row \<noteq> []" using ne unfolding children tag .
  then have map_ne: "map h (row_children row) \<noteq> []" for h :: "Channel \<Rightarrow> 'b" by simp
  have cs: "?cs = row_children row" unfolding children tag ..
  note fields = row_of_fields [of ?cs, folded row, unfolded cs]
  show "row_status row = Some (if \<exists>c \<in> set (row_children row). ch_status c = 1 then 1
           else ch_status (hd (row_children row)))"
    unfolding fields(2) status_summary [OF map_ne] using \<open>row_children row \<noteq> []\<close> by (auto simp: hd_map)
  show "set (group_names (row_group row)) = (\<Union>c \<in> set (row_children row). set (group_names (ch_group c)))"
    unfolding fields(5) group_summary by (simp add: group_names_def)
  show "row_priority row = common_num (map ch_priority (row_children row))"
    if "Val (JFin (- 1)) \<notin> ch_priority ` set (row_children row)" "Val JNaN \<notin> ch_priority ` set (row_children row)"
    unfolding fields(3) using that by (intro num_summary [OF map_ne]) simp_all
  show "row_weight row = common_num (map ch_weight (row_children row))"
    if "Val (JFin (- 1)) \<notin> ch_weight ` set (row_children row)" "Val JNaN \<notin> ch_weight ` set (row_children row)"
    unfolding fields(4) using that by (intro num_summary [OF map_ne]) simp_all
qed

text \<open>C36. What a tag row says: its children are the channels with its tag, in order; its status is
  enabled when a child is, and otherwise that of the first child; its groups are those of the
  children; its priority and its weight are the common value of the children, or \<open>null\<close> when
  they differ, provided no child has the value -1 that marks a fresh row.\<close>

lemma tag_row_summary:
  assumes "row \<in> set (aggregateChannelsByTag channels)"
  shows "row_children row = filter (\<lambda>c. tag_of c = row_tag row) channels \<and> row_children row \<noteq> []
    \<and> row_status row = Some (if \<exists>c \<in> set (row_children row). ch_status c = 1 then 1
           else ch_status (hd (row_children row)))
    \<and> set (group_names (row_group row)) = (\<Union>c \<in> set (row_children row). set (group_names (ch_group c)))
    \<and> (Val (JFin (- 1)) \<notin> ch_priority ` set (row_children row) \<longrightarrow> Val JNaN \<notin> ch_priority ` set (row_children row) \<longrightarrow>
           row_priority row = common_num (map ch_priority (row_children row)))
    \<and> (Val (JFin (- 1)) \<notin> ch_weight ` set (row_children row) \<longrightarrow> Val JNaN \<notin> ch_weight ` set (row_children row) \<longrightarrow>
           row_weight row = common_num (map ch_weight (row_children row)))"
  using tag_row_facts [OF assms] by blast

definition sample_channel :: "jstr \<Rightarrow> int \<Rightarrow> jnum \<Rightarrow> Channel" where
  "sample_channel tag status priority = \<lparr> ch_id = JFin 1, ch_type = 1, ch_key = [], openai_organization = Null,
     test_model = Null, ch_status = status, ch_name = js ''c'', ch_weight = Val (JFin 0), created_time = JFin 0,
     test_time = JFin 0, response_time = JFin 100, base_url = Null, ch_other = [], ch_balance = JFin 0,
     balance_updated_time = JFin 0, ch_models = [], ch_group = js ''default'', used_quota = JFin 5,
     model_mapping = Null, status_code_mapping = Null, ch_priority = Val priority, auto_ban = Val (JFin 1),
     other_info = [], ch_tag = Val tag, ch_setting = Null, param_override = Null, header_override = Null,
     ch_remark = [], max_input_tokens = JFin 0, channel_info = None, ch_settings = js ''{}'' \<rparr>"

lemma tag_row_summary_witness:
  "row_status (hd (aggregateChannelsByTag [sample_channel (js ''a'') 2 (JFin 3), sample_channel (js ''a'') 1 (JFin 3)])) = Some 1"
proof -
  let ?cs = "[sample_channel (js ''a'') 2 (JFin 3), sample_channel (js ''a'') 1 (JFin 3)]"
  have tag: "tag_of (sample_channel t s p) = t" for t s p
    by (simp add: tag_of_def sample_channel_def sor_def)
  have agg: "aggregateChannelsByTag ?cs = [row_of ?cs]"
    by (simp add: aggregate_group_by group_by_tag_def tag uniq_Cons)
  have "row_tag (row_of ?cs) = js ''a''" by (rule row_tag_row_of) (auto simp: tag)
  with tag_row_summary [of "hd (aggregateChannelsByTag ?cs)" ?cs] show ?thesis
    by (simp add: agg tag) (simp add: sample_channel_def)
qed

text \<open>The mark -1 is a legal priority: a channel of priority -1 is forgotten by the next one.\<close>

lemma priority_mark_collides:
  "foldl combine_num (Val (JFin (- 1))) [Val (JFin (- 1)), Val (JFin 5)] = Val (JFin 5)"
  by (simp add: combine_num_def)

text \<open>Repeated names inside one channel are kept.\<close>

lemma groups_not_deduplicated: "combine_group (js ''x'') (js ''a,a'') = js ''x,a,a''"
  by code_simp

end
