(* ===== verification/Js_Lists.thy ===== *)
theory Js_Lists
  imports Js_String
begin

text \<open>
  Lists written as texts: the words of a text between separators, trimmed and without the empty
  ones, which is how the sources read lists of models, groups, keys and tags. The contract of a
  list with a textual form is the locale \<open>list_codec\<close>.
\<close>

locale list_codec =
  fixes print_list :: "jstr list \<Rightarrow> jstr"
    and parse_list :: "jstr \<Rightarrow> jstr list"
    and printable :: "jstr list \<Rightarrow> bool"
  assumes parse_print: "printable ws \<Longrightarrow> parse_list (print_list ws) = ws"
    and printable_parse: "printable (parse_list s)"
begin

lemma reparse [simp]: "parse_list (print_list (parse_list s)) = parse_list s"
  by (rule parse_print) (rule printable_parse)

lemma printable_iff: "printable ws \<longleftrightarrow> ws \<in> range parse_list"
proof
  assume "printable ws"
  then show "ws \<in> range parse_list" by (metis parse_print rangeI)
qed (auto intro: printable_parse)

lemma print_inj: "inj_on print_list {ws. printable ws}"
  by (rule inj_on_inverseI [of _ parse_list]) (simp add: parse_print)

text \<open>The normal form of a text: two texts have the same one iff they are read as the same list.\<close>

definition normal_form :: "jstr \<Rightarrow> jstr" where
  "normal_form s = print_list (parse_list s)"

lemma normal_form_idem [simp]: "normal_form (normal_form s) = normal_form s"
  by (simp add: normal_form_def)

lemma normal_form_eq_iff: "normal_form s = normal_form t \<longleftrightarrow> parse_list s = parse_list t"
  unfolding normal_form_def by (metis reparse)

end

section \<open>Words between separators\<close>

definition words :: "nat \<Rightarrow> jstr \<Rightarrow> jstr list" where
  "words c s = filter (\<lambda>w. w \<noteq> []) (map trim (split_on c s))"

definition word_ok :: "nat \<Rightarrow> jstr \<Rightarrow> bool" where
  "word_ok c w = (w \<noteq> [] \<and> trimmed w \<and> c \<notin> set w)"

lemma words_Nil [simp]: "words c [] = []"
  by (simp add: words_def)

lemma trim_eq_Nil: "trim s = [] \<longleftrightarrow> (\<forall>x \<in> set s. is_space x)"
proof
  assume "trim s = []"
  then have "\<forall>x \<in> set (dropWhile is_space s). is_space x" by (simp add: trim_def)
  then have "dropWhile is_space s = []"
    using hd_dropWhile [of is_space s] hd_in_set by blast
  then show "\<forall>x \<in> set s. is_space x" by simp
next
  assume all: "\<forall>x \<in> set s. is_space x"
  then have "dropWhile is_space s = []" by (simp only: dropWhile_eq_Nil_conv)
  then show "trim s = []" unfolding trim_def by (simp only: list.simps rev.simps dropWhile.simps)
qed

lemma words_blank: "trim s = [] \<Longrightarrow> words c s = []"
  using set_split_on_subset by (fastforce simp: words_def filter_empty_conv trim_eq_Nil)

lemma words_join: "list_all (word_ok c) ws \<Longrightarrow> words c (join [c] ws) = ws"
proof (cases "ws = []")
  case False
  assume ok: "list_all (word_ok c) ws"
  then have "split_on c (join [c] ws) = ws"
    using False by (intro split_on_join) (auto simp: list_all_iff word_ok_def)
  moreover have "map trim ws = ws" using ok by (intro map_idI) (auto simp: list_all_iff word_ok_def trim_id)
  moreover have "filter (\<lambda>w. w \<noteq> []) ws = ws" using ok by (auto simp: list_all_iff word_ok_def filter_id_conv)
  ultimately show ?thesis by (simp add: words_def)
qed simp

lemma words_ok: "list_all (word_ok c) (words c s)"
proof -
  have "c \<notin> set (trim w)" if "w \<in> set (split_on c s)" for w
    using split_on_no_sep_elems [OF that] set_trim [of w] by blast
  then show ?thesis by (auto simp: list_all_iff words_def word_ok_def)
qed

lemma word_ok_uniq: "list_all (word_ok c) ws \<Longrightarrow> list_all (word_ok c) (uniq ws)"
  by (simp add: list_all_iff)

interpretation comma: list_codec "join [44]" "words 44" "list_all (word_ok 44)"
  by unfold_locales (simp_all add: words_join words_ok)

interpretation lines: list_codec "join [10]" "words 10" "list_all (word_ok 10)"
  by unfold_locales (simp_all add: words_join words_ok)

text \<open>Without repetitions: \<open>Array.from(new Set(words))\<close>.\<close>

interpretation comma_set: list_codec "join [44]" "\<lambda>s. uniq (words 44 s)" "\<lambda>ws. list_all (word_ok 44) ws \<and> distinct ws"
  by unfold_locales (simp_all add: words_join words_ok word_ok_uniq)

interpretation line_set: list_codec "join [10]" "\<lambda>s. uniq (words 10 s)" "\<lambda>ws. list_all (word_ok 10) ws \<and> distinct ws"
  by unfold_locales (simp_all add: words_join words_ok word_ok_uniq)

end
