(* ===== verification/ChannelLists.thy ===== *)
theory ChannelLists
  imports ChannelTags Js_Lists
begin

text \<open>
  The textual lists of a channel (keys, models, groups) and the checks on a channel: duplicates
  among keys, the order of groups, and the two views of the attention a channel needs.
\<close>

lemma comma_list_words [simp]: "comma_list s = words 44 s"
  by (cases "s = []") (simp_all add: comma_list_def words_def)

text \<open>Reading back the printed list of models, or of groups, of any text gives the models of that
  text, and any list of non-empty trimmed names without commas is read back as it is.\<close>

lemma models_list_roundtrip:
  "parseModelsList (formatModelsString (parseModelsList s)) = parseModelsList s \<and>
   (list_all (word_ok 44) ms \<longrightarrow> parseModelsList (formatModelsString ms) = ms)"
  by (simp add: parseModelsList_def formatModelsString_def comma.parse_print)

lemma models_list_roundtrip_witness:
  "parseModelsList (formatModelsString [js ''gpt-4'', js ''o3 mini'']) = [js ''gpt-4'', js ''o3 mini'']"
  using models_list_roundtrip [of "[]" "[js ''gpt-4'', js ''o3 mini'']"]
  by (simp add: word_ok_def trimmed_def js_def is_space_def)

section \<open>Keys\<close>

lemma foldl_dedupe:
  "foldl dedupe_step (set acc, acc) ls
     = (let kept = acc @ filter (\<lambda>k. k \<notin> set acc) (uniq (filter (\<lambda>w. w \<noteq> []) (map trim ls))) in (set kept, kept))"
proof (induction ls arbitrary: acc)
  case (Cons l ls)
  show ?case
  proof (cases "trim l = [] \<or> trim l \<in> set acc")
    case True
    then have "foldl dedupe_step (set acc, acc) (l # ls) = foldl dedupe_step (set acc, acc) ls"
      by (auto simp: dedupe_step_def Let_def)
    then show ?thesis using True Cons.IH [of acc]
      by (auto simp: uniq_Cons Let_def intro!: filter_cong)
  next
    case False
    then have "foldl dedupe_step (set acc, acc) (l # ls)
        = foldl dedupe_step (set (acc @ [trim l]), acc @ [trim l]) ls"
      by (simp add: dedupe_step_def Let_def)
    then show ?thesis using False Cons.IH [of "acc @ [trim l]"]
      by (auto simp: uniq_Cons Let_def intro!: filter_cong)
  qed
qed simp

lemma deduplicate_text: "deduplicatedText (deduplicateKeys s) = join [10] (uniq (words 10 s))"
  using foldl_dedupe [of "[]" "split_on 10 s"] words_blank [of s 10]
  by (auto simp: deduplicateKeys_def Let_def words_def)

lemma deduplicate_counts:
  "afterCount (deduplicateKeys s) = length (uniq (words 10 s))"
  "beforeCount (deduplicateKeys s) = (if trim s = [] then 0 else length (split_on 10 s))"
  "removedCount (deduplicateKeys s) = int (beforeCount (deduplicateKeys s)) - int (afterCount (deduplicateKeys s))"
  using foldl_dedupe [of "[]" "split_on 10 s"] words_blank [of s 10]
  by (auto simp: deduplicateKeys_def Let_def words_def)

lemma countKeys_words: "countKeys s = length (words 10 s)"
proof -
  have "length (words 10 s) = length (key_lines s)"
    by (simp add: words_def key_lines_def filter_map comp_def)
  then show ?thesis by (auto simp: countKeys_def)
qed

lemma word_lines: "split_on 10 (join [10] ws) = ws" if "list_all (word_ok 10) ws" "ws \<noteq> []"
  using that by (intro split_on_join) (auto simp: list_all_iff word_ok_def)

text \<open>Deduplication keeps the first occurrence of every trimmed non-empty key; the counts add up
  (blank lines count as removed); what it returns has as many keys as it says, and a second run
  changes nothing and removes nothing.\<close>

lemma deduplicate_keys_correct:
  "deduplicatedText (deduplicateKeys s) = join [10] (uniq (words 10 s))
   \<and> int (beforeCount (deduplicateKeys s)) = int (afterCount (deduplicateKeys s)) + removedCount (deduplicateKeys s)
   \<and> 0 \<le> removedCount (deduplicateKeys s)
   \<and> countKeys (deduplicatedText (deduplicateKeys s)) = afterCount (deduplicateKeys s)
   \<and> deduplicatedText (deduplicateKeys (deduplicatedText (deduplicateKeys s))) = deduplicatedText (deduplicateKeys s)
   \<and> removedCount (deduplicateKeys (deduplicatedText (deduplicateKeys s))) = 0"
proof -
  let ?u = "uniq (words 10 s)" and ?t = "join [10] (uniq (words 10 s))"
  have ok: "list_all (word_ok 10) ?u" by (intro word_ok_uniq words_ok)
  have t: "words 10 ?t = ?u" using ok by (rule words_join)
  have "trim ?t = [] \<longleftrightarrow> ?u = []" using words_blank [of ?t 10] t by auto
  then have before: "beforeCount (deduplicateKeys ?t) = length ?u"
    using word_lines [OF ok] by (auto simp: deduplicate_counts)
  have "length ?u \<le> beforeCount (deduplicateKeys s)"
  proof (cases "trim s = []")
    case False
    have "length ?u \<le> length (words 10 s)" by (rule length_uniq_le)
    also have "\<dots> \<le> length (split_on 10 s)"
      unfolding words_def by (rule order_trans [OF length_filter_le]) simp
    finally show ?thesis using False by (simp add: deduplicate_counts)
  qed (simp add: words_blank)
  then show ?thesis
    by (simp add: deduplicate_text deduplicate_counts(1,3) countKeys_words t before)
qed

section \<open>Groups\<close>

lemma group_order:
  assumes "\<And>a b. collate a b \<le> 0 \<or> collate b a \<le> 0"
    and "\<And>a b c. collate a b \<le> 0 \<Longrightarrow> collate b c \<le> 0 \<Longrightarrow> collate a c \<le> 0"
  shows "comparator (group_le collate)"
proof
  show "group_le collate x y \<or> group_le collate y x" for x y
    using assms(1) by (auto simp: group_le_def group_cmp_def)
  show "group_le collate x z" if "group_le collate x y" "group_le collate y z" for x y z
    using that assms(2) by (auto simp: group_le_def group_cmp_def split: if_splits)
qed

text \<open>For any collation that is a total preorder, the groups of a channel are listed in its order
  with \<open>default\<close> first, and are those of the text with their multiplicity.\<close>

lemma groups_sorted_default_first:
  assumes "\<And>a b. collate a b \<le> 0 \<or> collate b a \<le> 0"
    and "\<And>a b c. collate a b \<le> 0 \<Longrightarrow> collate b c \<le> 0 \<Longrightarrow> collate a c \<le> 0"
  shows "mset (parseGroupsList collate s) = mset (words 44 s)
    \<and> sorted_wrt (group_le collate) (parseGroupsList collate s)
    \<and> (js ''default'' \<in> set (words 44 s) \<longrightarrow> hd (parseGroupsList collate s) = js ''default'')"
proof -
  have sorted: "sorted_wrt (group_le collate) (parseGroupsList collate s)"
    unfolding parseGroupsList_def by (rule comparator.sorted_sort_by [OF group_order [OF assms]])
  have mset: "mset (parseGroupsList collate s) = mset (words 44 s)"
    by (simp add: parseGroupsList_def)
  have "hd (parseGroupsList collate s) = js ''default''" if d: "js ''default'' \<in> set (words 44 s)"
  proof -
    have mem: "js ''default'' \<in> set (parseGroupsList collate s)" using d by (simp add: parseGroupsList_def)
    then obtain g gs where g: "parseGroupsList collate s = g # gs" by (cases "parseGroupsList collate s") auto
    with mem sorted have "g = js ''default'' \<or> group_le collate g (js ''default'')" by auto
    with g show ?thesis by (auto simp: group_le_def group_cmp_def split: if_splits)
  qed
  with sorted mset show ?thesis by blast
qed

definition code_unit_cmp :: "jstr \<Rightarrow> jstr \<Rightarrow> int" where
  "code_unit_cmp a b = (if str_le a b then 0 else 1)"

lemma groups_sorted_default_first_witness:
  "hd (parseGroupsList code_unit_cmp (js ''vip, default, a'')) = js ''default''"
proof -
  have "js ''default'' \<in> set (words 44 (js ''vip, default, a''))"
    by (simp add: words_def js_def trim_def is_space_def)
  moreover have "code_unit_cmp a b \<le> 0 \<or> code_unit_cmp b a \<le> 0" for a b
    using str_order.total [of a b] by (auto simp: code_unit_cmp_def)
  moreover have "code_unit_cmp a c \<le> 0" if "code_unit_cmp a b \<le> 0" "code_unit_cmp b c \<le> 0" for a b c
    using that str_order.trans [of a b c] by (auto simp: code_unit_cmp_def split: if_splits)
  ultimately show ?thesis
    using groups_sorted_default_first [of code_unit_cmp "js ''vip, default, a''"] by blast
qed

section \<open>Attention\<close>

text \<open>The two views of the state of a channel agree: a channel needs attention exactly when a reason
  is given, and the reason is that of the first failing check.\<close>

lemma attention_views_agree:
  "(channelNeedsAttention channel = (getAttentionReason channel \<noteq> None)) \<and>
   (getAttentionReason channel = Some (js ''Auto-disabled'')) = (ch_status channel = STATUS_AUTO_DISABLED) \<and>
   (getAttentionReason channel = Some (js ''All keys disabled'')) =
     (ch_status channel \<noteq> STATUS_AUTO_DISABLED \<and> \<not> (jgt (ch_balance channel) (JFin 0) \<and> jlt (ch_balance channel) (JFin 1))
        \<and> all_keys_disabled channel)"
  by (auto simp: channelNeedsAttention_def getAttentionReason_def status_codes)

section \<open>Masking\<close>

text \<open>Short keys are not hidden: up to eight characters the two ends overlap and show the whole key.\<close>

lemma short_key_is_shown:
  "formatChannelKey (js ''secret42'') False = js ''secr...et42''"
  by code_simp

end
