(* ===== verification/ModelMapping.thy ===== *)
theory ModelMapping
  imports ChannelLists
begin

text \<open>
  Model mappings of a channel (\<open>features/channels/lib/model-mapping-validation.ts\<close>), the models an
  upstream reports (\<open>upstream-update-utils.ts\<close>) and those of an Ollama server
  (\<open>ollama-utils.ts\<close>). Parsed JSON is a dynamic value; a \<open>Set\<close> that is turned back into an array
  is a list without repetitions in insertion order.
\<close>

section \<open>Model mappings\<close>

definition parseModelsString :: "jstr \<Rightarrow> jstr list" where
  "parseModelsString modelsStr = (if modelsStr = [] then []
     else filter (\<lambda>m. m \<noteq> []) (map trim (split_on 44 modelsStr)))"

definition formatModelsArray :: "jstr list \<Rightarrow> jstr" where
  "formatModelsArray models = join [44] (uniq models)"

definition normalizeModelName :: "jstr \<Rightarrow> jstr" where
  "normalizeModelName model = trim model"

text \<open>\<open>JSON.parse\<close> followed by the test for a plain object; \<open>None\<close> is every other outcome.\<close>

definition parse_object :: "jstr \<Rightarrow> (jstr \<times> jval) list option" where
  "parse_object s = (case json_parse s of Some (VObj m) \<Rightarrow> Some m | _ \<Rightarrow> None)"

definition extractMappingSourceModels :: "jstr \<Rightarrow> jstr list" where
  "extractMappingSourceModels modelMapping = (let trimmed = trim modelMapping in
     if trimmed = [] then []
     else case parse_object trimmed of None \<Rightarrow> []
     | Some m \<Rightarrow> uniq (filter (\<lambda>k. k \<noteq> []) (map (\<lambda>(key, _). trim key) m)))"

definition redirect_name :: "jval \<Rightarrow> jstr option" where
  "redirect_name v = (case v of VStr s \<Rightarrow> (let t = trim s in if t = [] then None else Some t) | _ \<Rightarrow> None)"

definition extractRedirectModels :: "jstr \<Rightarrow> jstr list" where
  "extractRedirectModels modelMapping = (let trimmed = trim modelMapping in
     if trimmed = [] then []
     else case parse_object trimmed of None \<Rightarrow> []
     | Some m \<Rightarrow> uniq (List.map_filter (\<lambda>(_, v). redirect_name v) m))"

fun lists_differ :: "jstr list \<Rightarrow> jstr list \<Rightarrow> bool" where
  "lists_differ (a # as) (b # bs) = (if a \<noteq> b then True else lists_differ as bs)"
| "lists_differ _ _ = False"

definition hasModelConfigChanged :: "jstr list \<Rightarrow> jstr \<Rightarrow> jstr list \<Rightarrow> jstr \<Rightarrow> bool" where
  "hasModelConfigChanged currentModels currentModelMapping initialModels initialModelMapping =
     (if length initialModels = 0 \<and> initialModelMapping = [] then True
      else if length currentModels \<noteq> length initialModels then True
      else if lists_differ currentModels initialModels then True
      else trim currentModelMapping \<noteq> trim initialModelMapping)"

definition findMissingModelsInMapping :: "jstr \<Rightarrow> jstr list \<Rightarrow> jstr list" where
  "findMissingModelsInMapping modelMapping currentModels =
     (if modelMapping = [] \<or> trim modelMapping = [] then []
      else case parse_object modelMapping of None \<Rightarrow> []
      | Some m \<Rightarrow> (let modelSet = set (map normalizeModelName currentModels) in
          uniq (filter (\<lambda>key. key \<noteq> [] \<and> key \<notin> modelSet) (map (\<lambda>(key, _). normalizeModelName key) m))))"

record MappingCheck =
  mc_valid :: bool
  mc_error :: "jstr option"

definition validateModelMappingJson :: "jstr \<Rightarrow> MappingCheck" where
  "validateModelMappingJson modelMapping =
     (if modelMapping = [] \<or> trim modelMapping = [] then \<lparr> mc_valid = True, mc_error = None \<rparr>
      else case json_parse modelMapping of
          None \<Rightarrow> \<lparr> mc_valid = False, mc_error = Some (js ''Model mapping must be valid JSON format'') \<rparr>
        | Some (VObj m) \<Rightarrow> \<lparr> mc_valid = True, mc_error = None \<rparr>
        | Some _ \<Rightarrow> \<lparr> mc_valid = False, mc_error = Some (js ''Model mapping must be a valid JSON object'') \<rparr>)"

definition findExposedTargetModels :: "jstr \<Rightarrow> jstr list \<Rightarrow> jstr list" where
  "findExposedTargetModels modelMapping currentModels =
     (let redirectModels = extractRedirectModels modelMapping in
      if redirectModels = [] then []
      else let modelSet = set (map normalizeModelName currentModels) in
        filter (\<lambda>model. normalizeModelName model \<in> modelSet) redirectModels)"

record Categories =
  normalizedCurrentModels :: "jstr list"
  normalizedRedirectModels :: "jstr list"
  classificationSet :: "jstr list"
  redirectOnlySet :: "jstr list"

definition categorizeModelsWithRedirect :: "jstr list \<Rightarrow> jstr list \<Rightarrow> Categories" where
  "categorizeModelsWithRedirect currentModels redirectModels =
     (let cur = uniq (filter (\<lambda>m. m \<noteq> []) (map normalizeModelName currentModels));
          red = uniq (filter (\<lambda>m. m \<noteq> []) (map normalizeModelName redirectModels)) in
      \<lparr> normalizedCurrentModels = cur, normalizedRedirectModels = red,
        classificationSet = uniq (cur @ red),
        redirectOnlySet = uniq (filter (\<lambda>m. m \<notin> set cur) red) \<rparr>)"

section \<open>Models an upstream reports\<close>

definition model_text :: "jval \<Rightarrow> jstr" where
  "model_text model = trim (val_to_str (vor model (VStr [])))"

text \<open>The argument was cast to an array: \<open>None\<close> is the \<open>TypeError\<close> of a truthy value without
  \<open>map\<close>.\<close>

definition normalizeModelList :: "jval \<Rightarrow> jstr list option" where
  "normalizeModelList models = (case vor models (VArr []) of
      VArr vs \<Rightarrow> Some (uniq (filter (\<lambda>m. m \<noteq> []) (map model_text vs)))
    | _ \<Rightarrow> None)"

record UpstreamMeta =
  um_enabled :: bool
  pendingAddModels :: "jstr list"
  pendingRemoveModels :: "jstr list"

text \<open>The properties of a parsed value whose \<open>typeof\<close> is \<open>object\<close>; an array has none of the names
  that are read.\<close>

definition own_fields :: "jval \<Rightarrow> (jstr \<times> jval) list option" where
  "own_fields v = (case v of VObj m \<Rightarrow> Some m | VArr _ \<Rightarrow> Some [] | _ \<Rightarrow> None)"

definition parse_settings :: "jval \<Rightarrow> jval" where
  "parse_settings settings = (case settings of
      VObj m \<Rightarrow> VObj m
    | VStr s \<Rightarrow> (case json_parse s of Some v \<Rightarrow> v | None \<Rightarrow> VNull)
    | _ \<Rightarrow> VNull)"

definition parseUpstreamUpdateMeta :: "jval \<Rightarrow> UpstreamMeta option" where
  "parseUpstreamUpdateMeta settings = (case own_fields (parse_settings settings) of
      None \<Rightarrow> Some \<lparr> um_enabled = False, pendingAddModels = [], pendingRemoveModels = [] \<rparr>
    | Some m \<Rightarrow>
        (case (normalizeModelList (vor (vget m ''upstream_model_update_last_detected_models'') (VArr [])),
               normalizeModelList (vor (vget m ''upstream_model_update_last_removed_models'') (VArr []))) of
           (Some add, Some remove) \<Rightarrow>
             Some \<lparr> um_enabled = (vget m ''upstream_model_update_check_enabled'' = VBool True),
               pendingAddModels = add, pendingRemoveModels = remove \<rparr>
         | _ \<Rightarrow> None))"

section \<open>Ollama\<close>

definition isRecord :: "jval \<Rightarrow> bool" where
  "isRecord v = (own_fields v \<noteq> None)"

definition getString :: "jval \<Rightarrow> jval" where
  "getString v = (case v of VStr s \<Rightarrow> VStr s | _ \<Rightarrow> VUndef)"

definition getNumber :: "jval \<Rightarrow> jval" where
  "getNumber v = (case v of VNum x \<Rightarrow> VNum x | _ \<Rightarrow> VUndef)"

definition parseMaybeJSON :: "jval \<Rightarrow> jval" where
  "parseMaybeJSON v = (if \<not> truthy v then VNull
     else case v of VObj m \<Rightarrow> v | VArr vs \<Rightarrow> v
       | VStr s \<Rightarrow> (case json_parse s of Some w \<Rightarrow> w | None \<Rightarrow> VNull) | _ \<Rightarrow> VNull)"

text \<open>\<open>getString(v)?.trim()\<close>, with the empty string for \<open>undefined\<close>; both are falsy.\<close>

definition trimmed_string :: "jval \<Rightarrow> jstr" where
  "trimmed_string v = (case v of VStr s \<Rightarrow> trim s | _ \<Rightarrow> [])"

text \<open>\<open>alt\<close> is the field \<open>ollama_base_url\<close>, which the type of a channel does not declare.\<close>

definition resolveOllamaBaseUrl :: "(Channel \<times> jval) option \<Rightarrow> jstr" where
  "resolveOllamaBaseUrl channel = (case channel of None \<Rightarrow> []
    | Some (c, alt) \<Rightarrow>
        (let direct = (case base_url c of Val s \<Rightarrow> trim s | _ \<Rightarrow> []) in
         if direct \<noteq> [] then direct
         else if trimmed_string alt \<noteq> [] then trimmed_string alt
         else case own_fields (parseMaybeJSON (VStr (other_info c))) of
             None \<Rightarrow> []
           | Some m \<Rightarrow>
               (let baseUrl = trimmed_string (vget m ''base_url''); publicUrl = trimmed_string (vget m ''public_url'');
                    apiUrl = trimmed_string (vget m ''api_url'') in
                if baseUrl \<noteq> [] then baseUrl else if publicUrl \<noteq> [] then publicUrl
                else if apiUrl \<noteq> [] then apiUrl else [])))"

text \<open>\<open>if (cond && !o[k]) o[k] = v\<close>.\<close>

definition fill :: "string \<Rightarrow> bool \<Rightarrow> jval \<Rightarrow> (jstr \<times> jval) list \<Rightarrow> (jstr \<times> jval) list" where
  "fill k cond v m = (if cond \<and> \<not> truthy (vget m k) then obj_put (js k) v m else m)"

definition from_metadata :: "jval \<Rightarrow> (jstr \<times> jval) list \<Rightarrow> (jstr \<times> jval) list" where
  "from_metadata metadata m = (case own_fields metadata of None \<Rightarrow> m
    | Some d \<Rightarrow>
        fill ''details'' (truthy (vget d ''details'')) (vget d ''details'')
         (fill ''modified_at'' (truthy (getString (vget d ''modified_at''))) (getString (vget d ''modified_at''))
          (fill ''digest'' (truthy (getString (vget d ''digest''))) (getString (vget d ''digest''))
           (fill ''size'' (getNumber (vget d ''size'') \<noteq> VUndef) (getNumber (vget d ''size'')) m))))"

definition candidate_id :: "(jstr \<times> jval) list \<Rightarrow> jval" where
  "candidate_id item = foldr (\<lambda>k. vor (getString (vget item k))) [''id'', ''ID'', ''name'', ''model'']
     (getString (vget item ''Model''))"

definition normalize_item :: "jval \<Rightarrow> (jstr \<times> jval) list option" where
  "normalize_item item = (if \<not> truthy item then None
     else case item of
         VStr s \<Rightarrow> Some [(js ''id'', VStr s), (js ''owned_by'', VStr (js ''ollama''))]
       | _ \<Rightarrow> (case own_fields item of None \<Rightarrow> None
          | Some m \<Rightarrow>
              if \<not> truthy (candidate_id m) then None
              else let metadata = vnull_or (vget m ''metadata'') (vget m ''Metadata'');
                       owned_by = vor (getString (vget m ''owned_by''))
                         (vor (getString (vget m ''ownedBy'')) (VStr (js ''ollama'')));
                       normalized = obj_put (js ''owned_by'') owned_by (obj_put (js ''id'') (candidate_id m) m) in
                Some (from_metadata metadata
                  (fill ''size'' (getNumber (vget m ''size'') \<noteq> VUndef) (getNumber (vget m ''size'')) normalized))))"

definition normalizeOllamaModels :: "jval \<Rightarrow> (jstr \<times> jval) list list" where
  "normalizeOllamaModels items = (case items of VArr vs \<Rightarrow> List.map_filter normalize_item vs | _ \<Rightarrow> [])"

definition formatBytes :: "jnum option \<Rightarrow> jstr" where
  "formatBytes bytes = (if no_amount bytes then js ''-''
     else let b = the bytes; kb = jdiv b (JFin 1024); mb = jdiv kb (JFin 1024); gb = jdiv mb (JFin 1024) in
       if jlt b (JFin 1024) then num_to_str b @ js '' B''
       else if jlt kb (JFin 1024) then to_fixed 1 kb @ js '' KB''
       else if jlt mb (JFin 1024) then to_fixed 1 mb @ js '' MB''
       else to_fixed 2 gb @ js '' GB'')"

section \<open>Correctness of the mapping checks\<close>

text \<open>The source names of a mapping, as a set.\<close>

definition source_names :: "jstr \<Rightarrow> jstr set" where
  "source_names mapping = (case parse_object mapping of None \<Rightarrow> {}
     | Some m \<Rightarrow> if trim mapping = [] then {} else trim ` fst ` set m - {[]})"

lemma missing_set: "set (findMissingModelsInMapping mapping models) = source_names mapping - trim ` set models"
proof (cases "mapping = [] \<or> trim mapping = []")
  case True
  then show ?thesis
    by (auto simp: findMissingModelsInMapping_def source_names_def split: option.splits)
next
  case False
  then show ?thesis
    by (cases "parse_object mapping")
      (auto simp: findMissingModelsInMapping_def source_names_def normalizeModelName_def Let_def image_image case_prod_unfold)
qed

lemma source_names_trimmed: "k \<in> source_names mapping \<Longrightarrow> trim k = k"
  by (auto simp: source_names_def split: option.splits if_splits)

text \<open>C37. Adding the models reported missing leaves no model missing, and the report names each missing
  source model once: it is the trimmed non-empty sources of the mapping that are not models.\<close>

lemma missing_models_repair:
  "findMissingModelsInMapping mapping (models @ findMissingModelsInMapping mapping models) = []
   \<and> distinct (findMissingModelsInMapping mapping models)
   \<and> set (findMissingModelsInMapping mapping models) = source_names mapping - trim ` set models"
proof -
  let ?f = "findMissingModelsInMapping mapping"
  have "trim ` set (?f models) = set (?f models)"
    using source_names_trimmed by (force simp: missing_set image_iff)
  then have "set (?f (models @ ?f models)) = {}"
    by (simp only: missing_set set_append image_Un) blast
  moreover have "distinct (?f models)"
    by (simp add: findMissingModelsInMapping_def Let_def split: option.splits)
  ultimately show ?thesis unfolding set_empty by (intro conjI missing_set)
qed

text \<open>The error of the JSON check says what is wrong: blank text and objects are valid, text that
  does not parse and JSON that is not an object are told apart, and only a valid mapping has
  source or target models or missing ones.\<close>

lemma mapping_check_errors:
  "let r = validateModelMappingJson mapping in
   (mc_valid r = (trim mapping = [] \<or> (\<exists>m. parse_object mapping = Some m))) \<and>
   (mc_error r = Some (js ''Model mapping must be valid JSON format'')) = (trim mapping \<noteq> [] \<and> json_parse mapping = None) \<and>
   (mc_error r = None) = mc_valid r \<and>
   (mc_valid r \<or> (findMissingModelsInMapping mapping models = []))"
proof (cases "mapping = [] \<or> trim mapping = []")
  case True
  then show ?thesis by (auto simp: validateModelMappingJson_def Let_def)
next
  case False
  show ?thesis
  proof (cases "json_parse mapping")
    case None
    with False show ?thesis
      by (simp add: validateModelMappingJson_def Let_def parse_object_def findMissingModelsInMapping_def)
  next
    case (Some v)
    with False show ?thesis
      by (cases v) (simp_all add: validateModelMappingJson_def Let_def parse_object_def findMissingModelsInMapping_def)
  qed
qed

lemma redirect_trimmed: "m \<in> set (extractRedirectModels mapping) \<Longrightarrow> trim m = m \<and> m \<noteq> []"
  by (auto simp: extractRedirectModels_def Let_def map_filter_def redirect_name_def
      split: option.splits if_splits jval.splits)

text \<open>The target models that are exposed are the targets of the mapping that are also models; once
  those are taken out of the models, no target is exposed.\<close>

lemma exposed_targets_repair:
  "set (findExposedTargetModels mapping models) = set (extractRedirectModels mapping) \<inter> trim ` set models
   \<and> findExposedTargetModels mapping (filter (\<lambda>m. trim m \<notin> set (findExposedTargetModels mapping models)) models) = []"
proof -
  have exposed: "set (findExposedTargetModels mapping ms) = set (extractRedirectModels mapping) \<inter> trim ` set ms" for ms
    using redirect_trimmed [of _ mapping]
    by (auto simp: findExposedTargetModels_def Let_def normalizeModelName_def)
  then have "set (findExposedTargetModels mapping (filter (\<lambda>m. trim m \<notin> set (findExposedTargetModels mapping models)) models)) = {}"
    by auto
  then show ?thesis unfolding set_empty by (intro conjI exposed)
qed

text \<open>The categories of the model editor: the classified models are the current ones and then the
  other redirect models, each once, and the redirect-only ones are exactly those others.\<close>

lemma categories_partition:
  "let c = categorizeModelsWithRedirect cur red in
   classificationSet c = normalizedCurrentModels c @ redirectOnlySet c
   \<and> distinct (classificationSet c)
   \<and> set (redirectOnlySet c) \<inter> set (normalizedCurrentModels c) = {}"
  by (auto simp: categorizeModelsWithRedirect_def Let_def uniq_append uniq_filter uniq_idem)

text \<open>The state of upstream updates can always be read, unless a list of models was stored as a
  truthy value that is not an array: then, and only then, reading it throws.\<close>

lemma upstream_meta_throws:
  "parseUpstreamUpdateMeta settings = None \<longleftrightarrow>
   (\<exists>m k. own_fields (parse_settings settings) = Some m \<and> truthy (vget m k) \<and> (\<forall>vs. vget m k \<noteq> VArr vs)
      \<and> (k = ''upstream_model_update_last_detected_models'' \<or> k = ''upstream_model_update_last_removed_models''))"
proof -
  have list_throws: "normalizeModelList (vor v (VArr [])) = None \<longleftrightarrow> truthy v \<and> (\<forall>vs. v \<noteq> VArr vs)" for v
    by (cases v) (auto simp: normalizeModelList_def vor_def)
  show ?thesis
  proof (cases "own_fields (parse_settings settings)")
    case None
    then show ?thesis by (simp add: parseUpstreamUpdateMeta_def)
  next
    case (Some m)
    let ?l = "\<lambda>k. normalizeModelList (vor (vget m k) (VArr []))"
    have "parseUpstreamUpdateMeta settings = None \<longleftrightarrow>
        ?l ''upstream_model_update_last_detected_models'' = None \<or> ?l ''upstream_model_update_last_removed_models'' = None"
      by (simp add: parseUpstreamUpdateMeta_def Some split: option.splits)
    then show ?thesis unfolding list_throws by (auto simp: Some)
  qed
qed

end
