(* ===== verification/ChannelForm.thy ===== *)
theory ChannelForm
  imports ModelMapping
begin

text \<open>
  The channel form (\<open>features/channels/lib/channel-form.ts\<close>): from a channel to the values of the
  form and back to the payloads of the API. An optional field of the form is an \<open>option\<close>; values
  that are read from stored JSON without a check are dynamic. The payload is a JSON object,
  a list of named values in the order in which the code builds it.
\<close>

section \<open>Form values\<close>

datatype AddMode = Single | Batch | Multi_to_single
datatype KeyEdit = Append | Replace

record FormValues =
  f_name :: jstr
  f_type :: int
  f_base_url :: "jstr option"
  f_key :: jstr
  f_openai_organization :: "jstr option"
  f_models :: jstr
  f_group :: "jstr list"
  f_model_mapping :: "jstr option"
  f_priority :: "jnum option"
  f_weight :: "jnum option"
  f_test_model :: "jstr option"
  f_auto_ban :: "jnum option"
  f_status :: int
  f_status_code_mapping :: "jstr option"
  f_tag :: "jstr option"
  f_remark :: "jstr option"
  f_setting :: "jstr option"
  f_param_override :: "jstr option"
  f_header_override :: "jstr option"
  f_settings :: "jstr option"
  f_other :: "jstr option"
  f_multi_key_mode :: "AddMode option"
  f_multi_key_type :: "KeyMode option"
  f_batch_add_set_key_prefix_2_name :: "bool option"
  f_key_mode :: "KeyEdit option"
  force_format :: jval
  thinking_to_content :: jval
  proxy :: jval
  pass_through_body_enabled :: jval
  system_prompt :: jval
  system_prompt_override :: jval
  is_enterprise_account :: "bool option"
  vertex_key_type :: jval
  aws_key_type :: jval
  azure_responses_version :: jval
  allow_service_tier :: "bool option"
  disable_store :: "bool option"
  allow_safety_identifier :: "bool option"
  allow_include_obfuscation :: "bool option"
  allow_inference_geo :: "bool option"
  allow_speed :: "bool option"
  claude_beta_query :: "bool option"
  upstream_check_enabled :: "bool option"
  upstream_auto_sync_enabled :: "bool option"
  upstream_ignored_models :: "jstr option"

text \<open>The checks of the schema that are not types: the issues it reports, in the order of the fields.\<close>

definition channelFormSchema_issues :: "FormValues \<Rightarrow> jstr list" where
  "channelFormSchema_issues f =
     (if length (f_name f) < 1 then [js ''Channel name is required''] else [])
     @ (if f_type f < 0 then [js ''Channel type is required''] else [])
     @ (if length (f_models f) < 1 then [js ''At least one model is required''] else [])
     @ (if length (f_group f) < 1 then [js ''At least one group is required''] else [])
     @ (case f_remark f of Some r \<Rightarrow> if length r > 255 then [js ''Remark must be less than 255 characters''] else []
        | None \<Rightarrow> [])"

definition CHANNEL_FORM_DEFAULT_VALUES :: FormValues where
  "CHANNEL_FORM_DEFAULT_VALUES = \<lparr> f_name = [], f_type = 1, f_base_url = Some [], f_key = [],
     f_openai_organization = Some [], f_models = [], f_group = [js ''default''], f_model_mapping = Some [],
     f_priority = Some (JFin 0), f_weight = Some (JFin 0), f_test_model = Some [], f_auto_ban = Some (JFin 1),
     f_status = STATUS_ENABLED, f_status_code_mapping = Some [], f_tag = Some [], f_remark = Some [],
     f_setting = Some [], f_param_override = Some [], f_header_override = Some [], f_settings = Some (js ''{}''),
     f_other = Some [], f_multi_key_mode = Some Single, f_multi_key_type = Some Random,
     f_batch_add_set_key_prefix_2_name = Some False, f_key_mode = Some Append,
     force_format = VBool False, thinking_to_content = VBool False, proxy = VStr [],
     pass_through_body_enabled = VBool False, system_prompt = VStr [], system_prompt_override = VBool False,
     is_enterprise_account = Some False, vertex_key_type = VStr (js ''json''), aws_key_type = VStr (js ''ak_sk''),
     azure_responses_version = VStr [], allow_service_tier = Some False, disable_store = Some False,
     allow_safety_identifier = Some False, allow_include_obfuscation = Some False,
     allow_inference_geo = Some False, allow_speed = Some False, claude_beta_query = Some False,
     upstream_check_enabled = Some False, upstream_auto_sync_enabled = Some False,
     upstream_ignored_models = Some [] \<rparr>"

section \<open>From a channel to the form\<close>

text \<open>The properties of a parsed value: reading one of \<open>null\<close> throws (\<open>None\<close>), of another primitive
  gives \<open>undefined\<close>.\<close>

definition read_fields :: "jval \<Rightarrow> (jstr \<times> jval) list option" where
  "read_fields v = (case v of VNull \<Rightarrow> None | VUndef \<Rightarrow> None | VObj m \<Rightarrow> Some m | _ \<Rightarrow> Some [])"

text \<open>What the \<open>try\<close> blocks see: \<open>None\<close> when the text is missing, does not parse, or reading throws;
  then the defaults stay. Every assignment comes after the first property was read.\<close>

definition stored_fields :: "jstr \<Rightarrow> (jstr \<times> jval) list option" where
  "stored_fields s = (if s = [] then None
     else case json_parse s of None \<Rightarrow> None | Some v \<Rightarrow> read_fields v)"

definition parseGroups :: "jstr \<Rightarrow> jstr list" where
  "parseGroups groups = comma_list groups"

definition formatGroups :: "jstr list \<Rightarrow> jstr" where
  "formatGroups groups = join [44] groups"

definition extra_settings :: "(jstr \<times> jval) list \<Rightarrow> FormValues \<Rightarrow> FormValues" where
  "extra_settings m f = f\<lparr>
     force_format := vor (vget m ''force_format'') (VBool False),
     thinking_to_content := vor (vget m ''thinking_to_content'') (VBool False),
     proxy := vor (vget m ''proxy'') (VStr []),
     pass_through_body_enabled := vor (vget m ''pass_through_body_enabled'') (VBool False),
     system_prompt := vor (vget m ''system_prompt'') (VStr []),
     system_prompt_override := vor (vget m ''system_prompt_override'') (VBool False) \<rparr>"

definition is_true :: "(jstr \<times> jval) list \<Rightarrow> string \<Rightarrow> bool option" where
  "is_true m k = Some (vget m k = VBool True)"

definition type_settings :: "(jstr \<times> jval) list \<Rightarrow> FormValues \<Rightarrow> FormValues" where
  "type_settings m f = f\<lparr>
     vertex_key_type := vor (vget m ''vertex_key_type'') (VStr (js ''json'')),
     azure_responses_version := vor (vget m ''azure_responses_version'') (VStr []),
     is_enterprise_account := is_true m ''openrouter_enterprise'',
     aws_key_type := vor (vget m ''aws_key_type'') (VStr (js ''ak_sk'')),
     allow_service_tier := is_true m ''allow_service_tier'',
     disable_store := is_true m ''disable_store'',
     allow_safety_identifier := is_true m ''allow_safety_identifier'',
     allow_include_obfuscation := is_true m ''allow_include_obfuscation'',
     allow_inference_geo := is_true m ''allow_inference_geo'',
     allow_speed := is_true m ''allow_speed'',
     claude_beta_query := is_true m ''claude_beta_query'',
     upstream_check_enabled := is_true m ''upstream_model_update_check_enabled'',
     upstream_auto_sync_enabled := is_true m ''upstream_model_update_auto_sync_enabled'',
     upstream_ignored_models := Some (case vget m ''upstream_model_update_ignored_models'' of
       VArr vs \<Rightarrow> val_to_str (VArr vs) | _ \<Rightarrow> []) \<rparr>"

definition plain_values :: "Channel \<Rightarrow> FormValues" where
  "plain_values channel = CHANNEL_FORM_DEFAULT_VALUES\<lparr>
     f_name := ch_name channel, f_type := ch_type channel, f_base_url := Some (str_or (base_url channel) []),
     f_key := [], f_openai_organization := Some (str_or (openai_organization channel) []),
     f_models := ch_models channel, f_group := parseGroups (sor (ch_group channel) (js ''default'')),
     f_model_mapping := Some (str_or (model_mapping channel) []),
     f_priority := Some (num_or (ch_priority channel) (JFin 0)),
     f_weight := Some (num_or (ch_weight channel) (JFin 0)),
     f_test_model := Some (str_or (test_model channel) []),
     f_auto_ban := Some (null_or (auto_ban channel) (JFin 1)), f_status := ch_status channel,
     f_status_code_mapping := Some (str_or (status_code_mapping channel) []),
     f_tag := Some (str_or (ch_tag channel) []), f_remark := Some (ch_remark channel),
     f_setting := Some (str_or (ch_setting channel) []),
     f_param_override := Some (str_or (param_override channel) []),
     f_header_override := Some (str_or (header_override channel) []),
     f_settings := Some (sor (ch_settings channel) (js ''{}'')), f_other := Some (ch_other channel),
     f_multi_key_mode := Some Single,
     f_multi_key_type := Some (case channel_info channel of Some i \<Rightarrow> multi_key_mode i | None \<Rightarrow> Random),
     f_batch_add_set_key_prefix_2_name := Some False, f_key_mode := Some Append \<rparr>"

text \<open>\<open>channel.channel_info\<close> is read without a guard: without it the function throws.\<close>

definition form_of :: "Channel \<Rightarrow> FormValues" where
  "form_of channel =
     (let f = plain_values channel;
          f = (case stored_fields (str_or (ch_setting channel) []) of None \<Rightarrow> f | Some m \<Rightarrow> extra_settings m f) in
      case stored_fields (ch_settings channel) of None \<Rightarrow> f | Some m \<Rightarrow> type_settings m f)"

definition transformChannelToFormDefaults :: "Channel \<Rightarrow> FormValues option" where
  "transformChannelToFormDefaults channel =
     (if channel_info channel = None then None else Some (form_of channel))"

section \<open>From the form to the payload\<close>

definition setting_fields :: "FormValues \<Rightarrow> (jstr \<times> jval) list" where
  "setting_fields f =
     [(js ''force_format'', vor (force_format f) (VBool False)),
      (js ''thinking_to_content'', vor (thinking_to_content f) (VBool False)),
      (js ''proxy'', vor (proxy f) (VStr [])),
      (js ''pass_through_body_enabled'', vor (pass_through_body_enabled f) (VBool False)),
      (js ''system_prompt'', vor (system_prompt f) (VStr [])),
      (js ''system_prompt_override'', vor (system_prompt_override f) (VBool False))]"

definition buildSettingJSON :: "FormValues \<Rightarrow> jstr" where
  "buildSettingJSON f = json_stringify (VObj (setting_fields f))"

text \<open>\<open>if (c) o[k] = v; else if (k in o) delete o[k]\<close>.\<close>

definition put_or_delete :: "bool \<Rightarrow> string \<Rightarrow> jval \<Rightarrow> (jstr \<times> jval) list \<Rightarrow> (jstr \<times> jval) list" where
  "put_or_delete c k v m = (if c then obj_put (js k) v m else assoc_del (js k) m)"

definition flag :: "bool option \<Rightarrow> jval" where
  "flag b = VBool (b = Some True)"

definition provider_settings :: "FormValues \<Rightarrow> (jstr \<times> jval) list \<Rightarrow> (jstr \<times> jval) list" where
  "provider_settings f m =
     put_or_delete (f_type f = 33) ''aws_key_type'' (vor (aws_key_type f) (VStr (js ''ak_sk'')))
    (put_or_delete (f_type f = 20) ''openrouter_enterprise'' (flag (is_enterprise_account f))
    (put_or_delete (f_type f = 3 \<and> truthy (azure_responses_version f)) ''azure_responses_version'' (azure_responses_version f)
    (put_or_delete (f_type f = 41) ''vertex_key_type'' (vor (vertex_key_type f) (VStr (js ''json''))) m)))"

definition passthrough_settings :: "FormValues \<Rightarrow> (jstr \<times> jval) list \<Rightarrow> (jstr \<times> jval) list" where
  "passthrough_settings f m =
     (let m = put_or_delete (f_type f = 1 \<or> f_type f = 14) ''allow_service_tier'' (flag (allow_service_tier f)) m;
          m = (if f_type f = 1
               then obj_put (js ''allow_inference_geo'') (flag (allow_inference_geo f))
                   (obj_put (js ''allow_include_obfuscation'') (flag (allow_include_obfuscation f))
                   (obj_put (js ''allow_safety_identifier'') (flag (allow_safety_identifier f))
                   (obj_put (js ''disable_store'') (flag (disable_store f)) m)))
               else let m = assoc_del (js ''allow_include_obfuscation'') (assoc_del (js ''allow_safety_identifier'')
                       (assoc_del (js ''disable_store'') m)) in
                 if f_type f \<noteq> 14 then assoc_del (js ''allow_inference_geo'') m else m) in
      if f_type f = 14
      then obj_put (js ''claude_beta_query'') (flag (claude_beta_query f))
          (obj_put (js ''allow_speed'') (flag (allow_speed f))
          (obj_put (js ''allow_inference_geo'') (flag (allow_inference_geo f)) m))
      else assoc_del (js ''claude_beta_query'') (assoc_del (js ''allow_speed'') m))"

definition ignored_models :: "FormValues \<Rightarrow> jstr list" where
  "ignored_models f = uniq (filter (\<lambda>m. m \<noteq> []) (map trim (split_on 44
     (case upstream_ignored_models f of Some s \<Rightarrow> s | None \<Rightarrow> []))))"

definition upstream_settings :: "FormValues \<Rightarrow> (jstr \<times> jval) list \<Rightarrow> (jstr \<times> jval) list" where
  "upstream_settings f m = (if f_type f \<notin> set MODEL_FETCHABLE_TYPES then m
     else let check = (upstream_check_enabled f = Some True);
              m = obj_put (js ''upstream_model_update_check_enabled'') (VBool check) m;
              m = obj_put (js ''upstream_model_update_auto_sync_enabled'')
                    (VBool (check \<and> upstream_auto_sync_enabled f = Some True)) m;
              m = obj_put (js ''upstream_model_update_ignored_models'') (VArr (map VStr (ignored_models f))) m;
              m = put_if (case vget m ''upstream_model_update_last_detected_models'' of VArr _ \<Rightarrow> \<not> check | _ \<Rightarrow> True)
                    ''upstream_model_update_last_detected_models'' (VArr []) m in
       put_if (case vget m ''upstream_model_update_last_check_time'' of VNum _ \<Rightarrow> False | _ \<Rightarrow> True)
         ''upstream_model_update_last_check_time'' (VNum (JFin 0)) m)"

definition settings_fields :: "FormValues \<Rightarrow> (jstr \<times> jval) list \<Rightarrow> (jstr \<times> jval) list" where
  "settings_fields f m = upstream_settings f (passthrough_settings f (provider_settings f m))"

definition existing_settings :: "FormValues \<Rightarrow> jval" where
  "existing_settings f = (case f_settings f of None \<Rightarrow> VObj []
     | Some s \<Rightarrow> if s = [] \<or> s = js ''{}'' then VObj []
         else case json_parse s of None \<Rightarrow> VObj [] | Some v \<Rightarrow> v)"

text \<open>Stored settings that are not an object: a primitive has no properties to set or test, which is
  the \<open>TypeError\<close> (\<open>None\<close>); the named properties of an array are not printed.\<close>

definition buildSettingsJSON :: "FormValues \<Rightarrow> jstr option" where
  "buildSettingsJSON f = (case existing_settings f of
      VObj m \<Rightarrow> Some (json_stringify (VObj (settings_fields f m)))
    | VArr vs \<Rightarrow> Some (json_stringify (VArr vs))
    | _ \<Rightarrow> None)"

text \<open>\<open>x || null\<close> and the clean-up that replaces empty strings by \<open>null\<close>.\<close>

definition str_or_null :: "jstr option \<Rightarrow> jval" where
  "str_or_null s = (case s of Some (c # w) \<Rightarrow> VStr (c # w) | _ \<Rightarrow> VNull)"

definition num_or_null :: "jnum option \<Rightarrow> jval" where
  "num_or_null x = (case x of Some y \<Rightarrow> if num_truthy y then VNum y else VNull | None \<Rightarrow> VNull)"

definition clean_up :: "(jstr \<times> jval) list \<Rightarrow> (jstr \<times> jval) list" where
  "clean_up = map (\<lambda>(k, v). (k, if v = VStr [] then VNull else v))"

text \<open>The fields both payloads share, from \<open>model_mapping\<close> on and before.\<close>

definition tail_fields :: "FormValues \<Rightarrow> jstr \<Rightarrow> (jstr \<times> jval) list" where
  "tail_fields f settings =
     [(js ''models'', VStr (f_models f)), (js ''group'', VStr (formatGroups (f_group f))),
      (js ''model_mapping'', str_or_null (f_model_mapping f)), (js ''priority'', num_or_null (f_priority f)),
      (js ''weight'', num_or_null (f_weight f)), (js ''test_model'', str_or_null (f_test_model f)),
      (js ''auto_ban'', VNum (case f_auto_ban f of Some x \<Rightarrow> x | None \<Rightarrow> JFin 1)),
      (js ''status'', VNum (jint (f_status f))),
      (js ''status_code_mapping'', str_or_null (f_status_code_mapping f)), (js ''tag'', str_or_null (f_tag f)),
      (js ''remark'', VStr (case f_remark f of Some r \<Rightarrow> r | None \<Rightarrow> [])),
      (js ''setting'', VStr (buildSettingJSON f)), (js ''param_override'', str_or_null (f_param_override f)),
      (js ''header_override'', str_or_null (f_header_override f)), (js ''settings'', VStr settings),
      (js ''other'', VStr (case f_other f of Some s \<Rightarrow> s | None \<Rightarrow> []))]"

record CreatePayload =
  cp_mode :: AddMode
  cp_multi_key_mode :: "KeyMode option"
  cp_batch_prefix :: "bool option"
  cp_channel :: "(jstr \<times> jval) list"

definition transformFormDataToCreatePayload :: "FormValues \<Rightarrow> CreatePayload option" where
  "transformFormDataToCreatePayload f = (case buildSettingsJSON f of None \<Rightarrow> None
    | Some settings \<Rightarrow>
        (let mode = (case f_multi_key_mode f of Some x \<Rightarrow> x | None \<Rightarrow> Single);
             channel = [(js ''name'', VStr (f_name f)), (js ''type'', VNum (jint (f_type f))),
               (js ''base_url'', str_or_null (f_base_url f)), (js ''key'', VStr (f_key f)),
               (js ''openai_organization'', str_or_null (f_openai_organization f))] @ tail_fields f settings in
         Some \<lparr> cp_mode = mode,
           cp_multi_key_mode = (if mode = Multi_to_single then f_multi_key_type f else None),
           cp_batch_prefix = (if mode = Batch then f_batch_add_set_key_prefix_2_name f else None),
           cp_channel = clean_up channel \<rparr>))"

definition update_fields :: "FormValues \<Rightarrow> jnum \<Rightarrow> jstr \<Rightarrow> (jstr \<times> jval) list" where
  "update_fields f channelId settings =
     (let payload = [(js ''id'', VNum channelId), (js ''name'', VStr (f_name f)),
               (js ''type'', VNum (jint (f_type f))), (js ''base_url'', str_or_null (f_base_url f)),
               (js ''openai_organization'', str_or_null (f_openai_organization f))] @ tail_fields f settings in
      if f_key f \<noteq> [] \<and> trim (f_key f) \<noteq> [] then payload @ [(js ''key'', VStr (f_key f))] else payload)"

definition transformFormDataToUpdatePayload :: "FormValues \<Rightarrow> jnum \<Rightarrow> (jstr \<times> jval) list option" where
  "transformFormDataToUpdatePayload f channelId =
     map_option (\<lambda>settings. clean_up (update_fields f channelId settings)) (buildSettingsJSON f)"

section \<open>Validation helpers\<close>

definition validateJSON :: "jstr \<Rightarrow> bool" where
  "validateJSON v = (v = [] \<or> trim v = [] \<or> json_parse v \<noteq> None)"

definition validateModelMapping :: "jstr \<Rightarrow> bool" where
  "validateModelMapping v = (v = [] \<or> trim v = [] \<or> validateJSON v)"

definition parseModels :: "jstr \<Rightarrow> jstr list" where
  "parseModels models = comma_list models"

definition formatModels :: "jstr list \<Rightarrow> jstr" where
  "formatModels models = join [44] models"


section \<open>What the payload holds\<close>

lemma clean_up_no_empty: "(k, v) \<in> set (clean_up m) \<Longrightarrow> v \<noteq> VStr []"
  by (auto simp: clean_up_def split: if_splits)

lemma keys_clean_up [simp]: "map fst (clean_up m) = map fst m"
  by (simp add: clean_up_def comp_def case_prod_unfold)

lemma fst_set_clean_up [simp]: "fst ` set (clean_up m) = fst ` set m"
  by (metis keys_clean_up list.set_map)

lemma map_of_clean_up: "map_of (clean_up m) k = map_option (\<lambda>v. if v = VStr [] then VNull else v) (map_of m k)"
  unfolding clean_up_def by (simp only: map_of_map comp_def)

text \<open>C22. An update sends the key exactly when the form has one that is not blank, and then as it was
  typed; the form made from a channel has none, so saving it unchanged never touches the key. No
  value of the payload is an empty string.\<close>

lemma update_payload_key:
  assumes "transformFormDataToUpdatePayload f i = Some p"
  shows "(js ''key'' \<in> fst ` set p) = (trim (f_key f) \<noteq> [])
    \<and> map_of p (js ''key'') = (if trim (f_key f) = [] then None else Some (VStr (f_key f)))
    \<and> (\<forall>ch. f = form_of ch \<longrightarrow> js ''key'' \<notin> fst ` set p)
    \<and> VStr [] \<notin> snd ` set p"
proof -
  obtain settings where p: "p = clean_up (update_fields f i settings)"
    using assms by (auto simp: transformFormDataToUpdatePayload_def)
  have blank: "trim (f_key f) = [] \<or> f_key f \<noteq> []" by auto
  have "map_of (update_fields f i settings) (js ''key'') = (if trim (f_key f) = [] then None else Some (VStr (f_key f)))"
    using blank by (cases "trim (f_key f) = []") (simp_all add: update_fields_def tail_fields_def)
  then have key: "map_of p (js ''key'') = (if trim (f_key f) = [] then None else Some (VStr (f_key f)))"
    using blank by (cases "trim (f_key f) = []") (simp_all add: p map_of_clean_up)
  then have "(js ''key'' \<in> fst ` set p) = (trim (f_key f) \<noteq> [])"
    using map_of_eq_None_iff [of p "js ''key''"] by (auto split: if_splits)
  moreover have "f_key (form_of ch) = []" for ch
    by (simp add: form_of_def plain_values_def extra_settings_def type_settings_def Let_def split: option.split)
  moreover have "VStr [] \<notin> snd ` set p" unfolding p by (auto dest: clean_up_no_empty)
  ultimately show ?thesis using key by simp
qed

lemma update_payload_key_witness:
  "\<exists>p. transformFormDataToUpdatePayload CHANNEL_FORM_DEFAULT_VALUES (JFin 7) = Some p \<and> js ''key'' \<notin> fst ` set p"
proof -
  have "existing_settings CHANNEL_FORM_DEFAULT_VALUES = VObj []"
    by (simp add: existing_settings_def CHANNEL_FORM_DEFAULT_VALUES_def)
  then obtain p where p: "transformFormDataToUpdatePayload CHANNEL_FORM_DEFAULT_VALUES (JFin 7) = Some p"
    by (simp add: transformFormDataToUpdatePayload_def buildSettingsJSON_def)
  moreover have "trim (f_key CHANNEL_FORM_DEFAULT_VALUES) = []" by (simp add: CHANNEL_FORM_DEFAULT_VALUES_def)
  ultimately show ?thesis using update_payload_key [OF p] by blast
qed

section \<open>Type-specific settings\<close>

lemma vget_put_or_delete:
  "vget (put_or_delete c k v m) k' = (if k' = k then if c then v else VUndef else vget m k')"
  by (simp add: put_or_delete_def obj_simps)

lemma vhas_put_or_delete:
  "vhas (put_or_delete c k v m) k' = (if k' = k then c else vhas m k')"
  by (auto simp: put_or_delete_def obj_simps)

lemma vget_upstream:
  "k \<notin> {''upstream_model_update_check_enabled'', ''upstream_model_update_auto_sync_enabled'',
     ''upstream_model_update_ignored_models'', ''upstream_model_update_last_detected_models'',
     ''upstream_model_update_last_check_time''} \<Longrightarrow>
   vget (upstream_settings f m) k = vget m k \<and> vhas (upstream_settings f m) k = vhas m k"
  by (simp add: upstream_settings_def Let_def obj_simps fields_put_if)

lemma upstream_flags:
  "vget (upstream_settings f m) ''upstream_model_update_auto_sync_enabled'' =
    (if f_type f \<in> set MODEL_FETCHABLE_TYPES
     then VBool (upstream_check_enabled f = Some True \<and> upstream_auto_sync_enabled f = Some True)
     else vget m ''upstream_model_update_auto_sync_enabled'')"
  "f_type f \<in> set MODEL_FETCHABLE_TYPES \<Longrightarrow> vget (upstream_settings f m) ''upstream_model_update_ignored_models''
     = VArr (map VStr (ignored_models f))"
  "f_type f \<in> set MODEL_FETCHABLE_TYPES \<Longrightarrow> vget (upstream_settings f m) ''upstream_model_update_check_enabled''
     = VBool (upstream_check_enabled f = Some True)"
  by (simp_all add: upstream_settings_def Let_def obj_simps fields_put_if)

lemmas settings_simps = settings_fields_def passthrough_settings_def provider_settings_def Let_def
  obj_simps fields_put_if vget_put_or_delete vhas_put_or_delete vget_upstream

definition type_specific :: "string list" where
  "type_specific = [''vertex_key_type'', ''azure_responses_version'', ''openrouter_enterprise'', ''aws_key_type'',
     ''allow_service_tier'', ''disable_store'', ''allow_safety_identifier'', ''allow_include_obfuscation'',
     ''allow_inference_geo'', ''allow_speed'', ''claude_beta_query'', ''upstream_model_update_check_enabled'',
     ''upstream_model_update_auto_sync_enabled'', ''upstream_model_update_ignored_models'',
     ''upstream_model_update_last_detected_models'', ''upstream_model_update_last_check_time'']"

definition upstream_entries :: "string list" where
  "upstream_entries = [''upstream_model_update_check_enabled'', ''upstream_model_update_auto_sync_enabled'',
     ''upstream_model_update_ignored_models'', ''upstream_model_update_last_detected_models'',
     ''upstream_model_update_last_check_time'']"

text \<open>C24. Whatever object was stored, the saved settings of a channel have the entries of a provider exactly
  when the channel is of its type, for the version of Azure only if one is given: of these nothing
  is left over from a former type. The entries of the model synchronisation are different: for a type whose models can be
  fetched they are rewritten, and automatic synchronisation is stored as on only with the check on;
  for any other type they stay exactly as they were stored, consistent or not. All other entries are kept.\<close>

lemma saved_settings_fit_type:
  "vhas (settings_fields f m) ''vertex_key_type'' = (f_type f = 41)
   \<and> vhas (settings_fields f m) ''azure_responses_version'' = (f_type f = 3 \<and> truthy (azure_responses_version f))
   \<and> vhas (settings_fields f m) ''openrouter_enterprise'' = (f_type f = 20)
   \<and> vhas (settings_fields f m) ''aws_key_type'' = (f_type f = 33)
   \<and> vhas (settings_fields f m) ''allow_service_tier'' = (f_type f = 1 \<or> f_type f = 14)
   \<and> vhas (settings_fields f m) ''disable_store'' = (f_type f = 1)
   \<and> vhas (settings_fields f m) ''allow_safety_identifier'' = (f_type f = 1)
   \<and> vhas (settings_fields f m) ''allow_include_obfuscation'' = (f_type f = 1)
   \<and> vhas (settings_fields f m) ''allow_inference_geo'' = (f_type f = 1 \<or> f_type f = 14)
   \<and> vhas (settings_fields f m) ''allow_speed'' = (f_type f = 14)
   \<and> vhas (settings_fields f m) ''claude_beta_query'' = (f_type f = 14)
   \<and> (\<forall>k. k \<notin> set type_specific \<longrightarrow> vget (settings_fields f m) k = vget m k)
   \<and> (if f_type f \<in> set MODEL_FETCHABLE_TYPES
      then vget (settings_fields f m) ''upstream_model_update_auto_sync_enabled''
             = VBool (upstream_check_enabled f = Some True \<and> upstream_auto_sync_enabled f = Some True)
        \<and> vget (settings_fields f m) ''upstream_model_update_check_enabled'' = VBool (upstream_check_enabled f = Some True)
        \<and> vget (settings_fields f m) ''upstream_model_update_ignored_models'' = VArr (map VStr (ignored_models f))
      else \<forall>k\<in>set upstream_entries. vget (settings_fields f m) k = vget m k \<and> vhas (settings_fields f m) k = vhas m k)"
proof -
  have others: "\<forall>k. k \<notin> set type_specific \<longrightarrow> vget (settings_fields f m) k = vget m k"
    by (simp add: settings_simps type_specific_def)
  have flags: "if f_type f \<in> set MODEL_FETCHABLE_TYPES
      then vget (settings_fields f m) ''upstream_model_update_auto_sync_enabled''
             = VBool (upstream_check_enabled f = Some True \<and> upstream_auto_sync_enabled f = Some True)
        \<and> vget (settings_fields f m) ''upstream_model_update_check_enabled'' = VBool (upstream_check_enabled f = Some True)
        \<and> vget (settings_fields f m) ''upstream_model_update_ignored_models'' = VArr (map VStr (ignored_models f))
      else \<forall>k\<in>set upstream_entries. vget (settings_fields f m) k = vget m k \<and> vhas (settings_fields f m) k = vhas m k"
  proof (cases "f_type f \<in> set MODEL_FETCHABLE_TYPES")
    case True
    then show ?thesis by (simp add: settings_fields_def upstream_flags)
  next
    case False
    then have "settings_fields f m = passthrough_settings f (provider_settings f m)"
      by (simp add: settings_fields_def upstream_settings_def)
    with False show ?thesis
      by (simp add: upstream_entries_def) (simp add: settings_simps)
  qed
  show ?thesis by (intro conjI others flags; simp add: settings_simps)
qed

lemma saved_settings_fit_type_witness:
  "vget (settings_fields (CHANNEL_FORM_DEFAULT_VALUES\<lparr> f_type := 41 \<rparr>) [(js ''x'', VNull)]) ''x'' = VNull"
proof -
  have "''x'' \<notin> set type_specific" by (simp add: type_specific_def)
  then show ?thesis
    using saved_settings_fit_type [of "CHANNEL_FORM_DEFAULT_VALUES\<lparr> f_type := 41 \<rparr>" "[(js ''x'', VNull)]"]
    by (simp add: vget_def)
qed

section \<open>Round trip of the extra settings\<close>

text \<open>The values the schema asks for.\<close>

definition is_bool :: "jval \<Rightarrow> bool" where
  "is_bool v = (case v of VBool _ \<Rightarrow> True | _ \<Rightarrow> False)"

definition is_text :: "jval \<Rightarrow> bool" where
  "is_text v = (case v of VStr s \<Rightarrow> code_units s | _ \<Rightarrow> False)"

definition extras_typed :: "FormValues \<Rightarrow> bool" where
  "extras_typed f = (is_bool (force_format f) \<and> is_bool (thinking_to_content f) \<and> is_text (proxy f)
     \<and> is_bool (pass_through_body_enabled f) \<and> is_text (system_prompt f) \<and> is_bool (system_prompt_override f))"

lemma vor_bool: "is_bool v \<Longrightarrow> vor v (VBool False) = v"
  by (cases v) (auto simp: is_bool_def vor_def)

lemma vor_text: "is_text v \<Longrightarrow> vor v (VStr []) = v"
  by (cases v) (auto simp: is_text_def vor_def)

lemma typed_plain: "is_bool v \<Longrightarrow> json_plain v" "is_text v \<Longrightarrow> json_plain v"
  by (cases v; simp add: is_bool_def is_text_def)+

lemma setting_fields_plain: "extras_typed f \<Longrightarrow> json_plain (VObj (setting_fields f))"
  by (simp add: extras_typed_def setting_fields_def vor_bool vor_text typed_plain)
    (simp add: obj_of_def obj_put_def array_index_def js_def code_units_def is_digit_def)

text \<open>The extra settings of a form survive being written into the channel and read back.\<close>

lemma extra_settings_roundtrip:
  assumes "extras_typed f"
  shows "let g = form_of (ch\<lparr> ch_setting := Val (buildSettingJSON f) \<rparr>) in
    force_format g = force_format f \<and> thinking_to_content g = thinking_to_content f \<and> proxy g = proxy f
    \<and> pass_through_body_enabled g = pass_through_body_enabled f \<and> system_prompt g = system_prompt f
    \<and> system_prompt_override g = system_prompt_override f"
proof -
  have "json_parse (buildSettingJSON f) = Some (VObj (setting_fields f))"
    unfolding buildSettingJSON_def by (rule json_parse_text [OF setting_fields_plain [OF assms]])
  moreover have "buildSettingJSON f \<noteq> []"
    by (simp add: buildSettingJSON_def json_stringify_def)
  ultimately have "stored_fields (str_or (Val (buildSettingJSON f)) []) = Some (setting_fields f)"
    by (simp add: stored_fields_def read_fields_def sor_def)
  then show ?thesis using assms
    by (simp add: form_of_def Let_def extras_typed_def split: option.split)
      (simp add: extra_settings_def type_settings_def setting_fields_def vget_def vor_bool vor_text)
qed

lemma extra_settings_roundtrip_witness:
  "let f = CHANNEL_FORM_DEFAULT_VALUES\<lparr> proxy := VStr (js ''http://p''), force_format := VBool True \<rparr> in
   proxy (form_of ((sample_channel [] 1 (JFin 0))\<lparr> ch_setting := Val (buildSettingJSON f) \<rparr>)) = VStr (js ''http://p'')"
  using extra_settings_roundtrip
    [of "CHANNEL_FORM_DEFAULT_VALUES\<lparr> proxy := VStr (js ''http://p''), force_format := VBool True \<rparr>"
      "sample_channel [] 1 (JFin 0)"]
  by (simp add: Let_def extras_typed_def is_bool_def is_text_def code_units_def js_def CHANNEL_FORM_DEFAULT_VALUES_def)


text \<open>Saving a form fails exactly when the stored settings are JSON but neither an object nor an
  array: text that does not parse is replaced by an empty object, but the literal \<open>null\<close> or a
  number is used as it is, and testing it for a property throws. Then neither payload exists.\<close>

lemma saving_throws:
  "(buildSettingsJSON f = None) = (\<exists>s v. f_settings f = Some s \<and> json_parse s = Some v
      \<and> s \<noteq> [] \<and> s \<noteq> js ''{}'' \<and> (\<forall>m. v \<noteq> VObj m) \<and> (\<forall>vs. v \<noteq> VArr vs))
   \<and> (transformFormDataToCreatePayload f = None) = (buildSettingsJSON f = None)
   \<and> (transformFormDataToUpdatePayload f i = None) = (buildSettingsJSON f = None)"
proof -
  have "(buildSettingsJSON f = None) = (\<exists>s v. f_settings f = Some s \<and> json_parse s = Some v
      \<and> s \<noteq> [] \<and> s \<noteq> js ''{}'' \<and> (\<forall>m. v \<noteq> VObj m) \<and> (\<forall>vs. v \<noteq> VArr vs))"
    by (auto simp: buildSettingsJSON_def existing_settings_def split: option.splits jval.splits)
  moreover have "(transformFormDataToCreatePayload f = None) = (buildSettingsJSON f = None)"
    "(transformFormDataToUpdatePayload f i = None) = (buildSettingsJSON f = None)"
    by (cases "buildSettingsJSON f"; simp add: transformFormDataToCreatePayload_def transformFormDataToUpdatePayload_def Let_def)+
  ultimately show ?thesis by blast
qed

end
