(* ===== verification/Playground.thy ===== *)
theory Playground
  imports Js_Value
begin

text \<open>
  Playground messages: \<open>features/playground/types.ts\<close>, \<open>lib/message-utils.ts\<close> and
  \<open>lib/payload-builder.ts\<close>. The random keys of \<open>nanoid\<close> are arguments. A message is a record; an
  absent field is \<open>None\<close>, and \<open>errorCode\<close>, which may also be \<open>null\<close>, is an option of an option.
\<close>

section \<open>Messages\<close>

datatype MessageRole = User | Assistant | System
datatype MessageStatus = Loading | Streaming | Complete | Failed

record MessageVersion =
  version_id :: jstr
  version_content :: jstr

record Reasoning =
  r_content :: jstr
  r_duration :: jnum

record Message =
  msg_key :: jstr
  msg_from :: MessageRole
  versions :: "MessageVersion list"
  sources :: "(jstr \<times> jstr) list option"
  reasoning :: "Reasoning option"
  isReasoningStreaming :: "bool option"
  isReasoningComplete :: "bool option"
  isContentComplete :: "bool option"
  status :: "MessageStatus option"
  errorCode :: "jstr option option"

definition API_REQUEST_ERROR :: jstr where
  "API_REQUEST_ERROR = js ''Request error occurred''"

definition PARSE_ERROR :: jstr where
  "PARSE_ERROR = js ''Error parsing response data''"

definition STREAM_START_ERROR :: jstr where
  "STREAM_START_ERROR = js ''Error establishing connection''"

definition CONNECTION_CLOSED :: jstr where
  "CONNECTION_CLOSED = js ''Connection closed''"

definition INTERRUPTED :: jstr where
  "INTERRUPTED = js ''Generation was interrupted''"

definition getCurrentVersion :: "Message \<Rightarrow> MessageVersion" where
  "getCurrentVersion message = (case versions message of v # _ \<Rightarrow> v
     | [] \<Rightarrow> \<lparr> version_id = js ''default'', version_content = [] \<rparr>)"

definition updateCurrentVersionContent :: "Message \<Rightarrow> jstr \<Rightarrow> Message" where
  "updateCurrentVersionContent message content =
     message\<lparr> versions := [(getCurrentVersion message)\<lparr> version_content := content \<rparr>] \<rparr>"

definition createMessageVersion :: "jstr \<Rightarrow> jstr \<Rightarrow> MessageVersion" where
  "createMessageVersion nanoid content = \<lparr> version_id = nanoid, version_content = content \<rparr>"

definition plain_message :: "jstr \<Rightarrow> jstr \<Rightarrow> MessageRole \<Rightarrow> jstr \<Rightarrow> Message" where
  "plain_message key vid from' content = \<lparr> msg_key = key, msg_from = from',
     versions = [createMessageVersion vid content], sources = None, reasoning = None,
     isReasoningStreaming = None, isReasoningComplete = None, isContentComplete = None,
     status = None, errorCode = None \<rparr>"

definition createUserMessage :: "jstr \<Rightarrow> jstr \<Rightarrow> jstr \<Rightarrow> Message" where
  "createUserMessage key vid content = plain_message key vid User content"

definition createSystemMessage :: "jstr \<Rightarrow> jstr \<Rightarrow> jstr \<Rightarrow> Message" where
  "createSystemMessage key vid content = plain_message key vid System content"

definition createLoadingAssistantMessage :: "jstr \<Rightarrow> jstr \<Rightarrow> Message" where
  "createLoadingAssistantMessage key vid = (plain_message key vid Assistant [])\<lparr>
     isReasoningStreaming := Some False, isReasoningComplete := Some False,
     isContentComplete := Some False, status := Some Loading \<rparr>"

section \<open>Content\<close>

record ContentPart =
  part_is_text :: bool
  part_text :: "jstr option"
  part_image_url :: "jstr option"

datatype Content = Text jstr | Parts "ContentPart list"

definition buildMessageContent :: "jstr \<Rightarrow> jstr list \<Rightarrow> Content" where
  "buildMessageContent text imageUrls = (let validImages = filter (\<lambda>url. trim url \<noteq> []) imageUrls in
     if length validImages = 0 then Text text
     else Parts (\<lparr> part_is_text = True, part_text = Some text, part_image_url = None \<rparr>
       # map (\<lambda>url. \<lparr> part_is_text = False, part_text = None, part_image_url = Some (trim url) \<rparr>) validImages))"

definition getTextContent :: "Content \<Rightarrow> jstr" where
  "getTextContent content = (case content of Text s \<Rightarrow> s
     | Parts ps \<Rightarrow> (case find part_is_text ps of
         Some p \<Rightarrow> (case part_text p of Some s \<Rightarrow> s | None \<Rightarrow> []) | None \<Rightarrow> []))"

record ChatCompletionMessage =
  cm_role :: MessageRole
  cm_content :: Content

definition formatMessageForAPI :: "Message \<Rightarrow> ChatCompletionMessage" where
  "formatMessageForAPI message =
     \<lparr> cm_role = msg_from message, cm_content = Text (version_content (getCurrentVersion message)) \<rparr>"

definition isValidMessage :: "Message \<Rightarrow> bool" where
  "isValidMessage message = (case versions message of [] \<Rightarrow> False
     | v # _ \<Rightarrow> \<not> (msg_from message = Assistant \<and> trim (version_content v) = []))"

section \<open>Reasoning tags\<close>

record ThinkParts =
  visibleContent :: jstr
  think_reasoning :: jstr
  hasUnclosedTag :: bool

definition OPEN_TAG :: jstr where "OPEN_TAG = js ''<think>''"
definition CLOSE_TAG :: jstr where "CLOSE_TAG = js ''</think>''"

lemma tag_lengths [simp]: "length OPEN_TAG = 7" "length CLOSE_TAG = 8"
  by (simp_all add: OPEN_TAG_def CLOSE_TAG_def)

text \<open>
  The loop of \<open>parseThinkTags\<close>. Its only state is the position reached, so it is a recursion on the
  rest of the content, with the two lists of parts and the flag as its result. Each round that goes on
  drops at least the fifteen code units of the two tags.
\<close>

function think_loop :: "jstr \<Rightarrow> jstr list \<times> jstr list \<times> bool" where
  "think_loop rest = (case index_of OPEN_TAG rest of
      None \<Rightarrow> (if rest = [] then [] else [rest], [], False)
    | Some openPos \<Rightarrow>
        (let visible = (if openPos > 0 then [take openPos rest] else []);
             after = drop (openPos + 7) rest in
         case index_of CLOSE_TAG after of
           None \<Rightarrow> (visible, [after], True)
         | Some closePos \<Rightarrow>
             (let (vs, rs, u) = think_loop (drop (closePos + 8) after) in
              (visible @ vs, take closePos after # rs, u))))"
  by auto

termination
  by (relation "measure length") (auto dest!: index_of_Some)

declare think_loop.simps [simp del]

definition parseThinkTags :: "jstr \<Rightarrow> ThinkParts" where
  "parseThinkTags content =
     (if \<not> has_sub OPEN_TAG content
      then \<lparr> visibleContent = content, think_reasoning = [], hasUnclosedTag = False \<rparr>
      else let (visibleParts, reasoningParts, hasUnclosed) = think_loop content in
        \<lparr> visibleContent = trim (join [] visibleParts),
          think_reasoning = trim (join [10, 10] reasoningParts), hasUnclosedTag = hasUnclosed \<rparr>)"

section \<open>Updates of the last message\<close>

definition updateLastAssistantMessage :: "(Message \<Rightarrow> Message) \<Rightarrow> Message list \<Rightarrow> Message list" where
  "updateLastAssistantMessage updater messages =
     (if messages = [] \<or> msg_from (last messages) \<noteq> Assistant then messages
      else butlast messages @ [updater (last messages)])"

definition fail_message :: "jstr \<Rightarrow> jstr option \<Rightarrow> Message \<Rightarrow> Message" where
  "fail_message errorMessage code message =
     (updateCurrentVersionContent message (API_REQUEST_ERROR @ js '': '' @ errorMessage))\<lparr>
        status := Some Failed, isReasoningStreaming := Some False,
        errorCode := Some (case code of Some (c # s) \<Rightarrow> Some (c # s) | _ \<Rightarrow> None) \<rparr>"

definition updateAssistantMessageWithError :: "Message list \<Rightarrow> jstr \<Rightarrow> jstr option \<Rightarrow> Message list" where
  "updateAssistantMessageWithError messages errorMessage code =
     updateLastAssistantMessage (fail_message errorMessage code) messages"

definition processStreamingContent :: "Message \<Rightarrow> jstr \<Rightarrow> Message" where
  "processStreamingContent message contentChunk =
     (let fullContent = version_content (getCurrentVersion message) @ contentChunk;
          parts = parseThinkTags fullContent;
          finalReasoning = (if think_reasoning parts \<noteq> []
            then Some \<lparr> r_content = think_reasoning parts, r_duration = JFin 0 \<rparr> else reasoning message) in
      (updateCurrentVersionContent message fullContent)\<lparr> reasoning := finalReasoning,
         isReasoningStreaming := Some (hasUnclosedTag parts) \<rparr>)"

definition reasoning_text :: "Message \<Rightarrow> jstr" where
  "reasoning_text message = (case reasoning message of Some r \<Rightarrow> r_content r | None \<Rightarrow> [])"

definition finalizeMessage :: "Message \<Rightarrow> jstr \<Rightarrow> Message" where
  "finalizeMessage message apiReasoningContent =
     (let parts = parseThinkTags (version_content (getCurrentVersion message));
          finalReasoning = sor apiReasoningContent (sor (reasoning_text message) (think_reasoning parts));
          duration = (case reasoning message of Some r \<Rightarrow> jor (r_duration r) (JFin 0) | None \<Rightarrow> JFin 0) in
      (updateCurrentVersionContent message (visibleContent parts))\<lparr>
         reasoning := (if finalReasoning \<noteq> []
           then Some \<lparr> r_content = finalReasoning, r_duration = duration \<rparr> else None),
         isReasoningStreaming := Some False \<rparr>)"

section \<open>Messages loaded from storage\<close>

definition pending :: "Message \<Rightarrow> bool" where
  "pending m = (status m = Some Loading \<or> status m = Some Streaming)"

text \<open>The search from the end for an assistant message that is still loading or streaming.\<close>

fun last_stuck :: "Message list \<Rightarrow> nat \<Rightarrow> nat option" where
  "last_stuck ms 0 = None"
| "last_stuck ms (Suc i) = (if msg_from (ms ! i) = Assistant \<and> pending (ms ! i) then Some i else last_stuck ms i)"

definition sanitize_message :: "Message \<Rightarrow> Message" where
  "sanitize_message m = (let finalized = finalizeMessage m [];
       hasContent = trim (version_content (getCurrentVersion finalized)) \<noteq> [];
       hasReasoning = trim (reasoning_text finalized) \<noteq> [] in
     if hasContent \<or> hasReasoning
     then finalized\<lparr> status := Some Complete, isReasoningStreaming := Some False \<rparr>
     else (updateCurrentVersionContent finalized (API_REQUEST_ERROR @ js '': '' @ INTERRUPTED))\<lparr>
        status := Some Failed, isReasoningStreaming := Some False \<rparr>)"

definition sanitizeMessagesOnLoad :: "Message list \<Rightarrow> Message list" where
  "sanitizeMessagesOnLoad messages = (case last_stuck messages (length messages) of
      None \<Rightarrow> messages
    | Some targetIndex \<Rightarrow> messages[targetIndex := sanitize_message (messages ! targetIndex)])"

section \<open>Request payload\<close>

record PlaygroundConfig =
  pc_model :: jstr
  pc_group :: jstr
  pc_temperature :: "jnum option"
  pc_top_p :: "jnum option"
  pc_max_tokens :: "jnum option"
  pc_frequency_penalty :: "jnum option"
  pc_presence_penalty :: "jnum option"
  pc_seed :: "jnum option"
  pc_stream :: bool

record ParameterEnabled =
  pe_temperature :: bool
  pe_top_p :: bool
  pe_max_tokens :: bool
  pe_frequency_penalty :: bool
  pe_presence_penalty :: bool
  pe_seed :: bool

definition DEFAULT_CONFIG :: PlaygroundConfig where
  "DEFAULT_CONFIG = \<lparr> pc_model = js ''gpt-4o'', pc_group = js ''auto'', pc_temperature = Some (to_double (7 / 10)),
     pc_top_p = Some (JFin 1), pc_max_tokens = Some (JFin 4096), pc_frequency_penalty = Some (JFin 0),
     pc_presence_penalty = Some (JFin 0), pc_seed = None, pc_stream = True \<rparr>"

definition DEFAULT_PARAMETER_ENABLED :: ParameterEnabled where
  "DEFAULT_PARAMETER_ENABLED = \<lparr> pe_temperature = True, pe_top_p = True, pe_max_tokens = False,
     pe_frequency_penalty = True, pe_presence_penalty = True, pe_seed = False \<rparr>"

text \<open>The request: the fixed fields, and the enabled parameters that have a value, in their order.\<close>

record ChatCompletionRequest =
  rq_model :: jstr
  rq_group :: jstr
  rq_messages :: "ChatCompletionMessage list"
  rq_stream :: bool
  rq_params :: "(jstr \<times> jnum) list"

definition parameter_table :: "PlaygroundConfig \<Rightarrow> ParameterEnabled \<Rightarrow> (string \<times> bool \<times> jnum option) list" where
  "parameter_table config enabled =
     [(''temperature'', pe_temperature enabled, pc_temperature config),
      (''top_p'', pe_top_p enabled, pc_top_p config),
      (''max_tokens'', pe_max_tokens enabled, pc_max_tokens config),
      (''frequency_penalty'', pe_frequency_penalty enabled, pc_frequency_penalty config),
      (''presence_penalty'', pe_presence_penalty enabled, pc_presence_penalty config),
      (''seed'', pe_seed enabled, pc_seed config)]"

definition buildChatCompletionPayload ::
  "Message list \<Rightarrow> PlaygroundConfig \<Rightarrow> ParameterEnabled \<Rightarrow> ChatCompletionRequest" where
  "buildChatCompletionPayload messages config enabled =
     \<lparr> rq_model = pc_model config, rq_group = pc_group config,
       rq_messages = map formatMessageForAPI (filter isValidMessage messages), rq_stream = pc_stream config,
       rq_params = List.map_filter (\<lambda>(k, on, v). if on then map_option (\<lambda>x. (js k, x)) v else None)
         (parameter_table config enabled) \<rparr>"

end
