(* ===== verification/PlaygroundMessages.thy ===== *)
theory PlaygroundMessages
  imports Playground
begin

text \<open>
  What the message operations guarantee: the split of a reply into reasoning and text agrees with a
  reader that sees one code unit at a time, streaming in chunks agrees with the whole reply, and
  loading repairs the interrupted reply.
\<close>

section \<open>The tags, one code unit at a time\<close>

text \<open>A reference: an automaton that is outside or inside of the tags. Its result is the visible text,
  the reasoning of each block and whether the last block is open.\<close>

function (sequential) outside :: "jstr \<Rightarrow> jstr \<times> jstr list \<times> bool"
  and inside :: "jstr \<Rightarrow> jstr \<Rightarrow> jstr \<times> jstr list \<times> bool" where
  "outside s = (if s = [] then ([], [], False)
     else if starts_with OPEN_TAG s then inside [] (drop 7 s)
     else let (v, r, u) = outside (tl s) in (hd s # v, r, u))"
| "inside buf s = (if s = [] then ([], [rev buf], True)
     else if starts_with CLOSE_TAG s then (let (v, r, u) = outside (drop 8 s) in (v, rev buf # r, u))
     else inside (hd s # buf) (tl s))"
  by pat_completeness auto

termination
  by (relation "measure (\<lambda>x. case x of Inl s \<Rightarrow> length s | Inr (_, s) \<Rightarrow> length s)") auto

declare outside.simps [simp del] inside.simps [simp del]

lemma drop_shift: "drop (8 + n) (c # s) = drop (n + 7) s" "drop (9 + n) (c # s) = drop (n + 8) s"
  by (simp_all add: drop_Cons' add.commute)

lemma starts_with_drop: "starts_with p s \<Longrightarrow> index_of p s = Some 0"
  by (cases s) (auto simp: starts_with_def)

lemma outside_skip:
  "outside s = (case index_of OPEN_TAG s of
      None \<Rightarrow> (s, [], False)
    | Some i \<Rightarrow> (let (v, r, u) = inside [] (drop (i + 7) s) in (take i s @ v, r, u)))"
proof (induction s)
  case Nil
  then show ?case by (simp add: outside.simps OPEN_TAG_def js_def)
next
  case (Cons c s)
  show ?case
  proof (cases "starts_with OPEN_TAG (c # s)")
    case True
    then show ?thesis by (simp add: outside.simps [of "c # s"] split: prod.split)
  next
    case False
    then show ?thesis
      by (simp add: outside.simps [of "c # s"] Cons.IH drop_shift split: option.split prod.split)
  qed
qed

lemma inside_skip:
  "inside buf s = (case index_of CLOSE_TAG s of
      None \<Rightarrow> ([], [rev buf @ s], True)
    | Some i \<Rightarrow> (let (v, r, u) = outside (drop (i + 8) s) in (v, (rev buf @ take i s) # r, u)))"
proof (induction s arbitrary: buf)
  case Nil
  then show ?case by (simp add: inside.simps CLOSE_TAG_def js_def)
next
  case (Cons c s)
  show ?case
  proof (cases "starts_with CLOSE_TAG (c # s)")
    case True
    then show ?thesis by (simp add: inside.simps [of _ "c # s"] split: prod.split)
  next
    case False
    then show ?thesis
      by (simp add: inside.simps [of _ "c # s"] Cons.IH drop_shift split: option.split prod.split)
  qed
qed

lemma think_loop_automaton:
  "(case think_loop s of (vs, rs, u) \<Rightarrow> (concat vs, rs, u)) = outside s"
proof (induction s rule: think_loop.induct)
  case (1 s)
  show ?case
  proof (cases "index_of OPEN_TAG s")
    case None
    then show ?thesis by (simp add: outside_skip [of s] think_loop.simps [of s])
  next
    case (Some i)
    show ?thesis
    proof (cases "index_of CLOSE_TAG (drop (i + 7) s)")
      case None
      with Some show ?thesis
        by (simp add: outside_skip [of s] inside_skip think_loop.simps [of s] Let_def)
    next
      case (Some j)
      note IH = "1.IH" [OF \<open>index_of OPEN_TAG s = Some i\<close> refl refl Some]
      obtain vs rs u where t: "think_loop (drop (j + 8) (drop (i + 7) s)) = (vs, rs, u)"
        by (metis prod_cases3)
      with IH have o: "outside (drop (j + 8) (drop (i + 7) s)) = (concat vs, rs, u)" by simp
      have ins: "inside [] (drop (i + 7) s) = (concat vs, take j (drop (i + 7) s) # rs, u)"
        unfolding inside_skip [of _ "drop (i + 7) s"] by (simp add: Some Let_def o del: drop_drop)
      have "outside s = (take i s @ concat vs, take j (drop (i + 7) s) # rs, u)"
        unfolding outside_skip [of s] by (simp add: \<open>index_of OPEN_TAG s = Some i\<close> ins)
      moreover have "think_loop s = ((if i > 0 then [take i s] else []) @ vs, take j (drop (i + 7) s) # rs, u)"
        unfolding think_loop.simps [of s] by (simp add: \<open>index_of OPEN_TAG s = Some i\<close> Some Let_def t del: drop_drop)
      ultimately show ?thesis by simp
    qed
  qed
qed

lemma concat_join_Nil: "join [] vs = concat vs"
  by (induction "[] :: 'a list" vs rule: join.induct) simp_all

text \<open>C25. Splitting a reply into visible text and reasoning by searching for the tags is the same as
  reading it one code unit at a time; in particular a block that is not closed hides the rest.\<close>

lemma think_tags_automaton:
  "parseThinkTags content = (case outside content of (v, rs, u) \<Rightarrow>
     \<lparr> visibleContent = (if has_sub OPEN_TAG content then trim v else content),
       think_reasoning = trim (join [10, 10] rs), hasUnclosedTag = u \<rparr>)"
proof (cases "has_sub OPEN_TAG content")
  case True
  then show ?thesis
    unfolding think_loop_automaton [symmetric]
    by (simp add: parseThinkTags_def concat_join_Nil split: prod.split)
next
  case False
  then show ?thesis by (simp add: parseThinkTags_def outside_skip has_sub_def)
qed

section \<open>Streaming\<close>

lemma current_update [simp]:
  "getCurrentVersion (updateCurrentVersionContent m c) = (getCurrentVersion m)\<lparr> version_content := c \<rparr>"
  by (simp add: updateCurrentVersionContent_def getCurrentVersion_def)

lemma current_fields [simp]:
  "getCurrentVersion (m\<lparr> reasoning := r \<rparr>) = getCurrentVersion m"
  "getCurrentVersion (m\<lparr> isReasoningStreaming := b \<rparr>) = getCurrentVersion m"
  "getCurrentVersion (m\<lparr> status := s \<rparr>) = getCurrentVersion m"
  "getCurrentVersion (m\<lparr> errorCode := e \<rparr>) = getCurrentVersion m"
  by (simp_all add: getCurrentVersion_def)

abbreviation content_of :: "Message \<Rightarrow> jstr" where
  "content_of m \<equiv> version_content (getCurrentVersion m)"

lemma process_content [simp]: "content_of (processStreamingContent m c) = content_of m @ c"
  by (simp add: processStreamingContent_def Let_def)

lemma foldl_process_content: "content_of (foldl processStreamingContent m cs) = content_of m @ concat cs"
  by (induction cs arbitrary: m) simp_all

lemma process_process:
  "think_reasoning (parseThinkTags (content_of m @ a @ b)) \<noteq> [] \<Longrightarrow>
   processStreamingContent (processStreamingContent m a) b = processStreamingContent m (a @ b)"
  by (simp add: processStreamingContent_def Let_def updateCurrentVersionContent_def getCurrentVersion_def)

text \<open>C28. The chunks in which a reply with reasoning arrives do not matter: once the whole text has
  arrived, the message is the one that a single chunk would have given.\<close>

lemma chunks_do_not_matter:
  assumes "cs \<noteq> []" "think_reasoning (parseThinkTags (content_of m @ concat cs)) \<noteq> []"
  shows "foldl processStreamingContent m cs = processStreamingContent m (concat cs)"
  using assms
proof (induction cs arbitrary: m)
  case (Cons c cs)
  show ?case
  proof (cases "cs = []")
    case True
    then show ?thesis by simp
  next
    case False
    then have "foldl processStreamingContent (processStreamingContent m c) cs
        = processStreamingContent (processStreamingContent m c) (concat cs)"
      using Cons by simp
    also have "\<dots> = processStreamingContent m (c @ concat cs)"
      using Cons.prems(2) by (intro process_process) simp
    finally show ?thesis by simp
  qed
qed simp

lemma chunks_do_not_matter_witness:
  "foldl processStreamingContent (createLoadingAssistantMessage [] []) [js ''<thi'', js ''nk>a'', js ''b'']
     = processStreamingContent (createLoadingAssistantMessage [] []) (js ''<think>ab'')"
proof -
  let ?cs = "[js ''<thi'', js ''nk>a'', js ''b'']" and ?m = "createLoadingAssistantMessage [] []"
  have c: "concat ?cs = js ''<think>ab''" by (simp add: js_def)
  have "content_of ?m = []"
    by (simp add: createLoadingAssistantMessage_def plain_message_def getCurrentVersion_def createMessageVersion_def)
  moreover have "think_reasoning (parseThinkTags (js ''<think>ab'')) = js ''ab''"
    by (simp add: think_tags_automaton outside.simps inside.simps OPEN_TAG_def CLOSE_TAG_def js_def trim_def is_space_def)
  ultimately show ?thesis
    using chunks_do_not_matter [of ?cs ?m] by (simp only: c append_Nil) simp
qed

text \<open>Without reasoning in the end they do: an empty block whose closing tag arrives in two pieces
  leaves the first piece behind as reasoning, and the finished message keeps it.\<close>

lemma split_tag_is_kept:
  "let m = foldl processStreamingContent (createLoadingAssistantMessage [] []) [js ''<think></thi'', js ''nk>Hi''];
       n = processStreamingContent (createLoadingAssistantMessage [] []) (js ''<think></think>Hi'') in
   reasoning_text (finalizeMessage m []) = js ''</thi'' \<and> reasoning_text (finalizeMessage n []) = []"
proof -
  have p: "parseThinkTags (js ''<think></thi'') = \<lparr> visibleContent = [], think_reasoning = js ''</thi'', hasUnclosedTag = True \<rparr>"
    "parseThinkTags (js ''<think></think>Hi'') = \<lparr> visibleContent = js ''Hi'', think_reasoning = [], hasUnclosedTag = False \<rparr>"
    "parseThinkTags (js ''Hi'') = \<lparr> visibleContent = js ''Hi'', think_reasoning = [], hasUnclosedTag = False \<rparr>"
    by (simp_all add: think_tags_automaton outside.simps inside.simps OPEN_TAG_def CLOSE_TAG_def js_def
        trim_def is_space_def has_sub_def)
  have j: "js ''<think></thi'' @ js ''nk>Hi'' = js ''<think></think>Hi''" by (simp add: js_def)
  show ?thesis
    by (simp add: Let_def processStreamingContent_def finalizeMessage_def createLoadingAssistantMessage_def
        plain_message_def createMessageVersion_def updateCurrentVersionContent_def getCurrentVersion_def
        reasoning_text_def p j sor_def)
qed

section \<open>Loading from storage\<close>

abbreviation stuck :: "Message \<Rightarrow> bool" where
  "stuck m \<equiv> msg_from m = Assistant \<and> pending m"

lemma last_stuck_None: "last_stuck ms n = None \<longleftrightarrow> (\<forall>i < n. \<not> stuck (ms ! i))"
  by (induction n) (auto simp: less_Suc_eq)

lemma last_stuck_Some: "last_stuck ms n = Some i \<Longrightarrow> i < n \<and> stuck (ms ! i)"
  by (induction n) (auto split: if_splits)

lemma sanitize_not_pending [simp]: "\<not> pending (sanitize_message m)"
  by (simp add: sanitize_message_def pending_def Let_def)

lemma sanitize_keeps [simp]: "msg_key (sanitize_message m) = msg_key m" "msg_from (sanitize_message m) = msg_from m"
  by (simp_all add: sanitize_message_def finalizeMessage_def updateCurrentVersionContent_def Let_def)

text \<open>Loading repairs the last reply that was still being generated and nothing else: keys and roles
  are kept and one such reply less remains, so none is left when there was at most one. The repaired
  reply is complete when it has content or reasoning, and otherwise shows the interruption.\<close>

lemma sanitize_repairs_last:
  "map msg_key (sanitizeMessagesOnLoad ms) = map msg_key ms
   \<and> map msg_from (sanitizeMessagesOnLoad ms) = map msg_from ms
   \<and> length (filter stuck (sanitizeMessagesOnLoad ms)) = length (filter stuck ms) - 1
   \<and> list_all2 (\<lambda>m m'. m' = m \<or> stuck m \<and> m' = sanitize_message m) ms (sanitizeMessagesOnLoad ms)"
proof (cases "last_stuck ms (length ms)")
  case None
  then have "filter stuck ms = []" by (auto simp: last_stuck_None filter_empty_conv in_set_conv_nth)
  with None show ?thesis by (simp add: sanitizeMessagesOnLoad_def list.rel_refl)
next
  case (Some i)
  note i = last_stuck_Some [OF Some]
  then have ms: "ms = take i ms @ ms ! i # drop (Suc i) ms" by (simp add: id_take_nth_drop)
  have new: "sanitizeMessagesOnLoad ms = take i ms @ sanitize_message (ms ! i) # drop (Suc i) ms"
    using i by (simp add: sanitizeMessagesOnLoad_def Some upd_conv_take_nth_drop)
  have "length (filter stuck ms) = length (filter stuck (take i ms)) + Suc (length (filter stuck (drop (Suc i) ms)))"
    using i by (subst ms) simp
  moreover have "map msg_key ms = map msg_key (take i ms) @ msg_key (ms ! i) # map msg_key (drop (Suc i) ms)"
    "map msg_from ms = map msg_from (take i ms) @ msg_from (ms ! i) # map msg_from (drop (Suc i) ms)"
    by (subst ms, simp)+
  moreover have "list_all2 (\<lambda>m m'. m' = m \<or> stuck m \<and> m' = sanitize_message m) ms
      (take i ms @ sanitize_message (ms ! i) # drop (Suc i) ms)"
    using i by (subst (1) ms, intro list_all2_appendI) (simp_all add: list.rel_refl)
  ultimately show ?thesis unfolding new by simp
qed

end
