(* ===== verification/PlaygroundChat.thy ===== *)
theory PlaygroundChat
  imports PlaygroundMessages
begin

text \<open>
  A chat as a state machine: \<open>features/playground/hooks/use-stream-request.ts\<close>,
  \<open>use-chat-handler.ts\<close>, \<open>use-message-action-guard.ts\<close> and the handlers of
  \<open>features/playground/index.tsx\<close>. The state is the list of messages, the message being edited,
  the two references of the stream hook with the event sources that are open, and the number of
  requests without streaming that are under way. The relation has exactly the guards of the page:
  the actions of a message are guarded, the suggestions and the edit form are not. The library
  behind \<open>SSE\<close> is not modelled: its events come in any order and with any data, and the relation
  assumes of it only that a source delivers nothing while or after it is closed.
\<close>

section \<open>State\<close>

text \<open>\<open>use_stream\<close> is \<open>config.stream\<close>, which no control of the page changes.\<close>

record ChatState =
  use_stream :: bool
  ch_messages :: "Message list"
  editing_key :: "jstr option"
  sse_ref :: "nat option"
  stream_complete :: bool
  open_sources :: "nat set"
  next_source :: nat
  pending_replies :: nat
  toasts :: "jstr list"

definition onMessageUpdate :: "(Message list \<Rightarrow> Message list) \<Rightarrow> ChatState \<Rightarrow> ChatState" where
  "onMessageUpdate updater st = st\<lparr> ch_messages := updater (ch_messages st) \<rparr>"

text \<open>The page is rendered again after each event, so what it shows is the reference as it is.\<close>

definition isGenerating :: "ChatState \<Rightarrow> bool" where
  "isGenerating st = (sse_ref st \<noteq> None)"

section \<open>The chat handler\<close>

datatype ChunkType = Reasoning_chunk | Content_chunk

definition stream_chunk :: "ChunkType \<Rightarrow> jstr \<Rightarrow> Message \<Rightarrow> Message" where
  "stream_chunk t chunk message = (if status message = Some Failed then message
     else case t of
       Reasoning_chunk \<Rightarrow> message\<lparr>
         reasoning := Some \<lparr> r_content = reasoning_text message @ chunk, r_duration = JFin 0 \<rparr>,
         isReasoningStreaming := Some True, status := Some Streaming \<rparr>
     | Content_chunk \<Rightarrow> (processStreamingContent message chunk)\<lparr> status := Some Streaming \<rparr>)"

definition handleStreamUpdate :: "ChunkType \<Rightarrow> jstr \<Rightarrow> ChatState \<Rightarrow> ChatState" where
  "handleStreamUpdate t chunk = onMessageUpdate (updateLastAssistantMessage (stream_chunk t chunk))"

definition complete_message :: "Message \<Rightarrow> Message" where
  "complete_message message = (if status message = Some Complete \<or> status message = Some Failed then message
     else (finalizeMessage message [])\<lparr> status := Some Complete \<rparr>)"

definition handleStreamComplete :: "ChatState \<Rightarrow> ChatState" where
  "handleStreamComplete = onMessageUpdate (updateLastAssistantMessage complete_message)"

definition handleStreamError :: "jstr \<Rightarrow> jstr option \<Rightarrow> ChatState \<Rightarrow> ChatState" where
  "handleStreamError err code st =
     onMessageUpdate (\<lambda>prev. updateAssistantMessageWithError prev err code) (st\<lparr> toasts := toasts st @ [err] \<rparr>)"

definition stop_message :: "Message \<Rightarrow> Message" where
  "stop_message message = (if pending message
     then (finalizeMessage message [])\<lparr> status := Some Complete \<rparr> else message)"

text \<open>The reply to a request without streaming; \<open>None\<close> is a reply without a choice.\<close>

definition nonstream_message :: "jstr \<Rightarrow> jstr \<Rightarrow> Message \<Rightarrow> Message" where
  "nonstream_message content api_reasoning message =
     (finalizeMessage (message\<lparr> versions := [(case versions message of v # _ \<Rightarrow> v
          | [] \<Rightarrow> \<lparr> version_id = [], version_content = [] \<rparr>)\<lparr> version_content := content \<rparr>] \<rparr>) api_reasoning)
      \<lparr> status := Some Complete \<rparr>"

text \<open>A request without streaming leaves the chat as it is until it is answered.\<close>

definition sendNonStreamingChat :: "ChatState \<Rightarrow> ChatState" where
  "sendNonStreamingChat st = st\<lparr> pending_replies := Suc (pending_replies st) \<rparr>"

definition request_ended :: "ChatState \<Rightarrow> ChatState" where
  "request_ended st = st\<lparr> pending_replies := pending_replies st - 1 \<rparr>"

definition nonstream_reply :: "(jstr \<times> jstr) option \<Rightarrow> ChatState \<Rightarrow> ChatState" where
  "nonstream_reply choice st = (case choice of None \<Rightarrow> request_ended st
     | Some (content, api_reasoning) \<Rightarrow>
         onMessageUpdate (updateLastAssistantMessage (nonstream_message content api_reasoning)) (request_ended st))"

text \<open>\<open>s || t\<close> of a text that may be missing.\<close>

definition or_text :: "jstr option \<Rightarrow> jstr \<Rightarrow> jstr" where
  "or_text s t = (case s of None \<Rightarrow> t | Some s \<Rightarrow> if s = [] then t else s)"

definition nonstream_failure :: "jstr option \<Rightarrow> jstr option \<Rightarrow> jstr option \<Rightarrow> ChatState \<Rightarrow> ChatState" where
  "nonstream_failure response_message message code st =
     handleStreamError (or_text response_message (or_text message API_REQUEST_ERROR))
       (if or_text code [] = [] then None else code) (request_ended st)"

section \<open>The stream hook\<close>

definition closeSource :: "nat \<Rightarrow> ChatState \<Rightarrow> ChatState" where
  "closeSource i st = st\<lparr> open_sources := open_sources st - {i}, sse_ref := None \<rparr>"

definition handleError :: "nat \<Rightarrow> jstr \<Rightarrow> jstr option \<Rightarrow> ChatState \<Rightarrow> ChatState" where
  "handleError i errorMessage code st =
     (if \<not> stream_complete st then closeSource i (handleStreamError errorMessage code st) else st)"

text \<open>\<open>v.k\<close>, which throws on \<open>null\<close> and \<open>undefined\<close>.\<close>

definition read_prop :: "jval \<Rightarrow> string \<Rightarrow> jval option" where
  "read_prop v k = (case v of VNull \<Rightarrow> None | VUndef \<Rightarrow> None | VObj m \<Rightarrow> Some (vget m k) | _ \<Rightarrow> Some VUndef)"

definition opt_prop :: "jval \<Rightarrow> string \<Rightarrow> jval" where
  "opt_prop v k = (case read_prop v k of None \<Rightarrow> VUndef | Some w \<Rightarrow> w)"

definition first_of :: "jval \<Rightarrow> jval" where
  "first_of v = (case v of VArr (c # _) \<Rightarrow> c | VStr (c # _) \<Rightarrow> VStr [c] | VObj m \<Rightarrow> vget m ''0'' | _ \<Rightarrow> VUndef)"

text \<open>\<open>chunk.choices?.[0]?.delta\<close> of the parsed data; \<open>None\<close> when parsing or reading throws.\<close>

definition chunk_delta :: "jstr \<Rightarrow> jval option" where
  "chunk_delta data = (case json_parse data of None \<Rightarrow> None
     | Some chunk \<Rightarrow> map_option (\<lambda>choices. opt_prop (first_of choices) ''delta'') (read_prop chunk ''choices''))"

definition update_if :: "ChunkType \<Rightarrow> jval \<Rightarrow> ChatState \<Rightarrow> ChatState" where
  "update_if t v st = (if truthy v then handleStreamUpdate t (val_to_str v) st else st)"

definition on_message :: "nat \<Rightarrow> jstr \<Rightarrow> ChatState \<Rightarrow> ChatState" where
  "on_message i data st =
     (if data = js ''[DONE]'' then handleStreamComplete (closeSource i (st\<lparr> stream_complete := True \<rparr>))
      else case chunk_delta data of
          None \<Rightarrow> handleError i PARSE_ERROR None st
        | Some delta \<Rightarrow>
            if truthy delta
            then update_if Content_chunk (opt_prop delta ''content'')
                (update_if Reasoning_chunk (opt_prop delta ''reasoning_content'') st)
            else st)"

text \<open>The message and the code of an error event.\<close>

definition error_info :: "jstr option \<Rightarrow> jstr \<times> jstr option" where
  "error_info data = (case data of None \<Rightarrow> (API_REQUEST_ERROR, None)
     | Some d \<Rightarrow>
         if d = [] then (API_REQUEST_ERROR, None)
         else case json_parse d of None \<Rightarrow> (d, None)
         | Some parsed \<Rightarrow>
             (let err = opt_prop parsed ''error'' in
              if truthy err
              then (val_to_str (vor (opt_prop err ''message'') (VStr d)),
                 if truthy (opt_prop err ''code'') then Some (val_to_str (opt_prop err ''code'')) else None)
              else (d, None)))"

definition on_error :: "nat \<Rightarrow> jstr option \<Rightarrow> int \<Rightarrow> ChatState \<Rightarrow> ChatState" where
  "on_error i data readyState st = (if readyState \<noteq> 2
     then (case error_info data of (msg, code) \<Rightarrow> handleError i msg code st) else st)"

definition on_readystatechange :: "nat \<Rightarrow> int option \<Rightarrow> int option \<Rightarrow> ChatState \<Rightarrow> ChatState" where
  "on_readystatechange i readyState http st = (case (readyState, http) of
      (Some r, Some s) \<Rightarrow> if r \<ge> 2 \<and> s \<noteq> 200
        then handleError i (js ''HTTP '' @ int_to_str s @ js '': '' @ CONNECTION_CLOSED) None st else st
    | _ \<Rightarrow> st)"

text \<open>\<open>starts\<close> is whether \<open>source.stream()\<close> returns instead of throwing.\<close>

definition sendStreamRequest :: "bool \<Rightarrow> ChatState \<Rightarrow> ChatState" where
  "sendStreamRequest starts st = (let i = next_source st;
       st = st\<lparr> next_source := Suc i, sse_ref := Some i, stream_complete := False \<rparr> in
     if starts then st\<lparr> open_sources := insert i (open_sources st) \<rparr>
     else (handleStreamError STREAM_START_ERROR None st)\<lparr> sse_ref := None \<rparr>)"

definition stopStream :: "ChatState \<Rightarrow> ChatState" where
  "stopStream st = (case sse_ref st of None \<Rightarrow> st
     | Some i \<Rightarrow> st\<lparr> open_sources := open_sources st - {i}, sse_ref := None \<rparr>)"

definition stopGeneration :: "ChatState \<Rightarrow> ChatState" where
  "stopGeneration st = onMessageUpdate (updateLastAssistantMessage stop_message) (stopStream st)"

text \<open>The payload of the request does not change the state.\<close>

definition sendChat :: "bool \<Rightarrow> ChatState \<Rightarrow> ChatState" where
  "sendChat starts st = (if use_stream st then sendStreamRequest starts st else sendNonStreamingChat st)"

section \<open>The handlers of the page\<close>

definition handleSendMessage :: "jstr \<Rightarrow> jstr list \<Rightarrow> bool \<Rightarrow> ChatState \<Rightarrow> ChatState" where
  "handleSendMessage text ids starts st =
     sendChat starts (st\<lparr> ch_messages := ch_messages st
       @ [createUserMessage (ids ! 0) (ids ! 1) text, createLoadingAssistantMessage (ids ! 2) (ids ! 3)] \<rparr>)"

definition handleRegenerateMessage :: "jstr \<Rightarrow> jstr list \<Rightarrow> bool \<Rightarrow> ChatState \<Rightarrow> ChatState" where
  "handleRegenerateMessage key ids starts st =
     (case find_index (\<lambda>m. msg_key m = key) (ch_messages st) of None \<Rightarrow> st
      | Some i \<Rightarrow> sendChat starts (st\<lparr> ch_messages := take i (ch_messages st)
          @ [createLoadingAssistantMessage (ids ! 0) (ids ! 1)] \<rparr>))"

definition handleEditMessage :: "jstr \<Rightarrow> ChatState \<Rightarrow> ChatState" where
  "handleEditMessage key st = st\<lparr> editing_key := Some key \<rparr>"

definition handleEditOpenChange :: "bool \<Rightarrow> ChatState \<Rightarrow> ChatState" where
  "handleEditOpenChange is_open st = (if is_open then st else st\<lparr> editing_key := None \<rparr>)"

definition edit_message :: "jstr \<Rightarrow> jstr \<Rightarrow> Message \<Rightarrow> Message" where
  "edit_message key newContent m = (if msg_key m = key then updateCurrentVersionContent m newContent else m)"

definition applyEdit :: "jstr \<Rightarrow> bool \<Rightarrow> jstr list \<Rightarrow> bool \<Rightarrow> ChatState \<Rightarrow> ChatState" where
  "applyEdit newContent submit ids starts st = (let key = or_text (editing_key st) [] in
     if key = [] then st
     else case find_index (\<lambda>m. msg_key m = key) (ch_messages st) of None \<Rightarrow> st
      | Some i \<Rightarrow>
          (let updated = map (edit_message key newContent) (ch_messages st);
               st = st\<lparr> editing_key := None \<rparr> in
           if \<not> submit \<or> msg_from (updated ! i) \<noteq> User then st\<lparr> ch_messages := updated \<rparr>
           else sendChat starts (st\<lparr> ch_messages := take (Suc i) updated
              @ [createLoadingAssistantMessage (ids ! 0) (ids ! 1)] \<rparr>)))"

definition handleDeleteMessage :: "jstr \<Rightarrow> ChatState \<Rightarrow> ChatState" where
  "handleDeleteMessage key st = st\<lparr> ch_messages := filter (\<lambda>m. msg_key m \<noteq> key) (ch_messages st) \<rparr>"

definition apply_preset :: "jstr \<Rightarrow> jstr list \<Rightarrow> ChatState \<Rightarrow> ChatState" where
  "apply_preset prompt ids st = st\<lparr> ch_messages := createSystemMessage (ids ! 0) (ids ! 1) prompt
     # filter (\<lambda>m. msg_from m \<noteq> System) (ch_messages st) \<rparr>"

definition WAIT_GENERATION :: jstr where
  "WAIT_GENERATION = js ''Please wait for the current generation to complete''"

definition guardAction :: "(ChatState \<Rightarrow> ChatState) \<Rightarrow> ChatState \<Rightarrow> ChatState" where
  "guardAction action st = (if isGenerating st then st\<lparr> toasts := toasts st @ [WAIT_GENERATION] \<rparr> else action st)"

section \<open>The machine\<close>

datatype Label = Start | Chunk | Finish | Reply | Edit | Stop

text \<open>What an event of a source does is decided by its data, its state and its status.\<close>

definition message_label :: "jstr \<Rightarrow> Label" where
  "message_label data = (if data = js ''[DONE]'' \<or> chunk_delta data = None then Finish else Chunk)"

definition error_label :: "int \<Rightarrow> Label" where
  "error_label readyState = (if readyState \<noteq> 2 then Finish else Chunk)"

definition state_label :: "int option \<Rightarrow> int option \<Rightarrow> Label" where
  "state_label readyState http = (case (readyState, http) of
      (Some r, Some s) \<Rightarrow> if r \<ge> 2 \<and> s \<noteq> 200 then Finish else Chunk | _ \<Rightarrow> Chunk)"

text \<open>\<open>send\<close> is the input, which is disabled while a reply is generated, and the suggestions, which
  are not; \<open>edit_submit\<close> and \<open>edit_save\<close> are the edit form, which stays open when a generation
  starts. The stop button is only there during a generation.\<close>

inductive chat_step :: "ChatState \<Rightarrow> Label \<Rightarrow> ChatState \<Rightarrow> bool" where
  send: "chat_step st Start (handleSendMessage text ids starts st)"
| regenerate: "chat_step st (if isGenerating st then Edit else Start)
    (guardAction (handleRegenerateMessage key ids starts) st)"
| edit_submit: "chat_step st Start (applyEdit text True ids starts st)"
| edit_save: "chat_step st Edit (applyEdit text False ids starts st)"
| edit_open: "chat_step st Edit (guardAction (handleEditMessage key) st)"
| edit_close: "chat_step st Edit (handleEditOpenChange is_open st)"
| delete: "chat_step st Edit (guardAction (handleDeleteMessage key) st)"
| preset: "chat_step st Edit (apply_preset prompt ids st)"
| message: "i \<in> open_sources st \<Longrightarrow> chat_step st (message_label data) (on_message i data st)"
| failed: "i \<in> open_sources st \<Longrightarrow> chat_step st (error_label readyState) (on_error i data readyState st)"
| state_change: "i \<in> open_sources st \<Longrightarrow>
    chat_step st (state_label readyState http) (on_readystatechange i readyState http st)"
| reply: "0 < pending_replies st \<Longrightarrow> chat_step st Reply (nonstream_reply choice st)"
| reply_failed: "0 < pending_replies st \<Longrightarrow>
    chat_step st Reply (nonstream_failure response_message message code st)"
| stop: "isGenerating st \<Longrightarrow> chat_step st Stop (stopGeneration st)"

definition initial_chat :: "bool \<Rightarrow> Message list \<Rightarrow> ChatState" where
  "initial_chat stream ms = \<lparr> use_stream = stream, ch_messages = ms, editing_key = None, sse_ref = None,
     stream_complete = False, open_sources = {}, next_source = 0, pending_replies = 0, toasts = [] \<rparr>"

definition settled :: "Message list \<Rightarrow> bool" where
  "settled ms = list_all (\<lambda>m. \<not> pending m) ms"

text \<open>The runs of the page, from whatever messages were stored. A run is calm when it streams, starts
  with settled messages and starts nothing while a reply is generated.\<close>

inductive chat_run :: "bool \<Rightarrow> ChatState \<Rightarrow> bool" where
  init: "chat_run (stream \<and> settled (sanitizeMessagesOnLoad ms)) (initial_chat stream (sanitizeMessagesOnLoad ms))"
| step: "chat_run calm st \<Longrightarrow> chat_step st l st' \<Longrightarrow> chat_run (calm \<and> (l = Start \<longrightarrow> \<not> isGenerating st)) st'"

inductive_cases chat_stepE: "chat_step st l st'"
inductive_cases chat_finishE: "chat_step st Finish st'"

section \<open>The invariant\<close>

text \<open>Only the last message can be waiting for its reply, and then it is one of the assistant.\<close>

definition tail_ok :: "Message list \<Rightarrow> bool" where
  "tail_ok ms = (settled (butlast ms) \<and> list_all (\<lambda>m. pending m \<longrightarrow> msg_from m = Assistant) ms)"

lemma settled_tail_ok: "settled ms \<Longrightarrow> tail_ok ms"
  by (auto simp: settled_def tail_ok_def list_all_iff dest: in_set_butlastD)

lemma tail_ok_snoc: "settled ms \<Longrightarrow> pending m \<longrightarrow> msg_from m = Assistant \<Longrightarrow> tail_ok (ms @ [m])"
  by (auto simp: settled_def tail_ok_def list_all_iff)

lemma settled_take: "settled ms \<Longrightarrow> settled (take n ms)"
  by (auto simp: settled_def list_all_iff dest: in_set_takeD)

lemma butlast_map_eq: "butlast (map f xs) = map f (butlast xs)"
  by (cases xs rule: rev_cases) simp_all

lemma tail_ok_map:
  "(\<And>m. pending (f m) = pending m) \<Longrightarrow> (\<And>m. msg_from (f m) = msg_from m) \<Longrightarrow>
    tail_ok (map f ms) = tail_ok ms \<and> settled (map f ms) = settled ms"
  by (simp add: tail_ok_def settled_def butlast_map_eq list_all_iff)

lemma set_butlast_filter: "set (butlast (filter P xs)) \<subseteq> set (butlast xs)"
  by (cases xs rule: rev_cases) (auto dest: in_set_butlastD)

lemma tail_ok_filter:
  "tail_ok ms \<Longrightarrow> \<not> pending m \<Longrightarrow> tail_ok (m # filter P ms)"
  using set_butlast_filter [of P ms] by (auto simp: tail_ok_def settled_def list_all_iff)

lemma settled_filter: "settled ms \<Longrightarrow> settled (filter P ms)"
  by (auto simp: settled_def list_all_iff)

subsection \<open>The updaters\<close>

lemma updaters_keep [simp]:
  "msg_from (updateCurrentVersionContent m c) = msg_from m" "msg_key (updateCurrentVersionContent m c) = msg_key m"
  "msg_from (finalizeMessage m r) = msg_from m" "msg_key (finalizeMessage m r) = msg_key m"
  "msg_from (processStreamingContent m c) = msg_from m" "msg_key (processStreamingContent m c) = msg_key m"
  "msg_from (fail_message e code m) = msg_from m" "msg_key (fail_message e code m) = msg_key m"
  by (simp_all add: updateCurrentVersionContent_def finalizeMessage_def processStreamingContent_def
      fail_message_def Let_def)

lemma handlers_keep [simp]:
  "msg_from (stream_chunk t c m) = msg_from m" "msg_key (stream_chunk t c m) = msg_key m"
  "msg_from (complete_message m) = msg_from m" "msg_key (complete_message m) = msg_key m"
  "msg_from (stop_message m) = msg_from m" "msg_key (stop_message m) = msg_key m"
  by (cases t; simp add: stream_chunk_def complete_message_def stop_message_def)+

lemma settling [simp]:
  "\<not> pending (fail_message e code m)" "\<not> pending (complete_message m)" "\<not> pending (stop_message m)"
  by (simp_all add: pending_def fail_message_def complete_message_def stop_message_def)

text \<open>What the updates of the last message have in common: they do not touch its key and role, so no
  other message, key or role changes; those that settle it settle the whole chat.\<close>

locale last_updater =
  fixes f :: "Message \<Rightarrow> Message"
  assumes keeps_key: "msg_key (f m) = msg_key m"
    and keeps_from: "msg_from (f m) = msg_from m"
begin

lemma frame:
  "map msg_key (updateLastAssistantMessage f ms) = map msg_key ms"
  "map msg_from (updateLastAssistantMessage f ms) = map msg_from ms"
  "butlast (updateLastAssistantMessage f ms) = butlast ms"
  by (cases ms rule: rev_cases; simp add: updateLastAssistantMessage_def keeps_key keeps_from)+

lemma tail_ok: "tail_ok ms \<Longrightarrow> tail_ok (updateLastAssistantMessage f ms)"
  by (cases ms rule: rev_cases) (auto simp: tail_ok_def updateLastAssistantMessage_def list_all_iff keeps_from)

end

locale settling_updater = last_updater +
  assumes settles: "\<not> pending (f m)"
begin

lemma settled: "tail_ok ms \<Longrightarrow> settled (updateLastAssistantMessage f ms)"
  by (cases ms rule: rev_cases)
    (auto simp: tail_ok_def settled_def updateLastAssistantMessage_def list_all_iff settles)

end

interpretation chunk: last_updater "stream_chunk t c" for t c
  by unfold_locales simp_all

interpretation failure: settling_updater "fail_message e code" for e code
  by unfold_locales simp_all

interpretation completion: settling_updater complete_message
  by unfold_locales simp_all

interpretation stopping: settling_updater stop_message
  by unfold_locales simp_all

lemmas update_rules = chunk.tail_ok failure.tail_ok completion.tail_ok stopping.tail_ok
  failure.settled completion.settled stopping.settled

lemma new_messages [simp]:
  "\<not> pending (createUserMessage k v t)" "\<not> pending (createSystemMessage k v t)"
  "msg_from (createLoadingAssistantMessage k v) = Assistant"
  by (simp_all add: pending_def createUserMessage_def createSystemMessage_def plain_message_def
      createLoadingAssistantMessage_def)

lemma edit_keeps [simp]: "pending (edit_message k t m) = pending m" "msg_from (edit_message k t m) = msg_from m"
  by (simp_all add: edit_message_def pending_def updateCurrentVersionContent_def)

subsection \<open>The hook\<close>

text \<open>What holds in every run: sources are numbered in the order they were opened, the reference is the
  newest one and open, a generating chat is not marked complete, and each of the two ways to send
  leaves the state of the other alone.\<close>

definition hook_inv :: "ChatState \<Rightarrow> bool" where
  "hook_inv st \<longleftrightarrow> finite (open_sources st) \<and> (\<forall>i\<in>open_sources st. i < next_source st)
     \<and> (\<forall>i. sse_ref st = Some i \<longrightarrow> i \<in> open_sources st \<and> Suc i = next_source st)
     \<and> (isGenerating st \<longrightarrow> \<not> stream_complete st)
     \<and> (if use_stream st then pending_replies st = 0 else open_sources st = {})"

text \<open>The specification counts: whether a reply is generated and how many sources are open. Starting
  opens at most one source, the end of a stream closes the one it came from and ends the generation,
  unless the chat was marked complete before, and stopping closes one source only.\<close>

type_synonym Phase = "bool \<times> nat"

inductive spec_step :: "Phase \<Rightarrow> Label \<Rightarrow> Phase \<Rightarrow> bool" where
  started: "spec_step (g, n) Start (True, Suc n)"
| not_started: "spec_step (g, n) Start (False, n)"
| nothing_sent: "spec_step p Start p"
| chunk: "spec_step (g, Suc n) Chunk (g, Suc n)"
| finished: "spec_step (g, Suc n) Finish (False, n)"
| late_end: "spec_step (False, Suc n) Finish (False, Suc n)"
| edited: "spec_step p Edit p"
| replied: "spec_step p Reply p"
| stopped: "spec_step (True, Suc n) Stop (False, n)"

definition phase :: "ChatState \<Rightarrow> Phase" where
  "phase st = (isGenerating st, card (open_sources st))"

lemmas chat_simps = isGenerating_def handleStreamUpdate_def handleStreamComplete_def handleStreamError_def
  closeSource_def onMessageUpdate_def updateAssistantMessageWithError_def

lemma hook_frame [simp]:
  "hook_inv (st\<lparr> ch_messages := ms \<rparr>) = hook_inv st" "phase (st\<lparr> ch_messages := ms \<rparr>) = phase st"
  "hook_inv (st\<lparr> toasts := ts \<rparr>) = hook_inv st" "phase (st\<lparr> toasts := ts \<rparr>) = phase st"
  "hook_inv (st\<lparr> editing_key := k \<rparr>) = hook_inv st" "phase (st\<lparr> editing_key := k \<rparr>) = phase st"
  "hook_inv (onMessageUpdate u st) = hook_inv st" "phase (onMessageUpdate u st) = phase st"
  "hook_inv (handleStreamError e c st) = hook_inv st" "phase (handleStreamError e c st) = phase st"
  "hook_inv (update_if t v st) = hook_inv st" "phase (update_if t v st) = phase st"
  by (simp_all add: hook_inv_def phase_def chat_simps update_if_def)

text \<open>The effect of a step on the hook: the invariant is kept and the counter moves as specified.\<close>

definition hook_effect :: "ChatState \<Rightarrow> Label \<Rightarrow> ChatState \<Rightarrow> bool" where
  "hook_effect st l st' = (hook_inv st' \<and> spec_step (phase st) l (phase st'))"

lemma card_open: "hook_inv st \<Longrightarrow> i \<in> open_sources st \<Longrightarrow>
    phase st = (isGenerating st, Suc (card (open_sources st - {i})))"
  using card_Suc_Diff1 [of "open_sources st" i] by (simp add: hook_inv_def phase_def del: card_Diff_insert)

lemma effect_send:
  assumes inv: "hook_inv st" shows "hook_effect st Start (sendChat starts st)"
proof -
  let ?st = "st\<lparr> next_source := Suc (next_source st), sse_ref := Some (next_source st), stream_complete := False \<rparr>"
  have new: "next_source st \<notin> open_sources st" "finite (open_sources st)" using inv by (auto simp: hook_inv_def)
  have "hook_effect st Start (sendNonStreamingChat st)" if "\<not> use_stream st"
    using inv that unfolding hook_effect_def sendNonStreamingChat_def
    by (cases "sse_ref st") (auto simp: hook_inv_def phase_def isGenerating_def spec_step.nothing_sent)
  moreover have "hook_effect st Start (sendStreamRequest True st)" if "use_stream st"
    using inv new that unfolding hook_effect_def sendStreamRequest_def Let_def
    by (auto simp: hook_inv_def phase_def isGenerating_def less_Suc_eq intro: spec_step.started)
  moreover have "hook_effect st Start (sendStreamRequest False st)" if "use_stream st"
    using inv that unfolding hook_effect_def sendStreamRequest_def Let_def chat_simps
    by (auto simp: hook_inv_def phase_def isGenerating_def less_Suc_eq intro: spec_step.not_started)
  ultimately show ?thesis by (cases starts) (simp_all add: sendChat_def)
qed

lemma effect_close:
  assumes "hook_inv st" "i \<in> open_sources st"
  shows "hook_effect st Finish (closeSource i (st\<lparr> stream_complete := c \<rparr>))"
  unfolding hook_effect_def card_open [OF assms]
  using assms by (auto simp: hook_inv_def phase_def closeSource_def isGenerating_def intro: spec_step.finished)

lemma effect_late:
  assumes "hook_inv st" "i \<in> open_sources st" "stream_complete st"
  shows "hook_effect st Finish st"
proof -
  have "\<not> isGenerating st" using assms by (auto simp: hook_inv_def)
  then show ?thesis using assms(1)
    by (simp add: hook_effect_def card_open [OF assms(1,2)] spec_step.late_end)
qed

lemma effect_error:
  assumes "hook_inv st" "i \<in> open_sources st"
  shows "hook_effect st Finish (handleError i e code st)"
proof (cases "stream_complete st")
  case True
  with effect_late [OF assms] show ?thesis by (simp add: handleError_def)
next
  case False
  let ?st = "handleStreamError e code st"
  have st: "?st\<lparr> stream_complete := stream_complete ?st \<rparr> = ?st" by simp
  have "hook_effect ?st Finish (closeSource i ?st)"
    using effect_close [of ?st i "stream_complete ?st"] assms unfolding st by (simp add: chat_simps)
  then show ?thesis using False by (simp add: handleError_def hook_effect_def)
qed

lemma effect_none: "hook_inv st \<Longrightarrow> i \<in> open_sources st \<Longrightarrow> hook_effect st Chunk st"
  by (simp add: hook_effect_def card_open spec_step.chunk)

lemma effect_message:
  assumes "hook_inv st" "i \<in> open_sources st"
  shows "hook_effect st (message_label data) (on_message i data st)"
proof (cases "data = js ''[DONE]''")
  case True
  with effect_close [OF assms, of True] show ?thesis
    by (simp add: on_message_def message_label_def hook_effect_def handleStreamComplete_def)
next
  case False
  with effect_error [OF assms] effect_none [OF assms] show ?thesis
    by (simp add: on_message_def message_label_def hook_effect_def split: option.split)
qed

lemma effect_edit:
  "hook_inv st \<Longrightarrow> hook_effect st (if submit then Start else Edit) (applyEdit text submit ids starts st)"
  using effect_send [of "st\<lparr> editing_key := None, ch_messages := ms \<rparr>" starts for ms]
  by (simp add: applyEdit_def Let_def hook_effect_def spec_step.edited spec_step.nothing_sent split: option.split)

lemma effect_ended: "hook_inv st \<Longrightarrow> hook_inv (request_ended st) \<and> phase (request_ended st) = phase st"
  by (simp add: request_ended_def hook_inv_def phase_def isGenerating_def)

lemma effect_stop:
  assumes "hook_inv st" "isGenerating st"
  shows "hook_effect st Stop (stopGeneration st)"
proof -
  obtain i where i: "sse_ref st = Some i" "i \<in> open_sources st" using assms by (auto simp: isGenerating_def hook_inv_def)
  then have "stopStream st = closeSource i (st\<lparr> stream_complete := stream_complete st \<rparr>)"
    by (simp add: stopStream_def closeSource_def)
  moreover have "phase (closeSource i st) = (False, card (open_sources st - {i}))"
    by (simp add: phase_def closeSource_def isGenerating_def)
  ultimately show ?thesis
    using effect_close [OF assms(1) i(2), of "stream_complete st"] assms
    by (simp add: stopGeneration_def hook_effect_def card_open [OF assms(1) i(2)] spec_step.stopped)
qed

lemma effect_step: "chat_step st l st' \<Longrightarrow> hook_inv st \<Longrightarrow> hook_effect st l st'"
proof (induction rule: chat_step.induct)
  case (send st body ids starts)
  then show ?case using effect_send [of "st\<lparr> ch_messages := ms \<rparr>" starts for ms]
    by (simp add: handleSendMessage_def hook_effect_def)
next
  case (regenerate st key ids starts)
  then show ?case using effect_send [of "st\<lparr> ch_messages := ms \<rparr>" starts for ms]
    by (simp add: guardAction_def handleRegenerateMessage_def hook_effect_def spec_step.edited
        spec_step.nothing_sent split: option.split)
next
  case (edit_submit st body ids starts)
  then show ?case using effect_edit [of st True] by simp
next
  case (edit_save st body ids starts)
  then show ?case using effect_edit [of st False] by simp
next
  case (message i st data)
  then show ?case by (simp add: effect_message)
next
  case (failed i st rs data)
  then show ?case using effect_error effect_none by (simp add: on_error_def error_label_def split: prod.split)
next
  case (state_change i st rs http)
  then show ?case using effect_error effect_none
    by (simp add: on_readystatechange_def state_label_def split: option.split)
next
  case (reply st choice)
  then show ?case
    by (simp add: nonstream_reply_def hook_effect_def effect_ended spec_step.replied split: option.split)
next
  case (reply_failed st r m code)
  then show ?case by (simp add: nonstream_failure_def hook_effect_def effect_ended spec_step.replied)
next
  case (stop st)
  then show ?case by (simp add: effect_stop)
qed (simp_all add: hook_effect_def guardAction_def handleEditMessage_def handleEditOpenChange_def
    handleDeleteMessage_def apply_preset_def spec_step.edited)

lemma hook_run: "chat_run calm st \<Longrightarrow> hook_inv st"
proof (induction rule: chat_run.induct)
  case (init stream ms)
  then show ?case by (simp add: hook_inv_def initial_chat_def isGenerating_def)
next
  case (step calm st l st')
  then show ?case using effect_step by (simp add: hook_effect_def)
qed

subsection \<open>Calm runs\<close>

text \<open>In a calm run a source is open exactly while the reference is set, only the last message waits
  and only while a reply is generated.\<close>

definition chat_inv :: "ChatState \<Rightarrow> bool" where
  "chat_inv st \<longleftrightarrow> hook_inv st \<and> use_stream st
     \<and> open_sources st = set_option (sse_ref st)
     \<and> tail_ok (ch_messages st)
     \<and> (\<not> isGenerating st \<longrightarrow> settled (ch_messages st))"

definition idle :: "ChatState \<Rightarrow> bool" where
  "idle st = (chat_inv st \<and> \<not> isGenerating st)"

lemma open_facts:
  assumes "chat_inv st" "i \<in> open_sources st"
  shows "hook_inv st" "sse_ref st = Some i" "\<not> stream_complete st" "open_sources st = {i}" "tail_ok (ch_messages st)"
  using assms by (cases "sse_ref st"; auto simp: chat_inv_def hook_inv_def isGenerating_def)+

lemma hook_after:
  "hook_inv st \<Longrightarrow> i \<in> open_sources st \<Longrightarrow> hook_inv (handleError i e code st)"
  "hook_inv st \<Longrightarrow> i \<in> open_sources st \<Longrightarrow> hook_inv (on_message i data st)"
  "hook_inv st \<Longrightarrow> isGenerating st \<Longrightarrow> hook_inv (stopGeneration st)"
  "hook_inv st \<Longrightarrow> hook_inv (sendChat starts st)"
  using effect_error effect_message effect_stop effect_send by (simp_all add: hook_effect_def)

lemma idle_error:
  assumes "chat_inv st" "i \<in> open_sources st"
  shows "idle (handleError i e code st)"
proof -
  note o = open_facts [OF assms]
  have "use_stream st" using assms by (simp add: chat_inv_def)
  then show ?thesis using hook_after(1) [OF o(1) assms(2), of e code]
    unfolding idle_def chat_inv_def by (simp add: handleError_def chat_simps o update_rules)
qed

lemma idle_done:
  assumes "chat_inv st" "i \<in> open_sources st"
  shows "idle (on_message i (js ''[DONE]'') st)"
proof -
  note o = open_facts [OF assms]
  have "use_stream st" using assms by (simp add: chat_inv_def)
  then show ?thesis using hook_after(2) [OF o(1) assms(2), of "js ''[DONE]''"]
    unfolding idle_def chat_inv_def by (simp add: on_message_def chat_simps o update_rules)
qed

lemma idle_stop:
  assumes "chat_inv st"
  shows "idle (stopGeneration st)"
proof (cases "sse_ref st")
  case None
  have "hook_inv (stopGeneration st)" using assms None
    by (simp add: chat_inv_def stopGeneration_def stopStream_def)
  then show ?thesis using assms None
    unfolding idle_def chat_inv_def by (simp add: stopGeneration_def stopStream_def chat_simps update_rules)
next
  case (Some i)
  then have "hook_inv (stopGeneration st)" using assms by (intro hook_after(3)) (simp_all add: chat_inv_def isGenerating_def)
  then show ?thesis using assms Some
    unfolding idle_def chat_inv_def by (simp add: stopGeneration_def stopStream_def chat_simps update_rules)
qed

lemma inv_send:
  assumes "chat_inv st" "\<not> isGenerating st" "tail_ok ms"
  shows "chat_inv (sendChat starts (st\<lparr> ch_messages := ms \<rparr>))"
proof -
  have "hook_inv (sendChat starts (st\<lparr> ch_messages := ms \<rparr>))"
    using assms by (intro hook_after(4)) (simp add: chat_inv_def)
  then show ?thesis using assms
    by (simp add: chat_inv_def sendChat_def chat_simps sendStreamRequest_def Let_def update_rules)
qed

lemma chunk_keeps:
  "tail_ok (ch_messages st) \<Longrightarrow> tail_ok (ch_messages (update_if t v st))"
  "sse_ref (update_if t v st) = sse_ref st" "open_sources (update_if t v st) = open_sources st"
  "use_stream (update_if t v st) = use_stream st"
  by (simp_all add: update_if_def chat_simps update_rules)

lemma inv_message:
  assumes "chat_inv st" "i \<in> open_sources st"
  shows "chat_inv (on_message i data st) \<and> (message_label data = Finish \<longrightarrow> idle (on_message i data st))"
proof (cases "data = js ''[DONE]''")
  case True
  then show ?thesis using idle_done [OF assms] by (simp add: idle_def)
next
  case False
  note o = open_facts [OF assms]
  have "use_stream st" "isGenerating st" using assms(1) o(2) by (simp_all add: chat_inv_def isGenerating_def)
  then have "chat_inv (update_if t v (update_if t' v' st))" "chat_inv (update_if t v st)" for t v t' v'
    using o by (simp_all add: chat_inv_def chunk_keeps isGenerating_def)
  then show ?thesis
    using False idle_error [OF assms] assms(1)
    by (simp add: on_message_def message_label_def idle_def split: option.split)
qed

lemma tail_ok_edit: "tail_ok (map (edit_message k t) ms) = tail_ok ms" "settled (map (edit_message k t) ms) = settled ms"
  using tail_ok_map [of "edit_message k t" ms] by simp_all

lemma idle_settled: "chat_inv st \<Longrightarrow> \<not> isGenerating st \<Longrightarrow> settled (ch_messages st)"
  by (simp add: chat_inv_def)

lemma inv_regenerate:
  assumes "chat_inv st" "\<not> isGenerating st"
  shows "chat_inv (handleRegenerateMessage key ids starts st)"
  using assms idle_settled [OF assms]
  by (auto simp: handleRegenerateMessage_def settled_take split: option.split intro!: inv_send tail_ok_snoc)

lemma inv_editing [simp]: "chat_inv (st\<lparr> editing_key := k \<rparr>) = chat_inv st" "isGenerating (st\<lparr> editing_key := k \<rparr>) = isGenerating st"
  by (simp_all add: chat_inv_def isGenerating_def)

lemma inv_edit:
  assumes "chat_inv st" "submit \<longrightarrow> \<not> isGenerating st"
  shows "chat_inv (applyEdit body submit ids starts st)"
proof (cases "find_index (\<lambda>m. msg_key m = or_text (editing_key st) []) (ch_messages st)")
  case None
  with assms show ?thesis by (simp add: applyEdit_def Let_def)
next
  case (Some i)
  let ?ms = "map (edit_message (or_text (editing_key st) []) body) (ch_messages st)"
  let ?st = "st\<lparr> editing_key := None \<rparr>"
  have saved: "chat_inv (?st\<lparr> ch_messages := ?ms \<rparr>)"
    using assms(1) by (simp add: chat_inv_def isGenerating_def tail_ok_edit)
  have "chat_inv (sendChat starts (?st\<lparr> ch_messages := take (Suc i) ?ms
      @ [createLoadingAssistantMessage (ids ! 0) (ids ! 1)] \<rparr>))" if submit
  proof (rule inv_send)
    show "chat_inv ?st" "\<not> isGenerating ?st" using assms that by simp_all
    have "settled (ch_messages st)" using assms that by (simp add: idle_settled)
    then show "tail_ok (take (Suc i) ?ms @ [createLoadingAssistantMessage (ids ! 0) (ids ! 1)])"
      by (intro tail_ok_snoc settled_take) (simp_all add: tail_ok_edit)
  qed
  with saved assms(1) show ?thesis by (simp add: applyEdit_def Some Let_def)
qed

lemma inv_guarded:
  assumes "chat_inv st" "\<not> isGenerating st \<Longrightarrow> chat_inv (f st)"
  shows "chat_inv (guardAction f st)"
  using assms by (simp add: guardAction_def) (simp add: chat_inv_def isGenerating_def)

lemma inv_delete: "chat_inv st \<Longrightarrow> \<not> isGenerating st \<Longrightarrow> chat_inv (handleDeleteMessage key st)"
  by (simp add: handleDeleteMessage_def chat_inv_def isGenerating_def settled_filter settled_tail_ok)

lemma inv_preset: "chat_inv st \<Longrightarrow> chat_inv (apply_preset prompt ids st)"
  by (simp add: apply_preset_def chat_inv_def isGenerating_def tail_ok_filter settled_filter)
    (simp add: settled_def list_all_iff)

lemma inv_step: "chat_step st l st' \<Longrightarrow> chat_inv st \<Longrightarrow> l = Start \<longrightarrow> \<not> isGenerating st \<Longrightarrow> chat_inv st'"
proof (induction rule: chat_step.induct)
  case (send st body ids starts)
  then have "settled (ch_messages st)" by (simp add: idle_settled)
  then have "tail_ok ((ch_messages st @ [createUserMessage (ids ! 0) (ids ! 1) body])
      @ [createLoadingAssistantMessage (ids ! 2) (ids ! 3)])"
    by (intro tail_ok_snoc) (simp_all add: settled_def)
  with send show ?case by (simp add: handleSendMessage_def inv_send)
next
  case (message i st data)
  then show ?case by (simp add: inv_message)
next
  case (failed i st rs data)
  then show ?case using idle_error by (simp add: on_error_def idle_def split: prod.split)
next
  case (state_change i st rs http)
  then show ?case using idle_error by (simp add: on_readystatechange_def idle_def split: option.split)
next
  case (reply st choice)
  then show ?case by (simp add: chat_inv_def hook_inv_def)
next
  case (reply_failed st r m code)
  then show ?case by (simp add: chat_inv_def hook_inv_def)
next
  case (stop st)
  then show ?case using idle_stop by (simp add: idle_def)
qed (simp_all add: inv_guarded inv_regenerate inv_edit inv_delete inv_preset handleEditMessage_def handleEditOpenChange_def)

lemma calm_run: "chat_run calm st \<Longrightarrow> calm \<longrightarrow> chat_inv st"
proof (induction rule: chat_run.induct)
  case (init stream ms)
  then show ?case using hook_run [OF chat_run.init [of stream ms]]
    by (auto simp: chat_inv_def initial_chat_def settled_tail_ok)
next
  case (step calm st l st')
  then show ?case using inv_step by blast
qed

lemma calm_finish:
  assumes "chat_inv st" "chat_step st Finish st'"
  shows "idle st'"
  using assms(2)
proof cases
  case (message i data)
  then show ?thesis using inv_message [OF assms(1), of i data] by simp
next
  case (failed i rs data)
  then show ?thesis using idle_error [OF assms(1)]
    by (simp add: on_error_def error_label_def split: prod.splits if_splits)
next
  case (state_change i rs http)
  then show ?thesis using idle_error [OF assms(1)]
    by (simp add: on_readystatechange_def state_label_def split: option.splits if_splits)
qed (simp_all split: if_splits)

section \<open>The machine from outside\<close>

text \<open>C6. In every reachable state the sources are numbered in the order they were opened, the
  reference is to the newest one, which is then open, and a generating chat is not marked complete;
  with streaming no request of the other kind is under way, without it no source is ever open. In
  a calm run, one that streams and starts nothing while a reply is generated, at most one source is
  open, and exactly while generating; no message but the last waits for its reply, and none does
  when nothing is generated.\<close>

lemma generation_invariant:
  assumes "chat_run calm st"
  shows "finite (open_sources st) \<and> (\<forall>i\<in>open_sources st. i < next_source st)
    \<and> (\<forall>i. sse_ref st = Some i \<longrightarrow> i \<in> open_sources st \<and> Suc i = next_source st)
    \<and> (isGenerating st \<longrightarrow> \<not> stream_complete st)
    \<and> (if use_stream st then pending_replies st = 0 else open_sources st = {})
    \<and> (calm \<longrightarrow> open_sources st = set_option (sse_ref st)
        \<and> settled (butlast (ch_messages st)) \<and> (isGenerating st \<or> settled (ch_messages st)))"
  using hook_run [OF assms] calm_run [OF assms] unfolding hook_inv_def chat_inv_def tail_ok_def by blast

abbreviation first_send :: ChatState where
  "first_send \<equiv> handleSendMessage (js ''hi'') (replicate 4 []) True (initial_chat True [])"

definition sample_run :: ChatState where
  "sample_run = on_message 0 (js ''[DONE]'') first_send"

lemma first_send_state:
  "open_sources first_send = {0}" "sse_ref first_send = Some 0" "isGenerating first_send"
  by (simp_all add: handleSendMessage_def sendChat_def sendStreamRequest_def initial_chat_def Let_def isGenerating_def)

lemma sample_reachable: "chat_run True first_send" "chat_run True sample_run"
proof -
  have none: "sanitizeMessagesOnLoad [] = []" by (simp add: sanitizeMessagesOnLoad_def)
  have "chat_run True (initial_chat True [])" using chat_run.init [of True "[]"] by (simp add: none settled_def)
  moreover have "\<not> isGenerating (initial_chat True [])" by (simp add: initial_chat_def isGenerating_def)
  ultimately show st: "chat_run True first_send"
    using chat_run.step [OF _ chat_step.send, of True "initial_chat True []"] by simp
  have "chat_step first_send (message_label (js ''[DONE]'')) sample_run"
    unfolding sample_run_def by (rule chat_step.message) (simp add: first_send_state)
  from chat_run.step [OF st this] show "chat_run True sample_run" by (simp add: message_label_def)
qed

lemma generation_invariant_witness:
  "(isGenerating sample_run \<or> settled (ch_messages sample_run)) \<and> open_sources first_send = set_option (sse_ref first_send)"
  using generation_invariant [OF sample_reachable(2)] generation_invariant [OF sample_reachable(1)] by blast

text \<open>The reply that is shown last is not waiting.\<close>

definition reply_settled :: "Message list \<Rightarrow> bool" where
  "reply_settled ms = (case rev ms of [] \<Rightarrow> True | m # _ \<Rightarrow> msg_from m = Assistant \<longrightarrow> \<not> pending m)"

lemma stop_settles: "reply_settled (ch_messages (stopGeneration st))"
  by (cases "ch_messages (stopStream st)" rule: rev_cases)
    (simp_all add: stopGeneration_def chat_simps reply_settled_def updateLastAssistantMessage_def)

lemma stop_idle: "\<not> isGenerating (stopGeneration st)"
  by (simp add: stopGeneration_def stopStream_def chat_simps split: option.split)

lemma done_step:
  assumes "hook_inv st" "i \<in> open_sources st"
  shows "chat_step st Finish (on_message i (js ''[DONE]'') st)"
    and "open_sources (on_message i (js ''[DONE]'') st) = open_sources st - {i}"
    and "\<not> isGenerating (on_message i (js ''[DONE]'') st)"
  using chat_step.message [OF assms(2), of "js ''[DONE]''"] by (simp_all add: message_label_def on_message_def chat_simps)

lemma drained: "hook_inv st \<Longrightarrow>
  \<exists>st'. (\<lambda>s t. chat_step s Finish t)\<^sup>*\<^sup>* st st' \<and> open_sources st' = {} \<and> \<not> isGenerating st'"
proof (induction "card (open_sources st)" arbitrary: st)
  case 0
  then have "open_sources st = {}" "sse_ref st = None"
    by (cases "sse_ref st"; auto simp: hook_inv_def)+
  then show ?case by (intro exI [of _ st]) (simp add: isGenerating_def)
next
  case (Suc n)
  then obtain i where i: "i \<in> open_sources st" by (metis card.empty ex_in_conv nat.distinct(1))
  let ?st = "on_message i (js ''[DONE]'') st"
  note step = done_step [OF Suc.prems i]
  have "hook_inv ?st" by (rule hook_after(2) [OF Suc.prems i])
  moreover have "n = card (open_sources ?st)" using Suc i step(2) by (simp add: hook_inv_def)
  ultimately obtain st' where "(\<lambda>s t. chat_step s Finish t)\<^sup>*\<^sup>* ?st st'" "open_sources st' = {}" "\<not> isGenerating st'"
    using Suc.hyps(1) [of ?st] by blast
  with step(1) show ?case by (blast intro: converse_rtranclp_into_rtranclp)
qed

text \<open>C8. The chat never gets stuck generating. Stopping is possible whenever a reply is generated and
  leaves nothing generating and the last reply settled; every event that ends a stream leaves nothing
  generating; and from every reachable state the ends of the open streams close them all. In a calm
  run stopping and the end of the stream leave no message waiting and no source open.\<close>

lemma chat_settles:
  assumes "chat_run calm st"
  shows "(isGenerating st \<longrightarrow> chat_step st Stop (stopGeneration st))
    \<and> \<not> isGenerating (stopGeneration st) \<and> reply_settled (ch_messages (stopGeneration st))
    \<and> (\<forall>st'. chat_step st Finish st' \<longrightarrow> \<not> isGenerating st')
    \<and> (\<exists>st'. (\<lambda>s t. chat_step s Finish t)\<^sup>*\<^sup>* st st' \<and> open_sources st' = {} \<and> \<not> isGenerating st')
    \<and> (calm \<longrightarrow> settled (ch_messages (stopGeneration st)) \<and> open_sources (stopGeneration st) = {}
        \<and> (\<forall>st'. chat_step st Finish st' \<longrightarrow> settled (ch_messages st') \<and> open_sources st' = {}))"
proof -
  note inv = hook_run [OF assms]
  have finish: "\<not> isGenerating st'" if "chat_step st Finish st'" for st'
    using effect_step [OF that inv] by (auto simp: hook_effect_def phase_def elim: spec_step.cases)
  have quiet: "settled (ch_messages s) \<and> open_sources s = {}" if "idle s" for s
    using that by (simp add: idle_def chat_inv_def isGenerating_def)
  have "settled (ch_messages (stopGeneration st)) \<and> open_sources (stopGeneration st) = {}
      \<and> (\<forall>st'. chat_step st Finish st' \<longrightarrow> settled (ch_messages st') \<and> open_sources st' = {})" if calm
    using calm_run [OF assms] that quiet idle_stop calm_finish by blast
  with finish show ?thesis
    using chat_step.stop stop_idle stop_settles drained [OF inv] by blast
qed

lemma chat_settles_witness:
  "chat_step first_send Stop (stopGeneration first_send) \<and> settled (ch_messages (stopGeneration first_send))"
  using chat_settles [OF sample_reachable(1)] first_send_state(3) by blast

text \<open>Whatever arrives on the stream, a message event changes at most the last message, and only one
  of the assistant: keys, roles and all other messages stay. A reply that already failed is not
  changed by further chunks.\<close>

lemma stream_touches_last_reply:
  "map msg_key (ch_messages (on_message i data st)) = map msg_key (ch_messages st)
   \<and> map msg_from (ch_messages (on_message i data st)) = map msg_from (ch_messages st)
   \<and> butlast (ch_messages (on_message i data st)) = butlast (ch_messages st)
   \<and> stream_chunk t c (m\<lparr> status := Some Failed \<rparr>) = m\<lparr> status := Some Failed \<rparr>"
proof -
  have upd: "map msg_key (ch_messages (update_if t v s)) = map msg_key (ch_messages s)
      \<and> map msg_from (ch_messages (update_if t v s)) = map msg_from (ch_messages s)
      \<and> butlast (ch_messages (update_if t v s)) = butlast (ch_messages s)" for t v s
    by (simp add: update_if_def chat_simps chunk.frame)
  have "map msg_key (ch_messages (handleError i e code s)) = map msg_key (ch_messages s)
      \<and> map msg_from (ch_messages (handleError i e code s)) = map msg_from (ch_messages s)
      \<and> butlast (ch_messages (handleError i e code s)) = butlast (ch_messages s)" for e code s
    by (simp add: handleError_def chat_simps failure.frame)
  then show ?thesis
    using upd by (simp add: on_message_def chat_simps completion.frame stream_chunk_def split: option.split)
qed

subsection \<open>Refinement\<close>

text \<open>C9. The chat refines the counting specification: in every reachable state, also when messages
  are sent while a reply is generated, each of its steps is a step of the automaton with the same
  label. So a start opens at most one source, chunks arrive only from an open source and change
  neither the number of sources nor whether the chat is generating, the end of a stream closes the
  source it came from and ends the generation, and stopping closes one source: older ones go on.\<close>

lemma chat_refines_phases:
  assumes "chat_run calm st" "chat_step st l st'"
  shows "spec_step (phase st) l (phase st')"
  using effect_step [OF assms(2) hook_run [OF assms(1)]] by (simp add: hook_effect_def)

lemma chat_refines_phases_witness: "spec_step (True, 1) Start (True, 2)"
proof -
  have "spec_step (phase first_send) Start
      (phase (handleSendMessage (js ''Code'') (replicate 4 []) True first_send))"
    by (rule chat_refines_phases [OF sample_reachable(1) chat_step.send])
  then show ?thesis
    by (simp add: phase_def initial_chat_def isGenerating_def handleSendMessage_def sendChat_def
        sendStreamRequest_def Let_def numeral_2_eq_2)
qed

section \<open>What can go wrong\<close>

text \<open>Without streaming, a reply that has no choice leaves the message waiting.\<close>

lemma empty_reply_waits: "ch_messages (nonstream_reply None st) = ch_messages st"
  by (simp add: nonstream_reply_def request_ended_def)

text \<open>The suggestions below the input are not guarded: a second message sent while the first is
  generated leaves the first reply waiting for good, and so it is when the first stream ends.\<close>

lemma unguarded_send_strands_reply:
  "let send = handleSendMessage (js ''Code'') (replicate 4 []) True;
       st = on_message 1 (js ''[DONE]'') (on_message 0 (js ''[DONE]'') (send (send (initial_chat True [])))) in
   pending (ch_messages st ! 1) \<and> \<not> isGenerating st \<and> open_sources st = {}"
  by (simp add: Let_def handleSendMessage_def sendChat_def sendStreamRequest_def initial_chat_def on_message_def chat_simps
      updateLastAssistantMessage_def createLoadingAssistantMessage_def createUserMessage_def plain_message_def pending_def) auto

text \<open>A stop then closes the newer stream only: the older one stays open.\<close>

lemma older_stream_survives_stop:
  "let send = handleSendMessage (js ''Code'') (replicate 4 []) True;
       st = stopGeneration (send (send (initial_chat True []))) in
   \<not> isGenerating st \<and> open_sources st = {0}"
  by (simp add: Let_def handleSendMessage_def sendChat_def sendStreamRequest_def initial_chat_def
      stopGeneration_def stopStream_def chat_simps)

end
