(* ===== verification/Js_Order.thy ===== *)
theory Js_Order
  imports Js_String
begin

text \<open>
  Sorting by keys. Numbers are linearly ordered once \<open>NaN\<close> is put below the others (on numbers that
  are not \<open>NaN\<close> it is the comparison \<open><=\<close>); comparators of the form \<open>(a, b) => key(a) - key(b)\<close>
  sort by that order as long as the keys are doubles. A comparator that separates two classes only
  moves the first class to the front. Arithmetic with non-negative factors is monotone.
\<close>

section \<open>The order of numbers\<close>

instantiation jnum :: linorder
begin

definition less_eq_jnum :: "jnum \<Rightarrow> jnum \<Rightarrow> bool" where
  "less_eq_jnum x y = (x = JNaN \<or> jle x y)"

definition less_jnum :: "jnum \<Rightarrow> jnum \<Rightarrow> bool" where
  "less_jnum x y = ((x = JNaN \<and> y \<noteq> JNaN) \<or> jlt x y)"

instance
proof
  fix x y z :: jnum
  show "(x < y) = (x \<le> y \<and> \<not> y \<le> x)"
    by (cases x; cases y) (auto simp: less_eq_jnum_def less_jnum_def jle_def jeq_def)
  show "x \<le> x" by (cases x) (auto simp: less_eq_jnum_def jle_def jeq_def)
  show "x \<le> y \<Longrightarrow> y \<le> z \<Longrightarrow> x \<le> z"
    by (cases x; cases y; cases z) (auto simp: less_eq_jnum_def jle_def jeq_def)
  show "x \<le> y \<Longrightarrow> y \<le> x \<Longrightarrow> x = y"
    by (cases x; cases y) (auto simp: less_eq_jnum_def jle_def jeq_def)
  show "x \<le> y \<or> y \<le> x"
    by (cases x; cases y) (auto simp: less_eq_jnum_def jle_def jeq_def)
qed

end

lemma jle_iff_le: "x \<noteq> JNaN \<Longrightarrow> jle x y \<longleftrightarrow> x \<le> y"
  by (simp add: less_eq_jnum_def)

lemma jle_refl [simp]: "jle x x \<longleftrightarrow> x \<noteq> JNaN"
  by (cases x) (auto simp: jle_def jeq_def)

lemma jle_trans: "jle x y \<Longrightarrow> jle y z \<Longrightarrow> jle x z"
  by (cases x; cases y; cases z) (auto simp: jle_def jeq_def)

lemma jlt_imp_jle: "jlt x y \<Longrightarrow> jle x y"
  by (simp add: jle_def)

lemma not_jlt_jle: "x \<noteq> JNaN \<Longrightarrow> y \<noteq> JNaN \<Longrightarrow> \<not> jlt x y \<Longrightarrow> jle y x"
  by (cases x; cases y) (auto simp: jle_def jeq_def)

lemma jle_not_NaN: "jle x y \<Longrightarrow> x \<noteq> JNaN \<and> y \<noteq> JNaN"
  by (cases x; cases y) (auto simp: jle_def jeq_def)

section \<open>Monotone arithmetic\<close>

lemma jle_special [simp]:
  "\<not> jle JNaN x" "\<not> jle x JNaN" "jle x JPInf \<longleftrightarrow> x \<noteq> JNaN" "jle JNInf x \<longleftrightarrow> x \<noteq> JNaN"
  "jle JPInf x \<longleftrightarrow> x = JPInf" "jle x JNInf \<longleftrightarrow> x = JNInf"
  by (cases x; simp add: jle_def jeq_def)+

lemma to_double_not_NaN [simp]: "to_double q \<noteq> JNaN"
  by (simp add: to_double_def Let_def)

lemma jmul_mono:
  assumes "jle (JFin 0) c" "jle a b" "jmul a c \<noteq> JNaN" "jmul b c \<noteq> JNaN"
  shows "jle (jmul a c) (jmul b c)"
  using assms
  by (cases a; cases b; cases c)
    (auto simp: inf_sgn_def intro!: to_double_mono mult_right_mono split: if_splits)

lemma jdiv_mono:
  assumes "0 < q" "jle a b"
  shows "jle (jdiv a (JFin q)) (jdiv b (JFin q))"
  using assms
  by (cases a; cases b)
    (auto simp: inf_sgn_def intro!: to_double_mono divide_right_mono split: if_splits)

section \<open>Differences as comparators\<close>

text \<open>A number as the language has it: a rational only when it is a double.\<close>

fun is_double :: "jnum \<Rightarrow> bool" where
  "is_double (JFin q) = (to_double q = JFin q)"
| "is_double x = (x \<noteq> JNaN)"

lemma double_step:
  assumes "to_double q = JFin q"
  shows "\<exists>m. q = of_int m * two_pow (- 1074)"
proof (cases "q = 0")
  case True
  then show ?thesis by (intro exI [of _ 0]) simp
next
  case False
  define a where "a = \<bar>q\<bar>"
  from False assms have r: "round_pos a = a"
    by (auto simp: to_double_def Let_def a_def split: if_splits)
  have "0 \<le> ulp_exp a + 1074" by (simp add: ulp_exp_def)
  then have "two_pow (ulp_exp a) = of_int (2 ^ nat (ulp_exp a + 1074)) * two_pow (- 1074)"
    using two_pow_add [of "ulp_exp a + 1074" "- 1074"] by (simp only: two_pow_of_int) simp
  with r have "a = of_int (round_half_even (a / two_pow (ulp_exp a)) * 2 ^ nat (ulp_exp a + 1074)) * two_pow (- 1074)"
    unfolding round_pos_def by (simp add: mult.assoc)
  then obtain m where "a = of_int m * two_pow (- 1074)" by blast
  then have "q = of_int (if 0 \<le> q then m else - m) * two_pow (- 1074)" by (auto simp: a_def)
  then show ?thesis by blast
qed

lemma double_diff_pos:
  assumes "to_double a = JFin a" "to_double b = JFin b" "b < a"
  shows "jlt (JFin 0) (to_double (a - b))"
proof -
  obtain m n where "a = of_int m * two_pow (- 1074)" "b = of_int n * two_pow (- 1074)"
    using double_step [OF assms(1)] double_step [OF assms(2)] by blast
  then have d: "a - b = of_int (m - n) * two_pow (- 1074)" by (simp add: algebra_simps)
  with assms(3) have "0 < m - n" by (metis diff_gt_0_iff_gt of_int_0_less_iff two_pow_pos(1) zero_less_mult_pos2)
  then have "(1 :: rat) \<le> of_int (m - n)" by linarith
  then have "1 * two_pow (- 1074) \<le> a - b" unfolding d by (intro mult_right_mono) simp_all
  then have "jle (to_double (two_pow (- 1074))) (to_double (a - b))" by (intro to_double_mono) simp
  moreover have "jlt (JFin 0) (to_double (two_pow (- 1074)))"
  proof -
    have fl: "floor_log2 (two_pow (- 1074)) = - 1074" by (rule floor_log2_unique) (simp_all add: two_pow_less)
    then have u: "ulp_exp (two_pow (- 1074)) = - 1074" by (simp add: ulp_exp_def)
    then have "round_pos (two_pow (- 1074)) = two_pow (- 1074)"
      using round_half_even_int [of 1] by (simp add: round_pos_def)
    then show ?thesis by (simp add: to_double_pos_cases fl)
  qed
  ultimately show ?thesis by (cases "to_double (two_pow (- 1074))"; cases "to_double (a - b)") (auto simp: jle_def jeq_def)
qed

text \<open>\<open>cmp(a, b) <= 0\<close> for \<open>cmp(a, b) = a - b\<close>; a result \<open>NaN\<close> counts as zero.\<close>

definition diff_le :: "jnum \<Rightarrow> jnum \<Rightarrow> bool" where
  "diff_le x y = (\<not> jlt (JFin 0) (jsub x y))"

lemma diff_le_iff: "is_double x \<Longrightarrow> is_double y \<Longrightarrow> diff_le x y \<longleftrightarrow> x \<le> y"
proof (cases x; cases y)
  fix a b assume *: "is_double x" "is_double y" "x = JFin a" "y = JFin b"
  show ?thesis
  proof (cases "a \<le> b")
    case True
    then have "jle (to_double (a - b)) (to_double 0)" by (intro to_double_mono) simp
    with True * show ?thesis
      by (cases "to_double (a - b)") (auto simp: diff_le_def jsub_def less_eq_jnum_def jle_def jeq_def)
  next
    case False
    with * double_diff_pos [of a b] show ?thesis by (auto simp: diff_le_def jsub_def less_eq_jnum_def)
  qed
qed (auto simp: diff_le_def jsub_def less_eq_jnum_def jle_def jeq_def)

section \<open>Sorting by a key\<close>

lemma insert_by_cong:
  "(\<And>y. y \<in> set xs \<Longrightarrow> le x y = le' x y) \<Longrightarrow> insert_by le x xs = insert_by le' x xs"
  by (induction xs) auto

lemma sort_by_cong:
  "(\<And>x y. x \<in> set xs \<Longrightarrow> y \<in> set xs \<Longrightarrow> le x y = le' x y) \<Longrightarrow> sort_by le xs = sort_by le' xs"
proof (induction xs)
  case (Cons x xs)
  then have "sort_by le xs = sort_by le' xs" by simp
  with Cons.prems show ?case by (auto intro!: insert_by_cong)
qed simp

lemma comparator_key: "comparator (\<lambda>x y. f x \<le> (f y :: 'b :: linorder))"
  by unfold_locales auto

lemma sorted_map_wrt: "sorted (map f xs) \<longleftrightarrow> sorted_wrt (\<lambda>x y. f x \<le> (f y :: 'b :: linorder)) xs"
  by (simp add: sorted_wrt_map)

lemma insert_by_insort: "insert_by (\<lambda>x y. f x \<le> (f y :: 'b :: linorder)) x xs = insort_key f x xs"
  by (induction xs) auto

lemma sort_by_key: "sort_by (\<lambda>x y. f x \<le> (f y :: 'b :: linorder)) xs = sort_key f xs"
  by (induction xs) (simp_all add: insert_by_insort)

text \<open>A comparator that only tells a class from the rest moves the class to the front.\<close>

lemma insert_by_two:
  "insert_by (\<lambda>x y. P x \<or> \<not> P y) x (filter P xs @ filter (\<lambda>y. \<not> P y) xs)
   = filter P (x # xs) @ filter (\<lambda>y. \<not> P y) (x # xs)"
proof (induction xs)
  case (Cons y xs)
  have skip: "insert_by (\<lambda>x y. P x \<or> \<not> P y) x (ys @ zs) = ys @ insert_by (\<lambda>x y. P x \<or> \<not> P y) x zs"
    if "\<not> P x" "list_all P ys" for ys zs using that(2) by (induction ys) (simp_all add: that(1))
  have head: "insert_by (\<lambda>x y. P x \<or> \<not> P y) x ys = x # ys" if "P x \<or> list_all (\<lambda>y. \<not> P y) ys" for ys
    using that by (cases ys) auto
  have all: "list_all P (filter P ys)" "list_all (\<lambda>y. \<not> P y) (filter (\<lambda>y. \<not> P y) ys)" for ys
    by (simp_all add: list_all_iff)
  show ?case
  proof (cases "P x")
    case True
    then show ?thesis by (simp add: head)
  next
    case False
    have "insert_by (\<lambda>x y. P x \<or> \<not> P y) x (filter P (y # xs) @ filter (\<lambda>y. \<not> P y) (y # xs))
        = filter P (y # xs) @ x # filter (\<lambda>y. \<not> P y) (y # xs)"
      unfolding skip [OF False all(1)] by (subst head) (simp_all add: all(2))
    with False show ?thesis by simp
  qed
qed auto

lemma sort_by_two: "sort_by (\<lambda>x y. P x \<or> \<not> P y) xs = filter P xs @ filter (\<lambda>x. \<not> P x) xs"
  by (induction xs) (simp_all only: sort_by_simps filter.simps append.simps insert_by_two)

end
