(* ===== verification/Pricing.thy ===== *)
theory Pricing
  imports Js_Order Js_Lists Currency BillingRoundtrip
begin

text \<open>
  The model price list (\<open>features/pricing\<close>): \<open>types.ts\<close>, \<open>constants.ts\<close>, the ratio-based prices of
  \<open>lib/price.ts\<close>, the expression-based prices of \<open>lib/dynamic-price.ts\<close> and \<open>lib/model-helpers.ts\<close>.
  A field that is absent, \<open>undefined\<close> or \<open>null\<close> is \<open>None\<close>: the modelled code never tells them apart.
\<close>

section \<open>Models\<close>

datatype Modality = Text | Image | Audio | Video | File

datatype ModelCapability = Function_calling | Streaming | Vision | Json_mode | Structured_output | Reasoning
  | Tools | System_prompt | Web_search | Code_interpreter | Caching | Embeddings

record PricingModel =
  pm_name :: jstr
  pm_description :: "jstr option"
  pm_vendor_name :: "jstr option"
  pm_quota_type :: jnum
  pm_model_ratio :: jnum
  pm_completion_ratio :: jnum
  pm_model_price :: "jnum option"
  pm_cache_ratio :: "jnum option"
  pm_create_cache_ratio :: "jnum option"
  pm_image_ratio :: "jnum option"
  pm_audio_ratio :: "jnum option"
  pm_audio_completion_ratio :: "jnum option"
  pm_enable_groups :: "jstr list option"
  pm_tags :: "jstr option"
  pm_endpoint_types :: "jstr list option"
  pm_group_ratio :: "(jstr \<times> jnum) list option"
  pm_billing_mode :: "jstr option"
  pm_billing_expr :: "jstr option"
  pm_context_length :: "jnum option"
  pm_max_output_tokens :: "jnum option"
  pm_knowledge_cutoff :: "jstr option"
  pm_release_date :: "jstr option"
  pm_parameter_count :: "jstr option"
  pm_input_modalities :: "Modality list option"
  pm_output_modalities :: "Modality list option"
  pm_capabilities :: "ModelCapability list option"

datatype TokenUnit = Per_M | Per_K

datatype PriceType = P_input | P_output | P_cache | P_create_cache | P_image | P_audio_input | P_audio_output

definition TOKEN_QUOTA :: jnum where "TOKEN_QUOTA = JFin 0"
definition REQUEST_QUOTA :: jnum where "REQUEST_QUOTA = JFin 1"

fun TOKEN_UNIT_DIVISORS :: "TokenUnit \<Rightarrow> jnum" where
  "TOKEN_UNIT_DIVISORS Per_M = JFin 1"
| "TOKEN_UNIT_DIVISORS Per_K = JFin 1000"

definition EXCLUDED_GROUPS :: "jstr list" where
  "EXCLUDED_GROUPS = [[], js ''auto'']"

text \<open>\<open>Array.isArray(model.enable_groups) ? model.enable_groups : []\<close> and \<open>model.group_ratio || {}\<close>.\<close>

definition enabled_groups :: "PricingModel \<Rightarrow> jstr list" where
  "enabled_groups m = upd (pm_enable_groups m) []"

definition group_ratios :: "PricingModel \<Rightarrow> (jstr \<times> jnum) list" where
  "group_ratios m = upd (pm_group_ratio m) []"

section \<open>Ratio-based prices\<close>

definition stripTrailingZeros :: "jstr \<Rightarrow> jstr" where
  "stripTrailingZeros formatted =
     (case rx_match (RSeqs [RBol, RGrp 1 (RStar (RCh (\<lambda>c. \<not> is_digit c \<and> c \<noteq> 45))),
         RGrp 2 (RSeqs [RPlus (RCh (\<lambda>c. c = 45 \<or> is_digit c \<or> c = 44)), ROpt (RLit 46), RStar (RCh is_digit)]),
         RGrp 3 (ROpt (RLit 107)), REol]) formatted of
       None \<Rightarrow> formatted
     | Some m \<Rightarrow> let parsed = parse_float (filter (\<lambda>c. c \<noteq> 44) (cap m 2)) in
         if parsed = JNaN then formatted
         else let result = num_to_str parsed;
             plain = (if 101 \<in> set result
               then rx_replace1 (RSeqs [ROpt (RLit 46), RPlus (RLit 48), REol]) (\<lambda>_. []) (to_fixed 20 parsed)
               else result) in
           cap m 1 @ plain @ cap m 3)"

fun min_ratio_loop :: "(jstr \<times> jnum) list \<Rightarrow> jnum \<Rightarrow> jstr list \<Rightarrow> jnum" where
  "min_ratio_loop ratios minRatio [] = minRatio"
| "min_ratio_loop ratios minRatio (g # gs) = (case map_of ratios g of
      None \<Rightarrow> min_ratio_loop ratios minRatio gs
    | Some ratio \<Rightarrow> min_ratio_loop ratios (if jlt ratio minRatio then ratio else minRatio) gs)"

definition getMinGroupRatio :: "jstr list \<Rightarrow> (jstr \<times> jnum) list \<Rightarrow> jnum" where
  "getMinGroupRatio enableGroups groupRatio = (if enableGroups = [] then JFin 1
     else let minRatio = min_ratio_loop groupRatio JPInf enableGroups in
       if minRatio = JPInf then JFin 1 else minRatio)"

definition hasRatio :: "jnum option \<Rightarrow> bool" where
  "hasRatio v = (case v of None \<Rightarrow> False | Some x \<Rightarrow> is_finite x)"

fun calculateTokenPrice :: "PricingModel \<Rightarrow> PriceType \<Rightarrow> jnum \<Rightarrow> jnum" where
  "calculateTokenPrice m P_input ratio = jmul (jmul (pm_model_ratio m) (JFin 2)) ratio"
| "calculateTokenPrice m P_output ratio =
     jmul (jmul (jmul (pm_model_ratio m) (JFin 2)) ratio) (pm_completion_ratio m)"
| "calculateTokenPrice m P_cache ratio = (if hasRatio (pm_cache_ratio m)
     then jmul (jmul (jmul (pm_model_ratio m) (JFin 2)) ratio) (the (pm_cache_ratio m)) else JNaN)"
| "calculateTokenPrice m P_create_cache ratio = (if hasRatio (pm_create_cache_ratio m)
     then jmul (jmul (jmul (pm_model_ratio m) (JFin 2)) ratio) (the (pm_create_cache_ratio m)) else JNaN)"
| "calculateTokenPrice m P_image ratio = (if hasRatio (pm_image_ratio m)
     then jmul (jmul (jmul (pm_model_ratio m) (JFin 2)) ratio) (the (pm_image_ratio m)) else JNaN)"
| "calculateTokenPrice m P_audio_input ratio = (if hasRatio (pm_audio_ratio m)
     then jmul (jmul (jmul (pm_model_ratio m) (JFin 2)) ratio) (the (pm_audio_ratio m)) else JNaN)"
| "calculateTokenPrice m P_audio_output ratio =
     (if hasRatio (pm_audio_ratio m) \<and> hasRatio (pm_audio_completion_ratio m)
      then jmul (jmul (jmul (jmul (pm_model_ratio m) (JFin 2)) ratio) (the (pm_audio_ratio m)))
        (the (pm_audio_completion_ratio m)) else JNaN)"

definition applyRechargeRate :: "jnum \<Rightarrow> bool \<Rightarrow> jnum \<Rightarrow> jnum \<Rightarrow> jnum" where
  "applyRechargeRate price showWithRecharge priceRate exchangeRate =
     (if \<not> showWithRecharge then price else jdiv (jmul price priceRate) exchangeRate)"

text \<open>The options every price is printed with, by the digits of a small amount.\<close>

definition price_options :: "nat \<Rightarrow> CurrencyFormatOptions option" where
  "price_options small = Some \<lparr> o_digitsLarge = Some 4, o_digitsSmall = Some small,
     o_abbreviate = Some False, o_minimumNonZero = None \<rparr>"

text \<open>How a price is shown: with the recharge rate or not, the rate, the exchange rate.\<close>

record Recharge =
  rc_show :: bool
  rc_priceRate :: jnum
  rc_exchangeRate :: jnum

definition token_price :: "PricingModel \<Rightarrow> PriceType \<Rightarrow> TokenUnit \<Rightarrow> Recharge \<Rightarrow> jnum \<Rightarrow> jnum" where
  "token_price m ty unit rc ratio =
     jdiv (applyRechargeRate (calculateTokenPrice m ty ratio) (rc_show rc) (rc_priceRate rc) (rc_exchangeRate rc))
       (TOKEN_UNIT_DIVISORS unit)"

definition request_price :: "PricingModel \<Rightarrow> Recharge \<Rightarrow> jnum \<Rightarrow> jnum" where
  "request_price m rc ratio = applyRechargeRate (jmul (jor (upd (pm_model_price m) JNaN) (JFin 0)) ratio)
     (rc_show rc) (rc_priceRate rc) (rc_exchangeRate rc)"

text \<open>\<open>groupRatio[group] || 1\<close>.\<close>

definition ratio_of :: "(jstr \<times> jnum) list \<Rightarrow> jstr \<Rightarrow> jnum" where
  "ratio_of ratios g = (case map_of ratios g of None \<Rightarrow> JFin 1 | Some r \<Rightarrow> jor r (JFin 1))"

definition formatPrice ::
  "intl \<Rightarrow> SystemConfigState \<Rightarrow> PricingModel \<Rightarrow> PriceType \<Rightarrow> TokenUnit \<Rightarrow> Recharge \<Rightarrow> jstr" where
  "formatPrice intl st m ty unit rc = (if jeq (pm_quota_type m) REQUEST_QUOTA then js ''-''
     else let minRatio = getMinGroupRatio (enabled_groups m) (group_ratios m) in
       formatCurrencyFromUSD intl st (Some (token_price m ty unit rc minRatio)) (price_options 6))"

definition formatGroupPrice :: "intl \<Rightarrow> SystemConfigState \<Rightarrow> PricingModel \<Rightarrow> jstr \<Rightarrow> PriceType
    \<Rightarrow> TokenUnit \<Rightarrow> Recharge \<Rightarrow> (jstr \<times> jnum) list \<Rightarrow> jstr" where
  "formatGroupPrice intl st m g ty unit rc groupRatio =
     (if jeq (pm_quota_type m) REQUEST_QUOTA then js ''-''
      else formatCurrencyFromUSD intl st (Some (token_price m ty unit rc (ratio_of groupRatio g))) (price_options 6))"

definition formatFixedPrice :: "intl \<Rightarrow> SystemConfigState \<Rightarrow> PricingModel \<Rightarrow> jstr \<Rightarrow> Recharge
    \<Rightarrow> (jstr \<times> jnum) list \<Rightarrow> jstr" where
  "formatFixedPrice intl st m g rc groupRatio =
     (if \<not> jeq (pm_quota_type m) REQUEST_QUOTA then js ''-''
      else formatCurrencyFromUSD intl st (Some (request_price m rc (ratio_of groupRatio g))) (price_options 4))"

definition formatRequestPrice :: "intl \<Rightarrow> SystemConfigState \<Rightarrow> PricingModel \<Rightarrow> Recharge \<Rightarrow> jstr" where
  "formatRequestPrice intl st m rc = (if \<not> jeq (pm_quota_type m) REQUEST_QUOTA then js ''-''
     else let minRatio = getMinGroupRatio (enabled_groups m) (group_ratios m) in
       formatCurrencyFromUSD intl st (Some (request_price m rc minRatio)) (price_options 4))"

section \<open>Helpers\<close>

definition getAvailableGroups :: "PricingModel \<Rightarrow> (jstr \<times> 'a) list \<Rightarrow> jstr list" where
  "getAvailableGroups m usableGroup = filter (\<lambda>g. g \<in> set (enabled_groups m))
     (filter (\<lambda>g. g \<notin> set EXCLUDED_GROUPS) (map fst usableGroup))"

text \<open>\<open>path.replace(/\{model\}/g, modelName)\<close>; \<open>$\<close> patterns of the replacement text are expanded.\<close>

definition PLACEHOLDER :: jstr where
  "PLACEHOLDER = js ''{model}''"

fun expand_dollar :: "jstr \<Rightarrow> jstr \<Rightarrow> jstr \<Rightarrow> jstr \<Rightarrow> jstr" where
  "expand_dollar before matched after (c # d # s) =
     (if c = 36 then
        if d = 36 then 36 # expand_dollar before matched after s
        else if d = 38 then matched @ expand_dollar before matched after s
        else if d = 96 then before @ expand_dollar before matched after s
        else if d = 39 then after @ expand_dollar before matched after s
        else c # expand_dollar before matched after (d # s)
      else c # expand_dollar before matched after (d # s))"
| "expand_dollar before matched after s = s"

function replace_placeholder :: "jstr \<Rightarrow> jstr \<Rightarrow> jstr \<Rightarrow> jstr" where
  "replace_placeholder before name [] = []"
| "replace_placeholder before name (c # s) =
     (if starts_with PLACEHOLDER (c # s)
      then let rest = drop 7 (c # s) in
        expand_dollar before PLACEHOLDER rest name @ replace_placeholder (before @ PLACEHOLDER) name rest
      else c # replace_placeholder (before @ [c]) name s)"
  by pat_completeness auto
termination by (relation "measure (\<lambda>(b, n, s). length s)") auto

definition replaceModelInPath :: "jstr \<Rightarrow> jstr \<Rightarrow> jstr" where
  "replaceModelInPath path modelName = replace_placeholder [] modelName path"

definition isTokenBasedModel :: "PricingModel \<Rightarrow> bool" where
  "isTokenBasedModel m = jeq (pm_quota_type m) TOKEN_QUOTA"

section \<open>Expression-based prices\<close>

record DynamicPriceOptions =
  dp_tokenUnit :: TokenUnit
  dp_showRechargePrice :: "bool option"
  dp_priceRate :: "jnum option"
  dp_usdExchangeRate :: "jnum option"
  dp_groupRatioMultiplier :: "jnum option"

record DynamicPriceEntry =
  de_key :: jstr
  de_field :: jstr
  de_label :: jstr
  de_shortLabel :: jstr
  de_value :: jnum
  de_formatted :: jstr
  de_variable :: BillingVar


definition PRIMARY_DYNAMIC_FIELDS :: "jstr list" where
  "PRIMARY_DYNAMIC_FIELDS = [js ''inputPrice'', js ''outputPrice'']"


definition getDynamicDisplayGroupRatio :: "PricingModel \<Rightarrow> jnum" where
  "getDynamicDisplayGroupRatio m = (let groups = enabled_groups m; ratios = group_ratios m in
     if groups = [] then JFin 1
     else let minRatio = foldl (\<lambda>minRatio g. case map_of ratios g of
           Some ratio \<Rightarrow> if jlt ratio minRatio then ratio else minRatio | None \<Rightarrow> minRatio) JPInf groups in
       if minRatio = JPInf then JFin 1 else minRatio)"

definition formatDynamicUnitPrice :: "intl \<Rightarrow> SystemConfigState \<Rightarrow> jnum \<Rightarrow> DynamicPriceOptions \<Rightarrow> jstr" where
  "formatDynamicUnitPrice intl st perMillion opts =
     (let groupRatio = upd (dp_groupRatioMultiplier opts) (JFin 1);
          priceRate = upd (dp_priceRate opts) (JFin 1);
          exchangeRate = upd (dp_usdExchangeRate opts) (JFin 1);
          priceUSD = jdiv (jmul perMillion groupRatio) (TOKEN_UNIT_DIVISORS (dp_tokenUnit opts));
          displayPrice = applyRechargeRate priceUSD (upd (dp_showRechargePrice opts) False) priceRate exchangeRate in
      formatBillingCurrencyFromUSD intl st (Some displayPrice) (price_options 6))"



definition tier_price :: "ParsedTier \<Rightarrow> jstr \<Rightarrow> jnum" where
  "tier_price tier field = (case map_of (pt_fields tier) field of None \<Rightarrow> JNaN | Some x \<Rightarrow> x)"

definition price_entry ::
  "intl \<Rightarrow> SystemConfigState \<Rightarrow> ParsedTier \<Rightarrow> DynamicPriceOptions \<Rightarrow> BillingVar \<Rightarrow> DynamicPriceEntry list" where
  "price_entry intl st tier opts variable = (case bv_field variable of None \<Rightarrow> []
     | Some field \<Rightarrow> let v = tier_price tier field in
         if \<not> is_finite v \<or> jle v (JFin 0) then []
         else [\<lparr> de_key = bv_key variable, de_field = field, de_label = bv_label variable,
           de_shortLabel = bv_shortLabel variable, de_value = v,
           de_formatted = formatDynamicUnitPrice intl st v opts, de_variable = variable \<rparr>])"

definition is_primary :: "DynamicPriceEntry \<Rightarrow> bool" where
  "is_primary e = (de_field e \<in> set PRIMARY_DYNAMIC_FIELDS)"

definition entry_le :: "DynamicPriceEntry \<Rightarrow> DynamicPriceEntry \<Rightarrow> bool" where
  "entry_le a b = (if is_primary a \<noteq> is_primary b then is_primary a else True)"

definition getDynamicPriceEntries ::
  "intl \<Rightarrow> SystemConfigState \<Rightarrow> ParsedTier option \<Rightarrow> DynamicPriceOptions \<Rightarrow> DynamicPriceEntry list" where
  "getDynamicPriceEntries intl st tier opts = (case tier of None \<Rightarrow> []
     | Some t \<Rightarrow> sort_by entry_le (concat (map (price_entry intl st t opts) BILLING_PRICING_VARS)))"


section \<open>The smallest ratio\<close>

lemma min_ratio_loop_foldl:
  "min_ratio_loop ratios r gs = foldl (\<lambda>minRatio g. case map_of ratios g of
     Some ratio \<Rightarrow> if jlt ratio minRatio then ratio else minRatio | None \<Rightarrow> minRatio) r gs"
  by (induction gs arbitrary: r) (auto split: option.splits)

lemma min_ratio_loop_le:
  assumes "r \<noteq> JNaN"
  shows "jle (min_ratio_loop ratios r gs) r"
  using assms
proof (induction gs arbitrary: r)
  case (Cons g gs)
  show ?case
  proof (cases "map_of ratios g")
    case (Some q)
    define r' where "r' = (if jlt q r then q else r)"
    have "jle r' r" using Cons.prems by (simp add: r'_def jlt_imp_jle)
    with Cons.IH [of r'] show ?thesis
      using Some jle_trans jle_not_NaN by (fastforce simp: r'_def [symmetric])
  qed (simp add: Cons)
qed simp

lemma min_ratio_loop_lower:
  assumes "r \<noteq> JNaN" "g \<in> set gs" "map_of ratios g = Some q" "q \<noteq> JNaN"
  shows "jle (min_ratio_loop ratios r gs) q"
  using assms
proof (induction gs arbitrary: r)
  case (Cons h gs)
  define r' where "r' = (case map_of ratios h of Some x \<Rightarrow> if jlt x r then x else r | None \<Rightarrow> r)"
  have loop: "min_ratio_loop ratios r (h # gs) = min_ratio_loop ratios r' gs"
    by (simp add: r'_def split: option.splits)
  have r': "r' \<noteq> JNaN" using Cons.prems(1) by (auto simp: r'_def split: option.splits)
  show ?case
  proof (cases "g = h")
    case True
    then have "jle r' q" using Cons.prems by (auto simp: r'_def not_jlt_jle)
    with min_ratio_loop_le [OF r'] jle_trans show ?thesis unfolding loop by blast
  qed (use Cons loop r' in auto)
qed simp

lemma min_ratio_loop_attained:
  "min_ratio_loop ratios r gs = r \<or> (\<exists>g \<in> set gs. map_of ratios g = Some (min_ratio_loop ratios r gs))"
proof (induction gs arbitrary: r)
  case (Cons h gs)
  then show ?case by (cases "map_of ratios h") (auto, metis)
qed simp

lemma getMinGroupRatio_lower:
  assumes "g \<in> set gs" "map_of ratios g = Some q" "q \<noteq> JNaN"
  shows "jle (getMinGroupRatio gs ratios) q"
proof -
  have "jle (min_ratio_loop ratios JPInf gs) q" using assms by (intro min_ratio_loop_lower) auto
  then show ?thesis using assms by (auto simp: getMinGroupRatio_def Let_def)
qed

section \<open>The listed price\<close>

text \<open>The multipliers of a price beside the group's ratio are not negative.\<close>

definition fair_model :: "PricingModel \<Rightarrow> bool" where
  "fair_model m = (jle (JFin 0) (pm_model_ratio m) \<and> jle (JFin 0) (pm_completion_ratio m)
     \<and> list_all (\<lambda>r. case r of None \<Rightarrow> True | Some x \<Rightarrow> jle (JFin 0) x)
       [pm_model_price m, pm_cache_ratio m, pm_create_cache_ratio m, pm_image_ratio m, pm_audio_ratio m,
        pm_audio_completion_ratio m])"

definition fair_recharge :: "Recharge \<Rightarrow> bool" where
  "fair_recharge rc = (jle (JFin 0) (rc_priceRate rc) \<and> is_finite (rc_exchangeRate rc)
     \<and> jlt (JFin 0) (rc_exchangeRate rc))"

lemma jmul_commute: "jmul x y = jmul y x"
  by (cases x; cases y) (auto simp: mult.commute inf_sgn_def)

lemma jmul_mono_left:
  "jle (JFin 0) c \<Longrightarrow> jle a b \<Longrightarrow> jmul c a \<noteq> JNaN \<Longrightarrow> jmul c b \<noteq> JNaN \<Longrightarrow> jle (jmul c a) (jmul c b)"
  using jmul_mono by (simp add: jmul_commute [of c])

lemma jmul_NaN: "jmul x y \<noteq> JNaN \<Longrightarrow> x \<noteq> JNaN \<and> y \<noteq> JNaN"
  by (cases x; cases y) auto

lemma jmul_nonneg: "jle (JFin 0) x \<Longrightarrow> jle (JFin 0) y \<Longrightarrow> jmul x y \<noteq> JNaN \<Longrightarrow> jle (JFin 0) (jmul x y)"
  by (cases x; cases y) (auto simp: inf_sgn_def to_double_nonneg)

lemma jdiv_NaN: "jdiv x y \<noteq> JNaN \<Longrightarrow> x \<noteq> JNaN \<and> y \<noteq> JNaN"
  by (cases x; cases y) auto

lemma calculateTokenPrice_mono:
  assumes "fair_model m" "jle a b"
    "calculateTokenPrice m ty a \<noteq> JNaN" "calculateTokenPrice m ty b \<noteq> JNaN"
  shows "jle (calculateTokenPrice m ty a) (calculateTokenPrice m ty b)"
proof -
  define base where "base r = jmul (jmul (pm_model_ratio m) (JFin 2)) r" for r
  have base: "jle (base a) (base b)" if "base a \<noteq> JNaN" "base b \<noteq> JNaN"
    unfolding base_def
  proof (rule jmul_mono_left [OF _ assms(2)])
    have "jmul (pm_model_ratio m) (JFin 2) \<noteq> JNaN" using that(1) jmul_NaN unfolding base_def by blast
    then show "jle (JFin 0) (jmul (pm_model_ratio m) (JFin 2))"
      using assms(1) by (intro jmul_nonneg) (auto simp: fair_model_def)
  qed (use that in \<open>simp_all add: base_def\<close>)
  have times: "jle (jmul x c) (jmul y c)"
    if "jle x y" "jle (JFin 0) c" "jmul x c \<noteq> JNaN" "jmul y c \<noteq> JNaN" for x y c
    by (rule jmul_mono [OF that(2,1,3,4)])
  have one: "jle (jmul (base a) c) (jmul (base b) c)"
    if "jle (JFin 0) c" "jmul (base a) c \<noteq> JNaN" "jmul (base b) c \<noteq> JNaN" for c
    using base jmul_NaN [OF that(2)] jmul_NaN [OF that(3)] that times by blast
  have opt: "jle (JFin 0) (the r)" if "r \<in> {pm_cache_ratio m, pm_create_cache_ratio m, pm_image_ratio m,
      pm_audio_ratio m, pm_audio_completion_ratio m}" "hasRatio r" for r
    using that assms(1) by (auto simp: fair_model_def hasRatio_def split: option.splits)
  show ?thesis
  proof (cases ty)
    case P_input
    then show ?thesis using base assms(3,4) by (simp add: base_def)
  next
    case P_output
    moreover have "jle (JFin 0) (pm_completion_ratio m)" using assms(1) by (simp add: fair_model_def)
    ultimately show ?thesis using one assms(3,4) by (simp add: base_def)
  next
    case P_audio_output
    let ?x = "\<lambda>r. jmul (base r) (the (pm_audio_ratio m))" and ?c = "the (pm_audio_completion_ratio m)"
    have has: "hasRatio (pm_audio_ratio m)" "hasRatio (pm_audio_completion_ratio m)"
      and nn: "jmul (?x a) ?c \<noteq> JNaN" "jmul (?x b) ?c \<noteq> JNaN"
      using assms(3,4) P_audio_output by (auto simp: base_def split: if_splits)
    have x: "jle (?x a) (?x b)" using nn by (intro one opt has) (auto dest: jmul_NaN)
    have "jle (JFin 0) ?c" by (intro opt has) simp
    with x nn times have "jle (jmul (?x a) ?c) (jmul (?x b) ?c)" by blast
    with has P_audio_output show ?thesis by (simp add: base_def)
  qed (use assms(3,4) in \<open>auto simp: base_def [symmetric] intro!: one opt split: if_splits\<close>)
qed

lemma applyRechargeRate_mono:
  assumes "fair_recharge rc" "jle a b"
    "applyRechargeRate a (rc_show rc) (rc_priceRate rc) (rc_exchangeRate rc) \<noteq> JNaN"
    "applyRechargeRate b (rc_show rc) (rc_priceRate rc) (rc_exchangeRate rc) \<noteq> JNaN"
  shows "jle (applyRechargeRate a (rc_show rc) (rc_priceRate rc) (rc_exchangeRate rc))
    (applyRechargeRate b (rc_show rc) (rc_priceRate rc) (rc_exchangeRate rc))"
proof (cases "rc_show rc")
  case True
  obtain e where e: "rc_exchangeRate rc = JFin e" "0 < e"
    using assms(1) by (auto simp: fair_recharge_def is_finite_iff)
  from True assms(3,4) have "jmul a (rc_priceRate rc) \<noteq> JNaN" "jmul b (rc_priceRate rc) \<noteq> JNaN"
    by (auto simp: applyRechargeRate_def dest: jdiv_NaN)
  with assms(1,2) have "jle (jmul a (rc_priceRate rc)) (jmul b (rc_priceRate rc))"
    by (intro jmul_mono) (auto simp: fair_recharge_def)
  with True e show ?thesis by (simp add: applyRechargeRate_def jdiv_mono)
qed (simp add: applyRechargeRate_def assms(2))

lemma applyRechargeRate_NaN: "applyRechargeRate a s p e \<noteq> JNaN \<Longrightarrow> a \<noteq> JNaN"
  by (auto simp: applyRechargeRate_def split: if_splits dest!: jdiv_NaN jmul_NaN)

lemma token_price_mono:
  assumes "fair_model m" "fair_recharge rc" "jle a b"
    "token_price m ty unit rc a \<noteq> JNaN" "token_price m ty unit rc b \<noteq> JNaN"
  shows "jle (token_price m ty unit rc a) (token_price m ty unit rc b)"
proof -
  obtain d where d: "TOKEN_UNIT_DIVISORS unit = JFin d" "0 < d" by (cases unit) auto
  let ?r = "\<lambda>x. applyRechargeRate (calculateTokenPrice m ty x) (rc_show rc) (rc_priceRate rc) (rc_exchangeRate rc)"
  have r: "?r a \<noteq> JNaN" "?r b \<noteq> JNaN" using assms(4,5) by (auto simp: token_price_def dest: jdiv_NaN)
  then have "jle (calculateTokenPrice m ty a) (calculateTokenPrice m ty b)"
    using assms by (intro calculateTokenPrice_mono) (auto dest: applyRechargeRate_NaN)
  then have "jle (?r a) (?r b)" using assms(2) r by (intro applyRechargeRate_mono)
  then show ?thesis by (simp add: token_price_def d jdiv_mono)
qed

lemma ratio_of_ge: "map_of ratios g = Some q \<Longrightarrow> jle (JFin 0) q \<Longrightarrow> jle q (ratio_of ratios g)"
  by (cases q) (auto simp: ratio_of_def jor_def)

text \<open>C10. The listed price is the lowest one: for multipliers that are not negative, the price a model
  is listed with (the smallest ratio of its groups) is at most the price of every enabled group that
  has a ratio, in IEEE arithmetic, for every kind of token price, both units, with and without the
  recharge rate, unless a price is \<open>NaN\<close> and so not shown.\<close>

theorem listed_price_is_lowest:
  assumes "fair_model m" "fair_recharge rc" "g \<in> set (enabled_groups m)"
    and "map_of (group_ratios m) g = Some q" "jle (JFin 0) q"
    and "token_price m ty unit rc (getMinGroupRatio (enabled_groups m) (group_ratios m)) \<noteq> JNaN"
    and "token_price m ty unit rc (ratio_of (group_ratios m) g) \<noteq> JNaN"
  shows "jle (token_price m ty unit rc (getMinGroupRatio (enabled_groups m) (group_ratios m)))
    (token_price m ty unit rc (ratio_of (group_ratios m) g))"
proof (rule token_price_mono [OF assms(1,2) _ assms(6,7)])
  have "jle (getMinGroupRatio (enabled_groups m) (group_ratios m)) q"
    using assms by (intro getMinGroupRatio_lower) auto
  with ratio_of_ge [OF assms(4,5)] jle_trans
  show "jle (getMinGroupRatio (enabled_groups m) (group_ratios m)) (ratio_of (group_ratios m) g)" by blast
qed

definition sample_model :: PricingModel where
  "sample_model = \<lparr> pm_name = js ''gpt-4o'', pm_description = None, pm_vendor_name = None, pm_quota_type = JFin 0,
     pm_model_ratio = JFin (5 / 4), pm_completion_ratio = JFin 4, pm_model_price = None, pm_cache_ratio = Some (JFin (1 / 2)),
     pm_create_cache_ratio = None, pm_image_ratio = None, pm_audio_ratio = None, pm_audio_completion_ratio = None,
     pm_enable_groups = Some [js ''default'', js ''vip''], pm_tags = None, pm_endpoint_types = None,
     pm_group_ratio = Some [(js ''default'', JFin 1), (js ''vip'', JFin (1 / 2))], pm_billing_mode = None,
     pm_billing_expr = None, pm_context_length = None, pm_max_output_tokens = None, pm_knowledge_cutoff = None,
     pm_release_date = None, pm_parameter_count = None, pm_input_modalities = None, pm_output_modalities = None,
     pm_capabilities = None \<rparr>"

theorem listed_price_is_lowest_witness:
  "let m = sample_model; rc = \<lparr> rc_show = True, rc_priceRate = JFin 4, rc_exchangeRate = JFin 7 \<rparr> in
   jle (token_price m P_output Per_K rc (getMinGroupRatio (enabled_groups m) (group_ratios m)))
     (token_price m P_output Per_K rc (ratio_of (group_ratios m) (js ''default'')))"
  unfolding Let_def
  by (rule listed_price_is_lowest [where q = "JFin 1"])
    (simp_all add: sample_model_def fair_model_def fair_recharge_def enabled_groups_def group_ratios_def upd_def
      token_price_def applyRechargeRate_def getMinGroupRatio_def ratio_of_def jor_def double_eval)

text \<open>A group whose ratio is zero: the list shows its price, zero, and the group's own column the price
  at ratio one.\<close>

lemma free_group_column:
  assumes "map_of ratios g = Some (JFin 0)"
  shows "formatGroupPrice intl st m g ty unit rc ratios = formatGroupPrice intl st m g ty unit rc [(g, JFin 1)]"
    and "g \<in> set gs \<Longrightarrow> list_all (\<lambda>p. jle (JFin 0) (snd p)) ratios \<Longrightarrow> getMinGroupRatio gs ratios = JFin 0"
proof -
  show "formatGroupPrice intl st m g ty unit rc ratios = formatGroupPrice intl st m g ty unit rc [(g, JFin 1)]"
    using assms by (simp add: formatGroupPrice_def ratio_of_def jor_def)
  assume g: "g \<in> set gs" and nonneg: "list_all (\<lambda>p. jle (JFin 0) (snd p)) ratios"
  then have low: "jle (getMinGroupRatio gs ratios) (JFin 0)"
    using assms by (intro getMinGroupRatio_lower) auto
  consider "getMinGroupRatio gs ratios = JFin 1" | h where "map_of ratios h = Some (getMinGroupRatio gs ratios)"
    using min_ratio_loop_attained [of ratios JPInf gs]
    by (cases "gs = []"; cases "min_ratio_loop ratios JPInf gs = JPInf") (auto simp: getMinGroupRatio_def Let_def)
  then show "getMinGroupRatio gs ratios = JFin 0"
  proof cases
    case 1
    with low show ?thesis by simp
  next
    case 2
    then have "jle (JFin 0) (getMinGroupRatio gs ratios)"
      using nonneg by (auto simp: list_all_iff dest!: map_of_SomeD)
    with low show ?thesis by (cases "getMinGroupRatio gs ratios") auto
  qed
qed

section \<open>The two searches for the smallest ratio\<close>

text \<open>The price list and the expression prices use the same ratio: the two copies of the search
  return the same number, which is 1 or the ratio of an enabled group, and is 1 when no group is enabled.\<close>

theorem display_ratios_agree:
  "getDynamicDisplayGroupRatio m = getMinGroupRatio (enabled_groups m) (group_ratios m)
   \<and> (let r = getMinGroupRatio (enabled_groups m) (group_ratios m) in
      if enabled_groups m = [] then r = JFin 1
      else r = JFin 1 \<or> (\<exists>g. g \<in> set (enabled_groups m) \<and> map_of (group_ratios m) g = Some r))"
  using min_ratio_loop_attained [of "group_ratios m" JPInf "enabled_groups m"]
  by (auto simp: getDynamicDisplayGroupRatio_def getMinGroupRatio_def Let_def min_ratio_loop_foldl)

section \<open>Expression prices\<close>

lemma entry_le_two: "entry_le = (\<lambda>a b. is_primary a \<or> \<not> is_primary b)"
  by (auto simp: entry_le_def fun_eq_iff)

interpretation primary_first: comparator entry_le
  by unfold_locales (auto simp: entry_le_two)

definition raw_entries ::
  "intl \<Rightarrow> SystemConfigState \<Rightarrow> ParsedTier \<Rightarrow> DynamicPriceOptions \<Rightarrow> DynamicPriceEntry list" where
  "raw_entries intl st tier opts = concat (map (price_entry intl st tier opts) BILLING_PRICING_VARS)"

lemma entries_split:
  "getDynamicPriceEntries intl st (Some tier) opts =
     filter is_primary (raw_entries intl st tier opts) @ filter (\<lambda>e. \<not> is_primary e) (raw_entries intl st tier opts)"
  by (simp add: getDynamicPriceEntries_def entry_le_two sort_by_two raw_entries_def)

lemma price_entry_field: "map de_field (price_entry intl st tier opts v) =
    filter (\<lambda>f. is_finite (tier_price tier f) \<and> \<not> jle (tier_price tier f) (JFin 0))
      (case bv_field v of None \<Rightarrow> [] | Some f \<Rightarrow> [f])"
  by (simp add: price_entry_def Let_def split: option.splits)

lemma fields_of_raw: "map de_field (raw_entries intl st tier opts) =
    filter (\<lambda>f. is_finite (tier_price tier f) \<and> \<not> jle (tier_price tier f) (JFin 0))
      (List.map_filter bv_field BILLING_PRICING_VARS)"
proof -
  have "map de_field (concat (map (price_entry intl st tier opts) vs))
      = filter (\<lambda>f. is_finite (tier_price tier f) \<and> \<not> jle (tier_price tier f) (JFin 0)) (List.map_filter bv_field vs)" for vs
    by (induction vs) (auto simp: price_entry_field List.map_filter_def split: option.splits)
  then show ?thesis by (simp only: raw_entries_def)
qed

lemma distinct_pricing_fields: "distinct (List.map_filter bv_field BILLING_PRICING_VARS)"
  by (simp add: BILLING_PRICING_VARS_def BILLING_VARS_def List.map_filter_def)

lemma raw_entry_sound: "e \<in> set (raw_entries intl st tier opts) \<Longrightarrow>
    de_value e = tier_price tier (de_field e) \<and> is_finite (de_value e) \<and> jlt (JFin 0) (de_value e)
      \<and> bv_field (de_variable e) = Some (de_field e)
      \<and> de_formatted e = formatDynamicUnitPrice intl st (de_value e) opts"
  by (auto simp: raw_entries_def price_entry_def Let_def is_finite_iff split: option.splits if_splits)

text \<open>The prices of a tier: input and output first, the others after them in the order of the registry,
  at most one per field, each the tier's own price, finite and above zero; and exactly the fields with
  such a price are listed.\<close>

theorem dynamic_entries_sound:
  "let es = getDynamicPriceEntries intl st (Some tier) opts;
       fields = List.map_filter bv_field BILLING_PRICING_VARS;
       shown = (\<lambda>f. is_finite (tier_price tier f) \<and> \<not> jle (tier_price tier f) (JFin 0)) in
   map de_field es = filter (\<lambda>f. shown f \<and> f \<in> set PRIMARY_DYNAMIC_FIELDS) fields
       @ filter (\<lambda>f. shown f \<and> \<not> f \<in> set PRIMARY_DYNAMIC_FIELDS) fields
   \<and> distinct (map de_field es)
   \<and> list_all (\<lambda>e. de_value e = tier_price tier (de_field e) \<and> is_finite (de_value e) \<and> jlt (JFin 0) (de_value e)
       \<and> de_formatted e = formatDynamicUnitPrice intl st (de_value e) opts) es"
proof -
  let ?raw = "raw_entries intl st tier opts"
  have "map de_field (getDynamicPriceEntries intl st (Some tier) opts)
      = filter (\<lambda>f. f \<in> set PRIMARY_DYNAMIC_FIELDS) (map de_field ?raw)
        @ filter (\<lambda>f. \<not> f \<in> set PRIMARY_DYNAMIC_FIELDS) (map de_field ?raw)"
    by (simp add: entries_split is_primary_def [abs_def] filter_map o_def)
  then show ?thesis
    using raw_entry_sound [of _ intl st tier opts] distinct_pricing_fields
    by (auto simp: Let_def fields_of_raw entries_split list_all_iff conj_commute)
qed

section \<open>From the editor to the price list\<close>






end
