(* ===== verification/PricingFilters.thy ===== *)
theory PricingFilters
  imports Pricing
begin

text \<open>
  Searching, filtering and sorting the price list: \<open>features/pricing/lib/filters.ts\<close> and the filter
  state of \<open>hooks/use-filters.ts\<close>. The case mapping \<open>toLowerCase\<close> and the collation
  \<open>localeCompare\<close> are the parameters \<open>lower\<close> and \<open>lc\<close>.

  What the page relies on is the contract of a filter (locale \<open>list_filter\<close>): it keeps, in order,
  the elements that satisfy a predicate. Filters commute, and their composition is a filter.
\<close>

section \<open>The contract of a filter\<close>

locale list_filter =
  fixes f :: "'a list \<Rightarrow> 'a list" and keep :: "'a \<Rightarrow> bool"
  assumes filter_eq: "f xs = filter keep xs"
begin

lemma f_idem: "f (f xs) = f xs"
  by (simp add: filter_eq)

lemma f_append: "f (xs @ ys) = f xs @ f ys"
  by (simp add: filter_eq)

lemma mset_f: "mset (f xs) = filter_mset keep (mset xs)"
  by (simp add: filter_eq)

lemma f_all: "(\<And>x. x \<in> set xs \<Longrightarrow> keep x) \<Longrightarrow> f xs = xs"
  by (simp add: filter_eq)

end

locale two_filters = one: list_filter f p + two: list_filter g q
  for f :: "'a list \<Rightarrow> 'a list" and p and g :: "'a list \<Rightarrow> 'a list" and q
begin

lemma commute: "f (g xs) = g (f xs)"
  by (simp add: one.filter_eq two.filter_eq conj_commute)

end

sublocale two_filters \<subseteq> both: list_filter "\<lambda>xs. g (f xs)" "\<lambda>x. p x \<and> q x"
  by unfold_locales (simp add: one.filter_eq two.filter_eq)

section \<open>Filters\<close>

definition FILTER_ALL :: jstr where "FILTER_ALL = js ''all''"
definition QUOTA_TYPES_ALL :: jstr where "QUOTA_TYPES_ALL = js ''all''"
definition QUOTA_TYPES_TOKEN :: jstr where "QUOTA_TYPES_TOKEN = js ''token''"
definition ENDPOINT_TYPES_ALL :: jstr where "ENDPOINT_TYPES_ALL = js ''all''"
definition SORT_NAME :: jstr where "SORT_NAME = js ''name''"
definition SORT_PRICE_LOW :: jstr where "SORT_PRICE_LOW = js ''price-low''"
definition SORT_PRICE_HIGH :: jstr where "SORT_PRICE_HIGH = js ''price-high''"

text \<open>\<open>s?.toLowerCase().includes(q)\<close>.\<close>

definition mentions :: "(jstr \<Rightarrow> jstr) \<Rightarrow> jstr \<Rightarrow> jstr option \<Rightarrow> bool" where
  "mentions lower q s = (case s of None \<Rightarrow> False | Some t \<Rightarrow> has_sub q (lower t))"

definition filterBySearch :: "(jstr \<Rightarrow> jstr) \<Rightarrow> PricingModel list \<Rightarrow> jstr \<Rightarrow> PricingModel list" where
  "filterBySearch lower models query = (if query = [] then models
     else let q = lower query in
       filter (\<lambda>m. mentions lower q (Some (pm_name m)) \<or> mentions lower q (pm_description m)
         \<or> mentions lower q (pm_tags m) \<or> mentions lower q (pm_vendor_name m)) models)"

definition filterByVendor :: "PricingModel list \<Rightarrow> jstr \<Rightarrow> PricingModel list" where
  "filterByVendor models vendor = (if vendor = FILTER_ALL then models
     else filter (\<lambda>m. pm_vendor_name m = Some vendor) models)"

definition filterByGroup :: "PricingModel list \<Rightarrow> jstr \<Rightarrow> PricingModel list" where
  "filterByGroup models grp = (if grp = FILTER_ALL then models
     else filter (\<lambda>m. case pm_enable_groups m of None \<Rightarrow> False | Some gs \<Rightarrow> grp \<in> set gs) models)"

definition filterByQuotaType :: "PricingModel list \<Rightarrow> jstr \<Rightarrow> PricingModel list" where
  "filterByQuotaType models quotaType = (if quotaType = QUOTA_TYPES_ALL then models
     else let targetType = (if quotaType = QUOTA_TYPES_TOKEN then TOKEN_QUOTA else REQUEST_QUOTA) in
       filter (\<lambda>m. jeq (pm_quota_type m) targetType) models)"

definition filterByEndpointType :: "PricingModel list \<Rightarrow> jstr \<Rightarrow> PricingModel list" where
  "filterByEndpointType models endpointType = (if endpointType = ENDPOINT_TYPES_ALL then models
     else filter (\<lambda>m. case pm_endpoint_types m of None \<Rightarrow> False | Some es \<Rightarrow> endpointType \<in> set es) models)"

definition tag_sep :: "nat \<Rightarrow> bool" where
  "tag_sep c = (c = 44 \<or> c = 59 \<or> c = 124 \<or> is_space c)"

definition parseTags :: "jstr option \<Rightarrow> jstr list" where
  "parseTags tagsString = (case tagsString of None \<Rightarrow> [] | Some s \<Rightarrow> if s = [] then []
     else filter (\<lambda>t. t \<noteq> []) (map trim (split_rx (length s) (RPlus (RCh tag_sep)) [] s)))"

definition extractAllTags :: "(jstr \<Rightarrow> jstr) \<Rightarrow> (jstr \<Rightarrow> jstr \<Rightarrow> int) \<Rightarrow> PricingModel list \<Rightarrow> jstr list" where
  "extractAllTags lower lc models = sort_by (\<lambda>a b. lc a b \<le> 0)
     (uniq (concat (map (\<lambda>m. if pm_tags m = None \<or> pm_tags m = Some [] then []
        else map lower (parseTags (pm_tags m))) models)))"

definition has_tag :: "(jstr \<Rightarrow> jstr) \<Rightarrow> jstr \<Rightarrow> PricingModel \<Rightarrow> bool" where
  "has_tag lower tagLower m = (if pm_tags m = None \<or> pm_tags m = Some [] then False
     else tagLower \<in> set (map lower (parseTags (pm_tags m))))"

definition filterByTag :: "(jstr \<Rightarrow> jstr) \<Rightarrow> PricingModel list \<Rightarrow> jstr \<Rightarrow> PricingModel list" where
  "filterByTag lower models tag = (if tag = FILTER_ALL then models
     else let tagLower = lower tag in filter (has_tag lower tagLower) models)"

section \<open>Sorting\<close>

definition getModelPrice :: "PricingModel \<Rightarrow> jnum" where
  "getModelPrice m = (if jeq (pm_quota_type m) (JFin 0) then pm_model_ratio m
     else jor (upd (pm_model_price m) JNaN) (JFin 0))"

definition sortModels :: "(jstr \<Rightarrow> jstr \<Rightarrow> int) \<Rightarrow> PricingModel list \<Rightarrow> jstr \<Rightarrow> PricingModel list" where
  "sortModels lc models sortBy =
     (if sortBy = SORT_NAME then sort_by (\<lambda>a b. lc (pm_name a) (pm_name b) \<le> 0) models
      else if sortBy = SORT_PRICE_LOW then sort_by (\<lambda>a b. diff_le (getModelPrice a) (getModelPrice b)) models
      else if sortBy = SORT_PRICE_HIGH then sort_by (\<lambda>a b. diff_le (getModelPrice b) (getModelPrice a)) models
      else models)"

record FilterSpec =
  f_search :: jstr
  f_vendor :: jstr
  f_group :: jstr
  f_quotaType :: jstr
  f_endpointType :: jstr
  f_tag :: jstr
  f_sortBy :: jstr

definition filterAndSortModels ::
  "(jstr \<Rightarrow> jstr) \<Rightarrow> (jstr \<Rightarrow> jstr \<Rightarrow> int) \<Rightarrow> PricingModel list \<Rightarrow> FilterSpec \<Rightarrow> PricingModel list" where
  "filterAndSortModels lower lc models fs = (let
       result = filterBySearch lower models (f_search fs);
       result = filterByVendor result (f_vendor fs);
       result = filterByGroup result (f_group fs);
       result = filterByQuotaType result (f_quotaType fs);
       result = filterByEndpointType result (f_endpointType fs);
       result = filterByTag lower result (f_tag fs)
     in sortModels lc result (f_sortBy fs))"

section \<open>The filter state\<close>

text \<open>The state is an object with optional members. \<open>updateFilters\<close> merges and then deletes what is
  \<open>undefined\<close> or \<open>null\<close>.\<close>

type_synonym FilterState = "(jstr \<times> jval) list"

definition delete_nullish :: "FilterState \<Rightarrow> jstr \<Rightarrow> FilterState" where
  "delete_nullish s k = (if nullish (case map_of s k of None \<Rightarrow> VUndef | Some v \<Rightarrow> v) then assoc_del k s else s)"

definition updateFilters :: "(jstr \<times> jval) list \<Rightarrow> FilterState \<Rightarrow> FilterState" where
  "updateFilters updates prev = (let s = assoc_spread prev updates in foldl delete_nullish s (map fst s))"

definition FILTER_KEYS :: "string list" where
  "FILTER_KEYS = [''search'', ''sort'', ''vendor'', ''group'', ''quotaType'', ''endpointType'', ''tag'',
     ''tokenUnit'', ''view'', ''rechargePrice'']"

definition initial_filters :: "(jstr \<times> jval) list \<Rightarrow> FilterState" where
  "initial_filters url = map (\<lambda>k. (js k, vget url k)) FILTER_KEYS"

definition text_field :: "string \<Rightarrow> jstr \<Rightarrow> FilterState \<Rightarrow> jstr" where
  "text_field k d s = val_to_str (vor (vget s k) (VStr d))"

definition searchInput :: "FilterState \<Rightarrow> jstr" where
  "searchInput = text_field ''search'' []"
definition sortBy :: "FilterState \<Rightarrow> jstr" where
  "sortBy = text_field ''sort'' SORT_NAME"
definition vendorFilter :: "FilterState \<Rightarrow> jstr" where
  "vendorFilter = text_field ''vendor'' FILTER_ALL"
definition groupFilter :: "FilterState \<Rightarrow> jstr" where
  "groupFilter = text_field ''group'' FILTER_ALL"
definition quotaTypeFilter :: "FilterState \<Rightarrow> jstr" where
  "quotaTypeFilter = text_field ''quotaType'' QUOTA_TYPES_ALL"
definition endpointTypeFilter :: "FilterState \<Rightarrow> jstr" where
  "endpointTypeFilter = text_field ''endpointType'' ENDPOINT_TYPES_ALL"
definition tagFilter :: "FilterState \<Rightarrow> jstr" where
  "tagFilter = text_field ''tag'' FILTER_ALL"

definition tokenUnit :: "FilterState \<Rightarrow> TokenUnit" where
  "tokenUnit s = (if vget s ''tokenUnit'' = VStr (js ''K'') then Per_K else Per_M)"

datatype ViewMode = Card | Table

definition normalizeViewMode :: "jval \<Rightarrow> ViewMode" where
  "normalizeViewMode v = (if v = VStr (js ''table'') then Table else Card)"

definition viewMode :: "FilterState \<Rightarrow> ViewMode" where
  "viewMode s = normalizeViewMode (vget s ''view'')"

definition showRechargePrice :: "FilterState \<Rightarrow> bool" where
  "showRechargePrice s = (vget s ''rechargePrice'' = VBool True)"

text \<open>Setting a member to its default removes it.\<close>

definition unless_default :: "jstr \<Rightarrow> jstr \<Rightarrow> jval" where
  "unless_default d v = (if v = d then VUndef else VStr v)"

definition setSearchInput :: "jstr \<Rightarrow> FilterState \<Rightarrow> FilterState" where
  "setSearchInput v = updateFilters [(js ''search'', vor (VStr v) VUndef)]"
definition setSortBy :: "jstr \<Rightarrow> FilterState \<Rightarrow> FilterState" where
  "setSortBy v = updateFilters [(js ''sort'', unless_default SORT_NAME v)]"
definition setVendorFilter :: "jstr \<Rightarrow> FilterState \<Rightarrow> FilterState" where
  "setVendorFilter v = updateFilters [(js ''vendor'', unless_default FILTER_ALL v)]"
definition setGroupFilter :: "jstr \<Rightarrow> FilterState \<Rightarrow> FilterState" where
  "setGroupFilter v = updateFilters [(js ''group'', unless_default FILTER_ALL v)]"
definition setQuotaTypeFilter :: "jstr \<Rightarrow> FilterState \<Rightarrow> FilterState" where
  "setQuotaTypeFilter v = updateFilters [(js ''quotaType'', unless_default QUOTA_TYPES_ALL v)]"
definition setEndpointTypeFilter :: "jstr \<Rightarrow> FilterState \<Rightarrow> FilterState" where
  "setEndpointTypeFilter v = updateFilters [(js ''endpointType'', unless_default ENDPOINT_TYPES_ALL v)]"
definition setTagFilter :: "jstr \<Rightarrow> FilterState \<Rightarrow> FilterState" where
  "setTagFilter v = updateFilters [(js ''tag'', unless_default FILTER_ALL v)]"

definition setTokenUnit :: "TokenUnit \<Rightarrow> FilterState \<Rightarrow> FilterState" where
  "setTokenUnit u = updateFilters [(js ''tokenUnit'', case u of Per_M \<Rightarrow> VUndef | Per_K \<Rightarrow> VStr (js ''K''))]"

definition setViewMode :: "ViewMode \<Rightarrow> FilterState \<Rightarrow> FilterState" where
  "setViewMode v = updateFilters [(js ''view'', case v of Card \<Rightarrow> VUndef | Table \<Rightarrow> VStr (js ''table''))]"

definition setShowRechargePrice :: "bool \<Rightarrow> FilterState \<Rightarrow> FilterState" where
  "setShowRechargePrice v = updateFilters [(js ''rechargePrice'', if v then VBool True else VUndef)]"

definition clearFilters :: "FilterState \<Rightarrow> FilterState" where
  "clearFilters = updateFilters [(js ''vendor'', VUndef), (js ''group'', VUndef), (js ''quotaType'', VUndef),
     (js ''endpointType'', VUndef), (js ''tag'', VUndef)]"

definition clearSearch :: "FilterState \<Rightarrow> FilterState" where
  "clearSearch = updateFilters [(js ''search'', VUndef)]"

definition availableTags :: "(jstr \<Rightarrow> jstr) \<Rightarrow> (jstr \<Rightarrow> jstr \<Rightarrow> int) \<Rightarrow> PricingModel list \<Rightarrow> jstr list" where
  "availableTags lower lc models = (if models = [] then [] else extractAllTags lower lc models)"

definition filteredModels ::
  "(jstr \<Rightarrow> jstr) \<Rightarrow> (jstr \<Rightarrow> jstr \<Rightarrow> int) \<Rightarrow> PricingModel list \<Rightarrow> FilterState \<Rightarrow> PricingModel list" where
  "filteredModels lower lc models s = (if models = [] then []
     else filterAndSortModels lower lc models \<lparr> f_search = searchInput s, f_vendor = vendorFilter s,
       f_group = groupFilter s, f_quotaType = quotaTypeFilter s, f_endpointType = endpointTypeFilter s,
       f_tag = tagFilter s, f_sortBy = sortBy s \<rparr>)"

definition hasActiveFilters :: "FilterState \<Rightarrow> bool" where
  "hasActiveFilters s = (vendorFilter s \<noteq> FILTER_ALL \<or> groupFilter s \<noteq> FILTER_ALL
     \<or> quotaTypeFilter s \<noteq> QUOTA_TYPES_ALL \<or> endpointTypeFilter s \<noteq> ENDPOINT_TYPES_ALL \<or> tagFilter s \<noteq> FILTER_ALL)"

definition activeFilterCount :: "FilterState \<Rightarrow> nat" where
  "activeFilterCount s = (if vendorFilter s \<noteq> FILTER_ALL then 1 else 0)
     + (if groupFilter s \<noteq> FILTER_ALL then 1 else 0) + (if quotaTypeFilter s \<noteq> QUOTA_TYPES_ALL then 1 else 0)
     + (if endpointTypeFilter s \<noteq> ENDPOINT_TYPES_ALL then 1 else 0) + (if tagFilter s \<noteq> FILTER_ALL then 1 else 0)"

section \<open>Tags\<close>

lemma rx_at_plus_class:
  "rx_at (RPlus (RCh P)) p s = (if s \<noteq> [] \<and> P (hd s)
     then Some (after_word p (takeWhile P s), dropWhile P s, []) else None)"
proof (cases "s \<noteq> [] \<and> P (hd s)")
  case True
  then have "takeWhile P s \<noteq> []" by (cases s) auto
  then have "rx_m (RPlus (RCh P)) p (takeWhile P s @ dropWhile P s) [] (\<lambda>p' s' c'. Some (p', s', c'))
      = Some (after_word p (takeWhile P s), dropWhile P s, [])"
    using hd_dropWhile [of P s] by (intro rx_m_plus_class_hit) (auto dest: set_takeWhileD simp del: dropWhile_eq_Nil_conv)
  with True show ?thesis by (simp add: rx_at_def)
next
  case False
  then show ?thesis by (cases s) (auto simp: rx_at_def RPlus_def)
qed

text \<open>The maximal runs of characters outside a class.\<close>

fun runs :: "(nat \<Rightarrow> bool) \<Rightarrow> jstr \<Rightarrow> jstr \<Rightarrow> jstr list" where
  "runs P acc [] = (if acc = [] then [] else [acc])"
| "runs P acc (c # s) = (if P c then (if acc = [] then runs P [] s else acc # runs P [] s)
     else runs P (acc @ [c]) s)"

lemma runs_dropWhile: "runs P [] (dropWhile P s) = runs P [] s"
  by (induction s) auto

lemma split_rx_runs:
  "length s \<le> n \<Longrightarrow> filter (\<lambda>t. t \<noteq> []) (split_rx n (RPlus (RCh P)) acc s) = runs P acc s"
proof (induction n arbitrary: acc s)
  case (Suc n)
  show ?case
  proof (cases s)
    case (Cons c t)
    have "length (dropWhile P t) \<le> n" using Suc.prems Cons length_dropWhile_le [of P t] by simp
    moreover have "length (dropWhile P t) < Suc (length t)" using length_dropWhile_le [of P t] by simp
    ultimately show ?thesis
      using Suc Cons runs_dropWhile [of P t] by (simp add: rx_at_plus_class)
  qed simp
qed simp

lemma runs_append: "list_all (\<lambda>c. \<not> P c) w \<Longrightarrow> runs P acc (w @ s) = runs P (acc @ w) s"
  by (induction w arbitrary: acc) simp_all

lemma runs_words: "list_all (\<lambda>c. \<not> P c) acc \<Longrightarrow> w \<in> set (runs P acc s) \<Longrightarrow> w \<noteq> [] \<and> list_all (\<lambda>c. \<not> P c) w"
  by (induction P acc s rule: runs.induct) (auto split: if_splits)

lemma runs_join:
  assumes "P sep" "\<And>w. w \<in> set ws \<Longrightarrow> w \<noteq> [] \<and> list_all (\<lambda>c. \<not> P c) w"
  shows "runs P [] (join [sep] ws) = ws"
  using assms(2)
proof (induction ws)
  case (Cons w ws)
  then show ?case
  proof (cases "ws = []")
    case True
    with Cons.prems show ?thesis using runs_append [of P w "[]" "[]"] by simp
  next
    case False
    with Cons assms(1) show ?thesis by (simp add: join_Cons runs_append)
  qed
qed simp

definition tag_ok :: "jstr \<Rightarrow> bool" where
  "tag_ok w = (w \<noteq> [] \<and> list_all (\<lambda>c. \<not> tag_sep c) w)"

lemma trim_no_sep: "list_all (\<lambda>c. \<not> tag_sep c) w \<Longrightarrow> trim w = w"
  by (rule trim_no_space) (auto simp: list_all_iff tag_sep_def)

lemma split_rx_words:
  "list_all (\<lambda>c. \<not> P c) acc \<Longrightarrow> length s \<le> n \<Longrightarrow> w \<in> set (split_rx n (RPlus (RCh P)) acc s) \<Longrightarrow> list_all (\<lambda>c. \<not> P c) w"
proof (cases "w = []")
  case False
  assume *: "list_all (\<lambda>c. \<not> P c) acc" "length s \<le> n" "w \<in> set (split_rx n (RPlus (RCh P)) acc s)"
  with False have "w \<in> set (filter (\<lambda>t. t \<noteq> []) (split_rx n (RPlus (RCh P)) acc s))" by simp
  then have "w \<in> set (runs P acc s)" by (simp only: split_rx_runs [OF *(2)])
  with *(1) runs_words show ?thesis by blast
qed simp

lemma parseTags_runs: "parseTags (Some s) = runs tag_sep [] s"
proof -
  have "map trim (split_rx (length s) (RPlus (RCh tag_sep)) [] s) = split_rx (length s) (RPlus (RCh tag_sep)) [] s"
  proof (rule map_idI)
    fix w assume "w \<in> set (split_rx (length s) (RPlus (RCh tag_sep)) [] s)"
    then have "list_all (\<lambda>c. \<not> tag_sep c) w" by (rule split_rx_words [rotated 2]) simp_all
    then show "trim w = w" by (rule trim_no_sep)
  qed
  then show ?thesis by (simp add: parseTags_def split_rx_runs)
qed

interpretation tags: list_codec "join [44]" "\<lambda>s. parseTags (Some s)" "list_all tag_ok"
proof unfold_locales
  show "list_all tag_ok ws \<Longrightarrow> parseTags (Some (join [44] ws)) = ws" for ws
    unfolding parseTags_runs by (rule runs_join) (auto simp: tag_sep_def tag_ok_def list_all_iff)
  show "list_all tag_ok (parseTags (Some s))" for s
    using runs_words [of tag_sep "[]" _ s] by (auto simp: parseTags_runs list_all_iff tag_ok_def)
qed

text \<open>The tags of a model are the maximal runs of characters other than commas, semicolons, bars
  and white space: every tag is a non-empty word without them, and writing the tags with commas and
  reading them again changes nothing.\<close>

theorem tags_are_words:
  "parseTags (Some s) = runs tag_sep [] s \<and> list_all tag_ok (parseTags (Some s))
   \<and> parseTags (Some (join [44] (parseTags (Some s)))) = parseTags (Some s)"
  by (simp add: parseTags_runs [symmetric] tags.printable_parse)

section \<open>The filters meet their contract\<close>

definition search_ok :: "(jstr \<Rightarrow> jstr) \<Rightarrow> jstr \<Rightarrow> PricingModel \<Rightarrow> bool" where
  "search_ok lower query m = (query = [] \<or> mentions lower (lower query) (Some (pm_name m))
     \<or> mentions lower (lower query) (pm_description m) \<or> mentions lower (lower query) (pm_tags m)
     \<or> mentions lower (lower query) (pm_vendor_name m))"

definition group_ok :: "jstr \<Rightarrow> PricingModel \<Rightarrow> bool" where
  "group_ok grp m = (grp = FILTER_ALL \<or> grp \<in> set (enabled_groups m))"

definition quota_ok :: "jstr \<Rightarrow> PricingModel \<Rightarrow> bool" where
  "quota_ok q m = (q = QUOTA_TYPES_ALL
     \<or> jeq (pm_quota_type m) (if q = QUOTA_TYPES_TOKEN then TOKEN_QUOTA else REQUEST_QUOTA))"

definition endpoint_ok :: "jstr \<Rightarrow> PricingModel \<Rightarrow> bool" where
  "endpoint_ok e m = (e = ENDPOINT_TYPES_ALL \<or> e \<in> set (upd (pm_endpoint_types m) []))"

interpretation search: list_filter "\<lambda>ms. filterBySearch lower ms q" "search_ok lower q" for lower q
  by unfold_locales (simp add: filterBySearch_def search_ok_def [abs_def] Let_def)

interpretation vendor: list_filter "\<lambda>ms. filterByVendor ms v" "\<lambda>m. v = FILTER_ALL \<or> pm_vendor_name m = Some v" for v
  by unfold_locales (simp add: filterByVendor_def)

lemma opt_member: "(case x of None \<Rightarrow> False | Some ys \<Rightarrow> y \<in> set ys) = (y \<in> set (upd x []))"
  by (cases x) (simp_all add: upd_def)

interpretation by_group: list_filter "\<lambda>ms. filterByGroup ms g" "group_ok g" for g
  by unfold_locales (simp add: filterByGroup_def group_ok_def [abs_def] enabled_groups_def opt_member)

interpretation quota: list_filter "\<lambda>ms. filterByQuotaType ms q" "quota_ok q" for q
  by unfold_locales (simp add: filterByQuotaType_def quota_ok_def [abs_def] Let_def)

interpretation endpoint: list_filter "\<lambda>ms. filterByEndpointType ms e" "endpoint_ok e" for e
  by unfold_locales (simp add: filterByEndpointType_def endpoint_ok_def [abs_def] opt_member)

interpretation by_tag: list_filter "\<lambda>ms. filterByTag lower ms t" "\<lambda>m. t = FILTER_ALL \<or> has_tag lower (lower t) m" for lower t
  by unfold_locales (simp add: filterByTag_def Let_def)

interpretation search_vendor: two_filters "\<lambda>ms. filterBySearch lower ms q" "search_ok lower q"
    "\<lambda>ms. filterByVendor ms v" "\<lambda>m. v = FILTER_ALL \<or> pm_vendor_name m = Some v" for lower q v
  by unfold_locales

lemmas filters_eq = search.filter_eq vendor.filter_eq by_group.filter_eq quota.filter_eq endpoint.filter_eq by_tag.filter_eq

definition model_matches :: "(jstr \<Rightarrow> jstr) \<Rightarrow> FilterSpec \<Rightarrow> PricingModel \<Rightarrow> bool" where
  "model_matches lower fs m = (search_ok lower (f_search fs) m
     \<and> (f_vendor fs = FILTER_ALL \<or> pm_vendor_name m = Some (f_vendor fs))
     \<and> group_ok (f_group fs) m \<and> quota_ok (f_quotaType fs) m \<and> endpoint_ok (f_endpointType fs) m
     \<and> (f_tag fs = FILTER_ALL \<or> has_tag lower (lower (f_tag fs)) m))"

lemma pipeline_eq: "filterAndSortModels lower lc ms fs = sortModels lc (filter (model_matches lower fs) ms) (f_sortBy fs)"
  by (simp add: filterAndSortModels_def filters_eq model_matches_def [abs_def] conj_ac)

section \<open>The sorted list\<close>

definition sort_le :: "(jstr \<Rightarrow> jstr \<Rightarrow> int) \<Rightarrow> jstr \<Rightarrow> PricingModel \<Rightarrow> PricingModel \<Rightarrow> bool" where
  "sort_le lc s a b = (if s = SORT_NAME then lc (pm_name a) (pm_name b) \<le> 0
     else if s = SORT_PRICE_LOW then getModelPrice a \<le> getModelPrice b
     else if s = SORT_PRICE_HIGH then getModelPrice b \<le> getModelPrice a else True)"

lemma comparator_sort_le:
  assumes "comparator (\<lambda>a b. lc a b \<le> 0)"
  shows "comparator (sort_le lc s)"
proof -
  have total: "lc a b \<le> 0 \<or> lc b a \<le> 0" and trans: "lc a b \<le> 0 \<Longrightarrow> lc b c \<le> 0 \<Longrightarrow> lc a c \<le> 0" for a b c
    using assms unfolding comparator_def by blast+
  show ?thesis
    by unfold_locales (use total trans in \<open>auto simp: sort_le_def split: if_splits\<close>)
qed

lemma sortModels_eq:
  assumes "list_all (\<lambda>m. is_double (getModelPrice m)) ms"
  shows "sortModels lc ms s = sort_by (sort_le lc s) ms"
proof -
  have d: "diff_le (getModelPrice a) (getModelPrice b) = (getModelPrice a \<le> getModelPrice b)"
    if "a \<in> set ms" "b \<in> set ms" for a b
    using that assms by (intro diff_le_iff) (auto simp: list_all_iff)
  have low: "sort_by (\<lambda>a b. diff_le (getModelPrice a) (getModelPrice b)) ms
      = sort_by (\<lambda>a b. getModelPrice a \<le> getModelPrice b) ms"
    by (rule sort_by_cong) (rule d)
  have high: "sort_by (\<lambda>a b. diff_le (getModelPrice b) (getModelPrice a)) ms
      = sort_by (\<lambda>a b. getModelPrice b \<le> getModelPrice a) ms"
    by (rule sort_by_cong) (rule d)
  have keep: "sort_by (\<lambda>_ _. True) ms = ms" using sort_by_two [of "\<lambda>_. True" ms] by simp
  show ?thesis
    unfolding sortModels_def low high sort_le_def [abs_def] using keep
    by (simp add: SORT_NAME_def SORT_PRICE_LOW_def SORT_PRICE_HIGH_def)
qed

text \<open>C13. What the price page shows: exactly the models that match every filter, each as often as it
  occurs, ordered by the chosen key (names by the collation, prices by \<open><=\<close>), and models the order does
  not separate in their original order. The prices are doubles and not \<open>NaN\<close>; the collation is a
  consistent comparison.\<close>

theorem filter_and_sort_correct:
  assumes "comparator (\<lambda>a b. lc a b \<le> 0)" "list_all (\<lambda>m. is_double (getModelPrice m)) ms"
  shows "let out = filterAndSortModels lower lc ms fs; le = sort_le lc (f_sortBy fs) in
     mset out = filter_mset (model_matches lower fs) (mset ms) \<and> sorted_wrt le out
     \<and> filter (\<lambda>x. le x m \<and> le m x) out = filter (\<lambda>x. model_matches lower fs x \<and> le x m \<and> le m x) ms"
proof -
  let ?le = "sort_le lc (f_sortBy fs)" and ?ms = "filter (model_matches lower fs) ms"
  have cmp: "comparator ?le" by (rule comparator_sort_le [OF assms(1)])
  have out: "filterAndSortModels lower lc ms fs = sort_by ?le ?ms"
    unfolding pipeline_eq using assms(2) by (intro sortModels_eq) (auto simp: list_all_iff)
  have "filter (\<lambda>x. ?le x m \<and> ?le m x) (sort_by ?le ?ms) = filter (\<lambda>x. ?le x m \<and> ?le m x) ?ms"
    by (rule comparator.sort_by_stable [OF cmp]) (use comparator.trans [OF cmp] in blast)
  with comparator.sorted_sort_by [OF cmp, of ?ms] show ?thesis
    by (simp add: out Let_def conj_commute conj_ac)
qed

theorem filter_and_sort_correct_witness:
  "let lower = id; lc = (\<lambda>a b. if str_le a b then 0 else 1); ms = [sample_model];
       m = sample_model;
       fs = \<lparr> f_search = [], f_vendor = FILTER_ALL, f_group = js ''vip'', f_quotaType = QUOTA_TYPES_TOKEN,
         f_endpointType = ENDPOINT_TYPES_ALL, f_tag = FILTER_ALL, f_sortBy = SORT_PRICE_LOW \<rparr>;
       out = filterAndSortModels lower lc ms fs; le = sort_le lc (f_sortBy fs) in
     mset out = filter_mset (model_matches lower fs) (mset ms) \<and> sorted_wrt le out
     \<and> filter (\<lambda>x. le x m \<and> le m x) out = filter (\<lambda>x. model_matches lower fs x \<and> le x m \<and> le m x) ms"
proof -
  have "comparator (\<lambda>a b. (if str_le a b then 0 else 1 :: int) \<le> 0)"
    using str_order.comparator_axioms by (simp cong: if_cong)
  then show ?thesis
    unfolding Let_def by (intro filter_and_sort_correct [unfolded Let_def])
      (simp_all add: sample_model_def getModelPrice_def double_eval)
qed

text \<open>Every tag the page offers selects some model: the offered tags are the lower-case tags of the
  listed models, without repetitions, and filtering by one of them is never empty. Lower case is
  assumed to be idempotent.\<close>

theorem offered_tags_select:
  assumes "\<And>s. lower (lower s) = lower s"
  shows "distinct (extractAllTags lower lc ms)
    \<and> list_all (\<lambda>t. filterByTag lower ms t \<noteq> []) (extractAllTags lower lc ms)"
proof -
  have "filterByTag lower ms t \<noteq> []" if "t \<in> set (extractAllTags lower lc ms)" for t
  proof -
    from that obtain m w where m: "m \<in> set ms" "\<not> (pm_tags m = None \<or> pm_tags m = Some [])"
      "w \<in> set (parseTags (pm_tags m))" "t = lower w"
      by (auto simp: extractAllTags_def split: if_splits)
    then have "has_tag lower (lower t) m" using assms by (auto simp: has_tag_def)
    with m(1) show ?thesis by (auto simp: by_tag.filter_eq filter_empty_conv)
  qed
  then show ?thesis by (auto simp: list_all_iff extractAllTags_def)
qed

theorem offered_tags_select_witness:
  "distinct (extractAllTags id (\<lambda>a b. if str_le a b then 0 else 1) [sample_model\<lparr> pm_tags := Some (js ''fast,vision'') \<rparr>])
    \<and> list_all (\<lambda>t. filterByTag id [sample_model\<lparr> pm_tags := Some (js ''fast,vision'') \<rparr>] t \<noteq> [])
        (extractAllTags id (\<lambda>a b. if str_le a b then 0 else 1) [sample_model\<lparr> pm_tags := Some (js ''fast,vision'') \<rparr>])"
  by (rule offered_tags_select) simp

section \<open>The filter state\<close>

lemma assoc_spread_single: "assoc_spread s [(k, v)] = assoc_put k v s"
  by (simp add: assoc_spread_def)

definition plain_get :: "FilterState \<Rightarrow> jstr \<Rightarrow> jval" where
  "plain_get s k = (case map_of s k of None \<Rightarrow> VUndef | Some v \<Rightarrow> if nullish v then VUndef else v)"

lemma get_delete_nullish: "plain_get (delete_nullish s k) k' = plain_get s k'"
  by (auto simp: delete_nullish_def plain_get_def split: option.splits)

lemma get_delete_all: "plain_get (foldl delete_nullish s ks) k = plain_get s k"
  by (induction ks arbitrary: s) (simp_all add: get_delete_nullish)

lemma delete_all_plain:
  "k \<in> set ks \<or> map_of s k = None \<or> (\<exists>v. map_of s k = Some v \<and> \<not> nullish v) \<Longrightarrow>
   (case map_of (foldl delete_nullish s ks) k of None \<Rightarrow> VUndef | Some v \<Rightarrow> v) = plain_get s k"
proof (induction ks arbitrary: s)
  case Nil
  then show ?case by (auto simp: plain_get_def)
next
  case (Cons j ks)
  have "k \<in> set ks \<or> map_of (delete_nullish s j) k = None \<or> (\<exists>v. map_of (delete_nullish s j) k = Some v \<and> \<not> nullish v)"
    using Cons.prems by (cases "map_of s k") (auto simp: delete_nullish_def split: option.splits)
  then show ?case using Cons.IH by (simp add: get_delete_nullish)
qed

lemma vget_updateFilters:
  assumes "distinct (map fst u)"
  shows "vget (updateFilters u s) k = (case map_of u (js k) of Some v \<Rightarrow> if nullish v then VUndef else v
     | None \<Rightarrow> plain_get s (js k))"
proof -
  let ?n = "assoc_spread s u"
  have "js k \<in> set (map fst ?n) \<or> map_of ?n (js k) = None" by (auto simp: map_of_eq_None_iff)
  then have "vget (updateFilters u s) k = plain_get ?n (js k)"
    unfolding updateFilters_def vget_def Let_def by (intro delete_all_plain) blast
  also have "\<dots> = (case map_of u (js k) of Some v \<Rightarrow> if nullish v then VUndef else v | None \<Rightarrow> plain_get s (js k))"
    by (simp add: plain_get_def map_of_assoc_spread [OF assms] map_add_def split: option.splits)
  finally show ?thesis .
qed

lemma text_field_plain: "text_field k d s = val_to_str (vor (plain_get s (js k)) (VStr d))"
  by (auto simp: text_field_def plain_get_def vget_def vor_def nullish_def split: option.splits)

lemmas field_defs = searchInput_def sortBy_def vendorFilter_def groupFilter_def quotaTypeFilter_def
  endpointTypeFilter_def tagFilter_def

lemmas setter_defs = setSearchInput_def setSortBy_def setVendorFilter_def setGroupFilter_def
  setQuotaTypeFilter_def setEndpointTypeFilter_def setTagFilter_def

lemma text_field_update: "text_field k' d (updateFilters [(js k, v)] s) =
    (if k' = k then val_to_str (vor v (VStr d)) else text_field k' d s)"
proof -
  have "text_field k' d (updateFilters [(js k, v)] s) = val_to_str (vor (vget (updateFilters [(js k, v)] s) k') (VStr d))"
    by (rule text_field_def)
  also have "\<dots> = (if k' = k then val_to_str (vor v (VStr d)) else text_field k' d s)"
    by (auto simp: vget_updateFilters text_field_plain vor_def nullish_def)
  finally show ?thesis .
qed

lemma text_field_clear: "text_field k d (clearFilters s) =
    (if k \<in> {''vendor'', ''group'', ''quotaType'', ''endpointType'', ''tag''} then d else text_field k d s)"
proof -
  have u: "distinct (map fst [(js ''vendor'', VUndef), (js ''group'', VUndef), (js ''quotaType'', VUndef),
     (js ''endpointType'', VUndef), (js ''tag'', VUndef)])" by simp
  have "text_field k d (clearFilters s) = val_to_str (vor (vget (clearFilters s) k) (VStr d))"
    by (rule text_field_def)
  also have "\<dots> = (if k \<in> {''vendor'', ''group'', ''quotaType'', ''endpointType'', ''tag''} then d else text_field k d s)"
    by (auto simp: clearFilters_def vget_updateFilters [OF u] text_field_plain vor_def nullish_def)
  finally show ?thesis .
qed

text \<open>Clearing the filters: afterwards no filter is active, the search and the order are what they
  were, and the page shows every model the search finds; and the badge that counts active filters is
  above zero exactly when the button that clears them is shown.\<close>

theorem clear_filters_resets:
  "hasActiveFilters s = (0 < activeFilterCount s) \<and> activeFilterCount (clearFilters s) = 0
   \<and> searchInput (clearFilters s) = searchInput s \<and> sortBy (clearFilters s) = sortBy s
   \<and> filteredModels lower lc ms (clearFilters s) =
       (if ms = [] then [] else sortModels lc (filterBySearch lower ms (searchInput s)) (sortBy s))"
proof -
  have match: "model_matches lower \<lparr> f_search = q, f_vendor = FILTER_ALL, f_group = FILTER_ALL,
      f_quotaType = QUOTA_TYPES_ALL, f_endpointType = ENDPOINT_TYPES_ALL, f_tag = FILTER_ALL, f_sortBy = o' \<rparr>
    = search_ok lower q" for q o'
    by (simp add: model_matches_def fun_eq_iff group_ok_def quota_ok_def endpoint_ok_def)
  show ?thesis
    by (simp add: hasActiveFilters_def activeFilterCount_def filteredModels_def pipeline_eq field_defs
        text_field_clear match search.filter_eq)
qed

text \<open>The setters of the filter state: reading a member just set gives the value back (an empty text
  counts as the default), and the other members are unchanged.\<close>

theorem filter_setters:
  "(vendorFilter (setVendorFilter v s) = sor v FILTER_ALL \<and> groupFilter (setGroupFilter v s) = sor v FILTER_ALL
    \<and> quotaTypeFilter (setQuotaTypeFilter v s) = sor v QUOTA_TYPES_ALL
    \<and> endpointTypeFilter (setEndpointTypeFilter v s) = sor v ENDPOINT_TYPES_ALL
    \<and> tagFilter (setTagFilter v s) = sor v FILTER_ALL \<and> sortBy (setSortBy v s) = sor v SORT_NAME
    \<and> searchInput (setSearchInput v s) = v)
   \<and> list_all (\<lambda>g. g (setVendorFilter v s) = g s) [groupFilter, quotaTypeFilter, endpointTypeFilter, tagFilter, sortBy, searchInput]
   \<and> list_all (\<lambda>g. g (setSearchInput v s) = g s) [vendorFilter, groupFilter, quotaTypeFilter, endpointTypeFilter, tagFilter, sortBy]"
proof -
  have get: "val_to_str (vor (unless_default d v) (VStr d)) = sor v d" for d
    by (simp add: unless_default_def vor_def sor_def)
  have search: "val_to_str (vor (vor (VStr v) VUndef) (VStr [])) = v" by (simp add: vor_def)
  show ?thesis by (simp add: field_defs setter_defs text_field_update get search)
qed

end
