(* ===== verification/Js_Pretty.thy ===== *)
theory Js_Pretty
  imports Js_Value
begin

text \<open>
  \<open>JSON.stringify(v, null, 2)\<close>: the indented text of a value, and the proof that \<open>JSON.parse\<close> reads it
  back. White space between tokens is skipped by the parser; the lemmas carry it along.
\<close>

section \<open>Indented text\<close>

definition new_line :: "nat \<Rightarrow> jstr" where
  "new_line d = 10 # replicate (2 * d) 32"

definition bracketed :: "nat \<Rightarrow> nat \<Rightarrow> nat \<Rightarrow> jstr list \<Rightarrow> jstr" where
  "bracketed d l r ts = (if ts = [] then [l, r]
     else l # new_line (Suc d) @ join (44 # new_line (Suc d)) ts @ new_line d @ [r])"

fun json_indent :: "nat \<Rightarrow> jval \<Rightarrow> jstr option" where
  "json_indent d (VArr vs) = Some (bracketed d 91 93
     (map (\<lambda>v. case json_indent (Suc d) v of None \<Rightarrow> js ''null'' | Some t \<Rightarrow> t) vs))"
| "json_indent d (VObj m) = Some (bracketed d 123 125
     (concat (map (\<lambda>(k, v). case json_indent (Suc d) v of None \<Rightarrow> []
        | Some t \<Rightarrow> [json_quote k @ 58 # 32 # t]) m)))"
| "json_indent d v = json_text v"

definition json_pretty :: "jval \<Rightarrow> jstr" where
  "json_pretty v = (case json_indent 0 v of None \<Rightarrow> js ''undefined'' | Some t \<Rightarrow> t)"

section \<open>White space\<close>

abbreviation blank :: "jstr \<Rightarrow> bool" where
  "blank w \<equiv> list_all json_ws w"

lemma blank_new_line [simp]: "blank (new_line d)"
  by (simp add: new_line_def json_ws_def list_all_iff)

lemma skip_ws_blank: "blank w \<Longrightarrow> skip_ws (w @ s) = skip_ws s"
  by (induction w) auto

lemma json_value_blank: "blank w \<Longrightarrow> json_value n (w @ s) = json_value n s"
  by (cases n) (simp_all add: skip_ws_blank)

lemma json_members_blank: "blank w \<Longrightarrow> json_members n (w @ s) = json_members n s"
  by (cases n) (simp_all add: skip_ws_blank)

lemma json_elems_blank: "blank w \<Longrightarrow> json_elems n (w @ s) = json_elems n s"
  by (cases n) (simp_all add: json_value_blank)

text \<open>A value may also be followed by a line break.\<close>

definition wstops :: "jstr \<Rightarrow> bool" where
  "wstops r = (stops r \<or> hd r = 10)"

lemma wstops_simps [simp]:
  "wstops []" "wstops (44 # r)" "wstops (93 # r)" "wstops (125 # r)" "wstops (new_line d @ r)"
  by (simp_all add: wstops_def new_line_def)

definition preads :: "jval \<Rightarrow> jstr \<Rightarrow> bool" where
  "preads v t = (t \<noteq> [] \<and> \<not> json_ws (hd t) \<and> hd t \<noteq> 93 \<and>
     (\<forall>n r. 2 * length t < n \<longrightarrow> wstops r \<longrightarrow> json_value n (t @ r) = Some (v, r)))"

lemma preadsD: "preads v t \<Longrightarrow> 2 * length t < n \<Longrightarrow> wstops r \<Longrightarrow> json_value n (t @ r) = Some (v, r)"
  by (simp add: preads_def)

lemma preadsI:
  assumes "t \<noteq> []" "\<not> json_ws (hd t)" "hd t \<noteq> 93"
    and "\<And>n r. 2 * length t < Suc n \<Longrightarrow> wstops r \<Longrightarrow> json_value (Suc n) (t @ r) = Some (v, r)"
  shows "preads v t"
  unfolding preads_def
proof (intro conjI allI impI)
  fix n r assume *: "2 * length t < n" "wstops r"
  then obtain k where "n = Suc k" by (cases n) auto
  with assms(4) * show "json_value n (t @ r) = Some (v, r)" by simp
qed (use assms in auto)

section \<open>Elements and members\<close>

lemma elems_between:
  assumes "vts \<noteq> []" "\<forall>(v, t)\<in>set vts. preads v t" "blank w" "blank z" "\<And>q. wstops (z @ 93 # q)"
    and "2 * length (join (44 # w) (map snd vts)) + 1 < n"
  shows "json_elems n (join (44 # w) (map snd vts) @ z @ 93 # r) = Some (map fst vts, r)"
  using assms(1,2,6)
proof (induction vts arbitrary: n)
  case (Cons vt vts)
  obtain v t where vt: "vt = (v, t)" by force
  from Cons.prems(3) obtain m where n: "n = Suc m" by (cases n) auto
  have v: "preads v t" using Cons.prems(2) vt by simp
  show ?case
  proof (cases "vts = []")
    case True
    then have "2 * length t < m" using Cons.prems(3) vt n by simp
    from preadsD [OF v this assms(5)] True vt n show ?thesis
      using skip_ws_blank [OF assms(4), of "93 # r"] by (simp add: json_ws_def)
  next
    case False
    then have j: "join (44 # w) (map snd (vt # vts)) = t @ 44 # w @ join (44 # w) (map snd vts)"
      using vt by (simp add: join_Cons)
    with Cons.prems(3) n have b: "2 * length t < m" "2 * length (join (44 # w) (map snd vts)) + 1 < m" by simp_all
    then have "json_value m (t @ 44 # w @ join (44 # w) (map snd vts) @ z @ 93 # r)
        = Some (v, 44 # w @ join (44 # w) (map snd vts) @ z @ 93 # r)"
      by (intro preadsD [OF v]) simp_all
    moreover have "json_elems m (join (44 # w) (map snd vts) @ z @ 93 # r) = Some (map fst vts, r)"
      using Cons.IH Cons.prems(2) False b by auto
    ultimately have "json_elems (Suc m) (t @ 44 # w @ join (44 # w) (map snd vts) @ z @ 93 # r)
        = Some (v # map fst vts, r)"
      using json_elems_blank [OF assms(3)] by (simp add: json_ws_def)
    then show ?thesis unfolding j n by (simp add: vt del: json_elems.simps)
  qed
qed simp

definition member_text :: "jstr \<times> jval \<times> jstr \<Rightarrow> jstr" where
  "member_text = (\<lambda>(k, v, t). json_quote k @ 58 # 32 # t)"

lemma members_between:
  assumes "kvts \<noteq> []" "\<forall>(k, v, t)\<in>set kvts. code_units k \<and> preads v t" "blank w" "blank z"
    "\<And>q. wstops (z @ 125 # q)" and "2 * length (join (44 # w) (map member_text kvts)) + 1 < n"
  shows "json_members n (join (44 # w) (map member_text kvts) @ z @ 125 # r)
    = Some (map (\<lambda>(k, v, t). (k, v)) kvts, r)"
  using assms(1,2,6)
proof (induction kvts arbitrary: n)
  case (Cons kvt kvts)
  obtain k v t where kvt: "kvt = (k, v, t)" by (cases kvt) auto
  from Cons.prems(3) obtain m where n: "n = Suc m" by (cases n) auto
  have v: "preads v t" and k: "code_units k" using Cons.prems(2) kvt by simp_all
  have head: "member_text kvt @ s = 34 # json_esc k @ 34 # 58 # 32 # t @ s" for s
    by (simp add: member_text_def kvt json_quote_def)
  have space: "json_value q (32 # s) = json_value q s" for q s
    using json_value_blank [of "[32]" q s] by (simp add: json_ws_def)
  show ?case
  proof (cases "kvts = []")
    case True
    then have "2 * length t < m" using Cons.prems(3) n by (simp add: member_text_def kvt)
    from preadsD [OF v this assms(5)] True k show ?thesis
      using skip_ws_blank [OF assms(4), of "125 # r"]
      by (simp add: n head [unfolded kvt] space kvt json_ws_def json_str_body_esc)
  next
    case False
    let ?j = "join (44 # w) (map member_text kvts)"
    have j: "join (44 # w) (map member_text (kvt # kvts)) = member_text kvt @ 44 # w @ ?j"
      using False by (simp add: join_Cons)
    with Cons.prems(3) n have b: "2 * length t < m" "2 * length ?j + 1 < m"
      by (simp_all add: member_text_def kvt)
    then have "json_value m (t @ 44 # w @ ?j @ z @ 125 # r) = Some (v, 44 # w @ ?j @ z @ 125 # r)"
      by (intro preadsD [OF v]) simp_all
    moreover have "json_members m (?j @ z @ 125 # r) = Some (map (\<lambda>(k, v, t). (k, v)) kvts, r)"
      using Cons.IH Cons.prems(2) False b by auto
    ultimately have "json_members (Suc m) (member_text kvt @ 44 # w @ ?j @ z @ 125 # r)
        = Some ((k, v) # map (\<lambda>(k, v, t). (k, v)) kvts, r)"
      using k json_members_blank [OF assms(3)] by (simp add: head space json_ws_def json_str_body_esc)
    then show ?thesis unfolding j n by (simp add: kvt del: json_members.simps)
  qed
qed simp

lemma preads_leaf:
  assumes "json_plain v" "json_text v = Some t" "\<forall>vs. v \<noteq> VArr vs" "\<forall>m. v \<noteq> VObj m"
  shows "preads v t"
proof (cases v)
  case (VNum x)
  with assms have t: "t = num_to_str x" and p: "num_plain x" by (simp_all add: num_plain_def)
  obtain c u where c: "num_to_str x = c # u" "is_digit c \<or> c = 45" using p by (rule num_head)
  then have nws: "\<not> json_ws c" "c \<noteq> 93" "c \<noteq> 34" "c \<noteq> 91" "c \<noteq> 123" "c \<noteq> 116" "c \<noteq> 102" "c \<noteq> 110"
    by (auto simp: is_digit_def json_ws_def)
  have num: "json_number (num_to_str x @ r) = Some (VNum x, r)" if "wstops r" for r
  proof -
    have r: "r = [] \<or> \<not> num_char (hd r)"
      using that by (auto simp: wstops_def stops_def num_char_def is_digit_def)
    have all: "\<forall>c\<in>set (num_to_str x). num_char c" using p by (simp add: num_plain_def list_all_iff)
    have "takeWhile num_char (num_to_str x @ r) = num_to_str x" "dropWhile num_char (num_to_str x @ r) = r"
      using r all by (cases r; simp)+
    with p show ?thesis by (simp add: json_number_def num_plain_def Let_def)
  qed
  have "preads (VNum x) (num_to_str x)"
    using c(1) nws num by (intro preadsI) (simp_all add: json_word_def js_def)
  then show ?thesis using VNum t by simp
next
  case (VStr s)
  with assms have "t = json_quote s" "code_units s" by simp_all
  moreover from this(2) have "preads (VStr s) (json_quote s)"
    by (intro preadsI json_value_quote) (simp_all add: json_quote_def json_ws_def)
  ultimately show ?thesis using VStr by simp
next
  case VNull
  with assms show ?thesis by (auto intro!: preadsI simp: js_def json_ws_def json_word_def)
next
  case (VBool b)
  with assms show ?thesis by (cases b) (auto intro!: preadsI simp: js_def json_ws_def json_word_def)
qed (use assms in simp_all)

lemma preads_arr:
  assumes "\<forall>(v, t)\<in>set vts. preads v t"
  shows "preads (VArr (map fst vts)) (bracketed d 91 93 (map snd vts))"
proof (rule preadsI)
  fix n r assume n: "2 * length (bracketed d 91 93 (map snd vts)) < Suc n" and "wstops r"
  let ?w = "new_line (Suc d)"
  show "json_value (Suc n) (bracketed d 91 93 (map snd vts) @ r) = Some (VArr (map fst vts), r)"
  proof (cases "vts = []")
    case True
    then show ?thesis by (simp add: bracketed_def json_ws_def)
  next
    case False
    let ?j = "join (44 # ?w) (map snd vts)"
    have "\<exists>c u. ?j = c # u \<and> \<not> json_ws c \<and> c \<noteq> 93"
      by (rule reads_head_join) (use assms False in \<open>auto simp: preads_def\<close>)
    then obtain c u where c: "?j = c # u" "\<not> json_ws c" "c \<noteq> 93" by blast
    have "json_elems n (?j @ new_line d @ 93 # r) = Some (map fst vts, r)"
      using n False assms by (intro elems_between) (simp_all add: bracketed_def)
    moreover have "skip_ws (?w @ ?j @ new_line d @ 93 # r) = ?j @ new_line d @ 93 # r"
      using c by (simp add: skip_ws_blank)
    ultimately show ?thesis
      using False c json_elems_blank [of ?w] by (simp add: bracketed_def json_ws_def)
  qed
qed (simp_all add: bracketed_def json_ws_def)

lemma preads_obj:
  assumes "\<forall>(k, v, t)\<in>set kvts. code_units k \<and> preads v t"
    and "obj_of (map (\<lambda>(k, v, t). (k, v)) kvts) = m"
  shows "preads (VObj m) (bracketed d 123 125 (map member_text kvts))"
proof (rule preadsI)
  fix n r assume n: "2 * length (bracketed d 123 125 (map member_text kvts)) < Suc n" and "wstops r"
  let ?w = "new_line (Suc d)"
  show "json_value (Suc n) (bracketed d 123 125 (map member_text kvts) @ r) = Some (VObj m, r)"
  proof (cases "kvts = []")
    case True
    with assms(2) show ?thesis by (simp add: bracketed_def json_ws_def obj_of_def)
  next
    case False
    let ?j = "join (44 # ?w) (map member_text kvts)"
    have "\<exists>c u. ?j = c # u \<and> \<not> json_ws c \<and> c \<noteq> 125"
      by (rule reads_head_join) (use False in \<open>auto simp: member_text_def json_quote_def json_ws_def\<close>)
    then obtain c u where c: "?j = c # u" "\<not> json_ws c" "c \<noteq> 125" by blast
    have "json_members n (?j @ new_line d @ 125 # r) = Some (map (\<lambda>(k, v, t). (k, v)) kvts, r)"
      using n False assms(1) by (intro members_between) (simp_all add: bracketed_def)
    moreover have "skip_ws (?w @ ?j @ new_line d @ 125 # r) = ?j @ new_line d @ 125 # r"
      using c by (simp add: skip_ws_blank)
    ultimately show ?thesis
      using False c assms(2) json_members_blank [of ?w] by (simp add: bracketed_def json_ws_def)
  qed
qed (simp_all add: bracketed_def json_ws_def)

definition indent_of :: "nat \<Rightarrow> jval \<Rightarrow> jstr" where
  "indent_of d v = the (json_indent d v)"

lemma json_indent_leaf: "\<forall>vs. v \<noteq> VArr vs \<Longrightarrow> \<forall>m. v \<noteq> VObj m \<Longrightarrow> json_indent d v = json_text v"
  by (cases v) auto

lemma json_plain_preads: "json_plain v \<Longrightarrow> json_indent d v = Some (indent_of d v) \<and> preads v (indent_of d v)"
proof (induction v arbitrary: d rule: json_plain.induct)
  case (6 vs)
  then have IH: "\<And>v d. v \<in> set vs \<Longrightarrow> json_indent d v = Some (indent_of d v) \<and> preads v (indent_of d v)"
    by (simp add: list_all_iff)
  have t: "json_indent d (VArr vs) = Some (bracketed d 91 93 (map (indent_of (Suc d)) vs))"
    using IH by (simp cong: map_cong)
  have "preads (VArr (map fst (map (\<lambda>v. (v, indent_of (Suc d) v)) vs)))
      (bracketed d 91 93 (map snd (map (\<lambda>v. (v, indent_of (Suc d) v)) vs)))"
    using IH by (intro preads_arr) auto
  moreover have "indent_of d (VArr vs) = bracketed d 91 93 (map (indent_of (Suc d)) vs)"
    using t unfolding indent_of_def [of d "VArr vs"] by (simp only: option.sel)
  ultimately show ?case using t by (simp add: o_def del: json_indent.simps)
next
  case (7 m)
  then have IH: "\<And>k v d. (k, v) \<in> set m \<Longrightarrow> code_units k \<and> json_indent d v = Some (indent_of d v) \<and> preads v (indent_of d v)"
    by (fastforce simp: list_all_iff)
  let ?kvts = "map (\<lambda>(k, v). (k, v, indent_of (Suc d) v)) m"
  have "\<forall>(k, v)\<in>set m. json_indent (Suc d) v = Some (indent_of (Suc d) v)"
    using IH by auto
  then have "concat (map (\<lambda>(k, v). case json_indent (Suc d) v of None \<Rightarrow> []
        | Some t \<Rightarrow> [json_quote k @ 58 # 32 # t]) m) = map member_text ?kvts"
    by (induction m) (auto simp: member_text_def)
  then have t: "json_indent d (VObj m) = Some (bracketed d 123 125 (map member_text ?kvts))" by simp
  have "obj_of m = m" using 7(2) by (simp del: json_indent.simps)
  then have "obj_of (map (\<lambda>(k, v, t). (k, v)) ?kvts) = m" by (simp add: o_def case_prod_beta)
  then have "preads (VObj m) (bracketed d 123 125 (map member_text ?kvts))"
    using IH by (intro preads_obj) auto
  moreover have "indent_of d (VObj m) = bracketed d 123 125 (map member_text ?kvts)"
    using t unfolding indent_of_def [of d "VObj m"] by (simp only: option.sel)
  ultimately show ?case using t by (simp del: json_indent.simps)
qed (auto intro!: preads_leaf simp: indent_of_def num_plain_def)

theorem json_parse_pretty:
  assumes "json_plain v"
  shows "json_parse (json_pretty v) = Some v"
proof -
  have t: "json_indent 0 v = Some (indent_of 0 v)" and r: "preads v (indent_of 0 v)"
    using json_plain_preads [OF assms] by auto
  have "json_value (Suc (2 * length (indent_of 0 v))) (indent_of 0 v @ []) = Some (v, [])"
    using r by (rule preadsD) simp_all
  with t show ?thesis by (simp add: json_parse_def json_pretty_def)
qed

lemma json_pretty_trim:
  assumes "json_plain v"
  shows "json_pretty v \<noteq> []"
  using json_plain_preads [OF assms, of 0] by (auto simp: json_pretty_def preads_def)

text \<open>An object whose keys are distinct and no array indices keeps them as written.\<close>

lemma obj_of_snoc: "k \<notin> fst ` set m \<Longrightarrow> array_index k = None \<Longrightarrow> obj_put k v m = m @ [(k, v)]"
  by (simp add: obj_put_def)

lemma obj_of_id:
  assumes "distinct (map fst m)" "\<forall>k\<in>fst ` set m. array_index k = None"
  shows "obj_of m = m"
proof -
  have "foldl (\<lambda>m (k, v). obj_put k v m) acc m = acc @ m"
    if "distinct (map fst (acc @ m))" "\<forall>k\<in>fst ` set m. array_index k = None" for acc m :: "(jstr \<times> 'a) list"
    using that by (induction m arbitrary: acc) (auto simp: obj_of_snoc)
  from this [of "[]" m] assms show ?thesis by (simp add: obj_of_def)
qed

section \<open>White space around a text\<close>

lemma no_space_word: "is_space c \<Longrightarrow> \<not> num_char c"
  by (auto simp: is_space_def num_char_def is_digit_def)

lemma trimmed_num: "num_plain x \<Longrightarrow> trimmed (num_to_str x)"
  by (metis list_all_iff no_space_word num_plain_def trim_no_space trimmed_trim)

lemma trimmed_ends: "\<not> is_space l \<Longrightarrow> \<not> is_space r \<Longrightarrow> trimmed (l # s @ [r])"
  by (simp add: trimmed_def)

lemma trimmed_quote: "trimmed (json_quote s)"
  unfolding json_quote_def by (rule trimmed_ends) (simp_all add: is_space_def)

lemma trimmed_bracketed: "\<not> is_space l \<Longrightarrow> \<not> is_space r \<Longrightarrow> trimmed (bracketed d l r ts)"
  by (simp add: bracketed_def trimmed_def)

lemma trimmed_words: "trimmed (js ''null'')" "trimmed (js ''true'')" "trimmed (js ''false'')"
  by (simp_all add: js_def trimmed_def is_space_def)

lemma trimmed_pretty: "json_plain v \<Longrightarrow> trimmed (json_pretty v)"
  by (cases v) (simp_all add: json_pretty_def trimmed_num trimmed_quote trimmed_words num_plain_def
      trimmed_bracketed is_space_def)

lemma trimmed_stringify: "json_plain v \<Longrightarrow> trimmed (json_stringify v)"
  by (cases v) (simp_all add: json_stringify_def trimmed_num trimmed_quote trimmed_words num_plain_def
      trimmed_ends is_space_def)

lemma stringify_not_empty: "json_plain v \<Longrightarrow> json_stringify v \<noteq> []"
  using json_plain_reads [of v] by (auto simp: json_stringify_def reads_def)

lemma vget_Cons: "vget ((k, v) # m) k' = (if k = js k' then v else vget m k')"
  by (simp add: vget_def)

lemma vget_Nil [simp]: "vget [] k = VUndef"
  by (simp add: vget_def)

section \<open>Objects built member by member\<close>

definition plain_members :: "(jstr \<times> jval) list \<Rightarrow> bool" where
  "plain_members m = (distinct (map fst m) \<and> (\<forall>(k, v)\<in>set m. array_index k = None \<and> code_units k \<and> json_plain v))"

lemma plain_members_plain: "plain_members m \<Longrightarrow> json_plain (VObj m)"
  by (auto simp: plain_members_def list_all_iff intro!: obj_of_id)

lemma plain_members_Nil [simp]: "plain_members []"
  by (simp add: plain_members_def)

lemma set_assoc_put: "set (assoc_put k v m) \<subseteq> insert (k, v) (set m)"
  by (induction k v m rule: assoc_put.induct) auto

lemma plain_members_put:
  assumes "plain_members m" "array_index k = None" "code_units k" "json_plain v"
  shows "plain_members (obj_put k v m)"
proof (cases "k \<in> fst ` set m")
  case True
  then have p: "obj_put k v m = assoc_put k v m" by (simp add: obj_put_def)
  show ?thesis unfolding p plain_members_def
    using assms set_assoc_put [of k v m] by (fastforce simp: plain_members_def)
next
  case False
  then show ?thesis using assms by (auto simp: obj_put_def plain_members_def)
qed

lemma plain_members_put_if:
  "plain_members m \<Longrightarrow> array_index (js k) = None \<Longrightarrow> code_units (js k) \<Longrightarrow> (c \<Longrightarrow> json_plain v)
     \<Longrightarrow> plain_members (put_if c k v m)"
  by (simp add: put_if_def plain_members_put)

lemma assoc_put_snoc: "k \<notin> fst ` set m \<Longrightarrow> assoc_put k v (m @ [(k, u)]) = m @ [(k, v)]"
  by (induction m) auto

lemma assoc_put_twice: "assoc_put k v (assoc_put k u m) = assoc_put k v m"
  by (induction k u m rule: assoc_put.induct) auto

lemma obj_put_twice: "array_index k = None \<Longrightarrow> obj_put k v (obj_put k u m) = obj_put k v m"
  using fst_obj_put [of k u m]
  by (cases "k \<in> fst ` set m") (simp_all add: obj_put_def assoc_put_twice assoc_put_snoc)

lemma assoc_put_append: "k \<in> fst ` set m \<Longrightarrow> assoc_put k v (m @ n) = assoc_put k v m @ n"
  by (induction m) force+

lemma assoc_put_swap: "k \<noteq> k' \<Longrightarrow> k \<in> fst ` set m \<Longrightarrow> k' \<in> fst ` set m
    \<Longrightarrow> assoc_put k v (assoc_put k' w m) = assoc_put k' w (assoc_put k v m)"
  by (induction m) force+

lemma obj_put_swap:
  assumes "array_index k' = None" "k \<noteq> k'" "k \<in> fst ` set m"
  shows "obj_put k v (obj_put k' w m) = obj_put k' w (obj_put k v m)"
  using assms fst_obj_put [of k v m] fst_obj_put [of k' w m]
  by (cases "k' \<in> fst ` set m") (auto simp: obj_put_def assoc_put_append assoc_put_swap)

end
