(* ===== verification/ParamOverride.thy ===== *)
theory ParamOverride
  imports Js_Pretty Js_Lists
begin

text \<open>
  Parameter overrides of a channel: the types, tables, parsers, printers and checks of
  \<open>features/channels/components/dialogs/param-override-editor-dialog.tsx\<close>. An override is stored as JSON;
  the visual editor holds it as a list of operations with local identifiers. Identifiers come from
  the clock and a counter; the counter is threaded as a number and the clock is the parameter \<open>now\<close>
  (the text of the time at the n-th call). Errors thrown are the left values of a sum.
\<close>

section \<open>Data\<close>

record OverrideCondition =
  oc_id :: jstr
  oc_path :: jstr
  oc_mode :: jstr
  oc_value_text :: jstr
  oc_invert :: bool
  oc_pass_missing_key :: bool

record OverrideOperation =
  oo_id :: jstr
  oo_description :: jstr
  oo_path :: jstr
  oo_mode :: jstr
  oo_from :: jstr
  oo_to :: jstr
  oo_value_text :: jstr
  oo_keep_origin :: bool
  oo_logic :: jstr
  oo_conditions :: "OverrideCondition list"

datatype override_error = TypeErr | Thrown jstr

type_synonym 'a fallible = "override_error + 'a"

fun bind_err :: "'e + 'a \<Rightarrow> ('a \<Rightarrow> 'e + 'b) \<Rightarrow> 'e + 'b" where
  "bind_err (Inl e) f = Inl e"
| "bind_err (Inr x) f = f x"

section \<open>Tables\<close>

text \<open>Values with their labels.\<close>

definition OPERATION_MODE_OPTIONS :: "(jstr \<times> jstr) list" where
  "OPERATION_MODE_OPTIONS = [
     (js ''set'', js ''Set Field''),
     (js ''delete'', js ''Delete Field''),
     (js ''append'', js ''Append to End''),
     (js ''prepend'', js ''Prepend to Start''),
     (js ''copy'', js ''Copy Field''),
     (js ''move'', js ''Move Field''),
     (js ''replace'', js ''String Replace''),
     (js ''regex_replace'', js ''Regex Replace''),
     (js ''trim_prefix'', js ''Trim Prefix''),
     (js ''trim_suffix'', js ''Trim Suffix''),
     (js ''ensure_prefix'', js ''Ensure Prefix''),
     (js ''ensure_suffix'', js ''Ensure Suffix''),
     (js ''trim_space'', js ''Trim Space''),
     (js ''to_lower'', js ''To Lowercase''),
     (js ''to_upper'', js ''To Uppercase''),
     (js ''return_error'', js ''Return Custom Error''),
     (js ''prune_objects'', js ''Prune Object Items''),
     (js ''pass_headers'', js ''Pass Through Headers''),
     (js ''sync_fields'', js ''Sync Fields''),
     (js ''set_header'', js ''Set Request Header''),
     (js ''delete_header'', js ''Delete Request Header''),
     (js ''copy_header'', js ''Copy Request Header''),
     (js ''move_header'', js ''Move Request Header'')]"

definition OPERATION_MODE_VALUES :: "jstr list" where
  "OPERATION_MODE_VALUES = map fst OPERATION_MODE_OPTIONS"

definition OPERATION_MODE_LABEL_MAP :: "(jstr \<times> jstr) list" where
  "OPERATION_MODE_LABEL_MAP = foldl (\<lambda>acc (v, l). obj_put v l acc) [] OPERATION_MODE_OPTIONS"

definition CONDITION_MODE_OPTIONS :: "(jstr \<times> jstr) list" where
  "CONDITION_MODE_OPTIONS = [
     (js ''full'', js ''Exact Match''),
     (js ''prefix'', js ''Prefix''),
     (js ''suffix'', js ''Suffix''),
     (js ''contains'', js ''Contains''),
     (js ''gt'', js ''Greater Than''),
     (js ''gte'', js ''Greater Than or Equal''),
     (js ''lt'', js ''Less Than''),
     (js ''lte'', js ''Less Than or Equal'')]"

definition CONDITION_MODE_VALUES :: "jstr list" where
  "CONDITION_MODE_VALUES = map fst CONDITION_MODE_OPTIONS"

text \<open>The flags of a mode that are true; an absent flag is false.\<close>

datatype ModeFlag = M_path | M_pathOptional | M_value | M_from | M_to | M_keepOrigin | M_pathAlias

definition MODE_META :: "(jstr \<times> ModeFlag list) list" where
  "MODE_META = [
     (js ''delete'', [M_path]),
     (js ''set'', [M_path, M_value, M_keepOrigin]),
     (js ''append'', [M_path, M_value, M_keepOrigin]),
     (js ''prepend'', [M_path, M_value, M_keepOrigin]),
     (js ''copy'', [M_from, M_to]),
     (js ''move'', [M_from, M_to]),
     (js ''replace'', [M_path, M_from]),
     (js ''regex_replace'', [M_path, M_from]),
     (js ''trim_prefix'', [M_path, M_value]),
     (js ''trim_suffix'', [M_path, M_value]),
     (js ''ensure_prefix'', [M_path, M_value]),
     (js ''ensure_suffix'', [M_path, M_value]),
     (js ''trim_space'', [M_path]),
     (js ''to_lower'', [M_path]),
     (js ''to_upper'', [M_path]),
     (js ''return_error'', [M_value]),
     (js ''prune_objects'', [M_pathOptional, M_value]),
     (js ''pass_headers'', [M_value, M_keepOrigin]),
     (js ''sync_fields'', [M_from, M_to]),
     (js ''set_header'', [M_path, M_value, M_keepOrigin]),
     (js ''delete_header'', [M_path]),
     (js ''copy_header'', [M_from, M_to, M_keepOrigin, M_pathAlias]),
     (js ''move_header'', [M_from, M_to, M_keepOrigin, M_pathAlias])]"

definition VALUE_REQUIRED_MODES :: "jstr list" where
  "VALUE_REQUIRED_MODES = map js [''trim_prefix'', ''trim_suffix'', ''ensure_prefix'', ''ensure_suffix'',
     ''set_header'', ''return_error'', ''prune_objects'', ''pass_headers'']"

definition FROM_REQUIRED_MODES :: "jstr list" where
  "FROM_REQUIRED_MODES = map js [''copy'', ''move'', ''replace'', ''regex_replace'', ''copy_header'',
     ''move_header'', ''sync_fields'']"

definition TO_REQUIRED_MODES :: "jstr list" where
  "TO_REQUIRED_MODES = map js [''copy'', ''move'', ''copy_header'', ''move_header'', ''sync_fields'']"

definition MODE_DESCRIPTIONS :: "(jstr \<times> jstr) list" where
  "MODE_DESCRIPTIONS = [
     (js ''set'', js ''Write value to the target field''),
     (js ''delete'', js ''Remove the target field''),
     (js ''append'', js ''Append value to array / string / object end''),
     (js ''prepend'', js ''Prepend value to array / string / object start''),
     (js ''copy'', js ''Copy source field to target field''),
     (js ''move'', js ''Move source field to target field''),
     (js ''replace'', js ''Do string replacement in the target field''),
     (js ''regex_replace'', js ''Do regex replacement in the target field''),
     (js ''trim_prefix'', js ''Remove string prefix''),
     (js ''trim_suffix'', js ''Remove string suffix''),
     (js ''ensure_prefix'', js ''Ensure the string has a specified prefix''),
     (js ''ensure_suffix'', js ''Ensure the string has a specified suffix''),
     (js ''trim_space'', js ''Trim leading/trailing whitespace''),
     (js ''to_lower'', js ''Convert string to lowercase''),
     (js ''to_upper'', js ''Convert string to uppercase''),
     (js ''return_error'', js ''Return a custom error immediately''),
     (js ''prune_objects'', js ''Prune object items by conditions''),
     (js ''pass_headers'', js ''Pass specified request headers to upstream''),
     (js ''sync_fields'', js ''Auto-fill when one field exists and another is missing''),
     (js ''set_header'', js ''Set runtime request header: override entire value, or manipulate comma-separated tokens''),
     (js ''delete_header'', js ''Delete a runtime request header''),
     (js ''copy_header'', js ''Copy a request header''),
     (js ''move_header'', js ''Move a request header'')]"

definition SYNC_TARGET_TYPE_OPTIONS :: "(jstr \<times> jstr) list" where
  "SYNC_TARGET_TYPE_OPTIONS = [(js ''json'', js ''Request Body Field''), (js ''header'', js ''Request Header Field'')]"

text \<open>\<open>MODE_META[mode] || MODE_META.set\<close>.\<close>

definition meta_of :: "jstr \<Rightarrow> ModeFlag list" where
  "meta_of mode = (case map_of MODE_META mode of None \<Rightarrow> the (map_of MODE_META (js ''set'')) | Some m \<Rightarrow> m)"

section \<open>Templates\<close>

abbreviation vtext :: "string \<Rightarrow> jval" where
  "vtext s \<equiv> VStr (js s)"

definition obj_lit :: "(string \<times> jval) list \<Rightarrow> jval" where
  "obj_lit m = VObj (map (\<lambda>(k, v). (js k, v)) m)"

definition LEGACY_TEMPLATE :: jval where
  "LEGACY_TEMPLATE = obj_lit [(''temperature'', VNum (JFin 0)), (''max_tokens'', VNum (JFin 1000))]"

definition OPERATION_TEMPLATE :: jval where
  "OPERATION_TEMPLATE = obj_lit [(''operations'', VArr [obj_lit [
     (''description'', vtext ''Set default temperature for openai/* models.''),
     (''path'', vtext ''temperature''), (''mode'', vtext ''set''), (''value'', VNum (to_double (7 / 10))),
     (''conditions'', VArr [obj_lit [(''path'', vtext ''model''), (''mode'', vtext ''prefix''), (''value'', vtext ''openai/'')]]),
     (''logic'', vtext ''AND'')]])]"

definition HEADER_PASSTHROUGH_TEMPLATE :: jval where
  "HEADER_PASSTHROUGH_TEMPLATE = obj_lit [(''operations'', VArr [obj_lit [
     (''description'', vtext ''Pass through X-Request-Id header to upstream.''), (''mode'', vtext ''pass_headers''),
     (''value'', VArr [vtext ''X-Request-Id'']), (''keep_origin'', VBool True)]])]"

definition GEMINI_IMAGE_4K_TEMPLATE :: jval where
  "GEMINI_IMAGE_4K_TEMPLATE = obj_lit [(''operations'', VArr [obj_lit [
     (''description'', vtext ''Set imageSize to 4K when model contains gemini/image and ends with 4k.''),
     (''mode'', vtext ''set''), (''path'', vtext ''generationConfig.imageConfig.imageSize''), (''value'', vtext ''4K''),
     (''conditions'', VArr [
        obj_lit [(''path'', vtext ''original_model''), (''mode'', vtext ''contains''), (''value'', vtext ''gemini'')],
        obj_lit [(''path'', vtext ''original_model''), (''mode'', vtext ''contains''), (''value'', vtext ''image'')],
        obj_lit [(''path'', vtext ''original_model''), (''mode'', vtext ''suffix''), (''value'', vtext ''4k'')]]),
     (''logic'', vtext ''AND'')]])]"

definition CODEX_CLI_HEADER_PASSTHROUGH_HEADERS :: "jstr list" where
  "CODEX_CLI_HEADER_PASSTHROUGH_HEADERS = map js
    [''Originator'', ''Session_id'', ''User-Agent'', ''X-Codex-Beta-Features'', ''X-Codex-Turn-Metadata'']"

definition CLAUDE_CLI_HEADER_PASSTHROUGH_HEADERS :: "jstr list" where
  "CLAUDE_CLI_HEADER_PASSTHROUGH_HEADERS = map js
    [''X-Stainless-Arch'', ''X-Stainless-Lang'', ''X-Stainless-Os'',
     ''X-Stainless-Package-Version'', ''X-Stainless-Retry-Count'', ''X-Stainless-Runtime'',
     ''X-Stainless-Runtime-Version'', ''X-Stainless-Timeout'', ''User-Agent'', ''X-App'',
     ''Anthropic-Beta'', ''Anthropic-Dangerous-Direct-Browser-Access'', ''Anthropic-Version'']"

definition buildPassHeadersTemplate :: "jstr list \<Rightarrow> jval" where
  "buildPassHeadersTemplate headers = obj_lit [(''operations'', VArr [obj_lit [(''mode'', vtext ''pass_headers''),
     (''value'', VArr (map VStr headers)), (''keep_origin'', VBool True)]])]"

definition CODEX_CLI_HEADER_PASSTHROUGH_TEMPLATE :: jval where
  "CODEX_CLI_HEADER_PASSTHROUGH_TEMPLATE = buildPassHeadersTemplate CODEX_CLI_HEADER_PASSTHROUGH_HEADERS"

definition CLAUDE_CLI_HEADER_PASSTHROUGH_TEMPLATE :: jval where
  "CLAUDE_CLI_HEADER_PASSTHROUGH_TEMPLATE = buildPassHeadersTemplate CLAUDE_CLI_HEADER_PASSTHROUGH_HEADERS"

definition AWS_BEDROCK_ANTHROPIC_BETAS :: "(jstr \<times> jval) list" where
  "AWS_BEDROCK_ANTHROPIC_BETAS = [
     (js ''advanced-tool-use-2025-11-20'', VStr (js ''tool-search-tool-2025-10-19'')),
     (js ''bash_20241022'', VNull),
     (js ''bash_20250124'', VNull),
     (js ''code-execution-2025-08-25'', VNull),
     (js ''compact-2026-01-12'', VStr (js ''compact-2026-01-12'')),
     (js ''computer-use-2025-01-24'', VStr (js ''computer-use-2025-01-24'')),
     (js ''computer-use-2025-11-24'', VStr (js ''computer-use-2025-11-24'')),
     (js ''context-1m-2025-08-07'', VStr (js ''context-1m-2025-08-07'')),
     (js ''context-management-2025-06-27'', VStr (js ''context-management-2025-06-27'')),
     (js ''effort-2025-11-24'', VNull),
     (js ''fast-mode-2026-02-01'', VNull),
     (js ''files-api-2025-04-14'', VNull),
     (js ''fine-grained-tool-streaming-2025-05-14'', VNull),
     (js ''interleaved-thinking-2025-05-14'', VStr (js ''interleaved-thinking-2025-05-14'')),
     (js ''mcp-client-2025-11-20'', VNull),
     (js ''mcp-client-2025-04-04'', VNull),
     (js ''mcp-servers-2025-12-04'', VNull),
     (js ''output-128k-2025-02-19'', VNull),
     (js ''structured-output-2024-03-01'', VNull),
     (js ''prompt-caching-scope-2026-01-05'', VNull),
     (js ''skills-2025-10-02'', VNull),
     (js ''structured-outputs-2025-11-13'', VNull),
     (js ''text_editor_20241022'', VNull),
     (js ''text_editor_20250124'', VNull),
     (js ''token-efficient-tools-2025-02-19'', VNull),
     (js ''tool-search-tool-2025-10-19'', VStr (js ''tool-search-tool-2025-10-19'')),
     (js ''web-fetch-2025-09-10'', VNull),
     (js ''web-search-2025-03-05'', VNull),
     (js ''oauth-2025-04-20'', VNull)]"

definition AWS_BEDROCK_ANTHROPIC_COMPAT_TEMPLATE :: jval where
  "AWS_BEDROCK_ANTHROPIC_COMPAT_TEMPLATE = obj_lit [(''operations'', VArr [
     obj_lit [(''description'', vtext ''Normalize anthropic-beta header tokens for Bedrock compatibility.''),
       (''mode'', vtext ''set_header''), (''path'', vtext ''anthropic-beta''), (''value'', VObj AWS_BEDROCK_ANTHROPIC_BETAS)],
     obj_lit [(''description'', vtext ''Remove all tools[*].custom.input_examples before upstream relay.''),
       (''mode'', vtext ''delete''), (''path'', vtext ''tools.*.custom.input_examples'')]])]"

datatype TemplateKind = Operations_kind | Legacy_kind

record TemplatePresetConfig =
  tp_label :: jstr
  tp_kind :: TemplateKind
  tp_payload :: jval

definition preset :: "string \<Rightarrow> TemplateKind \<Rightarrow> jval \<Rightarrow> TemplatePresetConfig" where
  "preset l k p = \<lparr> tp_label = js l, tp_kind = k, tp_payload = p \<rparr>"

definition TEMPLATE_PRESET_CONFIG :: "(jstr \<times> TemplatePresetConfig) list" where
  "TEMPLATE_PRESET_CONFIG = [
     (js ''operations_default'', preset ''New Format Template'' Operations_kind OPERATION_TEMPLATE),
     (js ''legacy_default'', preset ''Legacy Format Template'' Legacy_kind LEGACY_TEMPLATE),
     (js ''pass_headers_auth'', preset ''Header Passthrough (X-Request-Id)'' Operations_kind HEADER_PASSTHROUGH_TEMPLATE),
     (js ''gemini_image_4k'', preset ''Gemini Image 4K'' Operations_kind GEMINI_IMAGE_4K_TEMPLATE),
     (js ''claude_cli_headers_passthrough'', preset ''Claude CLI Header Passthrough'' Operations_kind
        CLAUDE_CLI_HEADER_PASSTHROUGH_TEMPLATE),
     (js ''codex_cli_headers_passthrough'', preset ''Codex CLI Header Passthrough'' Operations_kind
        CODEX_CLI_HEADER_PASSTHROUGH_TEMPLATE),
     (js ''aws_bedrock_anthropic_beta_override'', preset ''AWS Bedrock Claude Compat'' Operations_kind
        AWS_BEDROCK_ANTHROPIC_COMPAT_TEMPLATE)]"

section \<open>Values as texts\<close>

definition nextLocalId :: "(nat \<Rightarrow> jstr) \<Rightarrow> nat \<Rightarrow> jstr" where
  "nextLocalId now n = js ''po_'' @ now n @ js ''_'' @ dec_digits (int n)"

definition toValueText :: "jval \<Rightarrow> jstr" where
  "toValueText v = (case v of VUndef \<Rightarrow> [] | VStr s \<Rightarrow> s | _ \<Rightarrow> json_stringify v)"

definition parseLooseValue :: "jstr \<Rightarrow> jval" where
  "parseLooseValue valueText = (let raw = trim valueText in
     if raw = [] then VStr [] else case json_parse raw of Some v \<Rightarrow> v | None \<Rightarrow> VStr raw)"

definition verifyJSON :: "jstr \<Rightarrow> bool" where
  "verifyJSON s = (json_parse s \<noteq> None)"

text \<open>\<open>typeof v === 'string' ? v : ''\<close>, and \<open>String(v).toUpperCase() === w\<close> for an ASCII word \<open>w\<close>:
  no other character is mapped to one of the letters compared with.\<close>

definition text_or_empty :: "jval \<Rightarrow> jstr" where
  "text_or_empty v = (case v of VStr s \<Rightarrow> s | _ \<Rightarrow> [])"

definition ascii_upper :: "nat \<Rightarrow> nat" where
  "ascii_upper c = (if 97 \<le> c \<and> c \<le> 122 then c - 32 else c)"

definition is_upper_word :: "jval \<Rightarrow> string \<Rightarrow> bool" where
  "is_upper_word v w = (map ascii_upper (val_to_str v) = js w)"

definition mode_or :: "jstr list \<Rightarrow> jval \<Rightarrow> jstr \<Rightarrow> jstr" where
  "mode_or modes v d = (case v of VStr s \<Rightarrow> if s \<in> set modes then s else d | _ \<Rightarrow> d)"

section \<open>Stored objects to editor rows\<close>

text \<open>The members read from a stored item: reading a member of \<open>null\<close> throws; an item that is neither
  an object nor \<open>null\<close> has none of the members.\<close>

definition condition_of :: "(nat \<Rightarrow> jstr) \<Rightarrow> (jstr \<times> jval) list \<Rightarrow> nat \<Rightarrow> OverrideCondition \<times> nat" where
  "condition_of now m n = (\<lparr> oc_id = nextLocalId now n, oc_path = text_or_empty (vget m ''path''),
     oc_mode = mode_or CONDITION_MODE_VALUES (vget m ''mode'') (js ''full''),
     oc_value_text = toValueText (vget m ''value''), oc_invert = (vget m ''invert'' = VBool True),
     oc_pass_missing_key = (vget m ''pass_missing_key'' = VBool True) \<rparr>, Suc n)"

definition members_of :: "jval \<Rightarrow> (jstr \<times> jval) list fallible" where
  "members_of v = (case v of VNull \<Rightarrow> Inl TypeErr | VObj m \<Rightarrow> Inr m | _ \<Rightarrow> Inr [])"

definition normalizeCondition_override :: "(nat \<Rightarrow> jstr) \<Rightarrow> jval \<Rightarrow> nat \<Rightarrow> (OverrideCondition \<times> nat) fallible" where
  "normalizeCondition_override now v n = bind_err (members_of v) (\<lambda>m. Inr (condition_of now m n))"

definition createDefaultCondition :: "(nat \<Rightarrow> jstr) \<Rightarrow> nat \<Rightarrow> OverrideCondition \<times> nat" where
  "createDefaultCondition now n = condition_of now [] n"

text \<open>\<open>xs.map(f)\<close> for an \<open>f\<close> that draws identifiers and may throw.\<close>

fun map_fresh :: "('b \<Rightarrow> nat \<Rightarrow> ('a \<times> nat) fallible) \<Rightarrow> 'b list \<Rightarrow> nat \<Rightarrow> ('a list \<times> nat) fallible" where
  "map_fresh f [] n = Inr ([], n)"
| "map_fresh f (x # xs) n = bind_err (f x n) (\<lambda>(y, n1).
     bind_err (map_fresh f xs n1) (\<lambda>(ys, n2). Inr (y # ys, n2)))"

definition normalizeOperation :: "(nat \<Rightarrow> jstr) \<Rightarrow> jval \<Rightarrow> nat \<Rightarrow> (OverrideOperation \<times> nat) fallible" where
  "normalizeOperation now v n = bind_err (members_of v) (\<lambda>m.
     bind_err (case vget m ''conditions'' of VArr cs \<Rightarrow> map_fresh (normalizeCondition_override now) cs (Suc n)
         | _ \<Rightarrow> Inr ([], Suc n)) (\<lambda>(conds, n').
       Inr (\<lparr> oo_id = nextLocalId now n, oo_description = text_or_empty (vget m ''description''),
         oo_path = text_or_empty (vget m ''path''),
         oo_mode = mode_or OPERATION_MODE_VALUES (vget m ''mode'') (js ''set''),
         oo_from = text_or_empty (vget m ''from''), oo_to = text_or_empty (vget m ''to''),
         oo_value_text = toValueText (vget m ''value''), oo_keep_origin = (vget m ''keep_origin'' = VBool True),
         oo_logic = (if is_upper_word (vor (vget m ''logic'') (VStr (js ''OR''))) ''AND'' then js ''AND'' else js ''OR''),
         oo_conditions = conds \<rparr>, n')))"

definition createDefaultOperation :: "(nat \<Rightarrow> jstr) \<Rightarrow> nat \<Rightarrow> OverrideOperation \<times> nat" where
  "createDefaultOperation now n = (\<lparr> oo_id = nextLocalId now n, oo_description = [], oo_path = [],
     oo_mode = js ''set'', oo_from = [], oo_to = [], oo_value_text = [], oo_keep_origin = False,
     oo_logic = js ''OR'', oo_conditions = [] \<rparr>, Suc n)"

lemma createDefaultOperation_eq:
  "normalizeOperation now (VObj [(js ''mode'', VStr (js ''set''))]) n = Inr (createDefaultOperation now n)"
  by (simp add: normalizeOperation_def members_of_def createDefaultOperation_def vget_def text_or_empty_def
      mode_or_def toValueText_def vor_def is_upper_word_def OPERATION_MODE_VALUES_def OPERATION_MODE_OPTIONS_def)
    (simp add: js_def ascii_upper_def)

section \<open>Reordering\<close>

text \<open>\<open>splice(i, 0, x)\<close>.\<close>

definition splice_in :: "nat \<Rightarrow> 'a \<Rightarrow> 'a list \<Rightarrow> 'a list" where
  "splice_in i x xs = take i xs @ x # drop i xs"

datatype DropPosition = Before | After

definition reorderOperations ::
  "OverrideOperation list \<Rightarrow> jstr \<Rightarrow> jstr \<Rightarrow> DropPosition \<Rightarrow> OverrideOperation list" where
  "reorderOperations ops sourceId targetId position =
     (if sourceId = [] \<or> targetId = [] \<or> sourceId = targetId then ops
      else case find_index (\<lambda>o'. oo_id o' = sourceId) ops of None \<Rightarrow> ops
      | Some srcIdx \<Rightarrow> let moved = ops ! srcIdx; rest = take srcIdx ops @ drop (Suc srcIdx) ops in
          case find_index (\<lambda>o'. oo_id o' = targetId) rest of None \<Rightarrow> ops
          | Some insertIdx \<Rightarrow> splice_in (if position = After then insertIdx + 1 else insertIdx) moved rest)"

section \<open>Summaries\<close>

definition isOperationBlank :: "OverrideOperation \<Rightarrow> bool" where
  "isOperationBlank op = (let hasCondition = list_ex (\<lambda>c. trim (oc_path c) \<noteq> [] \<or> trim (oc_value_text c) \<noteq> []
       \<or> oc_mode c \<noteq> js ''full'' \<or> oc_invert c \<or> oc_pass_missing_key c) (oo_conditions op) in
     oo_mode op = js ''set'' \<and> trim (oo_path op) = [] \<and> trim (oo_from op) = [] \<and> trim (oo_to op) = []
     \<and> trim (oo_value_text op) = [] \<and> \<not> oo_keep_origin op \<and> \<not> hasCondition)"

definition getOperationSummary :: "OverrideOperation \<Rightarrow> nat \<Rightarrow> jstr" where
  "getOperationSummary op index = (let mode = sor (oo_mode op) (js ''set'');
       modeLabel = (case map_of OPERATION_MODE_LABEL_MAP mode of None \<Rightarrow> mode | Some l \<Rightarrow> sor l mode);
       path = trim (oo_path op); from' = trim (oo_from op); to' = trim (oo_to op);
       head = dec_digits (int index + 1) @ js ''. '' @ modeLabel @ [32, 183, 32] in
     if mode = js ''sync_fields'' then head @ sor from' (sor to' (js ''-''))
     else head @ sor path (sor from' (sor to' (js ''-''))))"

definition is_mode :: "jstr \<Rightarrow> string list \<Rightarrow> bool" where
  "is_mode mode ws = (mode \<in> js ` set ws)"

definition getModeTagTailwind :: "jstr \<Rightarrow> jstr" where
  "getModeTagTailwind mode = (if has_sub (js ''header'') mode
       then js ''bg-cyan-500/15 text-cyan-700 dark:text-cyan-300 border-cyan-500/20''
     else if has_sub (js ''replace'') mode \<or> has_sub (js ''trim'') mode
       then js ''bg-violet-500/15 text-violet-700 dark:text-violet-300 border-violet-500/20''
     else if has_sub (js ''copy'') mode \<or> has_sub (js ''move'') mode
       then js ''bg-blue-500/15 text-blue-700 dark:text-blue-300 border-blue-500/20''
     else if has_sub (js ''error'') mode \<or> has_sub (js ''prune'') mode
       then js ''bg-red-500/15 text-red-700 dark:text-red-300 border-red-500/20''
     else if has_sub (js ''sync'') mode
       then js ''bg-green-500/15 text-green-700 dark:text-green-300 border-green-500/20''
     else js ''bg-muted text-muted-foreground'')"

definition getModePathLabel :: "jstr \<Rightarrow> jstr" where
  "getModePathLabel mode = (if is_mode mode [''set_header'', ''delete_header''] then js ''Header Name''
     else if is_mode mode [''prune_objects''] then js ''Target Path (optional)'' else js ''Target Field Path'')"

definition getModePathPlaceholder :: "jstr \<Rightarrow> jstr" where
  "getModePathPlaceholder mode = (if is_mode mode [''set_header''] then js ''Authorization''
     else if is_mode mode [''delete_header''] then js ''X-Debug-Mode''
     else if is_mode mode [''prune_objects''] then js ''messages'' else js ''temperature'')"

definition getModeFromLabel :: "jstr \<Rightarrow> jstr" where
  "getModeFromLabel mode = (if is_mode mode [''replace''] then js ''Match Text''
     else if is_mode mode [''regex_replace''] then js ''Regex Pattern''
     else if is_mode mode [''copy_header'', ''move_header''] then js ''Source Header'' else js ''Source Field'')"

definition getModeFromPlaceholder :: "jstr \<Rightarrow> jstr" where
  "getModeFromPlaceholder mode = (if is_mode mode [''replace''] then js ''openai/''
     else if is_mode mode [''regex_replace''] then js ''^gpt-''
     else if is_mode mode [''copy_header'', ''move_header''] then js ''Authorization'' else js ''model'')"

definition getModeToLabel :: "jstr \<Rightarrow> jstr" where
  "getModeToLabel mode = (if is_mode mode [''replace'', ''regex_replace''] then js ''Replace With''
     else if is_mode mode [''copy_header'', ''move_header''] then js ''Target Header'' else js ''Target Field'')"

definition getModeToPlaceholder :: "jstr \<Rightarrow> jstr" where
  "getModeToPlaceholder mode = (if is_mode mode [''replace''] then js ''(leave empty to delete)''
     else if is_mode mode [''regex_replace''] then js ''openai/gpt-''
     else if is_mode mode [''copy_header'', ''move_header''] then js ''X-Upstream-Auth'' else js ''original_model'')"

definition getModeValueLabel :: "jstr \<Rightarrow> jstr" where
  "getModeValueLabel mode = (if is_mode mode [''set_header''] then js ''Header Value (supports string or JSON mapping)''
     else if is_mode mode [''pass_headers''] then js ''Pass-through Headers (comma-separated or JSON array)''
     else if is_mode mode [''trim_prefix'', ''trim_suffix'', ''ensure_prefix'', ''ensure_suffix''] then js ''Prefix/Suffix Text''
     else if is_mode mode [''prune_objects''] then js ''Prune Rule (string or JSON object)''
     else js ''Value (supports JSON or plain text)'')"

definition getModeValuePlaceholder :: "jstr \<Rightarrow> jstr" where
  "getModeValuePlaceholder mode = (if is_mode mode [''set_header''] then js ''Bearer sk-xxx''
     else if is_mode mode [''pass_headers''] then js ''Authorization, X-Request-Id''
     else if is_mode mode [''trim_prefix'', ''trim_suffix'', ''ensure_prefix'', ''ensure_suffix''] then js ''openai/''
     else if is_mode mode [''prune_objects''] then js ''{\"type\":\"redacted_thinking\"}'' else js ''0.7'')"

section \<open>Drafts of structured values\<close>

record SyncTarget =
  st_type :: jstr
  st_key :: jstr

definition parseSyncTargetSpec :: "jstr \<Rightarrow> SyncTarget" where
  "parseSyncTargetSpec spec = (let raw = trim spec in
     if raw = [] then \<lparr> st_type = js ''json'', st_key = [] \<rparr>
     else case index_of (js '':'') raw of
       None \<Rightarrow> \<lparr> st_type = js ''json'', st_key = raw \<rparr>
     | Some idx \<Rightarrow> let prefix = map ascii_lower (trim (take idx raw)); key = trim (drop (idx + 1) raw) in
         if prefix = js ''header'' then \<lparr> st_type = js ''header'', st_key = key \<rparr>
         else \<lparr> st_type = js ''json'', st_key = key \<rparr>)"

definition buildSyncTargetSpec :: "jstr \<Rightarrow> jstr \<Rightarrow> jstr" where
  "buildSyncTargetSpec ty key = (let normalizedType = (if ty = js ''header'' then js ''header'' else js ''json'');
       normalizedKey = trim key in
     if normalizedKey = [] then [] else normalizedType @ js '':'' @ normalizedKey)"

record ReturnErrorDraft =
  re_message :: jstr
  re_statusCode :: jnum
  re_code :: jstr
  re_type :: jstr
  re_skipRetry :: bool
  re_simpleMode :: bool

definition return_error_defaults :: ReturnErrorDraft where
  "return_error_defaults = \<lparr> re_message = [], re_statusCode = JFin 400, re_code = [], re_type = [],
     re_skipRetry = True, re_simpleMode = True \<rparr>"

definition status_or_400 :: "jnum \<Rightarrow> jnum" where
  "status_or_400 x = (if jis_integer x \<and> jle (JFin 100) x \<and> jle x (JFin 599) then x else JFin 400)"

definition parseReturnErrorDraft :: "jstr \<Rightarrow> ReturnErrorDraft" where
  "parseReturnErrorDraft valueText = (let raw = trim valueText in
     if raw = [] then return_error_defaults
     else case json_parse raw of
       Some (VObj parsed) \<Rightarrow>
         let statusRaw = (if vget parsed ''status_code'' \<noteq> VUndef then vget parsed ''status_code'' else vget parsed ''status'');
             part = (\<lambda>v. trim (val_to_str (vor v (VStr [])))) in
         return_error_defaults\<lparr> re_message := part (vor (vget parsed ''message'') (vget parsed ''msg'')),
           re_statusCode := status_or_400 (val_to_num statusRaw), re_code := part (vget parsed ''code''),
           re_type := part (vget parsed ''type''), re_skipRetry := (vget parsed ''skip_retry'' \<noteq> VBool False),
           re_simpleMode := False \<rparr>
     | _ \<Rightarrow> return_error_defaults\<lparr> re_message := raw, re_simpleMode := True \<rparr>)"

definition return_error_payload :: "ReturnErrorDraft \<Rightarrow> (jstr \<times> jval) list" where
  "return_error_payload draft =
     put_if (\<not> re_skipRetry draft) ''skip_retry'' (VBool False)
      (put_if (trim (re_type draft) \<noteq> []) ''type'' (VStr (trim (re_type draft)))
       (put_if (trim (re_code draft) \<noteq> []) ''code'' (VStr (trim (re_code draft)))
        [(js ''message'', VStr (trim (re_message draft))),
         (js ''status_code'', VNum (status_or_400 (re_statusCode draft)))]))"

definition buildReturnErrorValueText :: "ReturnErrorDraft \<Rightarrow> jstr" where
  "buildReturnErrorValueText draft = (if re_simpleMode draft then trim (re_message draft)
     else json_stringify (VObj (return_error_payload draft)))"

text \<open>A prune rule has the members of a condition.\<close>

type_synonym PruneRule = OverrideCondition

record PruneObjectsDraft =
  pd_simpleMode :: bool
  pd_typeText :: jstr
  pd_logic :: jstr
  pd_recursive :: bool
  pd_rules :: "PruneRule list"

definition normalizePruneRule :: "(nat \<Rightarrow> jstr) \<Rightarrow> (jstr \<times> jval) list \<Rightarrow> nat \<Rightarrow> PruneRule \<times> nat" where
  "normalizePruneRule now m n = (\<lparr> oc_id = nextLocalId now n, oc_path = text_or_empty (vget m ''path''),
     oc_mode = mode_or CONDITION_MODE_VALUES (vget m ''mode'') (js ''full''),
     oc_value_text = toValueText (vget m ''value''), oc_invert = (vget m ''invert'' = VBool True),
     oc_pass_missing_key = (vget m ''pass_missing_key'' = VBool True) \<rparr>, Suc n)"

fun prune_rules :: "(nat \<Rightarrow> jstr) \<Rightarrow> (jstr \<times> jval) list list \<Rightarrow> nat \<Rightarrow> PruneRule list \<times> nat" where
  "prune_rules now [] n = ([], n)"
| "prune_rules now (m # ms) n = (let (r, n1) = normalizePruneRule now m n; (rs, n2) = prune_rules now ms n1
     in (r # rs, n2))"

text \<open>The items rules are made of: the entries of an object as exact matches, the objects of an array.\<close>

definition entry_items :: "(jstr \<times> jval) list \<Rightarrow> (jstr \<times> jval) list list" where
  "entry_items m = map (\<lambda>(path, v). [(js ''path'', VStr path), (js ''mode'', VStr (js ''full'')), (js ''value'', v)]) m"

definition array_items :: "jval list \<Rightarrow> (jstr \<times> jval) list list" where
  "array_items items = List.map_filter (\<lambda>v. case v of VObj m \<Rightarrow> Some m | VArr _ \<Rightarrow> Some [] | _ \<Rightarrow> None) items"

definition prune_defaults :: PruneObjectsDraft where
  "prune_defaults = \<lparr> pd_simpleMode = True, pd_typeText = [], pd_logic = js ''AND'', pd_recursive = True, pd_rules = [] \<rparr>"

definition parsePruneObjectsDraft :: "(nat \<Rightarrow> jstr) \<Rightarrow> jstr \<Rightarrow> nat \<Rightarrow> PruneObjectsDraft \<times> nat" where
  "parsePruneObjectsDraft now valueText n = (let raw = trim valueText in
     if raw = [] then (prune_defaults, n)
     else case json_parse raw of
       None \<Rightarrow> (prune_defaults\<lparr> pd_typeText := raw \<rparr>, n)
     | Some (VStr t) \<Rightarrow> (prune_defaults\<lparr> pd_typeText := trim t \<rparr>, n)
     | Some (VObj parsed) \<Rightarrow>
         let where_items = (case vget parsed ''where'' of VObj w \<Rightarrow> entry_items w | _ \<Rightarrow> []);
             cond_items = (case vget parsed ''conditions'' of VArr items \<Rightarrow> array_items items
               | VObj w \<Rightarrow> entry_items w | _ \<Rightarrow> []);
             (rules, n') = prune_rules now (where_items @ cond_items) n;
             advanced = (\<exists>k \<in> {''logic'', ''recursive'', ''where'', ''conditions''}. vget parsed k \<noteq> VUndef) in
         (\<lparr> pd_simpleMode = \<not> advanced,
            pd_typeText = (if vget parsed ''type'' = VUndef then [] else trim (val_to_str (vget parsed ''type''))),
            pd_logic = (if is_upper_word (vor (vget parsed ''logic'') (VStr (js ''AND''))) ''OR'' then js ''OR'' else js ''AND''),
            pd_recursive = (vget parsed ''recursive'' \<noteq> VBool False), pd_rules = rules \<rparr>, n')
     | Some v \<Rightarrow> (prune_defaults\<lparr> pd_typeText := trim (val_to_str (vnull_or v (VStr []))) \<rparr>, n))"

definition prune_condition :: "PruneRule \<Rightarrow> (jstr \<times> jval) list" where
  "prune_condition rule = put_if (oc_pass_missing_key rule) ''pass_missing_key'' (VBool True)
     (put_if (oc_invert rule) ''invert'' (VBool True)
      (put_if (trim (oc_value_text rule) \<noteq> []) ''value'' (parseLooseValue (trim (oc_value_text rule)))
       [(js ''path'', VStr (trim (oc_path rule))),
        (js ''mode'', VStr (if oc_mode rule \<in> set CONDITION_MODE_VALUES then oc_mode rule else js ''full''))]))"

definition prune_payload :: "PruneObjectsDraft \<Rightarrow> (jstr \<times> jval) list" where
  "prune_payload draft = (let typeText = trim (pd_typeText draft);
       conditions = map (\<lambda>r. VObj (prune_condition r)) (filter (\<lambda>r. trim (oc_path r) \<noteq> []) (pd_rules draft)) in
     put_if (conditions \<noteq> []) ''conditions'' (VArr conditions)
      (put_if (\<not> pd_recursive draft) ''recursive'' (VBool False)
       (put_if (is_upper_word (VStr (sor (pd_logic draft) (js ''AND''))) ''OR'') ''logic'' (VStr (js ''OR''))
        (put_if (typeText \<noteq> []) ''type'' (VStr typeText) []))))"

definition buildPruneObjectsValueText :: "PruneObjectsDraft \<Rightarrow> jstr" where
  "buildPruneObjectsValueText draft = (if pd_simpleMode draft then trim (pd_typeText draft)
     else let payload = prune_payload draft in
       if \<not> truthy (vget payload ''type'') \<and> \<not> truthy (vget payload ''conditions'')
       then json_stringify (VObj [(js ''logic'', VStr (js ''AND''))])
       else json_stringify (VObj payload))"

definition header_names :: "jval list \<Rightarrow> jstr list" where
  "header_names items = filter (\<lambda>s. s \<noteq> []) (map (\<lambda>i. trim (val_to_str (vnull_or i (VStr [])))) items)"

definition parsePassHeaderNames :: "jval \<Rightarrow> jstr list" where
  "parsePassHeaderNames rawValue = (case rawValue of
       VArr items \<Rightarrow> header_names items
     | VObj m \<Rightarrow> (case vget m ''headers'' of VArr items \<Rightarrow> header_names items
         | _ \<Rightarrow> if vget m ''header'' \<noteq> VUndef
             then (let single = trim (val_to_str (vnull_or (vget m ''header'') (VStr []))) in
               if single = [] then [] else [single])
             else [])
     | VStr s \<Rightarrow> words 44 s
     | _ \<Rightarrow> [])"

section \<open>Editor rows to stored objects\<close>

definition buildConditionPayload :: "OverrideCondition \<Rightarrow> jval option" where
  "buildConditionPayload c = (let path = trim (oc_path c) in
     if path = [] then None
     else Some (VObj (put_if (oc_pass_missing_key c) ''pass_missing_key'' (VBool True)
       (put_if (oc_invert c) ''invert'' (VBool True)
        [(js ''path'', VStr path), (js ''mode'', VStr (sor (oc_mode c) (js ''full''))),
         (js ''value'', parseLooseValue (oc_value_text c))]))))"

text \<open>The message of the first failing check of one operation; \<open>t\<close> translates, given the rule's number.\<close>

definition validate_operation :: "(string \<Rightarrow> nat \<Rightarrow> jstr) \<Rightarrow> nat \<Rightarrow> OverrideOperation \<Rightarrow> jstr option" where
  "validate_operation t line op =
     (let mode = sor (oo_mode op) (js ''set''); meta = meta_of mode; path = trim (oo_path op);
          from' = trim (oo_from op); to' = trim (oo_to op); raw = trim (oo_value_text op);
          alias = (M_pathAlias \<in> set meta \<and> path \<noteq> []) in
      if M_path \<in> set meta \<and> path = [] then Some (t ''Rule {{line}} is missing target path'' line)
      else if mode \<in> set FROM_REQUIRED_MODES \<and> from' = [] \<and> \<not> alias
        then Some (t ''Rule {{line}} is missing source field'' line)
      else if mode \<in> set TO_REQUIRED_MODES \<and> to' = [] \<and> \<not> alias
        then Some (t ''Rule {{line}} is missing target field'' line)
      else if mode \<in> set VALUE_REQUIRED_MODES \<and> raw = [] then Some (t ''Rule {{line}} is missing value'' line)
      else if mode = js ''return_error'' \<and> raw = [] then Some (t ''Rule {{line}} is missing value'' line)
      else if mode = js ''return_error'' \<and> (case json_parse raw of
            Some (VObj m) \<Rightarrow> trim (val_to_str (vor (vget m ''message'') (VStr []))) = [] | _ \<Rightarrow> False)
        then Some (t ''Rule {{line}} return_error requires a message field'' line)
      else if mode = js ''prune_objects'' \<and> raw = [] then Some (t ''Rule {{line}} prune_objects is missing conditions'' line)
      else if mode = js ''pass_headers'' \<and> raw = [] then Some (t ''Rule {{line}} pass_headers is missing header names'' line)
      else if mode = js ''pass_headers'' \<and> parsePassHeaderNames (parseLooseValue raw) = []
        then Some (t ''Rule {{line}} pass_headers format is invalid'' line)
      else None)"

fun validate_from :: "(string \<Rightarrow> nat \<Rightarrow> jstr) \<Rightarrow> nat \<Rightarrow> OverrideOperation list \<Rightarrow> jstr" where
  "validate_from t i [] = []"
| "validate_from t i (op # ops) = (case validate_operation t (i + 1) op of
      Some message \<Rightarrow> message | None \<Rightarrow> validate_from t (i + 1) ops)"

definition validateOperations :: "(string \<Rightarrow> nat \<Rightarrow> jstr) \<Rightarrow> OverrideOperation list \<Rightarrow> jstr" where
  "validateOperations t ops = validate_from t 0 ops"

definition operation_payload :: "OverrideOperation \<Rightarrow> (jstr \<times> jval) list" where
  "operation_payload op =
     (let mode = sor (oo_mode op) (js ''set''); meta = set (meta_of mode); desc = trim (oo_description op);
          path = trim (oo_path op); from' = trim (oo_from op); to' = trim (oo_to op);
          payload = [(js ''mode'', VStr mode)];
          payload = put_if (desc \<noteq> []) ''description'' (VStr desc) payload;
          payload = put_if (M_path \<in> meta) ''path'' (VStr path) payload;
          payload = put_if (M_pathOptional \<in> meta \<and> path \<noteq> []) ''path'' (VStr path) payload;
          payload = put_if (M_value \<in> meta) ''value'' (parseLooseValue (oo_value_text op)) payload;
          payload = put_if (M_keepOrigin \<in> meta \<and> oo_keep_origin op) ''keep_origin'' (VBool True) payload;
          payload = put_if (M_from \<in> meta) ''from'' (VStr from') payload;
          payload = put_if (M_to \<notin> meta \<and> to' \<noteq> []) ''to'' (VStr to') payload;
          payload = put_if (M_to \<in> meta) ''to'' (VStr to') payload;
          payload = put_if (M_pathAlias \<in> meta \<and> \<not> truthy (vget payload ''from'') \<and> path \<noteq> []) ''from'' (VStr path) payload;
          payload = put_if (M_pathAlias \<in> meta \<and> \<not> truthy (vget payload ''to'') \<and> path \<noteq> []) ''to'' (VStr path) payload;
          conditions = List.map_filter buildConditionPayload (oo_conditions op);
          payload = put_if (conditions \<noteq> []) ''conditions'' (VArr conditions) payload
      in put_if (conditions \<noteq> []) ''logic''
           (VStr (if oo_logic op = js ''AND'' then js ''AND'' else js ''OR'')) payload)"

definition buildOperationsJson ::
  "OverrideOperation list \<Rightarrow> bool \<Rightarrow> (string \<Rightarrow> nat \<Rightarrow> jstr) \<Rightarrow> jstr fallible" where
  "buildOperationsJson sourceOperations validate t =
     (let filteredOps = filter (\<lambda>o'. \<not> isOperationBlank o') sourceOperations in
      if filteredOps = [] then Inr []
      else let message = (if validate then validateOperations t filteredOps else []) in
        if message \<noteq> [] then Inl (Thrown message)
        else Inr (json_pretty (VObj [(js ''operations'',
          VArr (map (\<lambda>o'. VObj (operation_payload o')) filteredOps))])))"

section \<open>Opening a stored override\<close>

datatype EditMode = Visual_mode | Json_mode
datatype VisualMode = Operations_mode | Legacy_mode

record EditorState =
  es_editMode :: EditMode
  es_visualMode :: VisualMode
  es_legacyValue :: jstr
  es_operations :: "OverrideOperation list"
  es_jsonText :: jstr
  es_jsonError :: jstr

text \<open>The operations a parsed object holds, or one default operation.\<close>

definition operations_or_default ::
  "(nat \<Rightarrow> jstr) \<Rightarrow> jval list \<Rightarrow> nat \<Rightarrow> (OverrideOperation list \<times> nat) fallible" where
  "operations_or_default now ops n = (if ops = [] then (let (d, n') = createDefaultOperation now n in Inr ([d], n'))
     else map_fresh (normalizeOperation now) ops n)"

definition parseInitialState :: "(nat \<Rightarrow> jstr) \<Rightarrow> jstr \<Rightarrow> nat \<Rightarrow> (EditorState \<times> nat) fallible" where
  "parseInitialState now rawValue n = (let trimmed = trim rawValue; (d, n1) = createDefaultOperation now n in
     if trimmed = [] then Inr (\<lparr> es_editMode = Visual_mode, es_visualMode = Operations_mode, es_legacyValue = [],
       es_operations = [d], es_jsonText = [], es_jsonError = [] \<rparr>, n1)
     else case json_parse trimmed of
       None \<Rightarrow> Inr (\<lparr> es_editMode = Json_mode, es_visualMode = Operations_mode, es_legacyValue = [],
         es_operations = [d], es_jsonText = rawValue, es_jsonError = js ''Invalid JSON format'' \<rparr>, n1)
     | Some (VObj parsed) \<Rightarrow> let pretty = json_pretty (VObj parsed) in
         (case vget parsed ''operations'' of
            VArr ops \<Rightarrow> bind_err (operations_or_default now ops n) (\<lambda>(loaded, n').
              Inr (\<lparr> es_editMode = Visual_mode, es_visualMode = Operations_mode, es_legacyValue = [],
                es_operations = loaded, es_jsonText = pretty, es_jsonError = [] \<rparr>, n'))
          | _ \<Rightarrow> Inr (\<lparr> es_editMode = Visual_mode, es_visualMode = Legacy_mode, es_legacyValue = pretty,
              es_operations = [d], es_jsonText = pretty, es_jsonError = [] \<rparr>, n1))
     | Some v \<Rightarrow> Inr (\<lparr> es_editMode = Json_mode, es_visualMode = Operations_mode, es_legacyValue = [],
         es_operations = [d], es_jsonText = json_pretty v, es_jsonError = [] \<rparr>, n1))"

end
