(* ===== verification/OverrideSaving.thy ===== *)
theory OverrideSaving
  imports ParamOverride
begin

text \<open>
  What \<open>validateOperations\<close> and \<open>buildOperationsJson\<close> of \<open>param-override-editor-dialog.tsx\<close> promise: the
  check accepts exactly the lists of valid operations, and a saved configuration opens again as rows that
  save as the same text, unless a value is a quoted JSON text, which loses its quotes.
\<close>

section \<open>Texts that are read back\<close>

text \<open>A value text that survives being stored: no text in quotes whose content reads as something else.\<close>

definition stable_value :: "jstr \<Rightarrow> bool" where
  "stable_value s = (json_plain (parseLooseValue s) \<and>
     (case json_parse (trim s) of Some (VStr u) \<Rightarrow> trim u \<noteq> [] \<and> parseLooseValue u = VStr u | _ \<Rightarrow> True))"

lemma json_parse_Nil [simp]: "json_parse [] = None"
  by (simp add: json_parse_def)

lemma parseLoose_cases:
  obtains (empty) "trim s = []" "parseLooseValue s = VStr []"
  | (raw) "trim s \<noteq> []" "json_parse (trim s) = None" "parseLooseValue s = VStr (trim s)"
  | (json) v where "trim s \<noteq> []" "json_parse (trim s) = Some v" "parseLooseValue s = v"
  by (cases "trim s = []"; cases "json_parse (trim s)") (auto simp: parseLooseValue_def)

lemma stable_value_stored:
  assumes "stable_value s"
  defines "s' \<equiv> toValueText (parseLooseValue s)"
  shows "parseLooseValue s' = parseLooseValue s" and "trim s' = [] \<longleftrightarrow> trim s = []"
    and "json_parse (trim s') = Some (VObj m) \<longleftrightarrow> json_parse (trim s) = Some (VObj m)"
proof -
  have "parseLooseValue s' = parseLooseValue s \<and> (trim s' = [] \<longleftrightarrow> trim s = [])
      \<and> (json_parse (trim s') = Some (VObj m) \<longleftrightarrow> json_parse (trim s) = Some (VObj m))"
  proof (cases s rule: parseLoose_cases)
    case empty
    then show ?thesis by (simp add: s'_def toValueText_def parseLooseValue_def)
  next
    case raw
    then show ?thesis by (simp add: s'_def toValueText_def parseLooseValue_def)
  next
    case (json v)
    show ?thesis
    proof (cases "\<exists>u. v = VStr u")
      case True
      then obtain u where u: "v = VStr u" by blast
      with assms(1) json have "trim u \<noteq> []" "parseLooseValue u = VStr u" by (simp_all add: stable_value_def)
      moreover from this have "json_parse (trim u) \<noteq> Some (VObj m)" by (auto simp: parseLooseValue_def)
      ultimately show ?thesis using json u by (simp add: s'_def toValueText_def)
    next
      case False
      have plain: "json_plain v" using assms(1) json by (simp add: stable_value_def)
      with False have s': "s' = json_stringify v"
        by (cases v) (simp_all add: s'_def json toValueText_def)
      then have "trim s' = s'" "s' \<noteq> []" "json_parse s' = Some v"
        using plain by (simp_all add: trim_id trimmed_stringify stringify_not_empty json_parse_text)
      with json show ?thesis by (simp add: parseLooseValue_def)
    qed
  qed
  then show "parseLooseValue s' = parseLooseValue s" "trim s' = [] \<longleftrightarrow> trim s = []"
    "json_parse (trim s') = Some (VObj m) \<longleftrightarrow> json_parse (trim s) = Some (VObj m)" by blast+
qed

section \<open>The payload of a row\<close>

lemma meta_of_all: "list_all P (map snd MODE_META) \<Longrightarrow> P (meta_of m)"
  by (cases "map_of MODE_META m")
    (auto simp: meta_of_def list_all_iff MODE_META_def dest: map_of_SomeD split: if_splits)

lemma meta_alias:
  assumes "M_pathAlias \<in> set (meta_of m)"
  shows "M_from \<in> set (meta_of m)" "M_to \<in> set (meta_of m)" "M_path \<notin> set (meta_of m)"
    "M_pathOptional \<notin> set (meta_of m)"
  using assms meta_of_all [of "\<lambda>fs. M_pathAlias \<in> set fs \<longrightarrow> M_from \<in> set fs \<and> M_to \<in> set fs
      \<and> M_path \<notin> set fs \<and> M_pathOptional \<notin> set fs" m]
  by (simp_all add: MODE_META_def)

lemma no_index [simp]:
  "array_index (js ''mode'') = None" "array_index (js ''description'') = None" "array_index (js ''path'') = None"
  "array_index (js ''value'') = None" "array_index (js ''keep_origin'') = None" "array_index (js ''from'') = None"
  "array_index (js ''to'') = None" "array_index (js ''conditions'') = None" "array_index (js ''logic'') = None"
  "array_index (js ''invert'') = None" "array_index (js ''pass_missing_key'') = None"
  "array_index (js ''operations'') = None"
  by (simp_all add: array_index_def js_def is_digit_def)

lemma code_units_js [simp]:
  "code_units (js ''mode'')" "code_units (js ''description'')" "code_units (js ''path'')" "code_units (js ''value'')"
  "code_units (js ''keep_origin'')" "code_units (js ''from'')" "code_units (js ''to'')" "code_units (js ''conditions'')"
  "code_units (js ''logic'')" "code_units (js ''invert'')" "code_units (js ''pass_missing_key'')"
  "code_units (js ''operations'')" "code_units (js ''AND'')" "code_units (js ''OR'')"
  by (simp_all add: code_units_def js_def)

lemma put_if_simps [simp]: "put_if True k v m = obj_put (js k) v m" "put_if False k v m = m"
  by (simp_all add: put_if_def)

lemma vhas_put: "vhas m k \<Longrightarrow> js k \<in> fst ` set m"
  by (simp add: vhas_def)

lemma put_if_twice:
  "put_if b ''path'' v (put_if c ''path'' v m) = put_if (b \<or> c) ''path'' v m"
  by (cases b; cases c) (simp_all add: obj_put_twice)

lemma from_to_chain:
  assumes "al \<Longrightarrow> mf" "al \<Longrightarrow> mt"
  shows "(let q = put_if mf ''from'' (VStr f) m; q = put_if (\<not> mt \<and> t \<noteq> []) ''to'' (VStr t) q;
      q = put_if mt ''to'' (VStr t) q;
      q = put_if (al \<and> \<not> truthy (vget q ''from'') \<and> p \<noteq> []) ''from'' (VStr p) q
    in put_if (al \<and> \<not> truthy (vget q ''to'') \<and> p \<noteq> []) ''to'' (VStr p) q)
    = put_if (mt \<or> t \<noteq> []) ''to'' (VStr (if t = [] \<and> al then p else t))
       (put_if mf ''from'' (VStr (if f = [] \<and> al then p else f)) m)"
proof (cases "al \<and> p \<noteq> []")
  case True
  with assms show ?thesis
    by (cases "f = []"; cases "t = []")
      (simp_all add: Let_def fields_put_if vget_obj_put obj_put_twice obj_put_swap [of "js ''to''" "js ''from''"] fst_obj_put)
next
  case False
  then show ?thesis by (cases mt; cases mf; cases al) (auto simp: Let_def obj_put_twice put_if_def)
qed

text \<open>Every member is written once: the source of an alias is the path when no source is given.\<close>

definition or_path :: "OverrideOperation \<Rightarrow> jstr \<Rightarrow> jstr" where
  "or_path op s = (if trim s = [] \<and> M_pathAlias \<in> set (meta_of (sor (oo_mode op) (js ''set'')))
     then trim (oo_path op) else trim s)"

lemma operation_payload_once:
  fixes op defines "meta \<equiv> set (meta_of (sor (oo_mode op) (js ''set'')))"
    and "path \<equiv> trim (oo_path op)" and "desc \<equiv> trim (oo_description op)"
    and "conds \<equiv> List.map_filter buildConditionPayload (oo_conditions op)"
  shows "operation_payload op =
    put_if (conds \<noteq> []) ''logic'' (VStr (if oo_logic op = js ''AND'' then js ''AND'' else js ''OR''))
     (put_if (conds \<noteq> []) ''conditions'' (VArr conds)
      (put_if (M_to \<in> meta \<or> trim (oo_to op) \<noteq> []) ''to'' (VStr (or_path op (oo_to op)))
       (put_if (M_from \<in> meta) ''from'' (VStr (or_path op (oo_from op)))
        (put_if (M_keepOrigin \<in> meta \<and> oo_keep_origin op) ''keep_origin'' (VBool True)
         (put_if (M_value \<in> meta) ''value'' (parseLooseValue (oo_value_text op))
          (put_if (M_path \<in> meta \<or> M_pathOptional \<in> meta \<and> path \<noteq> []) ''path'' (VStr path)
           (put_if (desc \<noteq> []) ''description'' (VStr desc)
            [(js ''mode'', VStr (sor (oo_mode op) (js ''set'')))])))))))"
proof -
  let ?al = "M_pathAlias \<in> meta"
  have al: "?al \<Longrightarrow> M_from \<in> meta" "?al \<Longrightarrow> M_to \<in> meta" using meta_alias by (auto simp: meta_def)
  have path: "put_if (M_pathOptional \<in> meta \<and> path \<noteq> []) ''path'' v (put_if (M_path \<in> meta) ''path'' v m)
      = put_if (M_path \<in> meta \<or> M_pathOptional \<in> meta \<and> path \<noteq> []) ''path'' v m" for v m
    by (simp only: put_if_twice disj_commute)
  show ?thesis
    unfolding operation_payload_def Let_def or_path_def meta_def [symmetric] path_def [symmetric]
      desc_def [symmetric] conds_def [symmetric] path
    by (rule arg_cong2 [where f = "\<lambda>x y. put_if x _ _ (put_if _ _ _ y)"] refl)+
      (rule from_to_chain [OF al, unfolded Let_def])
qed

section \<open>Reading rows back\<close>

definition stable_condition :: "OverrideCondition \<Rightarrow> bool" where
  "stable_condition c = (code_units (oc_path c) \<and> oc_mode c \<in> set CONDITION_MODE_VALUES \<and> stable_value (oc_value_text c))"

definition stable_row :: "OverrideOperation \<Rightarrow> bool" where
  "stable_row op = (oo_mode op \<in> set OPERATION_MODE_VALUES \<and> code_units (oo_description op)
     \<and> code_units (oo_path op) \<and> code_units (oo_from op) \<and> code_units (oo_to op)
     \<and> stable_value (oo_value_text op) \<and> list_all stable_condition (oo_conditions op))"

lemma code_units_trim: "code_units s \<Longrightarrow> code_units (trim s)"
  using set_trim [of s] by (auto simp: code_units_def list_all_iff)

lemma stable_plain: "stable_value s \<Longrightarrow> json_plain (parseLooseValue s)"
  by (simp add: stable_value_def)

lemma condition_modes:
  assumes "m \<in> set CONDITION_MODE_VALUES"
  shows "m \<noteq> []" "code_units m"
  using assms by (auto simp: CONDITION_MODE_VALUES_def CONDITION_MODE_OPTIONS_def js_def code_units_def)

lemma operation_modes:
  assumes "m \<in> set OPERATION_MODE_VALUES"
  shows "m \<noteq> []" "code_units m"
  using assms by (auto simp: OPERATION_MODE_VALUES_def OPERATION_MODE_OPTIONS_def js_def code_units_def)

lemma text_or_empty_simps [simp]: "text_or_empty (VStr s) = s" "text_or_empty VUndef = []"
  by (simp_all add: text_or_empty_def)

lemma mode_or_in: "s \<in> set ms \<Longrightarrow> mode_or ms (VStr s) d = s"
  by (simp add: mode_or_def)

lemma reload_condition:
  assumes "stable_condition c" "buildConditionPayload c = Some v"
  obtains c' where "normalizeCondition_override now v n = Inr (c', Suc n)" "buildConditionPayload c' = Some v" "json_plain v"
proof -
  let ?m = "put_if (oc_pass_missing_key c) ''pass_missing_key'' (VBool True)
     (put_if (oc_invert c) ''invert'' (VBool True)
        [(js ''path'', VStr (trim (oc_path c))), (js ''mode'', VStr (oc_mode c)),
         (js ''value'', parseLooseValue (oc_value_text c))])"
  have mode: "oc_mode c \<noteq> []" "oc_mode c \<in> set CONDITION_MODE_VALUES" "code_units (oc_mode c)"
    using assms(1) condition_modes by (auto simp: stable_condition_def)
  have path: "trim (oc_path c) \<noteq> []" and v: "v = VObj ?m"
    using assms(2) mode by (auto simp: buildConditionPayload_def Let_def sor_def split: if_splits)
  let ?c = "\<lparr> oc_id = nextLocalId now n, oc_path = trim (oc_path c), oc_mode = oc_mode c,
     oc_value_text = toValueText (parseLooseValue (oc_value_text c)), oc_invert = oc_invert c,
     oc_pass_missing_key = oc_pass_missing_key c \<rparr>"
  have value': "stable_value (oc_value_text c)" using assms(1) by (simp add: stable_condition_def)
  have "normalizeCondition_override now v n = Inr (?c, Suc n)"
    using mode by (simp add: v normalizeCondition_override_def members_of_def condition_of_def fields_put_if vget_Cons
        mode_or_in)
  moreover have "buildConditionPayload ?c = Some v"
    using path mode stable_value_stored(1) [OF value'] by (simp add: buildConditionPayload_def v sor_def)
  moreover have "plain_members [(js ''path'', VStr (trim (oc_path c))), (js ''mode'', VStr (oc_mode c)),
         (js ''value'', parseLooseValue (oc_value_text c))]"
    using assms(1) mode(3) stable_plain [OF value'] code_units_trim
    by (simp add: plain_members_def stable_condition_def)
  then have "json_plain v"
    unfolding v by (intro plain_members_plain plain_members_put_if) simp_all
  ultimately show ?thesis by (rule that)
qed

lemma reload_conditions:
  assumes "list_all stable_condition cs"
  shows "\<exists>cs'. map_fresh (normalizeCondition_override now) (List.map_filter buildConditionPayload cs) n
      = Inr (cs', n + length (List.map_filter buildConditionPayload cs))
    \<and> List.map_filter buildConditionPayload cs' = List.map_filter buildConditionPayload cs
    \<and> list_all json_plain (List.map_filter buildConditionPayload cs)"
  using assms
proof (induction cs arbitrary: n)
  case Nil
  show ?case by (simp add: map_filter_simps)
next
  case (Cons c cs)
  show ?case
  proof (cases "buildConditionPayload c")
    case None
    with Cons show ?thesis by (simp add: map_filter_simps)
  next
    case (Some v)
    obtain c' where c': "normalizeCondition_override now v n = Inr (c', Suc n)" "buildConditionPayload c' = Some v" "json_plain v"
      using Cons.prems Some by (auto elim: reload_condition)
    from Cons.IH [of "Suc n"] Cons.prems obtain cs' where
      "map_fresh (normalizeCondition_override now) (List.map_filter buildConditionPayload cs) (Suc n)
        = Inr (cs', Suc n + length (List.map_filter buildConditionPayload cs))"
      "List.map_filter buildConditionPayload cs' = List.map_filter buildConditionPayload cs"
      "list_all json_plain (List.map_filter buildConditionPayload cs)" by auto
    with c' Some show ?thesis by (simp add: map_filter_simps)
  qed
qed

lemma payload_fields:
  fixes op defines "meta \<equiv> set (meta_of (sor (oo_mode op) (js ''set'')))"
    and "conds \<equiv> List.map_filter buildConditionPayload (oo_conditions op)"
  shows "vget (operation_payload op) ''mode'' = VStr (sor (oo_mode op) (js ''set''))"
    "text_or_empty (vget (operation_payload op) ''description'') = trim (oo_description op)"
    "text_or_empty (vget (operation_payload op) ''path'')
       = (if M_path \<in> meta \<or> M_pathOptional \<in> meta then trim (oo_path op) else [])"
    "text_or_empty (vget (operation_payload op) ''from'') = (if M_from \<in> meta then or_path op (oo_from op) else [])"
    "text_or_empty (vget (operation_payload op) ''to'') = (if M_to \<in> meta \<or> trim (oo_to op) \<noteq> [] then or_path op (oo_to op) else [])"
    "vget (operation_payload op) ''value'' = (if M_value \<in> meta then parseLooseValue (oo_value_text op) else VUndef)"
    "vget (operation_payload op) ''keep_origin'' = VBool True \<longleftrightarrow> M_keepOrigin \<in> meta \<and> oo_keep_origin op"
    "vget (operation_payload op) ''conditions'' = (if conds \<noteq> [] then VArr conds else VUndef)"
    "vget (operation_payload op) ''logic'' = (if conds \<noteq> [] then VStr (if oo_logic op = js ''AND'' then js ''AND'' else js ''OR'') else VUndef)"
  by (simp_all add: operation_payload_once fields_put_if vget_Cons meta_def conds_def js_def)

lemma plain_payload:
  assumes "stable_row op"
  shows "json_plain (VObj (operation_payload op))"
proof -
  have "list_all json_plain (List.map_filter buildConditionPayload (oo_conditions op))"
    using reload_conditions assms unfolding stable_row_def by blast
  moreover have "json_plain (VStr (or_path op s))" if "code_units s" for s
    using that assms by (simp add: or_path_def code_units_trim stable_row_def)
  moreover have "plain_members [(js ''mode'', VStr (oo_mode op))]"
    using assms operation_modes by (simp add: plain_members_def stable_row_def)
  moreover have "sor (oo_mode op) (js ''set'') = oo_mode op"
    using assms operation_modes by (auto simp: sor_def stable_row_def)
  ultimately show ?thesis
    unfolding operation_payload_once using assms
    by (intro plain_members_plain plain_members_put_if)
      (simp_all add: stable_row_def code_units_trim stable_plain)
qed

text \<open>What a mode with a requirement asks for is among its fields.\<close>

lemma required_fields:
  assumes "mode \<in> set OPERATION_MODE_VALUES"
  shows "mode \<in> set FROM_REQUIRED_MODES \<Longrightarrow> M_from \<in> set (meta_of mode)"
    "mode \<in> set TO_REQUIRED_MODES \<Longrightarrow> M_to \<in> set (meta_of mode)"
    "mode \<in> set VALUE_REQUIRED_MODES \<Longrightarrow> M_value \<in> set (meta_of mode)"
    "mode = js ''set'' \<Longrightarrow> M_path \<in> set (meta_of mode)"
proof -
  have "list_all (\<lambda>m. (m \<in> set FROM_REQUIRED_MODES \<longrightarrow> M_from \<in> set (meta_of m))
      \<and> (m \<in> set TO_REQUIRED_MODES \<longrightarrow> M_to \<in> set (meta_of m))
      \<and> (m \<in> set VALUE_REQUIRED_MODES \<longrightarrow> M_value \<in> set (meta_of m))
      \<and> (m = js ''set'' \<longrightarrow> M_path \<in> set (meta_of m))) OPERATION_MODE_VALUES"
    by (simp add: OPERATION_MODE_VALUES_def OPERATION_MODE_OPTIONS_def FROM_REQUIRED_MODES_def
        TO_REQUIRED_MODES_def VALUE_REQUIRED_MODES_def meta_of_def MODE_META_def js_def)
  with assms show "mode \<in> set FROM_REQUIRED_MODES \<Longrightarrow> M_from \<in> set (meta_of mode)"
    "mode \<in> set TO_REQUIRED_MODES \<Longrightarrow> M_to \<in> set (meta_of mode)"
    "mode \<in> set VALUE_REQUIRED_MODES \<Longrightarrow> M_value \<in> set (meta_of mode)"
    "mode = js ''set'' \<Longrightarrow> M_path \<in> set (meta_of mode)"
    by (simp_all add: list_all_iff)
qed

lemma put_if_cong:
  "c = c' \<Longrightarrow> (c' \<Longrightarrow> v = v') \<Longrightarrow> m = m' \<Longrightarrow> put_if c k v m = put_if c' k v' m'"
  by (cases c') simp_all

lemma mode_ok: "stable_row op \<Longrightarrow> sor (oo_mode op) (js ''set'') = oo_mode op"
  using operation_modes by (auto simp: sor_def stable_row_def)

lemma upper_logic [simp]:
  "is_upper_word (vor (VStr (js ''AND'')) d) ''AND''" "\<not> is_upper_word (vor (VStr (js ''OR'')) d) ''AND''"
  "\<not> is_upper_word (vor VUndef (VStr (js ''OR''))) ''AND''"
  by (simp_all add: is_upper_word_def vor_def) (simp_all add: js_def ascii_upper_def)

text \<open>The row a stored row is read as.\<close>

definition reread :: "jstr \<Rightarrow> OverrideCondition list \<Rightarrow> OverrideOperation \<Rightarrow> OverrideOperation" where
  "reread i cs op = (let meta = set (meta_of (oo_mode op)) in
     \<lparr> oo_id = i, oo_description = trim (oo_description op),
       oo_path = (if M_path \<in> meta \<or> M_pathOptional \<in> meta then trim (oo_path op) else []), oo_mode = oo_mode op,
       oo_from = (if M_from \<in> meta then or_path op (oo_from op) else []),
       oo_to = (if M_to \<in> meta \<or> trim (oo_to op) \<noteq> [] then or_path op (oo_to op) else []),
       oo_value_text = (if M_value \<in> meta then toValueText (parseLooseValue (oo_value_text op)) else []),
       oo_keep_origin = (M_keepOrigin \<in> meta \<and> oo_keep_origin op),
       oo_logic = (if List.map_filter buildConditionPayload (oo_conditions op) \<noteq> [] \<and> oo_logic op = js ''AND''
         then js ''AND'' else js ''OR''), oo_conditions = cs \<rparr>)"

lemma reread_fields:
  fixes op defines "meta \<equiv> set (meta_of (oo_mode op))"
  shows "oo_description (reread i cs op) = trim (oo_description op)" "oo_conditions (reread i cs op) = cs"
    "oo_path (reread i cs op) = (if M_path \<in> meta \<or> M_pathOptional \<in> meta then trim (oo_path op) else [])"
    "oo_from (reread i cs op) = (if M_from \<in> meta then or_path op (oo_from op) else [])"
    "oo_to (reread i cs op) = (if M_to \<in> meta \<or> trim (oo_to op) \<noteq> [] then or_path op (oo_to op) else [])"
    "oo_value_text (reread i cs op) = (if M_value \<in> meta then toValueText (parseLooseValue (oo_value_text op)) else [])"
    "oo_keep_origin (reread i cs op) \<longleftrightarrow> M_keepOrigin \<in> meta \<and> oo_keep_origin op"
    "oo_logic (reread i cs op) = (if List.map_filter buildConditionPayload (oo_conditions op) \<noteq> [] \<and> oo_logic op = js ''AND''
         then js ''AND'' else js ''OR'')"
    "oo_mode (reread i cs op) = oo_mode op"
  by (simp_all add: reread_def Let_def meta_def)

lemma normalize_payload:
  assumes "stable_row op"
  shows "\<exists>cs n'. normalizeOperation now (VObj (operation_payload op)) n = Inr (reread (nextLocalId now n) cs op, n')
     \<and> List.map_filter buildConditionPayload cs = List.map_filter buildConditionPayload (oo_conditions op)"
proof -
  let ?conds = "List.map_filter buildConditionPayload (oo_conditions op)"
  obtain cs where cs: "map_fresh (normalizeCondition_override now) ?conds (Suc n) = Inr (cs, Suc n + length ?conds)"
    "List.map_filter buildConditionPayload cs = ?conds"
    using assms reload_conditions [of "oo_conditions op" now "Suc n"] by (auto simp: stable_row_def)
  have "toValueText (vget (operation_payload op) ''value'')
      = (if M_value \<in> set (meta_of (oo_mode op)) then toValueText (parseLooseValue (oo_value_text op)) else [])"
    by (simp add: payload_fields mode_ok [OF assms] toValueText_def)
  moreover have "mode_or OPERATION_MODE_VALUES (vget (operation_payload op) ''mode'') (js ''set'') = oo_mode op"
    using assms by (simp add: payload_fields mode_ok mode_or_in stable_row_def)
  ultimately show ?thesis
    using cs by (cases "?conds = []")
      (auto simp: normalizeOperation_def members_of_def payload_fields mode_ok [OF assms] reread_def Let_def
        map_filter_simps)
qed

lemma reread_payload:
  assumes "stable_row op" "List.map_filter buildConditionPayload cs = List.map_filter buildConditionPayload (oo_conditions op)"
  shows "operation_payload (reread i cs op) = operation_payload op"
proof -
  let ?meta = "set (meta_of (oo_mode op))"
  note stored = stable_value_stored(1) [of "oo_value_text op"]
  have trims: "trim (or_path op s) = or_path op s" for s by (simp add: or_path_def)
  have al: "M_pathAlias \<in> ?meta \<Longrightarrow> M_path \<notin> ?meta \<and> M_pathOptional \<notin> ?meta \<and> M_from \<in> ?meta \<and> M_to \<in> ?meta"
    using meta_alias by blast
  have or_path': "or_path (reread i cs op) (or_path op s) = or_path op s" for s
    using al assms(1) by (auto simp: or_path_def reread_def Let_def mode_ok)
  have mode: "sor (oo_mode (reread i cs op)) (js ''set'') = oo_mode op"
    using mode_ok [OF assms(1)] by (simp add: reread_def Let_def)
  have stored': "stable_value (oo_value_text op)" using assms(1) by (simp add: stable_row_def)
  note row = reread_fields [of i cs op]
  have to': "M_to \<in> ?meta \<or> trim (oo_to (reread i cs op)) \<noteq> [] \<longleftrightarrow> M_to \<in> ?meta \<or> trim (oo_to op) \<noteq> []"
    using al by (auto simp: row or_path_def mode_ok [OF assms(1)])
  show ?thesis
    unfolding operation_payload_once mode mode_ok [OF assms(1)] row(1,2) assms(2) to'
    by (rule put_if_cong refl; (simp add: row or_path' stored [OF stored'] js_def; fail)?)+
qed

text \<open>The rows the checks accept.\<close>

definition valid_operation :: "OverrideOperation \<Rightarrow> bool" where
  "valid_operation op = (let mode = sor (oo_mode op) (js ''set''); meta = set (meta_of mode); raw = trim (oo_value_text op);
       same = (M_pathAlias \<in> meta \<and> trim (oo_path op) \<noteq> []) in
     (M_path \<in> meta \<longrightarrow> trim (oo_path op) \<noteq> [])
     \<and> (mode \<in> set FROM_REQUIRED_MODES \<longrightarrow> trim (oo_from op) \<noteq> [] \<or> same)
     \<and> (mode \<in> set TO_REQUIRED_MODES \<longrightarrow> trim (oo_to op) \<noteq> [] \<or> same)
     \<and> (mode \<in> set VALUE_REQUIRED_MODES \<longrightarrow> raw \<noteq> [])
     \<and> (mode = js ''return_error'' \<longrightarrow> (\<forall>m. json_parse raw = Some (VObj m)
           \<longrightarrow> trim (val_to_str (vor (vget m ''message'') (VStr []))) \<noteq> []))
     \<and> (mode = js ''pass_headers'' \<longrightarrow> parsePassHeaderNames (parseLooseValue raw) \<noteq> []))"

lemma if_Some:
  "(if c then Some x else r) = None \<longleftrightarrow> \<not> c \<and> r = None"
  "(if c then Some x else r) = Some m \<longleftrightarrow> c \<and> x = m \<or> \<not> c \<and> r = Some m"
  by simp_all

lemma object_case: "(case x of Some (VObj m) \<Rightarrow> Q m | _ \<Rightarrow> False) \<longleftrightarrow> (\<exists>m. x = Some (VObj m) \<and> Q m)"
  by (auto split: option.split jval.split)

lemma value_modes: "js ''return_error'' \<in> set VALUE_REQUIRED_MODES" "js ''prune_objects'' \<in> set VALUE_REQUIRED_MODES"
  "js ''pass_headers'' \<in> set VALUE_REQUIRED_MODES"
  by (simp_all add: VALUE_REQUIRED_MODES_def)

lemma validate_None: "validate_operation t i op = None \<longleftrightarrow> valid_operation op"
  unfolding validate_operation_def valid_operation_def Let_def if_Some object_case
  using value_modes by metis

lemma validate_message:
  assumes "validate_operation t i op = Some message" "\<And>s j. t s j \<noteq> []"
  shows "message \<noteq> []"
  using assms(1) unfolding validate_operation_def Let_def if_Some using assms(2)
  by (elim disjE conjE) (blast | simp only: option.distinct)+

lemma reread_valid:
  assumes "stable_row op" "valid_operation op"
  shows "valid_operation (reread k cs op)"
proof -
  let ?meta = "set (meta_of (oo_mode op))" and ?r = "reread k cs op"
  have stored': "stable_value (oo_value_text op)" and in_modes: "oo_mode op \<in> set OPERATION_MODE_VALUES"
    using assms(1) by (simp_all add: stable_row_def)
  note mode = mode_ok [OF assms(1)]
  note row = reread_fields [of k cs op]
  have al: "M_pathAlias \<in> ?meta \<Longrightarrow> M_path \<notin> ?meta \<and> M_from \<in> ?meta \<and> M_to \<in> ?meta"
    using meta_alias by blast
  note valid = assms(2) [unfolded valid_operation_def Let_def mode]
  have path: "M_path \<in> ?meta \<longrightarrow> trim (oo_path ?r) \<noteq> []"
    using valid by (simp add: row)
  have source: "oo_mode op \<in> set FROM_REQUIRED_MODES \<longrightarrow> trim (oo_from ?r) \<noteq> []"
  proof
    assume m: "oo_mode op \<in> set FROM_REQUIRED_MODES"
    then have "trim (oo_from op) \<noteq> [] \<or> M_pathAlias \<in> ?meta \<and> trim (oo_path op) \<noteq> []" using valid by blast
    with required_fields(1) [OF in_modes m] show "trim (oo_from ?r) \<noteq> []" by (auto simp: row or_path_def mode)
  qed
  have target: "oo_mode op \<in> set TO_REQUIRED_MODES \<longrightarrow> trim (oo_to ?r) \<noteq> []"
  proof
    assume m: "oo_mode op \<in> set TO_REQUIRED_MODES"
    then have "trim (oo_to op) \<noteq> [] \<or> M_pathAlias \<in> ?meta \<and> trim (oo_path op) \<noteq> []" using valid by blast
    with required_fields(2) [OF in_modes m] show "trim (oo_to ?r) \<noteq> []" by (auto simp: row or_path_def mode)
  qed
  have v: "oo_mode op \<in> set VALUE_REQUIRED_MODES \<Longrightarrow> oo_value_text ?r = toValueText (parseLooseValue (oo_value_text op))"
    using required_fields(3) [OF in_modes] by (simp add: row)
  have trims: "parseLooseValue (trim s) = parseLooseValue s" for s by (simp add: parseLooseValue_def)
  show ?thesis
    unfolding valid_operation_def Let_def row(9) mode trims
    using valid path source target v value_modes stable_value_stored [OF stored'] by (simp add: trims)
qed

lemma reread_not_blank:
  assumes "stable_row op" "valid_operation op"
  shows "\<not> isOperationBlank (reread k cs op)"
proof -
  have "M_path \<in> set (meta_of (oo_mode op)) \<and> trim (oo_path op) \<noteq> []" if "oo_mode op = js ''set''"
    using required_fields(4) assms that mode_ok [OF assms(1)]
    by (auto simp: valid_operation_def Let_def stable_row_def)
  then show ?thesis by (auto simp: isOperationBlank_def reread_def Let_def)
qed

section \<open>Validation\<close>

lemma validate_from_first:
  assumes "\<And>s i. t s i \<noteq> []"
  shows "validate_from t i ops = [] \<longleftrightarrow> list_all valid_operation ops"
    and "list_all valid_operation before \<Longrightarrow> \<not> valid_operation op
      \<Longrightarrow> validate_from t i (before @ op # after) = the (validate_operation t (i + length before + 1) op)"
proof -
  have message: "message \<noteq> []" if "validate_operation t j op = Some message" for j op message
    using that assms by (rule validate_message)
  show "validate_from t i ops = [] \<longleftrightarrow> list_all valid_operation ops"
  proof (induction ops arbitrary: i)
    case (Cons op ops)
    then show ?case using message [of "i + 1" op] validate_None [of t "i + 1" op]
      by (cases "validate_operation t (i + 1) op") auto
  qed simp
  show "list_all valid_operation before \<Longrightarrow> \<not> valid_operation op
      \<Longrightarrow> validate_from t i (before @ op # after) = the (validate_operation t (i + length before + 1) op)"
  proof (induction before arbitrary: i)
    case Nil
    then show ?case using validate_None [of t "i + 1" op] by (auto split: option.split)
  next
    case (Cons b bs)
    then have "validate_operation t (i + 1) b = None" by (simp add: validate_None)
    with Cons show ?case by (simp add: add.assoc add.commute)
  qed
qed

section \<open>Saving and opening again\<close>

lemma map_fresh_app:
  assumes "\<And>x n. x \<in> set xs \<Longrightarrow> \<exists>y n'. f (g x) n = Inr (y, n') \<and> R x y"
  shows "\<exists>ys n'. map_fresh f (map g xs) n = Inr (ys, n') \<and> list_all2 R xs ys"
  using assms
proof (induction xs arbitrary: n)
  case (Cons x xs)
  then obtain y n1 where y: "f (g x) n = Inr (y, n1)" "R x y" by (meson list.set_intros(1))
  from Cons obtain ys n2 where "map_fresh f (map g xs) n1 = Inr (ys, n2)" "list_all2 R xs ys"
    by (meson list.set_intros(2))
  with y show ?case by auto
qed simp

text \<open>The stored object of a list of rows.\<close>

definition operations_object :: "OverrideOperation list \<Rightarrow> jval" where
  "operations_object ops = VObj [(js ''operations'', VArr (map (\<lambda>o'. VObj (operation_payload o')) ops))]"

lemma operations_object_map: "operations_object ops = VObj [(js ''operations'', VArr (map VObj (map operation_payload ops)))]"
  by (simp add: operations_object_def comp_def)

lemma plain_operations:
  assumes "list_all stable_row ops"
  shows "json_plain (operations_object ops)"
proof -
  have "json_plain (VObj (operation_payload op))" if "op \<in> set ops" for op
    using assms that by (intro plain_payload) (simp add: list_all_iff)
  then have "list_all json_plain (map (\<lambda>o'. VObj (operation_payload o')) ops)"
    by (simp add: list_all_iff del: json_plain.simps)
  then have "plain_members [(js ''operations'', VArr (map (\<lambda>o'. VObj (operation_payload o')) ops))]"
    by (simp add: plain_members_def del: json_plain.simps(7))
  then show ?thesis unfolding operations_object_def by (rule plain_members_plain)
qed

lemma reload_rows:
  assumes "ops \<noteq> []" "list_all stable_row ops" "list_all valid_operation ops"
  shows "\<exists>st n'. parseInitialState now (json_pretty (operations_object ops)) n = Inr (st, n')
    \<and> es_editMode st = Visual_mode \<and> es_visualMode st = Operations_mode
    \<and> es_jsonText st = json_pretty (operations_object ops)
    \<and> list_all2 (\<lambda>op op'. operation_payload op' = operation_payload op \<and> oo_mode op' = oo_mode op
        \<and> valid_operation op' \<and> \<not> isOperationBlank op') ops (es_operations st)"
proof -
  let ?R = "\<lambda>op op'. operation_payload op' = operation_payload op \<and> oo_mode op' = oo_mode op
        \<and> valid_operation op' \<and> \<not> isOperationBlank op'"
  let ?text = "json_pretty (operations_object ops)"
  have plain: "json_plain (operations_object ops)" using assms(2) by (rule plain_operations)
  have row: "\<exists>op' n'. normalizeOperation now (VObj (operation_payload op)) m = Inr (op', n') \<and> ?R op op'"
    if "op \<in> set ops" for op m
  proof -
    have "stable_row op" "valid_operation op" using assms that by (auto simp: list_all_iff)
    with normalize_payload [of op now m] reread_payload reread_valid reread_not_blank reread_fields(9)
    show ?thesis by metis
  qed
  obtain rows n' where rows: "map_fresh (normalizeOperation now) (map (\<lambda>o'. VObj (operation_payload o')) ops) n = Inr (rows, n')"
    "list_all2 ?R ops rows"
    using map_fresh_app [of ops "normalizeOperation now" "\<lambda>o'. VObj (operation_payload o')" ?R n] row by blast
  have "trim ?text = ?text" "?text \<noteq> []" "json_parse ?text = Some (operations_object ops)"
    using plain by (simp_all add: trim_id trimmed_pretty json_pretty_trim json_parse_pretty)
  with rows assms(1) show ?thesis
    by (simp add: parseInitialState_def createDefaultOperation_def operations_object_def vget_def operations_or_default_def)
qed

lemma build_valid:
  assumes "\<And>s i. t s i \<noteq> []" "filter (\<lambda>o'. \<not> isOperationBlank o') ops \<noteq> []"
  shows "buildOperationsJson ops True t = Inr text' \<longleftrightarrow>
    list_all valid_operation (filter (\<lambda>o'. \<not> isOperationBlank o') ops)
    \<and> text' = json_pretty (operations_object (filter (\<lambda>o'. \<not> isOperationBlank o') ops))"
  using assms validate_from_first(1) [of t 0 "filter (\<lambda>o'. \<not> isOperationBlank o') ops"]
  by (auto simp: buildOperationsJson_def Let_def validateOperations_def operations_object_def)

text \<open>C7. Saved overrides open again unchanged: when the visual editor saves a text that is not empty,
  opening that text gives the visual editor with one row for every row that was saved, with the same mode
  and the same stored object, and saving these rows gives the same text. The texts are JavaScript strings,
  the modes are offered ones, and no value is a quoted text whose content reads as something else.\<close>

theorem saved_config_reloads:
  assumes "buildOperationsJson ops True t = Inr text'" "text' \<noteq> []" "list_all stable_row ops" "\<And>s i. t s i \<noteq> []"
  shows "\<exists>st n'. parseInitialState now text' n = Inr (st, n')
    \<and> es_editMode st = Visual_mode \<and> es_visualMode st = Operations_mode \<and> es_jsonText st = text'
    \<and> map oo_mode (es_operations st) = map oo_mode (filter (\<lambda>o'. \<not> isOperationBlank o') ops)
    \<and> map operation_payload (es_operations st) = map operation_payload (filter (\<lambda>o'. \<not> isOperationBlank o') ops)
    \<and> buildOperationsJson (es_operations st) True t = Inr text'"
proof -
  let ?ops = "filter (\<lambda>o'. \<not> isOperationBlank o') ops"
  have ne: "?ops \<noteq> []" using assms(1,2) by (auto simp: buildOperationsJson_def Let_def split: if_splits)
  with build_valid [OF assms(4)] assms(1) have text': "text' = json_pretty (operations_object ?ops)"
    and valid: "list_all valid_operation ?ops" by auto
  have "list_all stable_row ?ops" using assms(3) by (simp add: list_all_iff)
  from reload_rows [OF ne this valid] text' obtain st n' where st:
    "parseInitialState now text' n = Inr (st, n')" "es_editMode st = Visual_mode" "es_visualMode st = Operations_mode"
    "es_jsonText st = text'"
    "list_all2 (\<lambda>op op'. operation_payload op' = operation_payload op \<and> oo_mode op' = oo_mode op
        \<and> valid_operation op' \<and> \<not> isOperationBlank op') ?ops (es_operations st)" by blast
  from st(5) have maps: "map oo_mode (es_operations st) = map oo_mode ?ops"
      "map operation_payload (es_operations st) = map operation_payload ?ops"
      "list_all valid_operation (es_operations st)" "filter (\<lambda>o'. \<not> isOperationBlank o') (es_operations st) = es_operations st"
    by (induction rule: list_all2_induct) simp_all
  then have "operations_object (es_operations st) = operations_object ?ops"
    by (simp only: operations_object_map)
  moreover have "es_operations st \<noteq> []" using maps(1) ne by auto
  ultimately have "buildOperationsJson (es_operations st) True t = Inr text'"
    using build_valid [OF assms(4), of "es_operations st"] maps text' by simp
  with st maps show ?thesis by blast
qed

text \<open>A row that sets a field under one condition.\<close>

definition sample_row :: OverrideOperation where
  "sample_row = \<lparr> oo_id = [], oo_description = [], oo_path = js '' a '', oo_mode = js ''set'', oo_from = [], oo_to = [],
     oo_value_text = js ''null'', oo_keep_origin = True, oo_logic = js ''AND'',
     oo_conditions = [\<lparr> oc_id = [], oc_path = js ''model'', oc_mode = js ''prefix'', oc_value_text = js ''o'',
       oc_invert = True, oc_pass_missing_key = False \<rparr>] \<rparr>"

lemma sample_parse: "json_parse (js ''null'') = Some VNull" "json_parse (js ''o'') = None"
proof -
  show "json_parse (js ''null'') = Some VNull"
    using json_parse_text [of VNull] by (simp add: json_stringify_def)
  show "json_parse (js ''o'') = None"
    by (simp add: json_parse_def js_def json_ws_def json_word_def json_number_def num_char_def is_digit_def
        json_num_ok_def numeral_3_eq_3)
qed

lemma sample_trim: "trim (js ''null'') = js ''null''" "trim (js ''o'') = js ''o''" "trim (js '' a '') = js ''a''"
  "trim (js ''model'') = js ''model''"
  by (simp_all add: trim_def js_def is_space_def)

lemma sample_loose: "parseLooseValue (js ''null'') = VNull" "parseLooseValue (js ''o'') = VStr (js ''o'')"
  by (simp_all add: parseLooseValue_def sample_trim sample_parse)

lemma sample_stable: "list_all stable_row [sample_row]"
  by (simp add: sample_row_def stable_row_def stable_condition_def stable_value_def sample_loose sample_trim sample_parse)
    (simp add: js_def code_units_def OPERATION_MODE_VALUES_def OPERATION_MODE_OPTIONS_def CONDITION_MODE_VALUES_def
      CONDITION_MODE_OPTIONS_def)

lemma sample_valid: "valid_operation sample_row" "\<not> isOperationBlank sample_row"
  by (simp_all add: sample_row_def valid_operation_def sor_def isOperationBlank_def sample_trim Let_def
      FROM_REQUIRED_MODES_def TO_REQUIRED_MODES_def VALUE_REQUIRED_MODES_def)

lemma sample_build:
  "buildOperationsJson [sample_row] True (\<lambda>s i. js ''e'') = Inr (json_pretty (operations_object [sample_row]))"
  "json_pretty (operations_object [sample_row]) \<noteq> []"
  using build_valid [of "\<lambda>s i. js ''e''" "[sample_row]" "json_pretty (operations_object [sample_row])"] sample_valid
    plain_operations [OF sample_stable] by (simp_all add: json_pretty_trim)

theorem saved_config_reloads_witness:
  "\<exists>st n'. parseInitialState (\<lambda>n. []) (json_pretty (operations_object [sample_row])) 0 = Inr (st, n')
    \<and> length (es_operations st) = 1"
proof -
  have "js ''e'' \<noteq> []" by (simp add: js_def)
  then have "\<And>s i. (\<lambda>(s :: string) (i :: nat). js ''e'') s i \<noteq> []" by simp
  from saved_config_reloads [OF sample_build sample_stable this, of "\<lambda>n. []" 0] sample_valid(2)
  obtain st n' where "parseInitialState (\<lambda>n. []) (json_pretty (operations_object [sample_row])) 0 = Inr (st, n')"
    "map oo_mode (es_operations st) = map oo_mode [sample_row]" by auto
  moreover from this(2) have "length (es_operations st) = 1" by (metis length_map length_Cons One_nat_def list.size(3))
  ultimately show ?thesis by blast
qed

text \<open>C20. The checks of the visual editor are exact: saving succeeds with the text of the rows that are not
  blank if each of them has the fields its mode asks for; otherwise it fails with the message of the first row
  that has not, numbered among the rows that are not blank. A list of blank rows saves as the empty text.\<close>

theorem override_validation_exact:
  assumes "\<And>s i. t s i \<noteq> []"
  shows "buildOperationsJson ops True t = (let rows = filter (\<lambda>o'. \<not> isOperationBlank o') ops in
    if rows = [] then Inr []
    else case find_index (\<lambda>o'. \<not> valid_operation o') rows of
        None \<Rightarrow> Inr (json_pretty (operations_object rows))
      | Some i \<Rightarrow> Inl (Thrown (the (validate_operation t (i + 1) (rows ! i)))))"
proof -
  define rows where "rows = filter (\<lambda>o'. \<not> isOperationBlank o') ops"
  have build: "buildOperationsJson ops True t = (if rows = [] then Inr []
      else if validateOperations t rows \<noteq> [] then Inl (Thrown (validateOperations t rows))
      else Inr (json_pretty (operations_object rows)))"
    by (simp add: buildOperationsJson_def rows_def Let_def operations_object_def)
  show ?thesis
  proof (cases "find_index (\<lambda>o'. \<not> valid_operation o') rows")
    case None
    then have "list_all valid_operation rows" by (induction rows) (auto split: if_splits)
    then have "validateOperations t rows = []"
      using assms by (simp add: validateOperations_def validate_from_first(1))
    with None show ?thesis unfolding build rows_def [symmetric] by simp
  next
    case (Some i)
    then have split: "list_all valid_operation (take i rows) \<and> i < length rows \<and> \<not> valid_operation (rows ! i)"
      by (induction rows arbitrary: i) (auto split: if_splits)
    then have "rows = take i rows @ rows ! i # drop (Suc i) rows" by (simp add: id_take_nth_drop)
    then have message: "validateOperations t rows = the (validate_operation t (i + 1) (rows ! i))"
      using split validate_from_first(2) [where before = "take i rows" and op = "rows ! i" and i = 0
          and after = "drop (Suc i) rows", OF assms]
      by (simp add: validateOperations_def min_def)
    have "validate_operation t (i + 1) (rows ! i) \<noteq> None" using split validate_None by blast
    then have "validateOperations t rows \<noteq> []"
      unfolding message using validate_message [OF _ assms] by auto
    with Some split show ?thesis unfolding build rows_def [symmetric] by (auto simp: message)
  qed
qed

theorem override_validation_exact_witness:
  "buildOperationsJson [sample_row\<lparr> oo_path := [], oo_conditions := [] \<rparr>] True (\<lambda>s i. 49 # js s)
     = Inl (Thrown (49 # js ''Rule {{line}} is missing target path''))"
proof -
  let ?op = "sample_row\<lparr> oo_path := [], oo_conditions := [] \<rparr>"
  have meta: "M_path \<in> set (meta_of (js ''set''))" by (simp add: meta_of_def MODE_META_def)
  have row: "\<not> isOperationBlank ?op" "\<not> valid_operation ?op"
    "validate_operation (\<lambda>s i. 49 # js s) (Suc 0) ?op = Some (49 # js ''Rule {{line}} is missing target path'')"
    using meta by (simp_all add: sample_row_def isOperationBlank_def valid_operation_def validate_operation_def sor_def)
  show ?thesis
    using override_validation_exact [of "\<lambda>s i. 49 # js s" "[?op]"] row by simp
qed

text \<open>C39. Stored texts change their type: a field whose stored value is a text that reads as JSON is shown by
  that text, and saving the row stores the JSON value instead. So a stored \<open>"true"\<close> is saved as a
  boolean and a stored \<open>"5"\<close> as a number, although nothing was edited.\<close>

theorem stored_text_retyped:
  assumes "json_parse (trim u) = Some v"
  shows "\<exists>op n'. normalizeOperation now (VObj [(js ''mode'', VStr (js ''set'')), (js ''path'', VStr p), (js ''value'', VStr u)]) n
      = Inr (op, n') \<and> oo_value_text op = u \<and> vget (operation_payload op) ''value'' = v"
proof -
  have "trim u \<noteq> []" using assms by auto
  then have "parseLooseValue u = v" using assms by (simp add: parseLooseValue_def)
  moreover have "M_value \<in> set (meta_of (js ''set''))" by (simp add: meta_of_def MODE_META_def)
  moreover have "js ''set'' \<in> set OPERATION_MODE_VALUES"
    by (simp add: OPERATION_MODE_VALUES_def OPERATION_MODE_OPTIONS_def)
  ultimately show ?thesis
    by (simp add: normalizeOperation_def members_of_def vget_Cons toValueText_def mode_or_in payload_fields sor_def)
qed

theorem stored_text_retyped_witness:
  "\<exists>op n'. normalizeOperation (\<lambda>n. []) (VObj [(js ''mode'', VStr (js ''set'')), (js ''path'', VStr (js ''user'')),
      (js ''value'', VStr (js ''null''))]) 0 = Inr (op, n') \<and> oo_value_text op = js ''null''
    \<and> vget (operation_payload op) ''value'' = VNull"
  by (rule stored_text_retyped) (simp add: sample_trim sample_parse)

end
