(* ===== verification/ParamOverrideEditor.thy ===== *)
theory ParamOverrideEditor
  imports ParamOverride
begin

text \<open>
  The dialog that edits parameter overrides (\<open>ParamOverrideEditorDialog\<close> in
  \<open>param-override-editor-dialog.tsx\<close>) as a state machine: its state, one function per handler, the
  effect that keeps the selection valid, and the reachable states. The clock \<open>now\<close>, the translation \<open>t\<close> and
  \<open>toLowerCase\<close> (\<open>lower\<close>) are parameters. A handler that throws leaves the state as it is. Handlers see the
  state of the last rendering, which is the current one.
\<close>

section \<open>State\<close>

record DialogState = EditorState +
  pe_search :: jstr
  pe_selected :: jstr
  pe_expanded :: "(jstr \<times> bool) list"
  pe_dragged :: jstr
  pe_dragOver :: jstr
  pe_dragPosition :: DropPosition
  pe_template :: jstr
  pe_seed :: nat
  pe_toasts :: "jstr list"
  pe_saved :: "jstr option"
  pe_open :: bool
  pe_prune :: "PruneObjectsDraft option"

definition with_editor :: "EditorState \<Rightarrow> DialogState \<Rightarrow> DialogState" where
  "with_editor e st = st\<lparr> es_editMode := es_editMode e, es_visualMode := es_visualMode e,
     es_legacyValue := es_legacyValue e, es_operations := es_operations e, es_jsonText := es_jsonText e,
     es_jsonError := es_jsonError e \<rparr>"

definition first_id :: "OverrideOperation list \<Rightarrow> jstr" where
  "first_id ops = (case ops of [] \<Rightarrow> [] | o' # _ \<Rightarrow> oo_id o')"

text \<open>The effect that runs when the dialog opens.\<close>

definition openDialog :: "(nat \<Rightarrow> jstr) \<Rightarrow> jstr \<Rightarrow> DialogState \<Rightarrow> DialogState fallible" where
  "openDialog now v st = bind_err (parseInitialState now v (pe_seed st)) (\<lambda>(e, n).
     Inr ((with_editor e st)\<lparr> pe_search := [], pe_selected := first_id (es_operations e), pe_expanded := [],
       pe_dragged := [], pe_dragOver := [], pe_dragPosition := Before,
       pe_template := (if es_visualMode e = Legacy_mode then js ''legacy_default'' else js ''operations_default''),
       pe_seed := n, pe_open := True \<rparr>))"

text \<open>The effect that keeps the selection valid.\<close>

definition keepSelection :: "DialogState \<Rightarrow> DialogState" where
  "keepSelection st = (if es_operations st = [] then st\<lparr> pe_selected := [] \<rparr>
     else if pe_selected st \<in> oo_id ` set (es_operations st) then st
     else st\<lparr> pe_selected := first_id (es_operations st) \<rparr>)"

section \<open>Derived values\<close>

definition operationCount :: "DialogState \<Rightarrow> nat" where
  "operationCount st = length (filter (\<lambda>o'. \<not> isOperationBlank o') (es_operations st))"

definition filteredOperations :: "(jstr \<Rightarrow> jstr) \<Rightarrow> DialogState \<Rightarrow> OverrideOperation list" where
  "filteredOperations lower st = (let keyword = lower (trim (pe_search st)) in
     if keyword = [] then es_operations st
     else filter (\<lambda>op. has_sub keyword (lower (join [32] (filter (\<lambda>s. s \<noteq> [])
       [oo_description op, oo_mode op, oo_path op, oo_from op, oo_to op, oo_value_text op])))) (es_operations st))"

definition selectedOperation :: "DialogState \<Rightarrow> OverrideOperation option" where
  "selectedOperation st = find (\<lambda>o'. oo_id o' = pe_selected st) (es_operations st)"

definition selectedOperationIndex :: "DialogState \<Rightarrow> nat option" where
  "selectedOperationIndex st = find_index (\<lambda>o'. oo_id o' = pe_selected st) (es_operations st)"

definition returnErrorDraft :: "DialogState \<Rightarrow> ReturnErrorDraft option" where
  "returnErrorDraft st = (case selectedOperation st of None \<Rightarrow> None
     | Some op \<Rightarrow> if oo_mode op \<noteq> js ''return_error'' then None else Some (parseReturnErrorDraft (oo_value_text op)))"

definition pruneObjectsDraft :: "(nat \<Rightarrow> jstr) \<Rightarrow> DialogState \<Rightarrow> PruneObjectsDraft option \<times> nat" where
  "pruneObjectsDraft now st = (case selectedOperation st of None \<Rightarrow> (None, pe_seed st)
     | Some op \<Rightarrow> if oo_mode op \<noteq> js ''prune_objects'' then (None, pe_seed st)
         else (let (d, n) = parsePruneObjectsDraft now (oo_value_text op) (pe_seed st) in (Some d, n)))"

text \<open>Rendering computes the draft shown and keeps it; its rules draw identifiers.\<close>

definition renderDraft :: "(nat \<Rightarrow> jstr) \<Rightarrow> DialogState \<Rightarrow> DialogState" where
  "renderDraft now st = (let (draft, n) = pruneObjectsDraft now st in st\<lparr> pe_prune := draft, pe_seed := n \<rparr>)"

definition topOperationModes :: "DialogState \<Rightarrow> (jstr \<times> nat) list" where
  "topOperationModes st = (let counts = foldl (\<lambda>counts op. let mode = sor (oo_mode op) (js ''set'') in
       obj_put mode ((case map_of counts mode of None \<Rightarrow> 0 | Some c \<Rightarrow> c) + 1) counts) [] (es_operations st) in
     take 4 (sort_by (\<lambda>a b. snd b \<le> snd a) counts))"

section \<open>Operations\<close>

definition map_operation ::
  "jstr \<Rightarrow> (OverrideOperation \<Rightarrow> OverrideOperation) \<Rightarrow> DialogState \<Rightarrow> DialogState" where
  "map_operation oid f st = st\<lparr> es_operations := map (\<lambda>o'. if oo_id o' = oid then f o' else o') (es_operations st) \<rparr>"

text \<open>The member a patch sets; no caller patches the identifier.\<close>

datatype OperationPatch =
    Patch_description jstr | Patch_path jstr | Patch_mode jstr | Patch_from jstr | Patch_to jstr
  | Patch_value jstr | Patch_keep_origin bool | Patch_logic jstr

fun apply_patch :: "OperationPatch \<Rightarrow> OverrideOperation \<Rightarrow> OverrideOperation" where
  "apply_patch (Patch_description s) op = op\<lparr> oo_description := s \<rparr>"
| "apply_patch (Patch_path s) op = op\<lparr> oo_path := s \<rparr>"
| "apply_patch (Patch_mode s) op = op\<lparr> oo_mode := s \<rparr>"
| "apply_patch (Patch_from s) op = op\<lparr> oo_from := s \<rparr>"
| "apply_patch (Patch_to s) op = op\<lparr> oo_to := s \<rparr>"
| "apply_patch (Patch_value s) op = op\<lparr> oo_value_text := s \<rparr>"
| "apply_patch (Patch_keep_origin b) op = op\<lparr> oo_keep_origin := b \<rparr>"
| "apply_patch (Patch_logic s) op = op\<lparr> oo_logic := s \<rparr>"

definition updateOperation :: "jstr \<Rightarrow> OperationPatch list \<Rightarrow> DialogState \<Rightarrow> DialogState" where
  "updateOperation oid patch = map_operation oid (fold apply_patch patch)"

definition addOperation :: "(nat \<Rightarrow> jstr) \<Rightarrow> DialogState \<Rightarrow> DialogState" where
  "addOperation now st = (let (created, n) = createDefaultOperation now (pe_seed st) in
     st\<lparr> es_operations := es_operations st @ [created], pe_selected := oo_id created, pe_seed := n \<rparr>)"

definition clone_source :: "OverrideOperation \<Rightarrow> jval" where
  "clone_source s = VObj [(js ''description'', VStr (oo_description s)), (js ''path'', VStr (oo_path s)),
     (js ''mode'', VStr (oo_mode s)), (js ''value'', parseLooseValue (oo_value_text s)),
     (js ''keep_origin'', VBool (oo_keep_origin s)), (js ''from'', VStr (oo_from s)), (js ''to'', VStr (oo_to s)),
     (js ''logic'', VStr (oo_logic s)),
     (js ''conditions'', VArr (map (\<lambda>c. VObj [(js ''path'', VStr (oc_path c)), (js ''mode'', VStr (oc_mode c)),
        (js ''value'', parseLooseValue (oc_value_text c)), (js ''invert'', VBool (oc_invert c)),
        (js ''pass_missing_key'', VBool (oc_pass_missing_key c))]) (oo_conditions s)))]"

definition duplicateOperation :: "(nat \<Rightarrow> jstr) \<Rightarrow> jstr \<Rightarrow> DialogState \<Rightarrow> DialogState fallible" where
  "duplicateOperation now oid st = (case find_index (\<lambda>o'. oo_id o' = oid) (es_operations st) of None \<Rightarrow> Inr st
     | Some idx \<Rightarrow> bind_err (normalizeOperation now (clone_source (es_operations st ! idx)) (pe_seed st)) (\<lambda>(cloned, n).
         Inr (st\<lparr> es_operations := splice_in (idx + 1) cloned (es_operations st), pe_selected := oo_id cloned,
           pe_seed := n \<rparr>)))"

definition removeOperation :: "(nat \<Rightarrow> jstr) \<Rightarrow> jstr \<Rightarrow> DialogState \<Rightarrow> DialogState" where
  "removeOperation now oid st = (if length (es_operations st) \<le> 1
     then (let (d, n) = createDefaultOperation now (pe_seed st) in st\<lparr> es_operations := [d], pe_seed := n \<rparr>)
     else st\<lparr> es_operations := filter (\<lambda>o'. oo_id o' \<noteq> oid) (es_operations st) \<rparr>)"

definition addCondition :: "(nat \<Rightarrow> jstr) \<Rightarrow> jstr \<Rightarrow> DialogState \<Rightarrow> DialogState" where
  "addCondition now oid st = (let (created, n) = createDefaultCondition now (pe_seed st) in
     (map_operation oid (\<lambda>o'. o'\<lparr> oo_conditions := oo_conditions o' @ [created] \<rparr>) st)
       \<lparr> pe_expanded := assoc_put (oc_id created) True (pe_expanded st), pe_seed := n \<rparr>)"

datatype ConditionPatch =
    CPatch_path jstr | CPatch_mode jstr | CPatch_value jstr | CPatch_invert bool | CPatch_pass_missing bool

fun apply_cpatch :: "ConditionPatch \<Rightarrow> OverrideCondition \<Rightarrow> OverrideCondition" where
  "apply_cpatch (CPatch_path s) c = c\<lparr> oc_path := s \<rparr>"
| "apply_cpatch (CPatch_mode s) c = c\<lparr> oc_mode := s \<rparr>"
| "apply_cpatch (CPatch_value s) c = c\<lparr> oc_value_text := s \<rparr>"
| "apply_cpatch (CPatch_invert b) c = c\<lparr> oc_invert := b \<rparr>"
| "apply_cpatch (CPatch_pass_missing b) c = c\<lparr> oc_pass_missing_key := b \<rparr>"

definition map_condition ::
  "jstr \<Rightarrow> ConditionPatch list \<Rightarrow> OverrideCondition list \<Rightarrow> OverrideCondition list" where
  "map_condition cid patch cs = map (\<lambda>c. if oc_id c = cid then fold apply_cpatch patch c else c) cs"

definition updateCondition :: "jstr \<Rightarrow> jstr \<Rightarrow> ConditionPatch list \<Rightarrow> DialogState \<Rightarrow> DialogState" where
  "updateCondition oid cid patch = map_operation oid (\<lambda>o'. o'\<lparr> oo_conditions := map_condition cid patch (oo_conditions o') \<rparr>)"

definition removeCondition :: "jstr \<Rightarrow> jstr \<Rightarrow> DialogState \<Rightarrow> DialogState" where
  "removeCondition oid cid = map_operation oid (\<lambda>o'. o'\<lparr> oo_conditions := filter (\<lambda>c. oc_id c \<noteq> cid) (oo_conditions o') \<rparr>)"

definition updateReturnErrorDraft :: "jstr \<Rightarrow> (ReturnErrorDraft \<Rightarrow> ReturnErrorDraft) \<Rightarrow> DialogState \<Rightarrow> DialogState" where
  "updateReturnErrorDraft oid patch = map_operation oid (\<lambda>o'. o'\<lparr> oo_value_text :=
     buildReturnErrorValueText (patch (parseReturnErrorDraft (oo_value_text o'))) \<rparr>)"

text \<open>The prune draft is parsed anew for every update, and every parse gives its rules new identifiers;
  an update that makes rules of its own draws more.\<close>

fun prune_update :: "(nat \<Rightarrow> jstr) \<Rightarrow> jstr \<Rightarrow> (PruneObjectsDraft \<Rightarrow> nat \<Rightarrow> PruneObjectsDraft \<times> nat)
    \<Rightarrow> OverrideOperation list \<Rightarrow> nat \<Rightarrow> OverrideOperation list \<times> nat" where
  "prune_update now oid upd_draft [] n = ([], n)"
| "prune_update now oid upd_draft (o' # ops) n =
     (if oo_id o' \<noteq> oid then (let (ops', n') = prune_update now oid upd_draft ops n in (o' # ops', n'))
      else (let (draft, n1) = parsePruneObjectsDraft now (oo_value_text o') n; (next', n2) = upd_draft draft n1;
                (ops', n3) = prune_update now oid upd_draft ops n2 in
        (o'\<lparr> oo_value_text := buildPruneObjectsValueText next' \<rparr> # ops', n3)))"

definition updatePruneObjectsDraft :: "(nat \<Rightarrow> jstr) \<Rightarrow> jstr \<Rightarrow> (PruneObjectsDraft \<Rightarrow> nat \<Rightarrow> PruneObjectsDraft \<times> nat)
    \<Rightarrow> DialogState \<Rightarrow> DialogState" where
  "updatePruneObjectsDraft now oid upd_draft st = (let (ops, n) = prune_update now oid upd_draft (es_operations st) (pe_seed st) in
     st\<lparr> es_operations := ops, pe_seed := n \<rparr>)"

definition addPruneRule :: "(nat \<Rightarrow> jstr) \<Rightarrow> jstr \<Rightarrow> DialogState \<Rightarrow> DialogState" where
  "addPruneRule now oid = updatePruneObjectsDraft now oid (\<lambda>draft n. let (r, n') = normalizePruneRule now [] n in
     (draft\<lparr> pd_simpleMode := False, pd_rules := pd_rules draft @ [r] \<rparr>, n'))"

definition updatePruneRule :: "(nat \<Rightarrow> jstr) \<Rightarrow> jstr \<Rightarrow> jstr \<Rightarrow> ConditionPatch list \<Rightarrow> DialogState \<Rightarrow> DialogState" where
  "updatePruneRule now oid ruleId patch = updatePruneObjectsDraft now oid (\<lambda>draft n.
     (draft\<lparr> pd_rules := map_condition ruleId patch (pd_rules draft) \<rparr>, n))"

definition removePruneRule :: "(nat \<Rightarrow> jstr) \<Rightarrow> jstr \<Rightarrow> jstr \<Rightarrow> DialogState \<Rightarrow> DialogState" where
  "removePruneRule now oid ruleId = updatePruneObjectsDraft now oid (\<lambda>draft n.
     (draft\<lparr> pd_rules := filter (\<lambda>r. oc_id r \<noteq> ruleId) (pd_rules draft) \<rparr>, n))"

section \<open>Drag and drop\<close>

definition resetDragState :: "DialogState \<Rightarrow> DialogState" where
  "resetDragState st = st\<lparr> pe_dragged := [], pe_dragOver := [], pe_dragPosition := Before \<rparr>"

definition handleDragStart :: "jstr \<Rightarrow> DialogState \<Rightarrow> DialogState" where
  "handleDragStart oid st = st\<lparr> pe_dragged := oid, pe_selected := oid \<rparr>"

text \<open>\<open>lower_half\<close>: the pointer is in the lower half of the row.\<close>

definition handleDragOver :: "jstr \<Rightarrow> bool \<Rightarrow> DialogState \<Rightarrow> DialogState" where
  "handleDragOver oid lower_half st = (if pe_dragged st = [] \<or> pe_dragged st = oid then st
     else st\<lparr> pe_dragOver := oid, pe_dragPosition := (if lower_half then After else Before) \<rparr>)"

text \<open>\<open>transfer\<close>: the text carried by the drag event.\<close>

definition handleDrop :: "jstr \<Rightarrow> jstr \<Rightarrow> DialogState \<Rightarrow> DialogState" where
  "handleDrop oid transfer st = (let sourceId = sor (pe_dragged st) transfer;
       position = (if pe_dragOver st = oid then pe_dragPosition st else Before) in
     resetDragState (if sourceId \<noteq> [] \<and> oid \<noteq> [] \<and> sourceId \<noteq> oid
       then st\<lparr> es_operations := reorderOperations (es_operations st) sourceId oid position, pe_selected := sourceId \<rparr>
       else st))"

section \<open>Modes and templates\<close>

definition toast :: "jstr \<Rightarrow> DialogState \<Rightarrow> DialogState" where
  "toast message st = st\<lparr> pe_toasts := pe_toasts st @ [message] \<rparr>"

definition buildVisualJson :: "(string \<Rightarrow> nat \<Rightarrow> jstr) \<Rightarrow> DialogState \<Rightarrow> jstr fallible" where
  "buildVisualJson t st = (case es_visualMode st of
      Legacy_mode \<Rightarrow> (let trimmed = trim (es_legacyValue st) in
        if trimmed = [] then Inr []
        else case json_parse trimmed of
            None \<Rightarrow> Inl (Thrown (t ''Parameter override must be valid JSON format'' 0))
          | Some (VObj m) \<Rightarrow> Inr (json_pretty (VObj m))
          | Some _ \<Rightarrow> Inl (Thrown (t ''Legacy format must be a JSON object'' 0)))
    | Operations_mode \<Rightarrow> buildOperationsJson (es_operations st) True t)"

definition error_message :: "override_error \<Rightarrow> jstr" where
  "error_message e = (case e of Thrown m \<Rightarrow> m | TypeErr \<Rightarrow> js ''TypeError'')"

definition switchToJsonMode :: "(string \<Rightarrow> nat \<Rightarrow> jstr) \<Rightarrow> DialogState \<Rightarrow> DialogState fallible" where
  "switchToJsonMode t st = (if es_editMode st = Json_mode then Inr st
     else case buildVisualJson t st of
       Inr text' \<Rightarrow> Inr (st\<lparr> es_jsonText := text', es_jsonError := [], es_editMode := Json_mode \<rparr>)
     | Inl e \<Rightarrow> bind_err (if es_visualMode st = Legacy_mode then Inr (es_legacyValue st)
           else buildOperationsJson (es_operations st) False t) (\<lambda>text'.
         Inr ((toast (error_message e) st)\<lparr> es_jsonText := text',
           es_jsonError := sor (error_message e) (t ''Parameter configuration error'' 0), es_editMode := Json_mode \<rparr>)))"

definition switchToVisualMode :: "(nat \<Rightarrow> jstr) \<Rightarrow> (string \<Rightarrow> nat \<Rightarrow> jstr) \<Rightarrow> DialogState \<Rightarrow> DialogState fallible" where
  "switchToVisualMode now t st = (if es_editMode st = Visual_mode then Inr st
     else let trimmed = trim (es_jsonText st); (fallback, n1) = createDefaultOperation now (pe_seed st) in
       if trimmed = [] then Inr (st\<lparr> es_visualMode := Operations_mode, es_operations := [fallback],
           pe_selected := oo_id fallback, es_legacyValue := [], es_jsonError := [], es_editMode := Visual_mode, pe_seed := n1 \<rparr>)
       else case json_parse trimmed of
         None \<Rightarrow> Inr (toast (t ''Parameter override must be valid JSON format'' 0) st)
       | Some (VObj parsed) \<Rightarrow> (case vget parsed ''operations'' of
           VArr ops \<Rightarrow> bind_err (operations_or_default now ops (pe_seed st)) (\<lambda>(nextOps, n).
             Inr (st\<lparr> es_visualMode := Operations_mode, es_operations := nextOps, pe_selected := first_id nextOps,
               es_legacyValue := [], es_jsonError := [], es_editMode := Visual_mode,
               pe_template := js ''operations_default'', pe_seed := n \<rparr>))
         | _ \<Rightarrow> Inr (st\<lparr> es_visualMode := Legacy_mode, es_legacyValue := json_pretty (VObj parsed),
             es_operations := [fallback], pe_selected := oo_id fallback, es_jsonError := [],
             es_editMode := Visual_mode, pe_template := js ''legacy_default'', pe_seed := n1 \<rparr>))
       | Some _ \<Rightarrow> Inr (toast (t ''Parameter override must be a valid JSON object'' 0) st))"

datatype FillMode = Fill | Append

definition template_of :: "jstr \<Rightarrow> TemplatePresetConfig" where
  "template_of key = (case map_of TEMPLATE_PRESET_CONFIG key of Some p \<Rightarrow> p
     | None \<Rightarrow> the (map_of TEMPLATE_PRESET_CONFIG (js ''operations_default'')))"

definition fill_legacy :: "(nat \<Rightarrow> jstr) \<Rightarrow> jval \<Rightarrow> DialogState \<Rightarrow> DialogState" where
  "fill_legacy now v st = (let (d, n) = createDefaultOperation now (pe_seed st); text' = json_pretty v in
     st\<lparr> es_visualMode := Legacy_mode, es_legacyValue := text', es_operations := [d], es_jsonText := text',
       es_jsonError := [], es_editMode := Visual_mode, pe_seed := n \<rparr>)"

definition fillTemplate ::
  "(nat \<Rightarrow> jstr) \<Rightarrow> (string \<Rightarrow> nat \<Rightarrow> jstr) \<Rightarrow> FillMode \<Rightarrow> DialogState \<Rightarrow> DialogState fallible" where
  "fillTemplate now t mode st = (let preset = template_of (pe_template st); payload = tp_payload preset in
     case tp_kind preset of
       Legacy_kind \<Rightarrow>
         if mode = Append \<and> es_visualMode st = Legacy_mode then
           (let trimmed = trim (es_legacyValue st) in
            if trimmed \<noteq> [] \<and> \<not> verifyJSON trimmed
            then Inr (toast (t ''Current legacy JSON is invalid, cannot append'' 0) st)
            else let parsedCurrent = (if trimmed = [] then [] else spread_members (the (json_parse trimmed)));
                merged = foldl (\<lambda>m (k, v). obj_put k v m) (spread_members payload) parsedCurrent in
              Inr (fill_legacy now (VObj merged) st))
         else Inr (fill_legacy now payload st)
     | Operations_kind \<Rightarrow>
         let operationsPayload = (case vget (spread_members payload) ''operations'' of VArr ops \<Rightarrow> ops | _ \<Rightarrow> []) in
         (case mode of
            Append \<Rightarrow> bind_err (map_fresh (normalizeOperation now) operationsPayload (pe_seed st)) (\<lambda>(appended, n).
              let existing = (if es_visualMode st = Operations_mode
                    then filter (\<lambda>o'. \<not> isOperationBlank o') (es_operations st) else []);
                  nextOps = existing @ appended in
              Inr (st\<lparr> es_visualMode := Operations_mode, es_operations := (if nextOps \<noteq> [] then nextOps else appended),
                pe_selected := sor (first_id nextOps) (first_id appended), es_legacyValue := [], es_jsonError := [],
                es_editMode := Visual_mode, es_jsonText := [], pe_seed := n \<rparr>))
          | Fill \<Rightarrow> bind_err (operations_or_default now operationsPayload (pe_seed st)) (\<lambda>(finalOps, n).
              Inr (st\<lparr> es_visualMode := Operations_mode, es_operations := finalOps, pe_selected := first_id finalOps,
                es_jsonText := json_pretty (VObj [(js ''operations'', VArr operationsPayload)]), es_jsonError := [],
                es_editMode := Visual_mode, pe_seed := n \<rparr>))))"

definition resetEditorState :: "(nat \<Rightarrow> jstr) \<Rightarrow> DialogState \<Rightarrow> DialogState" where
  "resetEditorState now st = (let (fallback, n) = createDefaultOperation now (pe_seed st) in
     st\<lparr> es_visualMode := Operations_mode, es_legacyValue := [], es_operations := [fallback],
       pe_selected := oo_id fallback, es_jsonText := [], es_jsonError := [], pe_template := js ''operations_default'',
       es_editMode := Visual_mode, pe_seed := n \<rparr>)"

definition handleJsonChange :: "(string \<Rightarrow> nat \<Rightarrow> jstr) \<Rightarrow> jstr \<Rightarrow> DialogState \<Rightarrow> DialogState" where
  "handleJsonChange t nextValue st = (let trimmed = trim nextValue in
     st\<lparr> es_jsonText := nextValue,
       es_jsonError := (if trimmed = [] then [] else if verifyJSON trimmed then [] else t ''JSON format error'' 0) \<rparr>)"

definition formatJson :: "(string \<Rightarrow> nat \<Rightarrow> jstr) \<Rightarrow> DialogState \<Rightarrow> DialogState" where
  "formatJson t st = (let trimmed = trim (es_jsonText st) in
     if trimmed = [] then st
     else case json_parse trimmed of
       None \<Rightarrow> toast (t ''Parameter override must be valid JSON format'' 0) st
     | Some v \<Rightarrow> st\<lparr> es_jsonText := json_pretty v, es_jsonError := [] \<rparr>)"

definition visualValidationError :: "(string \<Rightarrow> nat \<Rightarrow> jstr) \<Rightarrow> DialogState \<Rightarrow> jstr" where
  "visualValidationError t st = (if es_editMode st \<noteq> Visual_mode then []
     else case buildVisualJson t st of Inr _ \<Rightarrow> []
       | Inl e \<Rightarrow> sor (error_message e) (t ''Parameter configuration error'' 0))"

definition save_result :: "(string \<Rightarrow> nat \<Rightarrow> jstr) \<Rightarrow> DialogState \<Rightarrow> jstr fallible" where
  "save_result t st = (if es_editMode st = Json_mode then
       (let trimmed = trim (es_jsonText st) in
        if trimmed = [] then Inr []
        else case json_parse trimmed of
          None \<Rightarrow> Inl (Thrown (t ''Parameter override must be valid JSON format'' 0))
        | Some v \<Rightarrow> Inr (json_pretty v))
     else buildVisualJson t st)"

definition handleSave :: "(string \<Rightarrow> nat \<Rightarrow> jstr) \<Rightarrow> DialogState \<Rightarrow> DialogState" where
  "handleSave t st = (case save_result t st of
      Inr r \<Rightarrow> st\<lparr> pe_saved := Some r, pe_open := False \<rparr>
    | Inl e \<Rightarrow> toast (error_message e) st)"

definition expand_conditions :: "bool \<Rightarrow> DialogState \<Rightarrow> DialogState" where
  "expand_conditions b st = (case selectedOperation st of None \<Rightarrow> st
     | Some op \<Rightarrow> st\<lparr> pe_expanded := assoc_spread (pe_expanded st) (map (\<lambda>c. (oc_id c, b)) (oo_conditions op)) \<rparr>)"

definition expandAllConditions :: "DialogState \<Rightarrow> DialogState" where
  "expandAllConditions = expand_conditions True"

definition collapseAllConditions :: "DialogState \<Rightarrow> DialogState" where
  "collapseAllConditions = expand_conditions False"

section \<open>Events\<close>

datatype event =
    Ev_open jstr | Ev_search jstr | Ev_select jstr | Ev_template jstr | Ev_legacy jstr
  | Ev_update jstr "OperationPatch list" | Ev_add | Ev_duplicate jstr | Ev_remove jstr
  | Ev_add_condition jstr | Ev_update_condition jstr jstr "ConditionPatch list" | Ev_remove_condition jstr jstr
  | Ev_return_error jstr "ReturnErrorDraft \<Rightarrow> ReturnErrorDraft" | Ev_prune jstr "PruneObjectsDraft \<Rightarrow> PruneObjectsDraft"
  | Ev_add_prune_rule jstr | Ev_update_prune_rule jstr jstr "ConditionPatch list" | Ev_remove_prune_rule jstr jstr
  | Ev_drag_start jstr | Ev_drag_over jstr bool | Ev_drop jstr jstr | Ev_drag_end
  | Ev_json_mode | Ev_visual_mode | Ev_fill FillMode | Ev_reset | Ev_json_change jstr | Ev_format | Ev_save
  | Ev_expand | Ev_collapse

fun handle :: "(nat \<Rightarrow> jstr) \<Rightarrow> (string \<Rightarrow> nat \<Rightarrow> jstr) \<Rightarrow> event \<Rightarrow> DialogState \<Rightarrow> DialogState fallible" where
  "handle now t (Ev_open v) st = openDialog now v st"
| "handle now t (Ev_search s) st = Inr (st\<lparr> pe_search := s \<rparr>)"
| "handle now t (Ev_select oid) st = Inr (st\<lparr> pe_selected := oid \<rparr>)"
| "handle now t (Ev_template k) st = Inr (st\<lparr> pe_template := sor k (js ''operations_default'') \<rparr>)"
| "handle now t (Ev_legacy s) st = Inr (st\<lparr> es_legacyValue := s \<rparr>)"
| "handle now t (Ev_update oid p) st = Inr (updateOperation oid p st)"
| "handle now t Ev_add st = Inr (addOperation now st)"
| "handle now t (Ev_duplicate oid) st = duplicateOperation now oid st"
| "handle now t (Ev_remove oid) st = Inr (removeOperation now oid st)"
| "handle now t (Ev_add_condition oid) st = Inr (addCondition now oid st)"
| "handle now t (Ev_update_condition oid cid p) st = Inr (updateCondition oid cid p st)"
| "handle now t (Ev_remove_condition oid cid) st = Inr (removeCondition oid cid st)"
| "handle now t (Ev_return_error oid f) st = Inr (updateReturnErrorDraft oid f st)"
| "handle now t (Ev_prune oid f) st = Inr (updatePruneObjectsDraft now oid (\<lambda>d n. (f d, n)) st)"
| "handle now t (Ev_add_prune_rule oid) st = Inr (addPruneRule now oid st)"
| "handle now t (Ev_update_prune_rule oid rid p) st = Inr (updatePruneRule now oid rid p st)"
| "handle now t (Ev_remove_prune_rule oid rid) st = Inr (removePruneRule now oid rid st)"
| "handle now t (Ev_drag_start oid) st = Inr (handleDragStart oid st)"
| "handle now t (Ev_drag_over oid b) st = Inr (handleDragOver oid b st)"
| "handle now t (Ev_drop oid s) st = Inr (handleDrop oid s st)"
| "handle now t Ev_drag_end st = Inr (resetDragState st)"
| "handle now t Ev_json_mode st = switchToJsonMode t st"
| "handle now t Ev_visual_mode st = switchToVisualMode now t st"
| "handle now t (Ev_fill m) st = fillTemplate now t m st"
| "handle now t Ev_reset st = Inr (resetEditorState now st)"
| "handle now t (Ev_json_change s) st = Inr (handleJsonChange t s st)"
| "handle now t Ev_format st = Inr (formatJson t st)"
| "handle now t Ev_save st = Inr (handleSave t st)"
| "handle now t Ev_expand st = Inr (expandAllConditions st)"
| "handle now t Ev_collapse st = Inr (collapseAllConditions st)"

text \<open>A step: a handler, then the effect; or a rendering. A handler that throws changes nothing.\<close>

inductive editor_step :: "(nat \<Rightarrow> jstr) \<Rightarrow> (string \<Rightarrow> nat \<Rightarrow> jstr) \<Rightarrow> DialogState \<Rightarrow> DialogState \<Rightarrow> bool"
  for now t where
  done_step: "handle now t e st = Inr st' \<Longrightarrow> editor_step now t st (keepSelection st')"
| thrown_step: "handle now t e st = Inl err \<Longrightarrow> editor_step now t st st"
| render_step: "editor_step now t st (renderDraft now st)"

definition initial_dialog :: "(nat \<Rightarrow> jstr) \<Rightarrow> nat \<Rightarrow> DialogState" where
  "initial_dialog now n = (let (d, n') = createDefaultOperation now n in
     \<lparr> es_editMode = Visual_mode, es_visualMode = Operations_mode, es_legacyValue = [], es_operations = [d],
       es_jsonText = [], es_jsonError = [], pe_search = [], pe_selected = [], pe_expanded = [], pe_dragged = [],
       pe_dragOver = [], pe_dragPosition = Before, pe_template = js ''operations_default'', pe_seed = n',
       pe_toasts = [], pe_saved = None, pe_open = False, pe_prune = None \<rparr>)"

inductive editor_reach :: "(nat \<Rightarrow> jstr) \<Rightarrow> (string \<Rightarrow> nat \<Rightarrow> jstr) \<Rightarrow> DialogState \<Rightarrow> bool"
  for now t where
  start: "editor_reach now t (keepSelection (initial_dialog now n))"
| step: "editor_reach now t st \<Longrightarrow> editor_step now t st st' \<Longrightarrow> editor_reach now t st'"

end
