(* ===== verification/OverrideInvariants.thy ===== *)
theory OverrideInvariants
  imports ParamOverrideEditor "HOL-Library.Multiset"
begin

text \<open>
  Identifiers of the override editor (\<open>param-override-editor-dialog.tsx\<close>): every row and condition a
  handler makes draws new ones from the counter, so in every reachable state the identifiers of rows and
  conditions are distinct, there is a row, and the selected row exists. Moving a row by drag and drop. The
  rules of the prune draft draw new identifiers at every parse, so editing them has no effect.
\<close>

section \<open>Identifiers\<close>

definition row_ids :: "OverrideOperation \<Rightarrow> jstr list" where
  "row_ids op = oo_id op # map oc_id (oo_conditions op)"

definition all_ids :: "OverrideOperation list \<Rightarrow> jstr list" where
  "all_ids ops = concat (map row_ids ops)"

definition drawn :: "(nat \<Rightarrow> jstr) \<Rightarrow> nat \<Rightarrow> nat \<Rightarrow> jstr list" where
  "drawn now n n' = map (nextLocalId now) [n..<n']"

text \<open>The clock reads as a number.\<close>

definition clock_digits :: "(nat \<Rightarrow> jstr) \<Rightarrow> bool" where
  "clock_digits now = (\<forall>n. list_all is_digit (now n))"

lemma digits_before_mark:
  assumes "list_all is_digit a" "list_all is_digit b" "\<not> is_digit c" "a @ c # x = b @ c # y"
  shows "a = b \<and> x = y"
proof -
  have "takeWhile is_digit (a @ c # x) = a" "takeWhile is_digit (b @ c # y) = b"
    using assms(1-3) by (auto simp: list_all_iff takeWhile_append2)
  with assms(4) show ?thesis by simp
qed

lemma nextLocalId_inj: "clock_digits now \<Longrightarrow> nextLocalId now a = nextLocalId now b \<longleftrightarrow> a = b"
proof
  assume now: "clock_digits now" and eq: "nextLocalId now a = nextLocalId now b"
  have "now a @ 95 # dec_digits (int a) = now b @ 95 # dec_digits (int b)"
    using eq by (simp add: nextLocalId_def) (simp add: js_def)
  then have "dec_digits (int a) = dec_digits (int b)"
    using digits_before_mark [of "now a" "now b" 95] now by (simp add: clock_digits_def is_digit_def)
  then have "digits_val (dec_digits (int a)) = digits_val (dec_digits (int b))" by simp
  then show "a = b" by simp
qed simp

lemma drawn_append: "n \<le> k \<Longrightarrow> k \<le> n' \<Longrightarrow> drawn now n k @ drawn now k n' = drawn now n n'"
  using upt_add_eq_append [of n k "n' - k"] by (simp add: drawn_def map_append [symmetric] del: map_append)

lemma drawn_Cons: "n < n' \<Longrightarrow> drawn now n n' = nextLocalId now n # drawn now (Suc n) n'"
  by (simp add: drawn_def upt_conv_Cons)

lemma set_drawn: "set (drawn now n n') = nextLocalId now ` {n..<n'}"
  by (simp add: drawn_def)

lemma distinct_drawn: "clock_digits now \<Longrightarrow> distinct (drawn now n n')"
  by (simp add: drawn_def distinct_map inj_on_def nextLocalId_inj)

lemma drawn_mono: "a \<le> a' \<Longrightarrow> n' \<le> n \<Longrightarrow> set (drawn now a' n') \<subseteq> set (drawn now a n)"
  by (auto simp: set_drawn)

lemma drawn_disjoint: "clock_digits now \<Longrightarrow> n \<le> k \<Longrightarrow> set (drawn now m n) \<inter> set (drawn now k l) = {}"
  by (auto simp: set_drawn nextLocalId_inj)

section \<open>What makes rows\<close>

lemma bind_err_Inr: "bind_err x f = Inr y \<longleftrightarrow> (\<exists>a. x = Inr a \<and> f a = Inr y)"
  by (cases x) auto

lemma normalizeCondition_id: "normalizeCondition_override now v n = Inr (c, n') \<Longrightarrow> oc_id c = nextLocalId now n \<and> n' = Suc n"
  by (auto simp: normalizeCondition_override_def bind_err_Inr condition_of_def)

lemma conditions_drawn:
  "map_fresh (normalizeCondition_override now) vs n = Inr (cs, n') \<Longrightarrow> n \<le> n' \<and> map oc_id cs = drawn now n n'"
proof (induction vs arbitrary: n cs)
  case Nil
  then show ?case by (simp add: drawn_def)
next
  case (Cons v vs)
  then obtain c n1 ds where c: "normalizeCondition_override now v n = Inr (c, n1)"
    "map_fresh (normalizeCondition_override now) vs n1 = Inr (ds, n')" "cs = c # ds"
    by (auto simp: bind_err_Inr)
  from Cons.IH [OF c(2)] normalizeCondition_id [OF c(1)] c(3) show ?case by (simp add: drawn_Cons)
qed

lemma operation_drawn:
  assumes "normalizeOperation now v n = Inr (op, n')"
  shows "n < n' \<and> row_ids op = drawn now n n'"
proof -
  obtain m conds where m: "members_of v = Inr m"
    "(case vget m ''conditions'' of VArr cs \<Rightarrow> map_fresh (normalizeCondition_override now) cs (Suc n) | _ \<Rightarrow> Inr ([], Suc n)) = Inr (conds, n')"
    "oo_id op = nextLocalId now n" "oo_conditions op = conds"
    using assms by (auto simp: normalizeOperation_def bind_err_Inr)
  then have "Suc n \<le> n' \<and> map oc_id conds = drawn now (Suc n) n'"
    using conditions_drawn by (auto simp: drawn_def split: jval.splits)
  with m show ?thesis by (auto simp: row_ids_def drawn_Cons)
qed

lemma operations_drawn:
  "map_fresh (normalizeOperation now) vs n = Inr (ops, n') \<Longrightarrow>
     n \<le> n' \<and> all_ids ops = drawn now n n' \<and> length ops = length vs"
proof (induction vs arbitrary: n ops)
  case Nil
  then show ?case by (simp add: drawn_def all_ids_def)
next
  case (Cons v vs)
  then obtain op n1 rest where op: "normalizeOperation now v n = Inr (op, n1)"
    "map_fresh (normalizeOperation now) vs n1 = Inr (rest, n')" "ops = op # rest"
    by (auto simp: bind_err_Inr)
  from Cons.IH [OF op(2)] operation_drawn [OF op(1)] op(3) show ?case
    using drawn_append [of n n1 n' now] by (simp add: all_ids_def)
qed

lemma default_drawn: "row_ids (fst (createDefaultOperation now n)) = drawn now n (Suc n)"
  by (simp add: createDefaultOperation_def row_ids_def drawn_def)

lemma operations_or_default_drawn:
  "operations_or_default now vs n = Inr (ops, n') \<Longrightarrow> n \<le> n' \<and> all_ids ops = drawn now n n' \<and> ops \<noteq> []"
  using operations_drawn [of now vs n ops n'] default_drawn [of now n]
  by (auto simp: operations_or_default_def all_ids_def createDefaultOperation_def split: if_splits)

section \<open>Rows with distinct identifiers\<close>

definition rows_ok :: "(nat \<Rightarrow> jstr) \<Rightarrow> nat \<Rightarrow> OverrideOperation list \<Rightarrow> bool" where
  "rows_ok now n ops = (distinct (all_ids ops) \<and> set (all_ids ops) \<subseteq> set (drawn now 0 n))"

lemma rows_ok_drawn: "clock_digits now \<Longrightarrow> all_ids ops = drawn now n n' \<Longrightarrow> rows_ok now n' ops"
  using drawn_mono [of 0 n n' n'] by (simp add: rows_ok_def distinct_drawn)

lemma rows_ok_mono: "rows_ok now n ops \<Longrightarrow> n \<le> n' \<Longrightarrow> rows_ok now n' ops"
  using drawn_mono [of 0 0 n n' now] by (auto simp: rows_ok_def)

lemma all_ids_append [simp]: "all_ids (xs @ ys) = all_ids xs @ all_ids ys"
  by (simp add: all_ids_def)

lemma all_ids_Cons: "all_ids (x # xs) = row_ids x @ all_ids xs"
  by (simp add: all_ids_def)

lemma all_ids_Nil [simp]: "all_ids [] = []"
  by (simp add: all_ids_def)

lemma rows_ok_append:
  assumes "clock_digits now" "rows_ok now n xs" "all_ids ys = drawn now n n'" "n \<le> n'"
  shows "rows_ok now n' (xs @ ys)"
  using assms drawn_disjoint [of now n n 0 n'] drawn_mono [of 0 0 n n' now] drawn_mono [of 0 n n' n' now]
  by (auto simp: rows_ok_def distinct_drawn)

lemma mset_all_ids: "mset xs = mset ys \<Longrightarrow> mset (all_ids xs) = mset (all_ids ys)"
proof -
  assume *: "mset xs = mset ys"
  have "mset (all_ids zs) = (\<Sum>x\<in>#mset zs. mset (row_ids x))" for zs
    by (simp add: all_ids_def mset_concat comp_def sum_mset_sum_list [symmetric])
  with * show ?thesis by simp
qed

lemma rows_ok_perm: "mset xs = mset ys \<Longrightarrow> rows_ok now n xs \<longleftrightarrow> rows_ok now n ys"
  using mset_all_ids [of xs ys] mset_eq_imp_distinct_iff [of "all_ids xs" "all_ids ys"]
    mset_eq_setD [of "all_ids xs" "all_ids ys"]
  by (simp add: rows_ok_def)

lemma rows_ok_map_ids: "all_ids xs = all_ids ys \<Longrightarrow> rows_ok now n xs \<longleftrightarrow> rows_ok now n ys"
  by (simp add: rows_ok_def)

lemma all_ids_map: "(\<And>x. row_ids (f x) = row_ids x) \<Longrightarrow> all_ids (map f xs) = all_ids xs"
  by (simp add: all_ids_def comp_def)

lemma rows_ok_filter:
  assumes "rows_ok now n xs"
  shows "rows_ok now n (filter p xs)"
  using assms by (induction xs) (auto simp: rows_ok_def all_ids_def)

lemma distinct_rows: "rows_ok now n ops \<Longrightarrow> distinct (map oo_id ops)"
  by (induction ops) (fastforce simp: rows_ok_def all_ids_def row_ids_def)+

section \<open>Handlers keep the rows\<close>

definition rows_inv :: "(nat \<Rightarrow> jstr) \<Rightarrow> DialogState \<Rightarrow> bool" where
  "rows_inv now st = (rows_ok now (pe_seed st) (es_operations st) \<and> es_operations st \<noteq> [])"

lemma rows_invI:
  assumes "clock_digits now" "all_ids (es_operations st) = drawn now n (pe_seed st)" "es_operations st \<noteq> []"
  shows "rows_inv now st"
  using assms rows_ok_drawn [OF assms(1,2)] by (simp add: rows_inv_def)

lemma rows_inv_same:
  assumes "rows_inv now st" "all_ids (es_operations st') = all_ids (es_operations st)"
    "es_operations st' \<noteq> []" "pe_seed st \<le> pe_seed st'"
  shows "rows_inv now st'"
  using assms rows_ok_mono [of now "pe_seed st" "es_operations st" "pe_seed st'"] by (simp add: rows_inv_def rows_ok_def)

lemma default_rows:
  "clock_digits now \<Longrightarrow> rows_ok now (Suc n) [fst (createDefaultOperation now n)]"
  by (rule rows_ok_drawn [where n = n]) (simp_all add: all_ids_def default_drawn)

lemma map_operation_rows:
  assumes "rows_inv now st" "\<And>op. row_ids (f op) = row_ids op"
  shows "rows_inv now (map_operation oid f st)"
  using assms(1)
  by (rule rows_inv_same) (use assms in \<open>auto simp: map_operation_def rows_inv_def intro!: all_ids_map\<close>)

lemma apply_patch_ids [simp]: "row_ids (fold apply_patch ps op) = row_ids op"
proof (induction ps arbitrary: op)
  case (Cons p ps)
  have "row_ids (apply_patch p op) = row_ids op" by (cases p) (simp_all add: row_ids_def)
  with Cons show ?case by simp
qed simp

lemma apply_cpatch_id [simp]: "oc_id (fold apply_cpatch ps c) = oc_id c"
proof (induction ps arbitrary: c)
  case (Cons p ps)
  then show ?case by (cases p) simp_all
qed simp

lemma map_condition_ids [simp]: "map oc_id (map_condition cid ps cs) = map oc_id cs"
  by (simp add: map_condition_def)

lemma rows_ok_shrink:
  assumes "rows_ok now n ops" "\<And>op. distinct (row_ids op) \<Longrightarrow> distinct (row_ids (f op))" "\<And>op. set (row_ids (f op)) \<subseteq> set (row_ids op)"
  shows "rows_ok now n (map f ops)"
proof -
  have sub: "set (all_ids (map f ops)) \<subseteq> set (all_ids ops)" for ops
  proof (induction ops)
    case (Cons op ops)
    with assms(3) [of op] show ?case by (auto simp: all_ids_Cons)
  qed simp
  have "distinct (all_ids (map f ops))" if "distinct (all_ids ops)" for ops
    using that
  proof (induction ops)
    case (Cons op ops)
    then have "distinct (row_ids (f op))" "distinct (all_ids (map f ops))" "set (row_ids op) \<inter> set (all_ids ops) = {}"
      using assms(2) by (auto simp: all_ids_Cons)
    moreover have "set (row_ids (f op)) \<inter> set (all_ids (map f ops)) \<subseteq> set (row_ids op) \<inter> set (all_ids ops)"
      using assms(3) [of op] sub [of ops] by blast
    ultimately show ?case by (simp add: all_ids_Cons)
  qed simp
  with sub assms(1) show ?thesis by (auto simp: rows_ok_def)
qed

lemma rows_ok_add_condition:
  assumes "clock_digits now" "rows_ok now n ops" "oc_id c = nextLocalId now n"
  shows "rows_ok now (Suc n) (map (\<lambda>o'. if oo_id o' = oid then o'\<lparr> oo_conditions := oo_conditions o' @ [c] \<rparr> else o') ops)"
proof (cases "oid \<in> oo_id ` set ops")
  case False
  then have "map (\<lambda>o'. if oo_id o' = oid then o'\<lparr> oo_conditions := oo_conditions o' @ [c] \<rparr> else o') ops = ops"
    by (auto intro!: map_idI)
  with assms(2) show ?thesis by (auto intro: rows_ok_mono)
next
  case True
  then obtain xs op ys where ops: "ops = xs @ op # ys" "oo_id op = oid" by (auto dest: split_list)
  with distinct_rows [OF assms(2)] have "oid \<notin> oo_id ` set xs" "oid \<notin> oo_id ` set ys" by auto
  then have same: "map (\<lambda>o'. if oo_id o' = oid then o'\<lparr> oo_conditions := oo_conditions o' @ [c] \<rparr> else o') xs = xs"
    "map (\<lambda>o'. if oo_id o' = oid then o'\<lparr> oo_conditions := oo_conditions o' @ [c] \<rparr> else o') ys = ys"
    by (auto intro!: map_idI)
  have new: "nextLocalId now n \<notin> set (drawn now 0 n)" using assms(1) by (auto simp: set_drawn nextLocalId_inj)
  have "mset (all_ids (xs @ op\<lparr> oo_conditions := oo_conditions op @ [c] \<rparr> # ys))
      = mset (all_ids ops @ [nextLocalId now n])"
    by (simp add: ops all_ids_Cons row_ids_def assms(3))
  then have "distinct (all_ids (xs @ op\<lparr> oo_conditions := oo_conditions op @ [c] \<rparr> # ys)) = distinct (all_ids ops @ [nextLocalId now n])"
    "set (all_ids (xs @ op\<lparr> oo_conditions := oo_conditions op @ [c] \<rparr> # ys)) = set (all_ids ops @ [nextLocalId now n])"
    by (rule mset_eq_imp_distinct_iff, rule mset_eq_setD)
  moreover have "nextLocalId now n \<in> set (drawn now 0 (Suc n))" by (simp add: set_drawn)
  ultimately show ?thesis
    using assms(2) new drawn_mono [of 0 0 n "Suc n" now] ops(2)
    by (auto simp: ops(1) same rows_ok_def simp del: all_ids_append)
qed

lemma mset_splice: "mset (splice_in i x xs) = mset (xs @ [x])"
proof -
  have "mset xs = mset (take i xs) + mset (drop i xs)" by (metis append_take_drop_id mset_append)
  then show ?thesis by (simp add: splice_in_def)
qed

lemma mset_reorder: "mset (reorderOperations ops a b pos) = mset ops"
proof -
  have "mset (splice_in k (ops ! i) (take i ops @ drop (Suc i) ops)) = mset ops" if "i < length ops" for i k
  proof -
    have "mset (splice_in k (ops ! i) (take i ops @ drop (Suc i) ops)) = mset (take i ops @ ops ! i # drop (Suc i) ops)"
      by (simp add: mset_splice)
    with that show ?thesis by (simp flip: id_take_nth_drop)
  qed
  then show ?thesis
    by (auto simp: reorderOperations_def Let_def dest: find_index_Some split: option.split)
qed

lemma reorder_rows: "rows_ok now n (reorderOperations ops a b pos) \<longleftrightarrow> rows_ok now n ops"
  by (rule rows_ok_perm) (rule mset_reorder)

lemma reorder_Nil: "reorderOperations ops a b pos = [] \<longleftrightarrow> ops = []"
  by (metis mset_reorder mset_zero_iff)

lemma prune_rules_seed: "prune_rules now ms n = (rs, n') \<Longrightarrow> n \<le> n' \<and> map oc_id rs = drawn now n n'"
proof (induction ms arbitrary: n rs)
  case Nil
  then show ?case by (simp add: drawn_def)
next
  case (Cons m ms)
  then obtain rs1 where "prune_rules now ms (Suc n) = (rs1, n')" "rs = fst (normalizePruneRule now m n) # rs1"
    by (auto simp: normalizePruneRule_def split: prod.splits)
  with Cons.IH show ?case by (fastforce simp: drawn_Cons normalizePruneRule_def)
qed

text \<open>A prune draft: members read from the text, and rules made of items of it.\<close>

lemma prune_form_intro:
  assumes "\<And>n. f n = (\<lparr> pd_simpleMode = a, pd_typeText = b, pd_logic = c, pd_recursive = d,
      pd_rules = fst (prune_rules now ms n) \<rparr>, snd (prune_rules now ms n))"
  shows "\<exists>base ms. \<forall>n. f n = (base\<lparr> pd_rules := fst (prune_rules now ms n) \<rparr>, snd (prune_rules now ms n))"
  by (rule exI [of _ "\<lparr> pd_simpleMode = a, pd_typeText = b, pd_logic = c, pd_recursive = d, pd_rules = [] \<rparr>"],
      rule exI [of _ ms]) (simp add: assms)

lemma prune_draft_form:
  "\<exists>base ms. \<forall>n. parsePruneObjectsDraft now s n
    = (base\<lparr> pd_rules := fst (prune_rules now ms n) \<rparr>, snd (prune_rules now ms n))"
proof -
  consider u where "\<And>n. parsePruneObjectsDraft now s n = (prune_defaults\<lparr> pd_typeText := u \<rparr>, n)"
    | m where "trim s \<noteq> []" "json_parse (trim s) = Some (VObj m)"
  proof (cases "trim s = []")
    case True
    then show ?thesis by (intro that(1) [of "[]"]) (simp add: parsePruneObjectsDraft_def prune_defaults_def)
  next
    case ne: False
    show ?thesis
    proof (cases "json_parse (trim s)")
      case None
      with ne show ?thesis by (intro that(1)) (simp add: parsePruneObjectsDraft_def)
    next
      case (Some v)
      have "(\<exists>m. v = VObj m) \<or> (\<exists>u. \<forall>n. parsePruneObjectsDraft now s n = (prune_defaults\<lparr> pd_typeText := u \<rparr>, n))"
        using ne Some by (cases v) (auto simp: parsePruneObjectsDraft_def)
      with that ne Some show ?thesis by blast
    qed
  qed
  then show ?thesis
  proof cases
    case (1 u)
    show ?thesis
      by (intro exI [of _ "prune_defaults\<lparr> pd_typeText := u \<rparr>"] exI [of _ "[]"]) (simp add: 1 prune_defaults_def)
  next
    case (2 m)
    show ?thesis
      by (rule prune_form_intro) (use 2 in \<open>simp only: parsePruneObjectsDraft_def Let_def case_prod_beta option.case jval.case if_False; rule refl\<close>)
  qed
qed

lemma prune_draft_seed:
  assumes "parsePruneObjectsDraft now s n = (d, n')"
  shows "n \<le> n' \<and> map oc_id (pd_rules d) = drawn now n n'"
proof -
  obtain base ms where "(d, n') = (base\<lparr> pd_rules := fst (prune_rules now ms n) \<rparr>, snd (prune_rules now ms n))"
    using prune_draft_form [of now s] assms by metis
  with prune_rules_seed [of now ms n "pd_rules d" n'] show ?thesis by simp
qed

lemma prune_update_seed:
  assumes "prune_update now oid f ops n = (ops', n')" "\<And>d k. k \<le> snd (f d k)"
  shows "n \<le> n' \<and> all_ids ops' = all_ids ops \<and> length ops' = length ops"
  using assms(1)
proof (induction ops arbitrary: n ops')
  case (Cons op ops)
  show ?case
  proof (cases "oo_id op = oid")
    case False
    then obtain ops1 where "prune_update now oid f ops n = (ops1, n')" "ops' = op # ops1"
      using Cons.prems by (auto split: prod.splits)
    with Cons.IH show ?thesis by (auto simp: all_ids_Cons)
  next
    case True
    obtain d n1 where d: "parsePruneObjectsDraft now (oo_value_text op) n = (d, n1)" by force
    obtain d2 n2 where d2: "f d n1 = (d2, n2)" by force
    obtain ops1 n3 where rest: "prune_update now oid f ops n2 = (ops1, n3)" by force
    from True Cons.prems d d2 rest
    have "ops' = op\<lparr> oo_value_text := buildPruneObjectsValueText d2 \<rparr> # ops1" "n3 = n'" by simp_all
    moreover have "n \<le> n1" "n1 \<le> n2" using prune_draft_seed [OF d] assms(2) [of n1 d] d2 by simp_all
    ultimately show ?thesis using Cons.IH [of n2 ops1] rest by (simp add: all_ids_Cons row_ids_def)
  qed
qed simp

lemma updatePrune_rows:
  assumes "rows_inv now st" "\<And>d k. k \<le> snd (f d k)"
  shows "rows_inv now (updatePruneObjectsDraft now oid f st)"
proof -
  obtain ops n where u: "prune_update now oid f (es_operations st) (pe_seed st) = (ops, n)" by force
  show ?thesis
    by (rule rows_inv_same [OF assms(1)])
      (use prune_update_seed [OF u assms(2)] assms(1) u in \<open>auto simp: updatePruneObjectsDraft_def rows_inv_def\<close>)
qed

lemma parse_rows:
  assumes "parseInitialState now v n = Inr (e, n')" "clock_digits now"
  shows "rows_ok now n' (es_operations e) \<and> es_operations e \<noteq> []"
proof -
  have "es_operations e = [fst (createDefaultOperation now n)] \<and> n' = Suc n
      \<or> (\<exists>vs. operations_or_default now vs n = Inr (es_operations e, n'))"
    using assms(1)
    by (auto simp: parseInitialState_def Let_def bind_err_Inr createDefaultOperation_def
        split: if_splits option.splits jval.splits)
  then show ?thesis
  proof
    assume "\<exists>vs. operations_or_default now vs n = Inr (es_operations e, n')"
    then obtain vs where "operations_or_default now vs n = Inr (es_operations e, n')" ..
    from operations_or_default_drawn [OF this] show ?thesis by (auto intro: rows_ok_drawn [OF assms(2)])
  qed (use default_rows [OF assms(2)] in auto)
qed

lemma open_rows:
  assumes "openDialog now v st = Inr st'" "clock_digits now"
  shows "rows_inv now st'"
  using assms parse_rows
  by (auto simp: openDialog_def bind_err_Inr rows_inv_def with_editor_def)

lemma add_rows: "clock_digits now \<Longrightarrow> rows_inv now st \<Longrightarrow> rows_inv now (addOperation now st)"
  using rows_ok_append [of now "pe_seed st" "es_operations st" "[fst (createDefaultOperation now (pe_seed st))]" "Suc (pe_seed st)"]
    default_drawn [of now "pe_seed st"]
  by (simp add: addOperation_def rows_inv_def all_ids_Cons createDefaultOperation_def)

lemma duplicate_rows:
  assumes "duplicateOperation now oid st = Inr st'" "clock_digits now" "rows_inv now st"
  shows "rows_inv now st'"
proof (cases "find_index (\<lambda>o'. oo_id o' = oid) (es_operations st)")
  case None
  with assms show ?thesis by (simp add: duplicateOperation_def)
next
  case (Some i)
  with assms(1) obtain cloned n where c: "normalizeOperation now (clone_source (es_operations st ! i)) (pe_seed st) = Inr (cloned, n)"
    "es_operations st' = splice_in (i + 1) cloned (es_operations st)" "pe_seed st' = n"
    by (auto simp: duplicateOperation_def bind_err_Inr)
  have "rows_ok now n (es_operations st @ [cloned])"
    using operation_drawn [OF c(1)] assms(2,3)
    by (intro rows_ok_append [where n = "pe_seed st"]) (simp_all add: rows_inv_def all_ids_Cons)
  then have "rows_ok now n (splice_in (i + 1) cloned (es_operations st))"
    using rows_ok_perm [OF mset_splice] by blast
  with c show ?thesis by (simp add: rows_inv_def splice_in_def)
qed

lemma remove_rows:
  assumes "clock_digits now" "rows_inv now st"
  shows "rows_inv now (removeOperation now oid st)"
proof (cases "length (es_operations st) \<le> 1")
  case True
  then show ?thesis using default_rows [OF assms(1), of "pe_seed st"]
    by (simp add: removeOperation_def rows_inv_def createDefaultOperation_def)
next
  case False
  then obtain a b r where ops: "es_operations st = a # b # r" by (cases "es_operations st" rule: list.exhaust [case_product list.exhaust]) (auto simp: neq_Nil_conv Suc_le_eq)
  have "oo_id a \<noteq> oo_id b" using distinct_rows [of now "pe_seed st" "es_operations st"] assms(2) ops by (simp add: rows_inv_def)
  then have "filter (\<lambda>o'. oo_id o' \<noteq> oid) (es_operations st) \<noteq> []" by (auto simp: ops)
  with False assms(2) show ?thesis by (auto simp: removeOperation_def rows_inv_def intro: rows_ok_filter)
qed

lemma add_condition_rows:
  assumes "clock_digits now" "rows_inv now st"
  shows "rows_inv now (addCondition now oid st)"
proof -
  obtain c where c: "createDefaultCondition now (pe_seed st) = (c, Suc (pe_seed st))" "oc_id c = nextLocalId now (pe_seed st)"
    by (simp add: createDefaultCondition_def condition_of_def)
  show ?thesis
    using rows_ok_add_condition [OF assms(1) _ c(2), of "es_operations st" oid] assms(2)
    by (simp add: addCondition_def c(1) rows_inv_def map_operation_def)
qed

lemma remove_condition_ids:
  fixes cid defines "f \<equiv> \<lambda>o'. o'\<lparr> oo_conditions := filter (\<lambda>c. oc_id c \<noteq> cid) (oo_conditions o') \<rparr>"
  shows "distinct (row_ids op) \<Longrightarrow> distinct (row_ids (f op))" "set (row_ids (f op)) \<subseteq> set (row_ids op)"
  by (auto simp: f_def row_ids_def distinct_map_filter)

lemma remove_condition_rows: "rows_inv now st \<Longrightarrow> rows_inv now (removeCondition oid cid st)"
  unfolding removeCondition_def rows_inv_def map_operation_def
  using remove_condition_ids(1) [where cid = cid] subsetD [OF remove_condition_ids(2) [where cid = cid]]
  by (auto intro!: rows_ok_shrink split: if_splits)

lemma visual_rows:
  assumes "switchToVisualMode now t st = Inr st'" "clock_digits now" "rows_inv now st"
  shows "rows_inv now st'"
proof -
  have "es_operations st' = es_operations st \<and> pe_seed st' = pe_seed st
      \<or> es_operations st' = [fst (createDefaultOperation now (pe_seed st))] \<and> pe_seed st' = Suc (pe_seed st)
      \<or> (\<exists>vs. operations_or_default now vs (pe_seed st) = Inr (es_operations st', pe_seed st'))"
    using assms(1)
    by (auto simp: switchToVisualMode_def Let_def bind_err_Inr createDefaultOperation_def toast_def
        split: if_splits option.splits jval.splits)
  then show ?thesis
    using assms(3) default_rows [OF assms(2)] operations_or_default_drawn [of now _ "pe_seed st"]
    by (auto simp: rows_inv_def intro: rows_ok_drawn [OF assms(2)])
qed

lemma json_rows: "switchToJsonMode t st = Inr st' \<Longrightarrow> es_operations st' = es_operations st \<and> pe_seed st' = pe_seed st"
  by (auto simp: switchToJsonMode_def bind_err_Inr toast_def split: if_splits sum.splits)

text \<open>Every template of operations has some.\<close>

lemma template_operations:
  assumes "tp_kind (template_of key) = Operations_kind"
  shows "\<exists>op ops. vget (spread_members (tp_payload (template_of key))) ''operations'' = VArr (op # ops)"
proof -
  have one: "\<exists>op ops. vget (spread_members (obj_lit [(''operations'', VArr (o' # r))])) ''operations'' = VArr (op # ops)" for o' r
    by (simp add: obj_lit_def spread_members_def vget_def)
  have all: "list_all (\<lambda>(k, p). tp_kind p = Operations_kind
      \<longrightarrow> (\<exists>op ops. vget (spread_members (tp_payload p)) ''operations'' = VArr (op # ops))) TEMPLATE_PRESET_CONFIG"
    unfolding TEMPLATE_PRESET_CONFIG_def preset_def OPERATION_TEMPLATE_def HEADER_PASSTHROUGH_TEMPLATE_def
      GEMINI_IMAGE_4K_TEMPLATE_def CLAUDE_CLI_HEADER_PASSTHROUGH_TEMPLATE_def CODEX_CLI_HEADER_PASSTHROUGH_TEMPLATE_def
      AWS_BEDROCK_ANTHROPIC_COMPAT_TEMPLATE_def buildPassHeadersTemplate_def
    by (simp only: list.pred_inject prod.case TemplatePresetConfig.simps one TemplateKind.simps simp_thms)
  have "(k, template_of key) \<in> set TEMPLATE_PRESET_CONFIG \<Longrightarrow> ?thesis" for k
    using all assms by (auto simp: list_all_iff)
  moreover have "\<exists>k. (k, template_of key) \<in> set TEMPLATE_PRESET_CONFIG"
  proof (cases "map_of TEMPLATE_PRESET_CONFIG key")
    case None
    have "map_of TEMPLATE_PRESET_CONFIG (js ''operations_default'') \<noteq> None"
      by (simp add: TEMPLATE_PRESET_CONFIG_def)
    with None show ?thesis by (auto simp: template_of_def intro!: exI map_of_SomeD)
  next
    case (Some p)
    then show ?thesis by (auto simp: template_of_def dest: map_of_SomeD)
  qed
  ultimately show ?thesis by blast
qed

lemma fill_rows:
  assumes "fillTemplate now t mode st = Inr st'" "clock_digits now" "rows_inv now st"
  shows "rows_inv now st'"
proof (cases "tp_kind (template_of (pe_template st))")
  case Legacy_kind
  then have "es_operations st' = es_operations st \<and> pe_seed st' = pe_seed st
      \<or> es_operations st' = [fst (createDefaultOperation now (pe_seed st))] \<and> pe_seed st' = Suc (pe_seed st)"
    using assms(1)
    by (auto simp: fillTemplate_def Let_def fill_legacy_def createDefaultOperation_def toast_def split: if_splits)
  then show ?thesis using assms(3) default_rows [OF assms(2)] by (auto simp: rows_inv_def)
next
  case Operations_kind
  then obtain op ops where ops: "vget (spread_members (tp_payload (template_of (pe_template st)))) ''operations'' = VArr (op # ops)"
    using template_operations by blast
  show ?thesis
  proof (cases mode)
    case Fill
    then have "operations_or_default now (op # ops) (pe_seed st) = Inr (es_operations st', pe_seed st')"
      using assms(1) Operations_kind ops by (auto simp: fillTemplate_def Let_def bind_err_Inr)
    from operations_or_default_drawn [OF this] show ?thesis by (auto simp: rows_inv_def intro: rows_ok_drawn [OF assms(2)])
  next
    case Append
    with assms(1) Operations_kind ops obtain new where new:
      "map_fresh (normalizeOperation now) (op # ops) (pe_seed st) = Inr (new, pe_seed st')"
      "es_operations st' = (let old = (if es_visualMode st = Operations_mode
          then filter (\<lambda>o'. \<not> isOperationBlank o') (es_operations st) else []) in if old @ new \<noteq> [] then old @ new else new)"
      by (auto simp: fillTemplate_def Let_def bind_err_Inr simp del: map_fresh.simps)
    have drawn: "pe_seed st \<le> pe_seed st'" "all_ids new = drawn now (pe_seed st) (pe_seed st')" "new \<noteq> []"
      using operations_drawn [OF new(1)] by auto
    have "rows_ok now (pe_seed st) (filter (\<lambda>o'. \<not> isOperationBlank o') (es_operations st))"
      using assms(3) by (auto simp: rows_inv_def intro: rows_ok_filter)
    then have "rows_ok now (pe_seed st') (filter (\<lambda>o'. \<not> isOperationBlank o') (es_operations st) @ new)"
      by (rule rows_ok_append [OF assms(2) _ drawn(2,1)])
    with new(2) drawn show ?thesis by (auto simp: rows_inv_def Let_def intro: rows_ok_drawn [OF assms(2)])
  qed
qed

lemma handle_rows:
  assumes "handle now t e st = Inr st'" "clock_digits now" "rows_inv now st"
  shows "rows_inv now st'"
proof -
  have same: "es_operations st' = es_operations st \<Longrightarrow> pe_seed st' = pe_seed st \<Longrightarrow> ?thesis"
    using assms(3) by (simp add: rows_inv_def)
  show ?thesis
  proof (cases e)
    case (Ev_update oid ps)
    with assms show ?thesis by (auto simp: updateOperation_def intro: map_operation_rows)
  next
    case (Ev_update_condition oid cid ps)
    with assms show ?thesis by (auto simp: updateCondition_def row_ids_def intro!: map_operation_rows)
  next
    case (Ev_return_error oid f)
    with assms show ?thesis by (auto simp: updateReturnErrorDraft_def row_ids_def intro!: map_operation_rows)
  next
    case (Ev_add_prune_rule oid)
    with assms show ?thesis by (auto simp: addPruneRule_def normalizePruneRule_def intro!: updatePrune_rows)
  next
    case (Ev_drop oid s)
    with assms show ?thesis
      by (auto simp: handleDrop_def resetDragState_def rows_inv_def Let_def reorder_rows reorder_Nil split: if_splits)
  next
    case Ev_reset
    with assms default_rows [OF assms(2), of "pe_seed st"] show ?thesis
      by (auto simp: resetEditorState_def rows_inv_def createDefaultOperation_def)
  next
    case Ev_json_mode
    with assms json_rows show ?thesis by (intro same) auto
  next
    case (Ev_save)
    with assms show ?thesis by (intro same) (auto simp: handleSave_def toast_def split: sum.splits)
  next
    case (Ev_format)
    with assms show ?thesis by (intro same) (auto simp: formatJson_def toast_def Let_def split: option.splits)
  next
    case (Ev_open v)
    with assms show ?thesis by (simp add: open_rows)
  next
    case Ev_add
    with assms show ?thesis by (auto intro: add_rows)
  next
    case (Ev_duplicate oid)
    with assms show ?thesis by (simp add: duplicate_rows)
  next
    case (Ev_remove oid)
    with assms show ?thesis by (auto intro: remove_rows)
  next
    case (Ev_add_condition oid)
    with assms show ?thesis by (auto intro: add_condition_rows)
  next
    case (Ev_remove_condition oid cid)
    with assms show ?thesis by (auto intro: remove_condition_rows)
  next
    case (Ev_prune oid f)
    with assms show ?thesis by (auto intro: updatePrune_rows)
  next
    case (Ev_update_prune_rule oid rid p)
    with assms show ?thesis by (auto simp: updatePruneRule_def intro: updatePrune_rows)
  next
    case (Ev_remove_prune_rule oid rid)
    with assms show ?thesis by (auto simp: removePruneRule_def intro: updatePrune_rows)
  next
    case Ev_visual_mode
    with assms show ?thesis by (simp add: visual_rows)
  next
    case (Ev_fill m)
    with assms show ?thesis by (simp add: fill_rows)
  qed (insert assms(1), (rule same; auto simp: handleDragStart_def handleDragOver_def
        resetDragState_def handleJsonChange_def expandAllConditions_def collapseAllConditions_def expand_conditions_def
        Let_def split: option.splits if_splits)+)
qed

section \<open>Reachable states\<close>

inductive_cases editor_stepE: "editor_step now t st st'"

definition editor_ok :: "(nat \<Rightarrow> jstr) \<Rightarrow> DialogState \<Rightarrow> bool" where
  "editor_ok now st = (es_operations st \<noteq> [] \<and> distinct (all_ids (es_operations st))
     \<and> set (all_ids (es_operations st)) \<subseteq> nextLocalId now ` {..<pe_seed st}
     \<and> pe_selected st \<in> oo_id ` set (es_operations st))"

lemma editor_ok_keepSelection:
  assumes "rows_inv now st"
  shows "editor_ok now (keepSelection st)"
proof -
  have "first_id (es_operations st) \<in> oo_id ` set (es_operations st)" if "es_operations st \<noteq> []"
    using that by (cases "es_operations st") (auto simp: first_id_def)
  with assms show ?thesis
    by (auto simp: editor_ok_def keepSelection_def rows_inv_def rows_ok_def set_drawn lessThan_atLeast0)
qed

lemma editor_ok_rows: "editor_ok now st \<Longrightarrow> rows_inv now st"
  by (simp add: editor_ok_def rows_inv_def rows_ok_def set_drawn lessThan_atLeast0)

lemma rendered_seed:
  assumes "pruneObjectsDraft now st = (d, n)"
  shows "pe_seed st \<le> n \<and> (case d of None \<Rightarrow> True | Some d \<Rightarrow> map oc_id (pd_rules d) = drawn now (pe_seed st) n)"
  using assms prune_draft_seed [of now _ "pe_seed st"]
  by (fastforce simp: pruneObjectsDraft_def split: option.splits if_splits prod.splits)

lemma editor_step_ok:
  assumes "editor_step now t st st'" "clock_digits now" "editor_ok now st"
  shows "editor_ok now st'"
  using assms(1)
proof (rule editor_stepE)
  fix e st1 assume "st' = keepSelection st1" "handle now t e st = Inr st1"
  with handle_rows [OF this(2) assms(2)] editor_ok_rows [OF assms(3)] show ?thesis
    by (simp add: editor_ok_keepSelection)
next
  assume "st' = renderDraft now st"
  with assms(3) rendered_seed [of now st] show ?thesis by (auto simp: editor_ok_def renderDraft_def split: prod.splits)
qed (use assms(3) in simp)

text \<open>C12. The rows of the override editor can always be told apart: after any sequence of events there is a
  row, no two rows or conditions have the same identifier, every identifier was drawn from the counter before,
  and the selected row exists. The clock reads as decimal digits.\<close>

theorem editor_rows_identified:
  assumes "editor_reach now t st" "clock_digits now"
  shows "editor_ok now st"
  using assms(1)
proof (induction rule: editor_reach.induct)
  case (start n)
  have "rows_inv now (initial_dialog now n)"
    using default_rows [OF assms(2), of n]
    by (simp add: initial_dialog_def rows_inv_def createDefaultOperation_def)
  then show ?case by (rule editor_ok_keepSelection)
next
  case (step st st')
  then show ?case using editor_step_ok assms(2) by blast
qed

definition sample_dialog :: DialogState where
  "sample_dialog = keepSelection (addOperation (\<lambda>n. [49]) (keepSelection (initial_dialog (\<lambda>n. [49]) 1)))"

theorem editor_rows_identified_witness:
  "editor_ok (\<lambda>n. [49]) sample_dialog \<and> length (es_operations sample_dialog) = 2"
proof -
  have "editor_reach (\<lambda>n. [49]) (\<lambda>s i. []) sample_dialog"
    unfolding sample_dialog_def by (rule step [OF start done_step [where e = Ev_add]]) simp
  then have "editor_ok (\<lambda>n. [49]) sample_dialog"
    by (rule editor_rows_identified) (simp add: clock_digits_def is_digit_def)
  then show ?thesis
    by (simp add: sample_dialog_def initial_dialog_def keepSelection_def addOperation_def createDefaultOperation_def)
qed

section \<open>Drag and drop\<close>

lemma find_index_split:
  assumes "distinct (map f (xs @ x # ys))"
  shows "find_index (\<lambda>o'. f o' = f x) (xs @ x # ys) = Some (length xs)"
  using assms by (induction xs) auto

text \<open>Dragging moves one row: dropped on another row, the dragged row is taken out and put directly
  before or after that row, as the marker shows; all other rows keep their order.\<close>

theorem drag_places_row:
  assumes "distinct (map oo_id ops)" "src \<in> set ops" "tgt \<in> set ops" "src \<noteq> tgt" "[] \<notin> oo_id ` set ops"
  shows "\<exists>xs ys. remove1 src ops = xs @ tgt # ys
    \<and> reorderOperations ops (oo_id src) (oo_id tgt) pos
        = (case pos of Before \<Rightarrow> xs @ src # tgt # ys | After \<Rightarrow> xs @ tgt # src # ys)"
proof -
  obtain as bs where ops: "ops = as @ src # bs" using assms(2) by (auto dest: split_list)
  have "src \<notin> set as" using assms(1) ops by auto
  then have rest: "remove1 src ops = as @ bs" by (simp add: ops remove1_append)
  with assms(3,4) ops have "tgt \<in> set (as @ bs)" by auto
  then obtain xs ys where xs: "as @ bs = xs @ tgt # ys" by (meson split_list)
  have ids: "oo_id src \<noteq> []" "oo_id tgt \<noteq> []" using assms(2,3,5) by force+
  have "oo_id src \<noteq> oo_id tgt" using assms(1-4) by (auto simp: distinct_map inj_on_def)
  moreover have "find_index (\<lambda>o'. oo_id o' = oo_id src) ops = Some (length as)"
    unfolding ops by (rule find_index_split) (use assms(1) ops in simp)
  moreover have "distinct (map oo_id (xs @ tgt # ys))"
    using assms(1) unfolding ops xs [symmetric] by simp
  then have "find_index (\<lambda>o'. oo_id o' = oo_id tgt) (as @ bs) = Some (length xs)"
    unfolding xs by (rule find_index_split)
  ultimately show ?thesis
    using ids rest xs
    by (intro exI [of _ xs] exI [of _ ys]) (cases pos, simp_all add: reorderOperations_def ops splice_in_def)
qed

theorem drag_places_row_witness:
  "\<exists>a b c. map oo_id (reorderOperations [a, b, c] (oo_id a) (oo_id c) After) = [oo_id b, oo_id c, oo_id a]
     \<and> distinct [oo_id a, oo_id b, oo_id c]"
proof -
  define row where "row i = fst (createDefaultOperation (\<lambda>n. [49]) i)" for i
  have ids: "oo_id (row i) = nextLocalId (\<lambda>n. [49]) i" for i by (simp add: row_def createDefaultOperation_def)
  have "clock_digits (\<lambda>n. [49])" by (simp add: clock_digits_def is_digit_def)
  note inj = nextLocalId_inj [OF this]
  have ne: "row i \<noteq> row j" if "i \<noteq> j" for i j using that ids inj by metis
  have "distinct (map oo_id [row 0, row 1, row 2])" by (simp add: ids inj)
  from drag_places_row [OF this, of "row 0" "row 2" After] ne
  have "reorderOperations [row 0, row 1, row 2] (oo_id (row 0)) (oo_id (row 2)) After = [row 1, row 2, row 0]"
    by (auto simp: ids nextLocalId_def append_eq_Cons_conv Cons_eq_append_conv)
  with ids inj show ?thesis by (intro exI [of _ "row 0"] exI [of _ "row 1"] exI [of _ "row 2"]) simp
qed

section \<open>Prune rules\<close>

lemma handle_seed:
  assumes "handle now t e st = Inr st'"
  shows "pe_seed st \<le> pe_seed st' \<and> pe_prune st' = pe_prune st"
proof (cases e)
  case (Ev_open v)
  with assms show ?thesis
    using operations_or_default_drawn [of now _ "pe_seed st"]
    by (auto simp: openDialog_def bind_err_Inr parseInitialState_def with_editor_def createDefaultOperation_def Let_def
        split: if_splits option.splits jval.splits)
next
  case (Ev_duplicate oid)
  with assms show ?thesis
    by (auto simp: duplicateOperation_def bind_err_Inr dest!: operation_drawn split: option.splits)
next
  case Ev_visual_mode
  with assms show ?thesis
    using operations_or_default_drawn [of now _ "pe_seed st"]
    by (auto simp: switchToVisualMode_def Let_def bind_err_Inr createDefaultOperation_def toast_def
        split: if_splits option.splits jval.splits)
next
  case (Ev_fill m)
  with assms show ?thesis
    using operations_or_default_drawn [of now _ "pe_seed st"] operations_drawn [of now _ "pe_seed st"]
    by (auto simp: fillTemplate_def Let_def fill_legacy_def bind_err_Inr createDefaultOperation_def toast_def
        split: if_splits TemplateKind.splits FillMode.splits)
next
  case (Ev_prune oid f)
  with assms prune_update_seed [of now oid "\<lambda>d n. (f d, n)" "es_operations st" "pe_seed st"] show ?thesis
    by (auto simp: updatePruneObjectsDraft_def split: prod.splits)
next
  case (Ev_add_prune_rule oid)
  with assms show ?thesis
    by (auto simp: addPruneRule_def updatePruneObjectsDraft_def normalizePruneRule_def split: prod.splits dest!: prune_update_seed)
next
  case (Ev_update_prune_rule oid rid p)
  with assms show ?thesis
    by (auto simp: updatePruneRule_def updatePruneObjectsDraft_def split: prod.splits dest!: prune_update_seed)
next
  case (Ev_remove_prune_rule oid rid)
  with assms show ?thesis
    by (auto simp: removePruneRule_def updatePruneObjectsDraft_def split: prod.splits dest!: prune_update_seed)
qed (use assms in \<open>auto simp: updateOperation_def addOperation_def createDefaultOperation_def removeOperation_def
    addCondition_def createDefaultCondition_def condition_of_def updateCondition_def removeCondition_def
    updateReturnErrorDraft_def map_operation_def handleDragStart_def handleDragOver_def handleDrop_def resetDragState_def
    switchToJsonMode_def bind_err_Inr toast_def resetEditorState_def handleJsonChange_def formatJson_def handleSave_def
    expandAllConditions_def collapseAllConditions_def expand_conditions_def Let_def
    split: if_splits option.splits sum.splits\<close>)

definition prune_ids_old :: "(nat \<Rightarrow> jstr) \<Rightarrow> DialogState \<Rightarrow> bool" where
  "prune_ids_old now st = (case pe_prune st of None \<Rightarrow> True
     | Some d \<Rightarrow> oc_id ` set (pd_rules d) \<subseteq> set (drawn now 0 (pe_seed st)))"

lemma prune_ids_reach: "editor_reach now t st \<Longrightarrow> prune_ids_old now st"
proof (induction rule: editor_reach.induct)
  case (start n)
  show ?case by (simp add: prune_ids_old_def initial_dialog_def createDefaultOperation_def keepSelection_def)
next
  case (step st st')
  from step(2) show ?case
  proof (rule editor_stepE)
    fix e st1 assume st': "st' = keepSelection st1" and "handle now t e st = Inr st1"
    then have "pe_seed st \<le> pe_seed st1" "pe_prune st1 = pe_prune st" using handle_seed by blast+
    moreover have "pe_seed st' = pe_seed st1" "pe_prune st' = pe_prune st1"
      by (simp_all add: st' keepSelection_def)
    ultimately show ?thesis using step.IH drawn_mono [of 0 0 "pe_seed st" "pe_seed st1" now]
      by (auto simp: prune_ids_old_def split: option.splits)
  next
    assume st': "st' = renderDraft now st"
    obtain d n where d: "pruneObjectsDraft now st = (d, n)" by force
    show ?thesis
      using rendered_seed [OF d] drawn_mono [of 0 "pe_seed st" n n now] d
      by (auto simp: prune_ids_old_def renderDraft_def st' split: option.splits simp flip: set_map)
  qed (use step.IH in simp)
qed

text \<open>The text of a prune draft does not depend on the identifiers of its rules.\<close>

definition same_rules :: "PruneRule list \<Rightarrow> PruneRule list \<Rightarrow> bool" where
  "same_rules rs rs' = (map (\<lambda>r. r\<lparr> oc_id := [] \<rparr>) rs = map (\<lambda>r. r\<lparr> oc_id := [] \<rparr>) rs')"

lemma prune_rules_same: "same_rules (fst (prune_rules now ms n)) (fst (prune_rules now ms n'))"
proof (induction ms arbitrary: n n')
  case Nil
  show ?case by (simp add: same_rules_def)
next
  case (Cons m ms)
  from Cons [of "Suc n" "Suc n'"] show ?case
    by (simp add: same_rules_def normalizePruneRule_def case_prod_beta)
qed

lemma prune_text_same:
  assumes "same_rules rs rs'"
  shows "buildPruneObjectsValueText (d\<lparr> pd_rules := rs \<rparr>) = buildPruneObjectsValueText (d\<lparr> pd_rules := rs' \<rparr>)"
proof -
  let ?c = "\<lambda>rs. map (\<lambda>r. VObj (prune_condition r)) (filter (\<lambda>r. trim (oc_path r) \<noteq> []) rs)"
  have "?c rs = ?c (map (\<lambda>r. r\<lparr> oc_id := [] \<rparr>) rs)" for rs
    by (induction rs) (simp_all add: prune_condition_def)
  then have "?c rs = ?c rs'" using assms unfolding same_rules_def by metis
  then have "prune_payload (d\<lparr> pd_rules := rs \<rparr>) = prune_payload (d\<lparr> pd_rules := rs' \<rparr>)"
    by (simp add: prune_payload_def Let_def)
  then show ?thesis by (simp add: buildPruneObjectsValueText_def)
qed

text \<open>The text of the draft read from a text, shown in simple or in advanced form.\<close>

definition canonical_prune :: "(nat \<Rightarrow> jstr) \<Rightarrow> (bool \<Rightarrow> bool) \<Rightarrow> jstr \<Rightarrow> jstr" where
  "canonical_prune now simple s = (let d = fst (parsePruneObjectsDraft now s 0) in
     buildPruneObjectsValueText (d\<lparr> pd_simpleMode := simple (pd_simpleMode d) \<rparr>))"

lemma canonical_prune_any:
  "buildPruneObjectsValueText ((fst (parsePruneObjectsDraft now s n))\<lparr> pd_simpleMode := simple (pd_simpleMode (fst (parsePruneObjectsDraft now s n))) \<rparr>)
    = canonical_prune now simple s"
proof -
  obtain base ms where form: "\<And>n. parsePruneObjectsDraft now s n
    = (base\<lparr> pd_rules := fst (prune_rules now ms n) \<rparr>, snd (prune_rules now ms n))" using prune_draft_form [of now s] by blast
  let ?base = "base\<lparr> pd_simpleMode := simple (pd_simpleMode base) \<rparr>"
  have any: "buildPruneObjectsValueText ((fst (parsePruneObjectsDraft now s n))\<lparr> pd_simpleMode := simple (pd_simpleMode (fst (parsePruneObjectsDraft now s n))) \<rparr>)
      = buildPruneObjectsValueText (?base\<lparr> pd_rules := fst (prune_rules now ms n) \<rparr>)" for n
    by (rule arg_cong [where f = buildPruneObjectsValueText]) (simp add: form)
  show ?thesis
    unfolding canonical_prune_def Let_def any by (rule prune_text_same) (rule prune_rules_same)
qed

text \<open>An update whose result depends on the text alone rewrites the texts of the rows it is for.\<close>

definition retext :: "jstr \<Rightarrow> (jstr \<Rightarrow> jstr) \<Rightarrow> OverrideOperation list \<Rightarrow> OverrideOperation list" where
  "retext oid g ops = map (\<lambda>o'. if oo_id o' = oid then o'\<lparr> oo_value_text := g (oo_value_text o') \<rparr> else o') ops"

lemma prune_update_retext:
  assumes "\<And>s n d n'. seed \<le> n \<Longrightarrow> parsePruneObjectsDraft now s n = (d, n') \<Longrightarrow>
      buildPruneObjectsValueText (fst (f d n')) = g s \<and> n' \<le> snd (f d n')" and "seed \<le> n"
  shows "fst (prune_update now oid f ops n) = retext oid g ops"
  using assms(2)
proof (induction ops arbitrary: n)
  case (Cons op ops)
  show ?case
  proof (cases "oo_id op = oid")
    case False
    with Cons show ?thesis by (simp add: retext_def case_prod_beta)
  next
    case True
    obtain d n1 where d: "parsePruneObjectsDraft now (oo_value_text op) n = (d, n1)" by force
    have "n \<le> n1" using prune_draft_seed [OF d] by simp
    moreover from assms(1) [OF Cons.prems d] have "n1 \<le> snd (f d n1)"
      "buildPruneObjectsValueText (fst (f d n1)) = g (oo_value_text op)" by blast+
    ultimately show ?thesis
      using True d Cons.IH [of "snd (f d n1)"] Cons.prems by (simp add: retext_def case_prod_beta)
  qed
qed (simp add: retext_def)

lemma new_rules_differ:
  assumes "clock_digits now" "rid \<in> set (drawn now 0 seed)" "seed \<le> n" "parsePruneObjectsDraft now s n = (d, n')"
  shows "rid \<notin> oc_id ` set (pd_rules d)"
proof -
  have "oc_id ` set (pd_rules d) = set (drawn now n n')"
    using prune_draft_seed [OF assms(4)] by (metis list.set_map)
  with drawn_disjoint [OF assms(1,3), of 0 n'] assms(2) show ?thesis by auto
qed

text \<open>C15. The rules of a prune operation cannot be edited: in every reachable state, changing or removing a rule
  that is shown only rewrites the text of the operation in canonical form, whatever the change, because the
  text is parsed anew and the parsed rules get new identifiers; and adding a rule only switches to the
  advanced form, because the new rule has no path and is not stored.\<close>

theorem prune_rules_cannot_be_edited:
  assumes "editor_reach now t st" "clock_digits now" "pe_prune st = Some d" "r \<in> set (pd_rules d)"
  shows "es_operations (updatePruneRule now oid (oc_id r) patch st) = retext oid (canonical_prune now id) (es_operations st)
    \<and> es_operations (removePruneRule now oid (oc_id r) st) = retext oid (canonical_prune now id) (es_operations st)
    \<and> es_operations (addPruneRule now oid st) = retext oid (canonical_prune now (\<lambda>_. False)) (es_operations st)"
proof -
  have old: "oc_id r \<in> set (drawn now 0 (pe_seed st))"
    using prune_ids_reach [OF assms(1)] assms(3,4) by (auto simp: prune_ids_old_def)
  have ops: "es_operations (updatePruneObjectsDraft now oid f st) = fst (prune_update now oid f (es_operations st) (pe_seed st))" for f
    by (simp add: updatePruneObjectsDraft_def case_prod_beta)
  note differ = new_rules_differ [OF assms(2) old]
  have canon: "buildPruneObjectsValueText (d\<lparr> pd_simpleMode := simple (pd_simpleMode d) \<rparr>) = canonical_prune now simple s"
    if "parsePruneObjectsDraft now s n = (d, n')" for s n d n' simple
    using canonical_prune_any [where now = now and s = s and n = n and simple = simple] that by simp
  have keep: "buildPruneObjectsValueText (d\<lparr> pd_rules := pd_rules d \<rparr>) = canonical_prune now id s"
    if "parsePruneObjectsDraft now s n = (d, n')" for s n d n'
    using canon [OF that, of id] by simp
  have map_same: "map_condition (oc_id r) patch (pd_rules d) = pd_rules d"
    and filter_same: "filter (\<lambda>r'. oc_id r' \<noteq> oc_id r) (pd_rules d) = pd_rules d"
    if "pe_seed st \<le> n" "parsePruneObjectsDraft now s n = (d, n')" for s n d n'
  proof -
    have "oc_id r' \<noteq> oc_id r" if "r' \<in> set (pd_rules d)" for r'
      using differ [OF \<open>pe_seed st \<le> n\<close> \<open>parsePruneObjectsDraft now s n = (d, n')\<close>] that by (metis imageI)
    then show "map_condition (oc_id r) patch (pd_rules d) = pd_rules d"
      "filter (\<lambda>r'. oc_id r' \<noteq> oc_id r) (pd_rules d) = pd_rules d"
      by (auto simp: map_condition_def filter_id_conv intro!: map_idI)
  qed
  have "es_operations (updatePruneRule now oid (oc_id r) patch st) = retext oid (canonical_prune now id) (es_operations st)"
    unfolding updatePruneRule_def ops
    by (rule prune_update_retext [OF _ order_refl]) (use map_same keep in simp)
  moreover have "es_operations (removePruneRule now oid (oc_id r) st) = retext oid (canonical_prune now id) (es_operations st)"
    unfolding removePruneRule_def ops
    by (rule prune_update_retext [OF _ order_refl]) (use filter_same keep in simp)
  moreover have "es_operations (addPruneRule now oid st) = retext oid (canonical_prune now (\<lambda>_. False)) (es_operations st)"
    unfolding addPruneRule_def ops
  proof (rule prune_update_retext [OF _ order_refl])
    fix s n d n' assume d: "pe_seed st \<le> n" "parsePruneObjectsDraft now s n = (d, n')"
    have "prune_payload (d\<lparr> pd_simpleMode := False, pd_rules := pd_rules d @ [fst (normalizePruneRule now [] n')] \<rparr>)
        = prune_payload (d\<lparr> pd_simpleMode := False \<rparr>)"
      by (simp add: prune_payload_def normalizePruneRule_def text_or_empty_def)
    then have "buildPruneObjectsValueText (d\<lparr> pd_simpleMode := False, pd_rules := pd_rules d @ [fst (normalizePruneRule now [] n')] \<rparr>)
        = buildPruneObjectsValueText (d\<lparr> pd_simpleMode := False \<rparr>)"
      by (simp add: buildPruneObjectsValueText_def)
    with canon [OF d(2), of "\<lambda>_. False"]
    show "buildPruneObjectsValueText (fst (let (r, n') = normalizePruneRule now [] n'
          in (d\<lparr> pd_simpleMode := False, pd_rules := pd_rules d @ [r] \<rparr>, n'))) = canonical_prune now (\<lambda>_. False) s
      \<and> n' \<le> snd (let (r, n') = normalizePruneRule now [] n'
          in (d\<lparr> pd_simpleMode := False, pd_rules := pd_rules d @ [r] \<rparr>, n'))"
      by (simp add: normalizePruneRule_def)
  qed
  ultimately show ?thesis by blast
qed

text \<open>An operation with one rule, rendered.\<close>

definition prune_object :: jval where
  "prune_object = VObj [(js ''conditions'', VArr [VObj [(js ''path'', VStr (js ''role''))]])]"

definition prune_dialog :: DialogState where
  "prune_dialog = renderDraft (\<lambda>n. [49]) (keepSelection (updateOperation (nextLocalId (\<lambda>n. [49]) 0)
     [Patch_mode (js ''prune_objects''), Patch_value (json_stringify prune_object)]
     (keepSelection (initial_dialog (\<lambda>n. [49]) 0))))"

lemma prune_dialog_reach: "editor_reach (\<lambda>n. [49]) (\<lambda>s i. []) prune_dialog"
  unfolding prune_dialog_def
  by (rule step [OF step [OF start done_step [where e = "Ev_update _ _"]] render_step]) simp

lemma prune_object_text: "json_parse (trim (json_stringify prune_object)) = Some prune_object" "trim (json_stringify prune_object) \<noteq> []"
proof -
  have "array_index (js ''path'') = None" "array_index (js ''conditions'') = None"
    by (simp_all add: array_index_def js_def is_digit_def)
  then have "json_plain prune_object"
    by (simp add: prune_object_def obj_of_def obj_put_def) (simp add: js_def code_units_def)
  then show "json_parse (trim (json_stringify prune_object)) = Some prune_object" "trim (json_stringify prune_object) \<noteq> []"
    by (simp_all add: trim_id trimmed_stringify stringify_not_empty json_parse_text)
qed

lemma prune_dialog_draft: "\<exists>d r. pe_prune prune_dialog = Some d \<and> pd_rules d = [r] \<and> oc_id r = nextLocalId (\<lambda>n. [49]) 1"
  using prune_object_text
  by (simp add: prune_dialog_def renderDraft_def pruneObjectsDraft_def selectedOperation_def keepSelection_def
      initial_dialog_def createDefaultOperation_def updateOperation_def map_operation_def first_id_def
      parsePruneObjectsDraft_def prune_object_def vget_Cons array_items_def List.map_filter_simps normalizePruneRule_def)

theorem prune_rules_cannot_be_edited_witness:
  "es_operations (removePruneRule (\<lambda>n. [49]) (nextLocalId (\<lambda>n. [49]) 0) (nextLocalId (\<lambda>n. [49]) 1) prune_dialog)
    = retext (nextLocalId (\<lambda>n. [49]) 0) (canonical_prune (\<lambda>n. [49]) id) (es_operations prune_dialog)"
proof -
  obtain d r where "pe_prune prune_dialog = Some d" "pd_rules d = [r]" "oc_id r = nextLocalId (\<lambda>n. [49]) 1"
    using prune_dialog_draft by blast
  with prune_rules_cannot_be_edited [OF prune_dialog_reach _ this(1), of r] show ?thesis
    by (simp add: clock_digits_def is_digit_def)
qed

end
