(* ===== verification/SeedRandom.thy ===== *)
theory SeedRandom
  imports Js_Order "HOL-Library.Word"
begin

text \<open>
  Seeded random numbers (\<open>features/pricing/lib/seed.ts\<close>): a string hash and a linear congruential
  generator, computed with doubles and the 32-bit operators of the language. The closure returned by
  \<open>seededRandom\<close> is its state, passed along. The lemmas show that all products and sums are exact, so that
  hash and generator are the functions on 32-bit words they stand for.
\<close>

unbundle bit_operations_syntax

section \<open>32-bit operators\<close>

text \<open>\<open>ToInt32\<close> as a word; \<open>x | 0\<close> and \<open>x ^ y\<close> read it as signed, \<open>x >>> 0\<close> as unsigned.\<close>

definition to_int32 :: "jnum \<Rightarrow> 32 word" where
  "to_int32 x = (case x of JFin q \<Rightarrow> of_int (trunc_rat q) | _ \<Rightarrow> 0)"

definition from_int32 :: "32 word \<Rightarrow> jnum" where
  "from_int32 w = jint (sint w)"

definition from_uint32 :: "32 word \<Rightarrow> jnum" where
  "from_uint32 w = jint (uint w)"

definition jxor :: "jnum \<Rightarrow> jnum \<Rightarrow> jnum" where
  "jxor x y = from_int32 (to_int32 x XOR to_int32 y)"

section \<open>seed.ts\<close>

definition hash_step :: "jnum \<Rightarrow> nat \<Rightarrow> jnum" where
  "hash_step hash c = jxor (jmul hash (JFin 33)) (jint (int c))"

definition hashStringToSeed :: "jstr \<Rightarrow> jnum" where
  "hashStringToSeed input = jabs (from_int32 (to_int32 (foldl hash_step (JFin 5381) input)))"

definition seededRandom :: "jnum \<Rightarrow> jnum" where
  "seededRandom seed = from_uint32 (to_int32 (jor seed (JFin 1)))"

definition next_random :: "jnum \<Rightarrow> jnum \<times> jnum" where
  "next_random state = (let state' = from_uint32 (to_int32 (jadd (jmul state (JFin 1664525)) (JFin 1013904223)))
     in (jdiv state' (JFin 4294967296), state'))"

definition randomInRange :: "jnum \<Rightarrow> jnum \<Rightarrow> jnum \<Rightarrow> jnum \<times> jnum" where
  "randomInRange lo hi rand = (let (r, rand') = next_random rand in (jadd lo (jmul r (jsub hi lo)), rand'))"

definition randomIntInRange :: "jnum \<Rightarrow> jnum \<Rightarrow> jnum \<Rightarrow> jnum \<times> jnum" where
  "randomIntInRange lo hi rand = (let (x, rand') = randomInRange lo (jadd hi (JFin 1)) rand in (jfloor x, rand'))"

section \<open>Exact arithmetic\<close>

lemma trunc_int [simp]: "trunc_rat (of_int n) = n"
  by (simp add: trunc_rat_def)

lemma to_int32_jint [simp]: "to_int32 (jint n) = of_int n"
  by (simp add: to_int32_def)

lemma to_int32_from [simp]: "to_int32 (from_int32 w) = w" "to_int32 (from_uint32 w) = w"
  unfolding from_int32_def from_uint32_def to_int32_jint by simp_all

lemma sint32_bounds: "- (2 ^ 31) \<le> sint w" "sint w < 2 ^ 31" for w :: "32 word"
  using sint_greater_eq [of w] sint_less [of w] by simp_all

lemma uint32_bounds: "0 \<le> uint w" "uint w < 2 ^ 32" for w :: "32 word"
  using uint_bounded [of w] by simp_all

text \<open>A dyadic rational whose numerator has at most 53 bits is a double.\<close>

lemma floor_log2_scale:
  assumes "0 < q"
  shows "floor_log2 (q * two_pow e) = floor_log2 q + e"
proof (rule floor_log2_unique)
  note b = floor_log2_bounds [OF assms]
  show "two_pow (floor_log2 q + e) \<le> q * two_pow e"
    using b(1) by (simp add: two_pow_add)
  have "q * two_pow e < two_pow (floor_log2 q + 1) * two_pow e"
    using b(2) by (intro mult_strict_right_mono) simp_all
  then show "q * two_pow e < two_pow (floor_log2 q + e + 1)"
    by (simp add: two_pow_add [symmetric] add.commute add.left_commute)
qed

lemma floor_log2_int_less:
  assumes "0 < m" "m < 2 ^ 53"
  shows "floor_log2 (of_int m) \<le> 52"
proof -
  have "two_pow (floor_log2 (of_int m)) \<le> of_int m" using floor_log2_bounds(1) assms(1) by simp
  also have "(of_int m :: rat) < of_int (2 ^ 53)" using assms(2) by (simp only: of_int_less_iff)
  also have "(of_int (2 ^ 53) :: rat) = two_pow 53" by (simp add: two_pow_def)
  finally show ?thesis by (simp add: two_pow_less)
qed

lemma round_pos_dyadic:
  assumes "0 < m" "m < 2 ^ 53" "- 1074 \<le> e"
  shows "round_pos (of_int m * two_pow e) = of_int m * two_pow e"
proof -
  let ?a = "of_int m * two_pow e" let ?u = "ulp_exp ?a"
  have "floor_log2 ?a = floor_log2 (of_int m) + e" by (rule floor_log2_scale) (use assms(1) in simp)
  then have u: "?u \<le> e" using floor_log2_int_less [OF assms(1,2)] assms(3) by (simp add: ulp_exp_def)
  have "?a / two_pow ?u = of_int m * two_pow (e - ?u)"
    using two_pow_add [of "e - ?u" ?u] by (simp add: field_simps)
  also have "\<dots> = of_int (m * 2 ^ nat (e - ?u))" using u by (simp add: two_pow_of_int)
  finally have r: "round_half_even (?a / two_pow ?u) = m * 2 ^ nat (e - ?u)"
    and eq: "?a / two_pow ?u = of_int (m * 2 ^ nat (e - ?u))"
    by (simp_all only: round_half_even_int)
  have "round_pos ?a = ?a / two_pow ?u * two_pow ?u" unfolding round_pos_def r by (simp only: eq)
  then show ?thesis by simp
qed

lemma to_double_dyadic:
  assumes "\<bar>m\<bar> < 2 ^ 53" "- 1074 \<le> e" "e \<le> 900"
  shows "to_double (of_int m * two_pow e) = JFin (of_int m * two_pow e)"
proof -
  have pos: "to_double (of_int n * two_pow e) = JFin (of_int n * two_pow e)" if "0 < n" "n < 2 ^ 53" for n
  proof -
    have "floor_log2 (of_int n * two_pow e) \<le> 952"
      using floor_log2_scale [of "of_int n" e] floor_log2_int_less [OF that] that assms(3) by simp
    with round_pos_dyadic [OF that assms(2)] that show ?thesis
      by (simp add: to_double_def Let_def abs_mult)
  qed
  consider "m = 0" | "0 < m" | "m < 0" by linarith
  then show ?thesis
  proof cases
    case 3
    with pos [of "- m"] assms(1) have "to_double (- (of_int m * two_pow e)) = JFin (- (of_int m * two_pow e))" by simp
    then show ?thesis using to_double_minus [of "- (of_int m * two_pow e)"] by simp
  qed (use pos assms in simp_all)
qed

lemma to_double_frac32:
  assumes "\<bar>m\<bar> < 2 ^ 53"
  shows "to_double (of_int m / 4294967296) = JFin (of_int m / 4294967296)"
proof -
  have "of_int m / 4294967296 = of_int m * two_pow (- 32)" by (simp add: two_pow_def)
  then show ?thesis using to_double_dyadic [OF assms, of "- 32"] by (simp only:)
qed

section \<open>The hash\<close>

definition hash_word :: "jstr \<Rightarrow> 32 word" where
  "hash_word s = foldl (\<lambda>w c. (w * 33) XOR of_nat c) 5381 s"

lemma hash_step_word: "hash_step (from_int32 w) c = from_int32 ((w * 33) XOR of_nat c)"
proof -
  have "jmul (from_int32 w) (JFin 33) = jint (sint w * 33)"
    using jmul_int [of "sint w" 33] sint32_bounds [of w] by (simp add: from_int32_def abs_mult)
  then have "hash_step (from_int32 w) c = from_int32 (to_int32 (jint (sint w * 33)) XOR to_int32 (jint (int c)))"
    by (simp only: hash_step_def jxor_def)
  then show ?thesis by (simp only: to_int32_jint) simp
qed

lemma hash_fold: "foldl hash_step (from_int32 w) s = from_int32 (foldl (\<lambda>w c. (w * 33) XOR of_nat c) w s)"
  by (induction s arbitrary: w) (simp_all add: hash_step_word)

lemma hash_word_correct: "hashStringToSeed s = jint \<bar>sint (hash_word s)\<bar>"
proof -
  have "JFin 5381 = from_int32 5381" by (simp add: from_int32_def)
  then show ?thesis by (simp add: hashStringToSeed_def hash_fold hash_word_def) (simp add: from_int32_def)
qed

text \<open>The largest value is reached, so the seed does not always fit 31 bits.\<close>

lemma seed_needs_32_bits: "hashStringToSeed (js ''77afd3u'') = JFin 2147483648"
proof -
  have "hash_word (js ''77afd3u'') = 0x80000000" by (simp add: hash_word_def js_def)
  then show ?thesis by (simp add: hash_word_correct)
qed

text \<open>The seed of a text is the absolute value of the djb2 hash of the text on signed 32-bit words: no
  rounding occurs for any text. It is at most \<open>2 ^ 31\<close>, which is reached, so it does not always fit 31 bits.\<close>

theorem seed_is_djb2:
  "hashStringToSeed s = jint \<bar>sint (foldl (\<lambda>w c. (w * 33) XOR of_nat c) (5381 :: 32 word) s)\<bar>
    \<and> \<bar>sint (hash_word s)\<bar> \<le> 2 ^ 31 \<and> hashStringToSeed (js ''77afd3u'') = jint (2 ^ 31)"
  using hash_word_correct [of s] sint32_bounds [of "hash_word s"] seed_needs_32_bits by (simp add: hash_word_def)

section \<open>The generator\<close>

definition lcg :: "32 word \<Rightarrow> 32 word" where
  "lcg w = w * 1664525 + 1013904223"

text \<open>The number a state stands for.\<close>

definition unit_of :: "32 word \<Rightarrow> jnum" where
  "unit_of w = JFin (of_int (uint w) / 4294967296)"

lemma seededRandom_state: "seededRandom seed = from_uint32 (to_int32 (jor seed (JFin 1)))"
  by (simp add: seededRandom_def)

lemma next_random_word: "next_random (from_uint32 w) = (unit_of (lcg w), from_uint32 (lcg w))"
proof -
  have u: "0 \<le> uint w" "uint w < 4294967296" using uint32_bounds [of w] by simp_all
  then have "uint w * 1664525 \<le> 4294967296 * 1664525" by (intro mult_right_mono) simp_all
  then have mul: "jmul (from_uint32 w) (JFin 1664525) = jint (uint w * 1664525)"
    using jmul_int [of "uint w" 1664525] u(1) by (simp add: from_uint32_def)
  have "jadd (jint (uint w * 1664525)) (jint 1013904223) = jint (uint w * 1664525 + 1013904223)"
    using \<open>uint w * 1664525 \<le> _\<close> u(1) by (intro jadd_int) simp
  then have add: "jadd (jmul (from_uint32 w) (JFin 1664525)) (JFin 1013904223) = jint (uint w * 1664525 + 1013904223)"
    by (simp only: mul) simp
  have "to_int32 (jint (uint w * 1664525 + 1013904223)) = lcg w"
    unfolding to_int32_jint lcg_def by simp
  moreover have "jdiv (from_uint32 v) (JFin 4294967296) = unit_of v" for v
    using to_double_frac32 [of "uint v"] uint32_bounds [of v] by (simp add: from_uint32_def unit_of_def)
  ultimately show ?thesis by (simp only: next_random_def add Let_def)
qed

lemma unit_of_range:
  "0 \<le> (of_int (uint w) / 4294967296 :: rat)" "(of_int (uint w) / 4294967296 :: rat) < 1" for w :: "32 word"
proof -
  have "(of_int 0 :: rat) \<le> of_int (uint w)" using uint32_bounds(1) by (simp only: of_int_le_iff)
  then show "0 \<le> (of_int (uint w) / 4294967296 :: rat)" by (simp del: of_int_uint)
  have "(of_int (uint w) :: rat) < of_int (2 ^ 32)" using uint32_bounds(2) by (simp only: of_int_less_iff)
  then show "(of_int (uint w) / 4294967296 :: rat) < 1" by (simp del: of_int_uint)
qed

text \<open>A step of the generator can be undone: the multiplier is odd.\<close>

lemma lcg_inverse: "(lcg w - 1013904223) * 4276115653 = w"
proof -
  have "(lcg w - 1013904223) * 4276115653 = w * (1664525 * 4276115653)" by (simp add: lcg_def)
  also have "(1664525 * 4276115653 :: 32 word) = 1" by simp
  finally show ?thesis by simp
qed

fun random_stream :: "nat \<Rightarrow> jnum \<Rightarrow> jnum list" where
  "random_stream 0 rand = []"
| "random_stream (Suc n) rand = (let (r, rand') = next_random rand in r # random_stream n rand')"

lemma random_stream_lcg:
  "random_stream n (from_uint32 w) = map (\<lambda>i. unit_of ((lcg ^^ Suc i) w)) [0..<n]"
proof (induction n arbitrary: w)
  case (Suc n)
  have "map (\<lambda>i. unit_of ((lcg ^^ Suc i) w)) [0..<Suc n] = unit_of (lcg w) # map (\<lambda>i. unit_of ((lcg ^^ Suc (Suc i)) w)) [0..<n]"
    by (simp only: upt_conv_Cons zero_less_Suc list.map map_Suc_upt [symmetric] map_map comp_def) simp
  with Suc show ?case by (simp add: next_random_word funpow_swap1)
qed simp

text \<open>C38. The random numbers of a seed are the states of the linear congruential generator with multiplier
  1664525 and increment 1013904223 on 32-bit words, divided by \<open>2 ^ 32\<close> without rounding; each lies in
  \<open>[0, 1)\<close>; and two different states never produce the same number at the same position.\<close>

theorem random_stream_exact:
  "random_stream n (seededRandom seed) = map (\<lambda>i. unit_of ((lcg ^^ Suc i) (to_int32 (jor seed (JFin 1))))) [0..<n]
    \<and> list_all (\<lambda>r. jle (JFin 0) r \<and> jlt r (JFin 1)) (random_stream n (seededRandom seed))
    \<and> (unit_of ((lcg ^^ Suc i) v) = unit_of ((lcg ^^ Suc i) w)) = (v = w)"
proof -
  have stream: "random_stream n (seededRandom seed) = map (\<lambda>i. unit_of ((lcg ^^ Suc i) (to_int32 (jor seed (JFin 1))))) [0..<n]"
    unfolding seededRandom_state by (rule random_stream_lcg)
  have "jle (JFin 0) (unit_of x) \<and> jlt (unit_of x) (JFin 1)" for x
    unfolding unit_of_def using unit_of_range [of x] by (simp only: jle_Fin jlt.simps)
  moreover have "inj lcg" by (rule inj_on_inverseI [where g = "\<lambda>w. (w - 1013904223) * 4276115653"]) (rule lcg_inverse)
  then have "inj (lcg ^^ Suc i)" by (rule inj_fn)
  then have "((lcg ^^ Suc i) v = (lcg ^^ Suc i) w) = (v = w)" by (simp only: inj_eq)
  moreover have "(unit_of x = unit_of y) = (x = y)" for x y
    by (simp add: unit_of_def word_uint_eq_iff del: of_int_uint)
  ultimately show ?thesis unfolding stream by (simp only: list_all_iff set_map) auto
qed

section \<open>Ranges\<close>

lemma jsub_int: "\<bar>a - b\<bar> \<le> 2 ^ 53 \<Longrightarrow> jsub (jint a) (jint b) = jint (a - b)"
  using jadd_int [of a "- b"] by (simp add: jsub_def)

text \<open>A factor of the unit interval shrinks, also after rounding.\<close>

lemma unit_times:
  assumes "to_double d = JFin d" "0 \<le> d" "0 \<le> u" "u \<le> 1"
  shows "\<exists>x. jmul (JFin u) (JFin d) = JFin x \<and> 0 \<le> x \<and> x \<le> d"
proof -
  have ud: "0 \<le> u * d" "u * d \<le> d" using assms(2-4) by (simp_all add: mult_left_le_one_le)
  have "jle (JFin 0) (to_double (u * d))" "jle (to_double (u * d)) (JFin d)"
    using to_double_mono [OF ud(1)] to_double_mono [OF ud(2)] assms(1) by simp_all
  then show ?thesis by (cases "to_double (u * d)") auto
qed

lemma sum_between:
  assumes "to_double a = JFin a" "to_double b = JFin b" "0 \<le> x" "a + x \<le> b"
  shows "\<exists>y. jadd (JFin a) (JFin x) = JFin y \<and> a \<le> y \<and> y \<le> b"
proof -
  have "jle (JFin a) (to_double (a + x))" "jle (to_double (a + x)) (JFin b)"
    using to_double_mono [of a "a + x"] to_double_mono [of "a + x" b] assms by simp_all
  then show ?thesis by (cases "to_double (a + x)") auto
qed

lemma randomInRange_bounds:
  assumes "a \<le> b" "\<bar>a\<bar> \<le> 4503599627370496" "\<bar>b\<bar> \<le> 4503599627370496"
  shows "\<exists>y. randomInRange (jint a) (jint b) (from_uint32 w) = (JFin y, from_uint32 (lcg w)) \<and> of_int a \<le> y \<and> y \<le> of_int b"
proof -
  have diff: "jsub (jint b) (jint a) = jint (b - a)" using assms by (intro jsub_int) simp
  have "to_double (of_int (b - a)) = JFin (of_int (b - a))" using assms by (intro to_double_int) simp
  from unit_times [OF this, of "of_int (uint (lcg w)) / 4294967296"] unit_of_range [of "lcg w"] assms(1)
  obtain x where x: "jmul (unit_of (lcg w)) (jint (b - a)) = JFin x" "0 \<le> x" "x \<le> of_int (b - a)"
    by (auto simp: unit_of_def simp del: of_int_uint jmul.simps)
  have "to_double (of_int a) = jint a" "to_double (of_int b) = jint b"
    using assms by (simp_all add: to_double_int)
  from sum_between [OF this x(2)] x(3) obtain y where "jadd (jint a) (JFin x) = JFin y" "of_int a \<le> y" "y \<le> of_int b"
    by (auto simp del: jadd.simps)
  then show ?thesis unfolding randomInRange_def next_random_word by (simp add: diff x(1) del: jadd.simps jmul.simps of_int_diff)
qed

lemma floor_frac32: "\<lfloor>of_int m / 4294967296 :: rat\<rfloor> = m div 4294967296"
  using floor_divide_of_int_eq [of m 4294967296, where 'a = rat] by simp

lemma randomIntInRange_exact:
  assumes "a \<le> b" "\<bar>a\<bar> < 1048576" "\<bar>b\<bar> < 1048575"
  shows "randomIntInRange (jint a) (jint b) (from_uint32 w)
    = (jint (a + uint (lcg w) * (b - a + 1) div 4294967296), from_uint32 (lcg w))"
proof -
  define k where "k = uint (lcg w)"
  have k: "0 \<le> k" "k \<le> 4294967295" using uint32_bounds [of "lcg w"] by (simp_all add: k_def)
  define d where "d = b - a + 1"
  have d: "0 \<le> d" "d \<le> 1048576 + 1048575" using assms by (simp_all add: d_def)
  have "jadd (jint b) (jint 1) = jint (b + 1)" using assms by (intro jadd_int) simp
  then have hi: "jadd (jint b) (JFin 1) = jint (b + 1)" by simp
  have diff: "jsub (jint (b + 1)) (jint a) = jint d"
    using jsub_int [of "b + 1" a] assms by (simp add: d_def algebra_simps)
  have kd: "0 \<le> k * d" using k(1) d(1) by (rule mult_nonneg_nonneg)
  have kd2: "k * d \<le> 4294967295 * d" using k(2) d(1) by (rule mult_right_mono)
  have mul: "jmul (unit_of (lcg w)) (jint d) = JFin (of_int (k * d) / 4294967296)"
    using to_double_frac32 [of "k * d"] kd kd2 d by (simp add: unit_of_def k_def del: of_int_uint)
  let ?m = "a * 4294967296 + k * d"
  have m: "of_int a + of_int (k * d) / 4294967296 = (of_int ?m / 4294967296 :: rat)" by (simp add: field_simps)
  have "\<bar>?m\<bar> < 2 ^ 53" using kd kd2 assms by (simp add: d_def)
  then have add: "jadd (jint a) (JFin (of_int (k * d) / 4294967296)) = JFin (of_int ?m / 4294967296)"
    using to_double_frac32 [of ?m] by (simp only: jadd.simps m)
  have "\<lfloor>of_int ?m / 4294967296 :: rat\<rfloor> = a + k * d div 4294967296"
    unfolding floor_frac32 by simp
  then have floor: "jfloor (JFin (of_int ?m / 4294967296)) = jint (a + k * d div 4294967296)"
    by (simp only: jfloor.simps)
  show ?thesis
    unfolding randomIntInRange_def randomInRange_def next_random_word hi
    by (simp only: Let_def prod.case diff mul add floor d_def [symmetric] k_def [symmetric])
qed

text \<open>A random integer of a range lies in the range, both ends included, and takes no further draw: with
  \<open>u / 2 ^ 32\<close> the number drawn it is \<open>lo + floor (u * (hi - lo + 1) / 2 ^ 32)\<close>, computed without rounding,
  for bounds below \<open>2 ^ 20\<close>.\<close>

theorem random_int_in_range:
  assumes "a \<le> b" "\<bar>a\<bar> < 1048576" "\<bar>b\<bar> < 1048575"
  shows "\<exists>n. randomIntInRange (jint a) (jint b) (seededRandom seed) = (jint n, snd (next_random (seededRandom seed)))
    \<and> a \<le> n \<and> n \<le> b"
proof -
  let ?w = "to_int32 (jor seed (JFin 1))"
  let ?n = "a + uint (lcg ?w) * (b - a + 1) div 4294967296"
  have "uint (lcg ?w) * (b - a + 1) < 4294967296 * (b - a + 1)"
    using uint32_bounds [of "lcg ?w"] assms(1) by (intro mult_strict_right_mono) simp_all
  then have "uint (lcg ?w) * (b - a + 1) div 4294967296 < b - a + 1"
    by (simp add: div_less_iff_less_mult [of 4294967296] mult.commute)
  moreover have "0 \<le> uint (lcg ?w) * (b - a + 1) div 4294967296"
    using uint32_bounds(1) [of "lcg ?w"] assms(1) by (simp add: pos_imp_zdiv_nonneg_iff)
  ultimately have "a \<le> ?n" "?n \<le> b" by linarith+
  then show ?thesis
    unfolding seededRandom_state next_random_word randomIntInRange_exact [OF assms] snd_conv by blast
qed

theorem random_int_in_range_witness:
  "\<exists>n. randomIntInRange (jint 18000) (jint 480000) (seededRandom (JFin 7)) = (jint n, snd (next_random (seededRandom (JFin 7))))
    \<and> 18000 \<le> n \<and> n \<le> 480000"
  by (rule random_int_in_range) simp_all

end
