(* ===== verification/Js_Date.thy ===== *)
theory Js_Date
  imports Js_String
begin

text \<open>
  Dates of the language: a time value is a number of milliseconds since 1970 in UTC; the calendar is the
  proleptic Gregorian one of the language's specification (\<open>DayFromYear\<close>, \<open>YearFromTime\<close>, \<open>MonthFromTime\<close>,
  \<open>DateFromTime\<close>, \<open>MakeDay\<close>, \<open>TimeClip\<close>). The time zone of the machine is a pair of functions between UTC
  and local time values. The lemmas show that reading the fields of a day and making the day from its fields
  are inverse to each other.
\<close>

section \<open>Years\<close>

definition day_from_year :: "int \<Rightarrow> int" where
  "day_from_year y = 365 * (y - 1970) + (y - 1969) div 4 - (y - 1901) div 100 + (y - 1601) div 400"

definition leap_year :: "int \<Rightarrow> bool" where
  "leap_year y = (y mod 4 = 0 \<and> (y mod 100 \<noteq> 0 \<or> y mod 400 = 0))"

text \<open>The year of a day: an estimate from the mean length of a year, corrected by at most one.\<close>

definition year_of_day :: "int \<Rightarrow> int" where
  "year_of_day n = (let y = 1970 + 400 * n div 146097 in
     if n < day_from_year y then y - 1 else if day_from_year (y + 1) \<le> n then y + 1 else y)"

lemma div_step:
  fixes x k :: int
  assumes "0 < k"
  shows "x div k = (x - 1) div k + (if x mod k = 0 then 1 else 0)"
proof -
  have x: "k * (x div k) + x mod k = x" "0 \<le> x mod k" "x mod k < k" using assms by simp_all
  show ?thesis
  proof (cases "x mod k = 0")
    case True
    have "k * (x div k - 1) = k * (x div k) - k" by (simp only: right_diff_distrib mult_1_right)
    then have q: "x - 1 = k * (x div k - 1) + (k - 1)" using x(1) True by linarith
    have "(x - 1) div k = x div k - 1" by (rule int_div_pos_eq [OF q]) (use assms in simp_all)
    then show ?thesis using True by simp
  next
    case False
    have q: "x - 1 = k * (x div k) + (x mod k - 1)" using x(1) by linarith
    have "(x - 1) div k = x div k" by (rule int_div_pos_eq [OF q]) (use x(2,3) False in linarith)+
    then show ?thesis using False by simp
  qed
qed

lemma div_bounds: "k * (x div k) \<le> x" "x \<le> k * (x div k) + (k - 1)" if "0 < k" for x k :: int
proof -
  have "k * (x div k) + x mod k = x" "0 \<le> x mod k" "x mod k < k" using that by simp_all
  then show "k * (x div k) \<le> x" "x \<le> k * (x div k) + (k - 1)" by linarith+
qed

lemma year_length: "day_from_year (y + 1) = day_from_year y + (if leap_year y then 366 else 365)"
proof -
  have "(y - 1968) mod 4 = y mod 4" using mod_mult_self1 [of y "- 492" 4] by simp
  then have d4: "(y - 1968) div 4 = (y - 1969) div 4 + (if y mod 4 = 0 then 1 else 0)"
    using div_step [of 4 "y - 1968"] by simp
  have "(y - 1900) mod 100 = y mod 100" using mod_mult_self1 [of y "- 19" 100] by simp
  then have d100: "(y - 1900) div 100 = (y - 1901) div 100 + (if y mod 100 = 0 then 1 else 0)"
    using div_step [of 100 "y - 1900"] by simp
  have "(y - 1600) mod 400 = y mod 400" using mod_mult_self1 [of y "- 4" 400] by simp
  then have d400: "(y - 1600) div 400 = (y - 1601) div 400 + (if y mod 400 = 0 then 1 else 0)"
    using div_step [of 400 "y - 1600"] by simp
  have d: "y mod 4 = 0" if "y mod 100 = 0"
    using that dvd_trans [of 4 100 y] by (simp add: mod_eq_0_iff_dvd)
  have d': "y mod 100 = 0" if "y mod 400 = 0"
    using that dvd_trans [of 100 400 y] by (simp add: mod_eq_0_iff_dvd)
  have start: "day_from_year (y + 1) = 365 * (y - 1970) + 365 + (y - 1968) div 4 - (y - 1900) div 100 + (y - 1600) div 400"
    by (simp add: day_from_year_def)
  have "365 * t + 365 + (a + (if A then 1 else 0)) - (b + (if B then 1 else 0)) + (c + (if C then 1 else 0))
      = 365 * t + a - b + c + (if A \<and> (\<not> B \<or> C) then 366 else 365)" if "B \<Longrightarrow> A" "C \<Longrightarrow> B"
    for A B C and t a b c :: int
    using that by (cases A; cases B; cases C) simp_all
  from this [where A = "y mod 4 = 0" and B = "y mod 100 = 0" and C = "y mod 400 = 0", OF d d'] show ?thesis
    unfolding start d4 d100 d400 leap_year_def by (simp only: day_from_year_def)
qed

text \<open>A year starts at most one and a half days from the mean.\<close>

lemma year_start_mean:
  "400 * day_from_year z \<le> 146097 * (z - 1970) + 600" "146097 * (z - 1970) - 600 \<le> 400 * day_from_year z"
proof -
  define a b c where "a = (z - 1969) div 4" and "b = (z - 1901) div 100" and "c = (z - 1601) div 400"
  have "4 * a \<le> z - 1969" "z - 1969 \<le> 4 * a + (4 - 1)" "100 * b \<le> z - 1901" "z - 1901 \<le> 100 * b + (100 - 1)"
    "400 * c \<le> z - 1601" "z - 1601 \<le> 400 * c + (400 - 1)"
    unfolding a_def b_def c_def by (rule div_bounds; rule zero_less_numeral)+
  then show "400 * day_from_year z \<le> 146097 * (z - 1970) + 600" "146097 * (z - 1970) - 600 \<le> 400 * day_from_year z"
    unfolding day_from_year_def a_def [symmetric] b_def [symmetric] c_def [symmetric] by (simp_all add: algebra_simps)
qed

lemma year_start_less: "y < z \<Longrightarrow> day_from_year y + 365 * (z - y) \<le> day_from_year z"
proof (induction "nat (z - y - 1)" arbitrary: z)
  case 0
  then have "z = y + 1" by simp
  then show ?case using year_length [of y] by simp
next
  case (Suc n)
  then have "day_from_year y + 365 * (z - 1 - y) \<le> day_from_year (z - 1)" by (intro Suc.hyps(1)) simp_all
  then show ?case using year_length [of "z - 1"] by simp
qed

lemma year_unique:
  assumes "day_from_year y \<le> n" "n < day_from_year (y + 1)" "day_from_year z \<le> n" "n < day_from_year (z + 1)"
  shows "y = z"
proof -
  consider "y = z" | "y + 1 = z" | "y + 1 < z" | "z + 1 = y" | "z + 1 < y" by linarith
  then show ?thesis using assms year_start_less [of "y + 1" z] year_start_less [of "z + 1" y] by cases auto
qed

lemma year_of_day_bounds: "day_from_year (year_of_day n) \<le> n \<and> n < day_from_year (year_of_day n + 1)"
proof -
  define k where "k = 400 * n div 146097"
  have k: "146097 * k \<le> 400 * n" "400 * n \<le> 146097 * k + 146096"
    unfolding k_def using div_bounds [of 146097 "400 * n"] by simp_all
  note m = year_start_mean [of "1970 + k - 1"] year_start_mean [of "1970 + k + 2"]
  have "day_from_year (1970 + k - 1) \<le> n" "n < day_from_year (1970 + k + 2)" using m k by (simp_all add: algebra_simps)
  then show ?thesis by (auto simp: year_of_day_def k_def [symmetric] Let_def add.commute)
qed

lemma year_of_day_eq: "day_from_year y \<le> n \<Longrightarrow> n < day_from_year (y + 1) \<Longrightarrow> year_of_day n = y"
  using year_unique year_of_day_bounds by blast

section \<open>Months\<close>

definition month_lengths :: "bool \<Rightarrow> int list" where
  "month_lengths leap = [31, if leap then 29 else 28, 31, 30, 31, 30, 31, 31, 30, 31, 30, 31]"

text \<open>The month, from zero, and the day of the month, from zero, of a day within a year.\<close>

fun month_scan :: "int list \<Rightarrow> int \<Rightarrow> nat \<times> int" where
  "month_scan [] d = (0, d)"
| "month_scan (l # ls) d = (if d < l then (0, d) else let (m, r) = month_scan ls (d - l) in (Suc m, r))"

definition month_start :: "bool \<Rightarrow> nat \<Rightarrow> int" where
  "month_start leap m = sum_list (take m (month_lengths leap))"

lemma month_scan_sound:
  assumes "0 \<le> d" "d < sum_list ls" "month_scan ls d = (m, r)"
  shows "m < length ls \<and> 0 \<le> r \<and> r < ls ! m \<and> d = sum_list (take m ls) + r"
  using assms
proof (induction ls d arbitrary: m r rule: month_scan.induct)
  case (2 l ls d)
  show ?case
  proof (cases "d < l")
    case False
    obtain m' r' where s: "month_scan ls (d - l) = (m', r')" by (cases "month_scan ls (d - l)")
    with False "2.prems"(3) have "m = Suc m'" "r = r'" by simp_all
    with "2.IH" [OF False _ _ s] "2.prems" False show ?thesis by simp
  qed (use "2.prems" in simp)
qed simp

lemma month_scan_start:
  assumes "list_all (\<lambda>l. 0 < l) ls" "m < length ls" "0 \<le> r" "r < ls ! m"
  shows "month_scan ls (sum_list (take m ls) + r) = (m, r)"
  using assms
proof (induction ls arbitrary: m)
  case (Cons l ls)
  show ?case
  proof (cases m)
    case (Suc k)
    have "0 \<le> sum_list (take k ls)"
      using Cons.prems(1) by (intro sum_list_nonneg) (auto simp: list_all_iff dest!: in_set_takeD)
    with Suc Cons show ?thesis by (simp add: algebra_simps)
  qed (use Cons.prems in simp)
qed simp

lemma months_positive: "list_all (\<lambda>l. 0 < l) (month_lengths leap)"
  by (simp add: month_lengths_def)

lemma months_total: "sum_list (month_lengths leap) = (if leap then 366 else 365)"
  by (simp add: month_lengths_def)

lemma length_months [simp]: "length (month_lengths leap) = 12"
  by (simp add: month_lengths_def)

lemma month_not_empty: "k < 12 \<Longrightarrow> 1 \<le> month_lengths leap ! k"
  using months_positive [of leap] by (simp add: list_all_length int_one_le_iff_zero_less)

lemma month_length_le: "k < 12 \<Longrightarrow> 28 \<le> month_lengths leap ! k \<and> month_lengths leap ! k \<le> 31"
  by (auto simp: eval_nat_numeral less_Suc_eq month_lengths_def)

section \<open>Days\<close>

type_synonym civil = "int \<times> int \<times> int"

text \<open>Year, month from zero and day of the month from one of a day, and the day made from any such
  numbers, which need not be in range: \<open>MakeDay\<close>.\<close>

definition civil_of_day :: "int \<Rightarrow> civil" where
  "civil_of_day n = (let y = year_of_day n; (m, d) = month_scan (month_lengths (leap_year y)) (n - day_from_year y)
     in (y, int m, d + 1))"

definition make_day :: "int \<Rightarrow> int \<Rightarrow> int \<Rightarrow> int" where
  "make_day y m d = (let ym = y + m div 12 in
     day_from_year ym + month_start (leap_year ym) (nat (m mod 12)) + d - 1)"

definition civil_valid :: "int \<Rightarrow> int \<Rightarrow> int \<Rightarrow> bool" where
  "civil_valid y m d = (0 \<le> m \<and> m < 12 \<and> 1 \<le> d \<and> d \<le> month_lengths (leap_year y) ! nat m)"

lemma civil_of_day_valid:
  assumes "civil_of_day n = (y, m, d)"
  shows "civil_valid y m d" "make_day y m d = n" "year_of_day n = y"
proof -
  let ?y = "year_of_day n" let ?ls = "month_lengths (leap_year ?y)"
  obtain k r where s: "month_scan ?ls (n - day_from_year ?y) = (k, r)" by (cases "month_scan ?ls (n - day_from_year ?y)")
  with assms have eq: "y = ?y" "m = int k" "d = r + 1" by (auto simp: civil_of_day_def Let_def)
  have "0 \<le> n - day_from_year ?y" "n - day_from_year ?y < sum_list ?ls"
    using year_of_day_bounds [of n] year_length [of ?y] by (simp_all add: months_total)
  from month_scan_sound [OF this s]
  have k: "k < 12" "0 \<le> r" "r < ?ls ! k" "n - day_from_year ?y = sum_list (take k ?ls) + r" by simp_all
  then show "civil_valid y m d" by (simp add: eq civil_valid_def)
  show "make_day y m d = n" using k by (simp add: make_day_def eq month_start_def Let_def)
  show "year_of_day n = y" by (simp add: eq)
qed

lemma month_end_le: "k < 12 \<Longrightarrow> month_start leap k + month_lengths leap ! k \<le> (if leap then 366 else 365)"
  by (auto simp: eval_nat_numeral less_Suc_eq month_start_def month_lengths_def)

lemma month_start_nonneg: "0 \<le> month_start leap k"
  unfolding month_start_def using months_positive [of leap]
  by (intro sum_list_nonneg) (auto simp: list_all_iff dest!: in_set_takeD)

lemma civil_of_make_day:
  assumes "civil_valid y m d"
  shows "civil_of_day (make_day y m d) = (y, m, d)"
proof -
  from assms have v: "0 \<le> m" "m < 12" "1 \<le> d" "d \<le> month_lengths (leap_year y) ! nat m" by (simp_all add: civil_valid_def)
  then have day: "make_day y m d = day_from_year y + (month_start (leap_year y) (nat m) + (d - 1))"
    by (simp add: make_day_def)
  have y: "year_of_day (make_day y m d) = y"
  proof (rule year_of_day_eq)
    show "day_from_year y \<le> make_day y m d" using month_start_nonneg [of "leap_year y" "nat m"] v by (simp add: day)
    show "make_day y m d < day_from_year (y + 1)"
    proof -
      have "nat m < 12" using v by simp
      from month_end_le [OF this, of "leap_year y"] v(4) show ?thesis
        unfolding day year_length by (cases "leap_year y"; simp only: if_True if_False; linarith)
    qed
  qed
  have "month_scan (month_lengths (leap_year y)) (month_start (leap_year y) (nat m) + (d - 1)) = (nat m, d - 1)"
    unfolding month_start_def using months_positive v by (intro month_scan_start) simp_all
  with y v show ?thesis by (simp add: civil_of_day_def day)
qed

section \<open>Time values\<close>

definition MS_PER_DAY :: int where "MS_PER_DAY = 86400000"

definition day_of :: "int \<Rightarrow> int" where "day_of t = t div MS_PER_DAY"
definition time_in_day :: "int \<Rightarrow> int" where "time_in_day t = t mod MS_PER_DAY"

definition make_date :: "int \<Rightarrow> int \<Rightarrow> int" where "make_date day time = day * MS_PER_DAY + time"

lemma make_date_split [simp]: "make_date (day_of t) (time_in_day t) = t"
  by (simp add: make_date_def day_of_def time_in_day_def)

lemma day_of_make_date: "0 \<le> time \<Longrightarrow> time < MS_PER_DAY \<Longrightarrow> day_of (make_date day time) = day"
  "0 \<le> time \<Longrightarrow> time < MS_PER_DAY \<Longrightarrow> time_in_day (make_date day time) = time"
  by (simp_all add: make_date_def day_of_def time_in_day_def MS_PER_DAY_def)

text \<open>A date object is a time value or invalid; the range is 100 million days around 1970.\<close>

type_synonym jdate = "int option"

definition time_clip :: "int \<Rightarrow> jdate" where
  "time_clip t = (if \<bar>t\<bar> \<le> 8640000000000000 then Some t else None)"

text \<open>\<open>ToIntegerOrInfinity\<close>; the infinities make every date invalid, like \<open>NaN\<close>.\<close>

fun to_integer :: "jnum \<Rightarrow> int option" where
  "to_integer (JFin q) = Some (trunc_rat q)"
| "to_integer _ = None"

lemma to_integer_jint [simp]: "to_integer (jint n) = Some n"
  by (simp add: trunc_rat_def)

text \<open>\<open>Date.UTC(year, month, day)\<close>: the years 0 to 99 mean 1900 to 1999.\<close>

definition date_utc :: "jnum \<Rightarrow> jnum \<Rightarrow> jnum \<Rightarrow> jdate" where
  "date_utc year month day = (case (to_integer year, to_integer month, to_integer day) of
     (Some y, Some m, Some d) \<Rightarrow>
       time_clip (make_date (make_day (if 0 \<le> y \<and> y \<le> 99 then 1900 + y else y) m d) 0)
   | _ \<Rightarrow> None)"

text \<open>The time zone of the machine: local time of a time value, and the time value of a local time.\<close>

record timezone =
  tz_local :: "int \<Rightarrow> int"
  tz_utc :: "int \<Rightarrow> int"

definition fixed_zone :: "int \<Rightarrow> timezone" where
  "fixed_zone offset = \<lparr> tz_local = (\<lambda>t. t + offset), tz_utc = (\<lambda>t. t - offset) \<rparr>"

lemma fixed_zone_simps [simp]:
  "tz_local (fixed_zone off) t = t + off" "tz_utc (fixed_zone off) t = t - off"
  by (simp_all add: fixed_zone_def)

definition local_civil :: "timezone \<Rightarrow> int \<Rightarrow> civil" where
  "local_civil tz t = civil_of_day (day_of (tz_local tz t))"

definition utc_civil :: "int \<Rightarrow> civil" where
  "utc_civil t = civil_of_day (day_of t)"

text \<open>The setters on local fields: hours with all smaller fields, hours alone, minutes, day of the month,
  month.\<close>

definition set_hours4 :: "timezone \<Rightarrow> int \<Rightarrow> int \<Rightarrow> int \<Rightarrow> int \<Rightarrow> int \<Rightarrow> jdate" where
  "set_hours4 tz h m s ms t =
     time_clip (tz_utc tz (make_date (day_of (tz_local tz t)) (((h * 60 + m) * 60 + s) * 1000 + ms)))"

definition get_hours :: "timezone \<Rightarrow> int \<Rightarrow> int" where
  "get_hours tz t = time_in_day (tz_local tz t) div 3600000"

definition set_hours :: "timezone \<Rightarrow> int \<Rightarrow> int \<Rightarrow> jdate" where
  "set_hours tz h t = time_clip (tz_utc tz (make_date (day_of (tz_local tz t))
     (h * 3600000 + time_in_day (tz_local tz t) mod 3600000)))"

definition set_minutes3 :: "timezone \<Rightarrow> int \<Rightarrow> int \<Rightarrow> int \<Rightarrow> int \<Rightarrow> jdate" where
  "set_minutes3 tz m s ms t = time_clip (tz_utc tz (make_date (day_of (tz_local tz t))
     (time_in_day (tz_local tz t) div 3600000 * 3600000 + (m * 60 + s) * 1000 + ms)))"

definition get_date :: "timezone \<Rightarrow> int \<Rightarrow> int" where
  "get_date tz t = snd (snd (local_civil tz t))"

definition set_date :: "timezone \<Rightarrow> int \<Rightarrow> int \<Rightarrow> jdate" where
  "set_date tz d t = (let (y, m, _) = local_civil tz t in
     time_clip (tz_utc tz (make_date (make_day y m d) (time_in_day (tz_local tz t)))))"

definition get_month :: "timezone \<Rightarrow> int \<Rightarrow> int" where
  "get_month tz t = fst (snd (local_civil tz t))"

definition set_month :: "timezone \<Rightarrow> int \<Rightarrow> int \<Rightarrow> jdate" where
  "set_month tz m t = (let (y, _, d) = local_civil tz t in
     time_clip (tz_utc tz (make_date (make_day y m d) (time_in_day (tz_local tz t)))))"

section \<open>Texts\<close>

definition pad2 :: "int \<Rightarrow> jstr" where "pad2 n = pad_left 2 48 (int_to_str n)"

definition iso_year :: "int \<Rightarrow> jstr" where
  "iso_year y = (if 0 \<le> y \<and> y \<le> 9999 then pad_left 4 48 (int_to_str y)
     else (if y < 0 then [45] else [43]) @ pad_left 6 48 (int_to_str \<bar>y\<bar>))"

definition iso_day :: "int \<Rightarrow> jstr" where
  "iso_day day = (let (y, m, d) = civil_of_day day in iso_year y @ [45] @ pad2 (m + 1) @ [45] @ pad2 d)"

definition to_iso_string :: "int \<Rightarrow> jstr" where
  "to_iso_string t = (let s = time_in_day t in
     iso_day (day_of t) @ js ''T'' @ pad2 (s div 3600000) @ js '':'' @ pad2 (s div 60000 mod 60) @ js '':''
       @ pad2 (s div 1000 mod 60) @ js ''.'' @ pad_left 3 48 (int_to_str (s mod 1000)) @ js ''Z'')"

end
