(* ===== verification/ModelMetadata.thy ===== *)
theory ModelMetadata
  imports SeedRandom Js_Date PricingFilters
begin

text \<open>
  Metadata the price page infers for a model (\<open>features/pricing/lib/model-metadata.ts\<close>): modalities and
  capabilities from endpoints, tags and name, sizes and dates from a generator seeded with the name, vendor data
  from the name. \<open>toLowerCase\<close> (\<open>lower\<close>), the number format (\<open>fmt\<close>), the month text (\<open>show_month\<close>) and the time
  zone are parameters. A lookup in an object literal also finds the members every object inherits.
\<close>

section \<open>Lookup in an object literal\<close>

datatype 'a found = Own 'a | Inherited jstr

fun is_own :: "'a found \<Rightarrow> bool" where
  "is_own (Own _) = True"
| "is_own (Inherited _) = False"

definition OBJECT_PROTOTYPE :: "jstr list" where
  "OBJECT_PROTOTYPE = map js [''constructor'', ''__defineGetter__'', ''__defineSetter__'', ''hasOwnProperty'',
     ''__lookupGetter__'', ''__lookupSetter__'', ''isPrototypeOf'', ''propertyIsEnumerable'', ''toString'',
     ''valueOf'', ''__proto__'', ''toLocaleString'']"

definition object_get :: "(jstr \<times> 'a) list \<Rightarrow> jstr \<Rightarrow> 'a found option" where
  "object_get table key = (case map_of table key of Some x \<Rightarrow> Some (Own x)
     | None \<Rightarrow> if key \<in> set OBJECT_PROTOTYPE then Some (Inherited key) else None)"

section \<open>Tables\<close>

definition TEXT_INPUT_ENDPOINTS :: "jstr list" where
  "TEXT_INPUT_ENDPOINTS = map js [''openai'', ''openai-response'', ''anthropic'', ''gemini'', ''embeddings'', ''jina-rerank'']"

definition IMAGE_OUTPUT_ENDPOINTS :: "jstr list" where "IMAGE_OUTPUT_ENDPOINTS = [js ''image-generation'']"
definition VIDEO_OUTPUT_ENDPOINTS :: "jstr list" where "VIDEO_OUTPUT_ENDPOINTS = [js ''openai-video'']"
definition EMBEDDING_ENDPOINTS :: "jstr list" where "EMBEDDING_ENDPOINTS = [js ''embeddings'', js ''jina-rerank'']"

abbreviation RDot :: rx where "RDot \<equiv> RCh (\<lambda>c. \<not> line_end c)"
abbreviation RLits :: "string list \<Rightarrow> rx" where "RLits ws \<equiv> RAlts (map (\<lambda>w. RStr (js w)) ws)"
abbreviation RLitsI :: "string list \<Rightarrow> rx" where "RLitsI ws \<equiv> RAlts (map (\<lambda>w. RStrI (js w)) ws)"

definition REASONING_NAME_PATTERNS :: "rx list" where
  "REASONING_NAME_PATTERNS =
    [RSeqs [RBol, RStrI (js ''o''), RCh (\<lambda>c. 49 \<le> c \<and> c \<le> 52),
       ROpt (RSeq (RCh (\<lambda>c. c = 45 \<or> c = 58 \<or> c = 95)) (RPlus RDot)), REol],
     RStrI (js ''reasoning''), RStrI (js ''thinking''), RStrI (js ''qwq''),
     RSeq (RStrI (js ''deepseek-r'')) (RCh is_digit),
     RSeqs [RStrI (js ''grok''), RStar RDot, RStrI (js ''-''), RLitsI [''thinking'', ''reasoning'']]]"

definition VISION_NAME_PATTERNS :: "rx list" where
  "VISION_NAME_PATTERNS = [RStrI (js ''vision''), RSeq (RStrI (js ''vl'')) (RAlt (RCh (\<lambda>c. c = 45 \<or> c = 95)) REol),
     RStrI (js ''multimodal''), RStrI (js ''-omni'')]"

definition AUDIO_NAME_PATTERNS :: "rx list" where
  "AUDIO_NAME_PATTERNS = map (\<lambda>w. RStrI (js w)) [''audio'', ''whisper'', ''tts'', ''voice'', ''-realtime'']"

definition VIDEO_NAME_PATTERNS :: "rx list" where
  "VIDEO_NAME_PATTERNS = map (\<lambda>w. RStrI (js w)) [''video'', ''sora'', ''veo'', ''kling'', ''pika'']"

definition CODE_NAME_PATTERNS :: "rx list" where
  "CODE_NAME_PATTERNS = [RStrI (js ''code''), RStrI (js ''-coder'')]"

definition WEB_SEARCH_PATTERNS :: "rx list" where
  "WEB_SEARCH_PATTERNS =
    [RSeqs [RStrI (js ''web''), ROpt (RCh (\<lambda>c. c = 45 \<or> c = 95 \<or> c = 32)), RStrI (js ''search'')],
     RStrI (js ''-online''), RStrI (js ''perplexity'')]"

definition KNOWLEDGE_CUTOFFS :: "jstr list" where
  "KNOWLEDGE_CUTOFFS = map js [''2023-04'', ''2023-10'', ''2023-12'', ''2024-04'', ''2024-06'', ''2024-08'',
     ''2024-10'', ''2024-12'', ''2025-02'', ''2025-04'', ''2025-08'']"

definition PARAM_BUCKETS :: "jstr list" where
  "PARAM_BUCKETS = map js [''1.5B'', ''3B'', ''7B'', ''8B'', ''14B'', ''32B'', ''70B'', ''120B'', ''405B'']"

definition CONTEXT_BUCKETS :: "jnum list" where
  "CONTEXT_BUCKETS = map jint [8192, 16384, 32768, 65536, 128000, 200000, 1000000]"

definition MAX_OUTPUT_BUCKETS :: "jnum list" where
  "MAX_OUTPUT_BUCKETS = map jint [2048, 4096, 8192, 16384, 32768, 65536]"

definition TAG_TO_CAPABILITY :: "(jstr \<times> ModelCapability) list" where
  "TAG_TO_CAPABILITY = [(js ''vision'', Vision), (js ''multimodal'', Vision), (js ''reasoning'', Reasoning),
     (js ''thinking'', Reasoning), (js ''tools'', Tools), (js ''function'', Function_calling),
     (js ''function-calling'', Function_calling), (js ''streaming'', Streaming), (js ''json'', Json_mode),
     (js ''structured'', Structured_output), (js ''search'', Web_search), (js ''code'', Code_interpreter),
     (js ''embedding'', Embeddings)]"

definition TAG_TO_MODALITY :: "(jstr \<times> Modality) list" where
  "TAG_TO_MODALITY = [(js ''text'', Text), (js ''image'', Image), (js ''audio'', Audio), (js ''video'', Video),
     (js ''file'', File), (js ''document'', File), (js ''pdf'', File)]"

section \<open>Inference from name, tags and endpoints\<close>

text \<open>\<open>buckets[i]\<close> is \<open>undefined\<close> out of range.\<close>

definition pickFromBuckets :: "'a list \<Rightarrow> jnum \<Rightarrow> 'a option \<times> jnum" where
  "pickFromBuckets buckets rand = (let (r, rand') = next_random rand in
     (case jfloor (jmul r (jint (int (length buckets)))) of
        JFin q \<Rightarrow> if 0 \<le> q \<and> nat \<lfloor>q\<rfloor> < length buckets then Some (buckets ! nat \<lfloor>q\<rfloor>) else None
      | _ \<Rightarrow> None, rand'))"

definition parseModelTags :: "(jstr \<Rightarrow> jstr) \<Rightarrow> jstr option \<Rightarrow> jstr list" where
  "parseModelTags lower tagsString = (case tagsString of None \<Rightarrow> [] | Some s \<Rightarrow> if s = [] then []
     else filter (\<lambda>t. t \<noteq> []) (map (\<lambda>t. lower (trim t)) (split_rx (length s) (RPlus (RCh tag_sep)) [] s)))"

definition nameMatches :: "jstr \<Rightarrow> rx list \<Rightarrow> bool" where
  "nameMatches name patterns = list_ex (\<lambda>re. rx_test re name) patterns"

definition has_endpoint :: "jstr list \<Rightarrow> jstr list \<Rightarrow> bool" where
  "has_endpoint endpoints table = list_ex (\<lambda>e. e \<in> set table) endpoints"

text \<open>\<open>set.add(x)\<close>, under a condition, and for the tags found in a table.\<close>

definition set_add :: "'a \<Rightarrow> 'a list \<Rightarrow> 'a list" where
  "set_add x s = (if x \<in> set s then s else s @ [x])"

definition add_when :: "bool \<Rightarrow> 'a \<Rightarrow> 'a found list \<Rightarrow> 'a found list" where
  "add_when b x s = (if b then set_add (Own x) s else s)"

definition add_tags :: "(jstr \<times> 'a) list \<Rightarrow> jstr list \<Rightarrow> 'a found list \<Rightarrow> 'a found list" where
  "add_tags table tags s =
     foldl (\<lambda>s tag. case object_get table tag of None \<Rightarrow> s | Some x \<Rightarrow> set_add x s) s tags"

definition ordered :: "Modality found list \<Rightarrow> Modality list" where
  "ordered modalities = filter (\<lambda>m. Own m \<in> set modalities) [Text, Image, Audio, Video, File]"

definition inferInputModalities :: "PricingModel \<Rightarrow> jstr list \<Rightarrow> jstr list \<Rightarrow> jstr \<Rightarrow> Modality list" where
  "inferInputModalities model tags endpoints name = (let
       s = add_when (endpoints = [] \<or> has_endpoint endpoints TEXT_INPUT_ENDPOINTS) Text [];
       s = add_when (pm_image_ratio model \<noteq> None \<or> nameMatches name VISION_NAME_PATTERNS) Image s;
       s = add_when (pm_audio_ratio model \<noteq> None \<or> nameMatches name AUDIO_NAME_PATTERNS) Audio s;
       s = add_when (nameMatches name VIDEO_NAME_PATTERNS) Video s;
       s = add_tags TAG_TO_MODALITY tags s
     in ordered (if s = [] then [Own Text] else s))"

definition inferOutputModalities :: "PricingModel \<Rightarrow> jstr list \<Rightarrow> jstr \<Rightarrow> Modality list" where
  "inferOutputModalities model endpoints name = (let
       s = add_when (has_endpoint endpoints IMAGE_OUTPUT_ENDPOINTS) Image [];
       s = add_when (has_endpoint endpoints VIDEO_OUTPUT_ENDPOINTS) Video s;
       s = add_when (has_endpoint endpoints EMBEDDING_ENDPOINTS) Text s;
       s = add_when (pm_audio_completion_ratio model \<noteq> None \<or> rx_test (RLitsI [''tts'', ''voice'', ''audio-out'']) name) Audio s
     in ordered (if s = [] then [Own Text] else s))"

definition inferCapabilities :: "PricingModel \<Rightarrow> jstr list \<Rightarrow> jstr list \<Rightarrow> jstr \<Rightarrow> Modality list \<Rightarrow> Modality list
    \<Rightarrow> ModelCapability found list" where
  "inferCapabilities model tags endpoints name outputs inputs = (let
       images = js ''image-generation'' \<in> set endpoints;
       chat = (Text \<in> set outputs \<and> \<not> images);
       s = add_when chat System_prompt (add_when chat Streaming []);
       calls = (\<not> images \<and> js ''embeddings'' \<notin> set endpoints \<and> js ''jina-rerank'' \<notin> set endpoints);
       s = add_when calls Structured_output (add_when calls Json_mode (add_when calls Tools (add_when calls Function_calling s)));
       s = add_when (Image \<in> set inputs) Vision s;
       s = add_when (pm_cache_ratio model \<noteq> None) Caching s;
       s = add_when (has_endpoint endpoints EMBEDDING_ENDPOINTS) Embeddings s;
       s = add_when (nameMatches name REASONING_NAME_PATTERNS) Reasoning s;
       s = add_when (nameMatches name CODE_NAME_PATTERNS) Code_interpreter s;
       s = add_when (nameMatches name WEB_SEARCH_PATTERNS) Web_search s
     in add_tags TAG_TO_CAPABILITY tags s)"

section \<open>Sizes and dates\<close>

definition inferContextAndOutputs :: "(jstr \<Rightarrow> jstr) \<Rightarrow> jstr \<Rightarrow> jnum \<Rightarrow> jstr list
    \<Rightarrow> (jnum option \<times> jnum option) \<times> jnum" where
  "inferContextAndOutputs lower name rand endpoints =
    (if js ''embeddings'' \<in> set endpoints \<or> js ''jina-rerank'' \<in> set endpoints
     then ((Some (JFin 8192), Some (JFin 0)), rand)
     else if js ''image-generation'' \<in> set endpoints \<or> js ''openai-video'' \<in> set endpoints
     then ((Some (JFin 4096), Some (JFin 0)), rand)
     else let low = lower name in
       if has_sub (js ''1m'') low \<or> has_sub (js ''-long'') low
       then ((Some (JFin 1000000), Some (JFin 65536)), rand)
       else if has_sub (js ''200k'') low \<or> has_sub (js ''claude-3'') low \<or> has_sub (js ''claude-4'') low
       then ((Some (JFin 200000), Some (JFin 16384)), rand)
       else if has_sub (js ''128k'') low \<or> rx_test (RLits [''gpt-4o'', ''gpt-4.1'', ''gpt-5'', ''o1'', ''o3'', ''o4'']) low
       then ((Some (JFin 128000), Some (JFin 16384)), rand)
       else if rx_test (RAlts (map (\<lambda>w. RSeqs [RStr (js ''gemini''), RStar RDot, RStr (js w)]) [''-2'', ''pro'', ''flash''])) low
       then ((Some (JFin 1000000), Some (JFin 8192)), rand)
       else if rx_test (RLits [''gpt-3.5'', ''claude-2'']) low
       then ((Some (JFin 16384), Some (JFin 4096)), rand)
       else let (context, rand) = pickFromBuckets CONTEXT_BUCKETS rand;
                (pick, rand) = pickFromBuckets MAX_OUTPUT_BUCKETS rand
            in ((context, Some (jmin (upd context JNaN) (upd pick JNaN))), rand))"

text \<open>A missing piece of the split text is \<open>undefined\<close>, which is \<open>NaN\<close> as a number.\<close>

definition nth_number :: "jstr list \<Rightarrow> nat \<Rightarrow> jnum" where
  "nth_number parts i = (if i < length parts then str_to_num (parts ! i) else JNaN)"

text \<open>Release and cutoff; \<open>None\<close> is the exception of \<open>cutoff.split\<close> for an undefined cutoff.\<close>

definition release_date :: "jstr \<Rightarrow> jnum \<Rightarrow> jstr" where
  "release_date cutoff r = (let
       year = nth_number (split_on 45 cutoff) 0;
       month = nth_number (split_on 45 cutoff) 1;
       offsetMonths = jadd (JFin 4) (jfloor (jmul r (JFin 6)));
       releaseMonth = jadd month offsetMonths;
       releaseYear = jadd year (jfloor (jdiv (jsub releaseMonth (JFin 1)) (JFin 12)));
       finalMonth = jadd (jmod (jsub releaseMonth (JFin 1)) (JFin 12)) (JFin 1)
     in num_to_str releaseYear @ js ''-'' @ pad_left 2 48 (num_to_str finalMonth) @ js ''-15'')"

definition inferReleaseAndCutoff :: "jnum \<Rightarrow> (jstr \<times> jstr) option \<times> jnum" where
  "inferReleaseAndCutoff rand = (case pickFromBuckets KNOWLEDGE_CUTOFFS rand of
       (None, rand) \<Rightarrow> (None, rand)
     | (Some cutoff, rand) \<Rightarrow> let (r, rand) = next_random rand in (Some (release_date cutoff r, cutoff), rand))"

record ModelMetadata =
  md_context_length :: "jnum option"
  md_max_output_tokens :: "jnum option"
  md_knowledge_cutoff :: jstr
  md_release_date :: jstr
  md_parameter_count :: "jstr option"
  md_input_modalities :: "Modality list"
  md_output_modalities :: "Modality list"
  md_capabilities :: "ModelCapability found list"

definition or_else :: "'a option \<Rightarrow> 'a option \<Rightarrow> 'a option" where
  "or_else x y = (case x of None \<Rightarrow> y | Some _ \<Rightarrow> x)"

definition inferModelMetadata :: "(jstr \<Rightarrow> jstr) \<Rightarrow> PricingModel \<Rightarrow> ModelMetadata option" where
  "inferModelMetadata lower model = (let
       name = pm_name model;
       rand = seededRandom (hashStringToSeed name);
       tags = parseModelTags lower (pm_tags model);
       endpoints = upd (pm_endpoint_types model) [];
       inputs = upd (pm_input_modalities model) (inferInputModalities model tags endpoints name);
       outputs = upd (pm_output_modalities model) (inferOutputModalities model endpoints name);
       capabilities = upd (map_option (map Own) (pm_capabilities model))
         (inferCapabilities model tags endpoints name outputs inputs);
       ((context, maxOutput), rand) = inferContextAndOutputs lower name rand endpoints
     in case inferReleaseAndCutoff rand of
          (None, _) \<Rightarrow> None
        | (Some (release, cutoff), rand) \<Rightarrow> Some \<lparr>
            md_context_length = or_else (pm_context_length model) context,
            md_max_output_tokens = or_else (pm_max_output_tokens model) maxOutput,
            md_knowledge_cutoff = upd (pm_knowledge_cutoff model) cutoff,
            md_release_date = upd (pm_release_date model) release,
            md_parameter_count = or_else (pm_parameter_count model) (fst (pickFromBuckets PARAM_BUCKETS rand)),
            md_input_modalities = inputs, md_output_modalities = outputs, md_capabilities = capabilities \<rparr>)"

section \<open>Texts\<close>

definition EM_DASH :: jstr where "EM_DASH = [8212]"

definition formatTokenCount :: "(jnum \<Rightarrow> jstr) \<Rightarrow> jnum \<Rightarrow> jstr" where
  "formatTokenCount fmt tokens = (if \<not> is_finite tokens \<or> jle tokens (JFin 0) then EM_DASH
     else if jle (JFin 1000000) tokens then fmt (jdiv tokens (JFin 1000000)) @ js ''M''
     else if jle (JFin 1000) tokens then fmt (jdiv tokens (JFin 1000)) @ js ''K''
     else fmt tokens)"

definition formatYearMonth :: "timezone \<Rightarrow> (int \<Rightarrow> int \<Rightarrow> jstr) \<Rightarrow> jstr \<Rightarrow> jstr" where
  "formatYearMonth tz show_month v = (if v = [] then EM_DASH
     else let year = nth_number (split_on 45 v) 0; month = nth_number (split_on 45 v) 1 in
       if \<not> is_finite year \<or> \<not> is_finite month then v
       else case date_utc year (jsub month (JFin 1)) (JFin 1) of
         None \<Rightarrow> js ''Invalid Date''
       | Some t \<Rightarrow> let (y, m, _) = local_civil tz t in show_month y m)"

section \<open>Vendors\<close>

datatype ModelVendor = V_openai | V_anthropic | V_google | V_meta | V_mistral | V_qwen | V_deepseek | V_xai | V_cohere
  | V_baidu | V_zhipu | V_moonshot | V_minimax | V_tencent | V_bytedance | V_midjourney | V_stability | V_unknown

datatype LicenseKind = Proprietary | Open_license | Open_weight | Unknown_license

record ApiInfo =
  ai_vendor :: ModelVendor
  ai_vendor_label :: jstr
  ai_tokenizer :: jstr
  ai_tokenizer_note :: "jstr option"
  ai_license :: jstr
  ai_license_kind :: LicenseKind
  ai_retention_days :: jnum
  ai_training_opt_out :: bool
  ai_homepage :: "jstr option"

fun VENDOR_LABELS :: "ModelVendor \<Rightarrow> jstr" where
  "VENDOR_LABELS V_openai = js ''OpenAI''"
| "VENDOR_LABELS V_anthropic = js ''Anthropic''"
| "VENDOR_LABELS V_google = js ''Google''"
| "VENDOR_LABELS V_meta = js ''Meta''"
| "VENDOR_LABELS V_mistral = js ''Mistral AI''"
| "VENDOR_LABELS V_qwen = js ''Alibaba (Qwen)''"
| "VENDOR_LABELS V_deepseek = js ''DeepSeek''"
| "VENDOR_LABELS V_xai = js ''xAI''"
| "VENDOR_LABELS V_cohere = js ''Cohere''"
| "VENDOR_LABELS V_baidu = js ''Baidu''"
| "VENDOR_LABELS V_zhipu = js ''Zhipu AI''"
| "VENDOR_LABELS V_moonshot = js ''Moonshot AI''"
| "VENDOR_LABELS V_minimax = js ''MiniMax''"
| "VENDOR_LABELS V_tencent = js ''Tencent''"
| "VENDOR_LABELS V_bytedance = js ''ByteDance''"
| "VENDOR_LABELS V_midjourney = js ''Midjourney''"
| "VENDOR_LABELS V_stability = js ''Stability AI''"
| "VENDOR_LABELS V_unknown = js ''Unknown''"

text \<open>The tests of \<open>detectVendor\<close>, in its order.\<close>

definition VENDOR_PATTERNS :: "(rx \<times> ModelVendor) list" where
  "VENDOR_PATTERNS =
    [(RAlts [RSeq RBol (RStr (js ''gpt'')), RSeqs [RBol, RStr (js ''o''), RCh (\<lambda>c. 49 \<le> c \<and> c \<le> 52)],
        RStr (js ''davinci''), RStr (js ''babbage''), RStr (js ''whisper''), RStr (js ''tts''),
        RSeqs [RStr (js ''dall''), ROpt RDot, RStr (js ''e'')], RStr (js ''sora''), RSeq RBol (RStr (js ''omni''))], V_openai),
     (RStr (js ''claude''), V_anthropic),
     (RLits [''gemini'', ''gemma'', ''imagen'', ''veo'', ''palm''], V_google),
     (RAlt (RStr (js ''llama'')) (RSeq RBol (RStr (js ''codellama''))), V_meta),
     (RLits [''mistral'', ''mixtral'', ''codestral'', ''magistral'', ''pixtral''], V_mistral),
     (RLits [''qwen'', ''qwq'', ''qvq''], V_qwen),
     (RStr (js ''deepseek''), V_deepseek),
     (RStr (js ''grok''), V_xai),
     (RLits [''command'', ''cohere'', ''aya''], V_cohere),
     (RLits [''ernie'', ''wenxin''], V_baidu),
     (RLits [''glm'', ''chatglm'', ''cogview'', ''cogvideo''], V_zhipu),
     (RLits [''kimi'', ''moonshot''], V_moonshot),
     (RLits [''abab'', ''minimax'', ''hailuo''], V_minimax),
     (RStr (js ''hunyuan''), V_tencent),
     (RLits [''doubao'', ''seed'', ''jimeng''], V_bytedance),
     (RLits [''midjourney'', ''niji''], V_midjourney),
     (RAlts [RSeq RBol (RStr (js ''sd-'')), RSeqs [RStr (js ''stable''), ROpt (RCh (\<lambda>c. c = 45 \<or> c = 95)), RStr (js ''diffusion'')],
        RStr (js ''sdxl'')], V_stability)]"

definition detectVendor :: "(jstr \<Rightarrow> jstr) \<Rightarrow> jstr \<Rightarrow> ModelVendor" where
  "detectVendor lower name = (case find (\<lambda>(re, _). rx_test re (lower name)) VENDOR_PATTERNS of
     None \<Rightarrow> V_unknown | Some (_, v) \<Rightarrow> v)"

fun TOKENIZER_BY_VENDOR :: "ModelVendor \<Rightarrow> jstr option" where
  "TOKENIZER_BY_VENDOR V_openai = Some (js ''o200k_base'')"
| "TOKENIZER_BY_VENDOR V_anthropic = Some (js ''Anthropic Claude tokenizer'')"
| "TOKENIZER_BY_VENDOR V_google = Some (js ''SentencePiece (Gemini)'')"
| "TOKENIZER_BY_VENDOR V_meta = Some (js ''Llama 3 tokenizer'')"
| "TOKENIZER_BY_VENDOR V_mistral = Some (js ''Mistral tokenizer (BPE)'')"
| "TOKENIZER_BY_VENDOR V_qwen = Some (js ''Qwen tokenizer (tiktoken-compat)'')"
| "TOKENIZER_BY_VENDOR V_deepseek = Some (js ''DeepSeek tokenizer (BPE)'')"
| "TOKENIZER_BY_VENDOR V_xai = Some (js ''Grok tokenizer (BPE)'')"
| "TOKENIZER_BY_VENDOR V_cohere = Some (js ''Cohere tokenizer'')"
| "TOKENIZER_BY_VENDOR V_baidu = Some (js ''Ernie tokenizer'')"
| "TOKENIZER_BY_VENDOR V_zhipu = Some (js ''GLM tokenizer'')"
| "TOKENIZER_BY_VENDOR V_moonshot = Some (js ''Kimi tokenizer'')"
| "TOKENIZER_BY_VENDOR V_minimax = Some (js ''ABAB tokenizer'')"
| "TOKENIZER_BY_VENDOR V_tencent = Some (js ''Hunyuan tokenizer'')"
| "TOKENIZER_BY_VENDOR V_bytedance = Some (js ''Doubao tokenizer'')"
| "TOKENIZER_BY_VENDOR _ = None"

definition inferTokenizer :: "(jstr \<Rightarrow> jstr) \<Rightarrow> PricingModel \<Rightarrow> ModelVendor \<Rightarrow> jstr \<times> jstr option" where
  "inferTokenizer lower model vendor = (let name = lower (pm_name model) in
     if vendor = V_openai then
       if rx_test (RLits [''gpt-3'', ''davinci'', ''babbage'', ''whisper'', ''tts'']) name
       then (js ''cl100k_base'', Some (js ''Older GPT-3.5 family''))
       else (js ''o200k_base'', None)
     else (upd (TOKENIZER_BY_VENDOR vendor) (js ''BPE (vendor-specific)''), None))"

abbreviation commercial :: "jstr \<times> LicenseKind" where
  "commercial \<equiv> (js ''Proprietary (commercial)'', Proprietary)"

fun LICENSE_BY_VENDOR :: "ModelVendor \<Rightarrow> jstr \<times> LicenseKind" where
  "LICENSE_BY_VENDOR V_openai = commercial"
| "LICENSE_BY_VENDOR V_anthropic = commercial"
| "LICENSE_BY_VENDOR V_google = commercial"
| "LICENSE_BY_VENDOR V_meta = (js ''Llama Community License'', Open_weight)"
| "LICENSE_BY_VENDOR V_mistral = (js ''Apache 2.0 / Commercial'', Open_weight)"
| "LICENSE_BY_VENDOR V_qwen = (js ''Tongyi Qianwen License'', Open_weight)"
| "LICENSE_BY_VENDOR V_deepseek = (js ''DeepSeek License'', Open_weight)"
| "LICENSE_BY_VENDOR V_xai = commercial"
| "LICENSE_BY_VENDOR V_cohere = commercial"
| "LICENSE_BY_VENDOR V_baidu = commercial"
| "LICENSE_BY_VENDOR V_zhipu = (js ''GLM-4 License'', Open_weight)"
| "LICENSE_BY_VENDOR V_moonshot = commercial"
| "LICENSE_BY_VENDOR V_minimax = commercial"
| "LICENSE_BY_VENDOR V_tencent = (js ''Hunyuan License'', Open_weight)"
| "LICENSE_BY_VENDOR V_bytedance = commercial"
| "LICENSE_BY_VENDOR V_midjourney = commercial"
| "LICENSE_BY_VENDOR V_stability = (js ''Stability AI Community License'', Open_weight)"
| "LICENSE_BY_VENDOR V_unknown = (js ''Provider-specific'', Unknown_license)"

fun HOMEPAGE_BY_VENDOR :: "ModelVendor \<Rightarrow> jstr option" where
  "HOMEPAGE_BY_VENDOR V_openai = Some (js ''https://platform.openai.com/docs/models'')"
| "HOMEPAGE_BY_VENDOR V_anthropic = Some (js ''https://docs.anthropic.com/claude/docs/models-overview'')"
| "HOMEPAGE_BY_VENDOR V_google = Some (js ''https://ai.google.dev/models'')"
| "HOMEPAGE_BY_VENDOR V_meta = Some (js ''https://llama.meta.com/'')"
| "HOMEPAGE_BY_VENDOR V_mistral = Some (js ''https://docs.mistral.ai/getting-started/models/'')"
| "HOMEPAGE_BY_VENDOR V_qwen = Some (js ''https://qwenlm.github.io/'')"
| "HOMEPAGE_BY_VENDOR V_deepseek = Some (js ''https://api-docs.deepseek.com/'')"
| "HOMEPAGE_BY_VENDOR V_xai = Some (js ''https://x.ai/api'')"
| "HOMEPAGE_BY_VENDOR V_cohere = Some (js ''https://docs.cohere.com/docs/models'')"
| "HOMEPAGE_BY_VENDOR V_baidu = Some (js ''https://cloud.baidu.com/product/wenxinworkshop'')"
| "HOMEPAGE_BY_VENDOR V_zhipu = Some (js ''https://open.bigmodel.cn/dev/api'')"
| "HOMEPAGE_BY_VENDOR V_moonshot = Some (js ''https://platform.moonshot.cn/docs'')"
| "HOMEPAGE_BY_VENDOR V_minimax = Some (js ''https://platform.minimaxi.com/document/notice'')"
| "HOMEPAGE_BY_VENDOR V_tencent = Some (js ''https://cloud.tencent.com/document/product/1729'')"
| "HOMEPAGE_BY_VENDOR V_bytedance = Some (js ''https://www.volcengine.com/docs/82379'')"
| "HOMEPAGE_BY_VENDOR V_midjourney = Some (js ''https://www.midjourney.com/'')"
| "HOMEPAGE_BY_VENDOR V_stability = Some (js ''https://platform.stability.ai/'')"
| "HOMEPAGE_BY_VENDOR V_unknown = None"

definition inferApiInfo :: "(jstr \<Rightarrow> jstr) \<Rightarrow> PricingModel \<Rightarrow> ApiInfo" where
  "inferApiInfo lower model = (let
       vendor = detectVendor lower (pm_name model);
       (tokenizer, note) = inferTokenizer lower model vendor;
       (license, kind) = LICENSE_BY_VENDOR vendor;
       rand = seededRandom (hashStringToSeed (pm_name model @ js '':api''));
       retention = (if vendor = V_openai then JFin 30 else jround (jmul (fst (next_random rand)) (JFin 90)))
     in \<lparr> ai_vendor = vendor, ai_vendor_label = VENDOR_LABELS vendor, ai_tokenizer = tokenizer, ai_tokenizer_note = note,
          ai_license = license, ai_license_kind = kind, ai_retention_days = retention, ai_training_opt_out = True,
          ai_homepage = HOMEPAGE_BY_VENDOR vendor \<rparr>)"

end
