(* ===== verification/MockStats.thy ===== *)
theory MockStats
  imports ModelMetadata
begin

text \<open>
  Generated statistics of a model (\<open>features/pricing/lib/mock-stats.ts\<close>): performance per group, latency and uptime
  series, application rankings, supported parameters and rate limits, all decided by generators seeded with the
  names. The clock (\<open>now\<close>), the time zone, collation (\<open>lc\<close>), case mapping (\<open>lower\<close>, \<open>upper\<close>), the number format of
  the locale and \<open>Math.sin\<close>, \<open>Math.pow\<close>, whose results the language leaves to the implementation, are parameters.
\<close>

section \<open>Records and tables\<close>

record GroupPerformance =
  gp_group :: jstr
  gp_ttft_p50 :: jnum
  gp_ttft_p95 :: jnum
  gp_ttft_p99 :: jnum
  gp_throughput :: jnum
  gp_uptime :: jnum
  gp_volume :: jnum

record LatencyTimePoint =
  lp_timestamp :: jstr
  lp_group :: jstr
  lp_ttft :: jnum

record UptimeDayPoint =
  ud_date :: jstr
  ud_uptime :: jnum
  ud_incidents :: jnum
  ud_outage :: jnum

record AppTemplate =
  at_name :: jstr
  at_description :: jstr
  at_category :: jstr
  at_url :: "jstr option"

record AppRanking = AppTemplate +
  ar_rank :: nat
  ar_growth :: jnum
  ar_tokens :: jnum
  ar_initial :: jstr

abbreviation app :: "jstr \<Rightarrow> jstr \<Rightarrow> jstr \<Rightarrow> jstr option \<Rightarrow> AppTemplate" where
  "app name description category url \<equiv>
     \<lparr> at_name = name, at_description = description, at_category = category, at_url = url \<rparr>"

datatype ParameterType = Ty_number | Ty_integer | Ty_boolean | Ty_string | Ty_object | Ty_array | Ty_enum

record SupportedParameter =
  sp_name :: jstr
  sp_type :: ParameterType
  sp_default :: "jval option"
  sp_range :: "jstr option"
  sp_enum :: "jstr list option"
  sp_description :: jstr
  sp_required :: bool

abbreviation param :: "jstr \<Rightarrow> ParameterType \<Rightarrow> jstr \<Rightarrow> SupportedParameter" where
  "param name ty description \<equiv> \<lparr> sp_name = name, sp_type = ty, sp_default = None, sp_range = None, sp_enum = None,
     sp_description = description, sp_required = False \<rparr>"

definition APP_TEMPLATES :: "AppTemplate list" where
  "APP_TEMPLATES = [
     app (js ''Cline'') (js ''Autonomous coding agent inside the IDE'') (js ''Coding'') (Some (js ''https://cline.bot'')),
     app (js ''Roo Code'') (js ''AI agent for VS Code with multi-step planning'') (js ''Coding'') (Some (js ''https://roocode.com'')),
     app (js ''Open WebUI'') (js ''Self-hosted ChatGPT-like web interface'') (js ''Chat'') (Some (js ''https://openwebui.com'')),
     app (js ''LibreChat'') (js ''Open-source chat platform with multi-model support'') (js ''Chat'') (Some (js ''https://librechat.ai'')),
     app (js ''Lobe Chat'') (js ''Modern open-source chat UI with plugins'') (js ''Chat'') (Some (js ''https://lobehub.com'')),
     app (js ''NextChat'') (js ''Cross-platform private ChatGPT client'') (js ''Chat'') (Some (js ''https://nextchat.dev'')),
     app (js ''Continue'') (js ''Open-source AI code assistant for editors'') (js ''Coding'') (Some (js ''https://continue.dev'')),
     app (js ''Aider'') (js ''Pair-programming agent in your terminal'') (js ''Coding'') (Some (js ''https://aider.chat'')),
     app (js ''Dify'') (js ''LLM application development platform'') (js ''Platform'') (Some (js ''https://dify.ai'')),
     app (js ''FastGPT'') (js ''Knowledge base orchestration and chat platform'') (js ''Platform'') (Some (js ''https://fastgpt.in'')),
     app (js ''Flowise'') (js ''Low-code LLM workflow builder'') (js ''Platform'') (Some (js ''https://flowiseai.com'')),
     app (js ''OpenInterpreter'') (js ''Natural-language code execution agent'') (js ''Coding'') (Some (js ''https://openinterpreter.com'')),
     app (js ''Devika'') (js ''Open-source AI software engineer'') (js ''Coding'') (Some (js ''https://github.com/stitionai/devika'')),
     app (js ''Cherry Studio'') (js ''Multi-model desktop chat client'') (js ''Chat'') (Some (js ''https://cherry-ai.com'')),
     app (js ''AnythingLLM'') (js ''Workspaces around your private documents'') (js ''Platform'') (Some (js ''https://anythingllm.com'')),
     app (js ''OpenHands'') (js ''Coding agent with browser-and-code tools'') (js ''Coding'') (Some (js ''https://docs.all-hands.dev'')),
     app (js ''Cursor'') (js ''AI-native code editor'') (js ''Coding'') (Some (js ''https://cursor.com'')),
     app (js ''Zed'') (js ''Multiplayer code editor with AI'') (js ''Coding'') (Some (js ''https://zed.dev'')),
     app (js ''Notion AI'') (js ''Documents and writing assistant'') (js ''Productivity'') (Some (js ''https://notion.so'')),
     app (js ''Raycast AI'') (js ''AI on your macOS launcher'') (js ''Productivity'') (Some (js ''https://raycast.com'')),
     app (js ''Obsidian Smart Connections'') (js ''Connect notes with semantic search'') (js ''Productivity'') None,
     app (js ''Bolt.new'') (js ''Prompt-to-app full-stack builder'') (js ''Coding'') (Some (js ''https://bolt.new'')),
     app (js ''Pieces'') (js ''AI workflow companion for developers'') (js ''Productivity'') (Some (js ''https://pieces.app'')),
     app (js ''AmazingAI'') (js ''Personal AI knowledge assistant'') (js ''Productivity'') None,
     app (js ''TypingMind'') (js ''Better UI for ChatGPT and Claude'') (js ''Chat'') (Some (js ''https://typingmind.com''))]"

definition COMMON_CHAT_PARAMS :: "SupportedParameter list" where
  "COMMON_CHAT_PARAMS = [
     (param (js ''temperature'') Ty_number (js ''Sampling temperature; lower is more deterministic''))\<lparr> sp_default := Some (VNum (JFin 1)), sp_range := Some (js ''0 ~ 2'') \<rparr>,
     (param (js ''top_p'') Ty_number (js ''Nucleus sampling probability mass''))\<lparr> sp_default := Some (VNum (JFin 1)), sp_range := Some (js ''0 ~ 1'') \<rparr>,
     (param (js ''max_tokens'') Ty_integer (js ''Maximum number of tokens in the response''))\<lparr> sp_range := Some (js ''>= 1'') \<rparr>,
     (param (js ''frequency_penalty'') Ty_number (js ''Penalises repetition of frequent tokens''))\<lparr> sp_default := Some (VNum (JFin 0)), sp_range := Some (js ''-2 ~ 2'') \<rparr>,
     (param (js ''presence_penalty'') Ty_number (js ''Encourages introducing new topics''))\<lparr> sp_default := Some (VNum (JFin 0)), sp_range := Some (js ''-2 ~ 2'') \<rparr>,
     param (js ''stop'') Ty_array (js ''Up to 4 strings that stop generation''),
     param (js ''seed'') Ty_integer (js ''Deterministic sampling seed (best-effort)''),
     (param (js ''n'') Ty_integer (js ''Number of completions to generate''))\<lparr> sp_default := Some (VNum (JFin 1)), sp_range := Some (js ''>= 1'') \<rparr>,
     (param (js ''stream'') Ty_boolean (js ''Stream tokens via Server-Sent Events''))\<lparr> sp_default := Some (VBool False) \<rparr>,
     param (js ''response_format'') Ty_object (js ''Force JSON object or schema-conforming output''),
     param (js ''tools'') Ty_array (js ''Tool / function declarations the model may call''),
     (param (js ''tool_choice'') Ty_string (js ''Tool-choice policy or specific tool name''))\<lparr> sp_enum := Some (map js [''auto'', ''none'', ''required'']) \<rparr>,
     (param (js ''logprobs'') Ty_boolean (js ''Return per-token log probabilities''))\<lparr> sp_default := Some (VBool False) \<rparr>,
     (param (js ''top_logprobs'') Ty_integer (js ''Number of top log probabilities returned per token''))\<lparr> sp_range := Some (js ''0 ~ 20'') \<rparr>,
     param (js ''logit_bias'') Ty_object (js ''Per-token logit bias map''),
     param (js ''user'') Ty_string (js ''End-user identifier for abuse monitoring'')]"

definition REASONING_PARAMS :: "SupportedParameter list" where
  "REASONING_PARAMS = [
     (param (js ''reasoning_effort'') Ty_enum (js ''Controls how much the model thinks before answering''))\<lparr> sp_default := Some (VStr (js ''medium'')), sp_enum := Some (map js [''low'', ''medium'', ''high'']) \<rparr>,
     (param (js ''max_completion_tokens'') Ty_integer (js ''Maximum tokens including hidden reasoning tokens''))\<lparr> sp_range := Some (js ''>= 1'') \<rparr>,
     param (js ''stop'') Ty_array (js ''Up to 4 strings that stop generation''),
     param (js ''seed'') Ty_integer (js ''Deterministic sampling seed (best-effort)''),
     (param (js ''stream'') Ty_boolean (js ''Stream tokens via Server-Sent Events''))\<lparr> sp_default := Some (VBool False) \<rparr>,
     param (js ''response_format'') Ty_object (js ''Force JSON object or schema-conforming output''),
     param (js ''tools'') Ty_array (js ''Tool / function declarations the model may call''),
     (param (js ''tool_choice'') Ty_string (js ''Tool-choice policy or specific tool name''))\<lparr> sp_enum := Some (map js [''auto'', ''none'', ''required'']) \<rparr>,
     param (js ''user'') Ty_string (js ''End-user identifier for abuse monitoring'')]"

definition EMBEDDING_PARAMS :: "SupportedParameter list" where
  "EMBEDDING_PARAMS = [
     (param (js ''input'') Ty_string (js ''Text or array of texts to embed''))\<lparr> sp_required := True \<rparr>,
     (param (js ''dimensions'') Ty_integer (js ''Truncate embeddings to this many dimensions''))\<lparr> sp_range := Some (js ''>= 1'') \<rparr>,
     (param (js ''encoding_format'') Ty_enum (js ''Wire encoding for the embedding vectors''))\<lparr> sp_default := Some (VStr (js ''float'')), sp_enum := Some (map js [''float'', ''base64'']) \<rparr>,
     param (js ''user'') Ty_string (js ''End-user identifier for abuse monitoring'')]"

definition IMAGE_PARAMS :: "SupportedParameter list" where
  "IMAGE_PARAMS = [
     (param (js ''prompt'') Ty_string (js ''Text description of the desired image''))\<lparr> sp_required := True \<rparr>,
     (param (js ''size'') Ty_enum (js ''Output image size''))\<lparr> sp_default := Some (VStr (js ''1024x1024'')), sp_enum := Some (map js [''256x256'', ''512x512'', ''1024x1024'', ''1024x1792'', ''1792x1024'']) \<rparr>,
     (param (js ''quality'') Ty_enum (js ''Generation quality preset''))\<lparr> sp_default := Some (VStr (js ''standard'')), sp_enum := Some (map js [''standard'', ''hd'']) \<rparr>,
     (param (js ''style'') Ty_enum (js ''Aesthetic style''))\<lparr> sp_default := Some (VStr (js ''vivid'')), sp_enum := Some (map js [''vivid'', ''natural'']) \<rparr>,
     (param (js ''n'') Ty_integer (js ''Number of images to generate''))\<lparr> sp_default := Some (VNum (JFin 1)), sp_range := Some (js ''1 ~ 10'') \<rparr>,
     (param (js ''response_format'') Ty_enum (js ''How to deliver the resulting image''))\<lparr> sp_default := Some (VStr (js ''url'')), sp_enum := Some (map js [''url'', ''b64_json'']) \<rparr>]"

definition VIDEO_PARAMS :: "SupportedParameter list" where
  "VIDEO_PARAMS = [
     (param (js ''prompt'') Ty_string (js ''Text description of the desired video''))\<lparr> sp_required := True \<rparr>,
     (param (js ''duration'') Ty_integer (js ''Video length in seconds''))\<lparr> sp_range := Some (js ''1 ~ 60'') \<rparr>,
     (param (js ''aspect_ratio'') Ty_enum (js ''Output aspect ratio''))\<lparr> sp_default := Some (VStr (js ''16:9'')), sp_enum := Some (map js [''16:9'', ''9:16'', ''1:1'']) \<rparr>,
     (param (js ''fps'') Ty_integer (js ''Frames per second''))\<lparr> sp_default := Some (VNum (JFin 24)), sp_range := Some (js ''8 ~ 60'') \<rparr>]"

section \<open>Profiles\<close>

datatype Profile = Embedding_profile | Image_profile | Audio_profile | Reasoning_profile | Fast_profile | Large_profile | Standard_profile

definition PROFILE_BY_NAME :: "(jstr \<Rightarrow> jstr) \<Rightarrow> jstr \<Rightarrow> Profile" where
  "PROFILE_BY_NAME lower name = (let n = lower name in
     if rx_test (RLits [''embed'', ''rerank'']) n then Embedding_profile
     else if rx_test (RLits [''image'', ''sora'', ''veo'', ''kling'', ''pika'', ''jimeng'', ''dalle'', ''imagen'']) n then Image_profile
     else if rx_test (RLits [''whisper'', ''tts'', ''voice'', ''audio'']) n then Audio_profile
     else if rx_test (RLits [''o1'', ''o3'', ''o4'', ''reasoning'', ''thinking'', ''deepseek-r'']) n then Reasoning_profile
     else if rx_test (RLits [''flash'', ''haiku'', ''mini'', ''small'', ''nano'', ''fast'']) n then Fast_profile
     else if rx_test (RLits [''gpt-5'', ''opus'', ''ultra'', ''405'', ''70b'']) n then Large_profile
     else Standard_profile)"

record ProfileSpec =
  ttftRange :: "jnum \<times> jnum"
  throughputRange :: "jnum \<times> jnum"
  uptimeRange :: "jnum \<times> jnum"

abbreviation ints :: "int \<Rightarrow> int \<Rightarrow> jnum \<times> jnum" where
  "ints a b \<equiv> (jint a, jint b)"

abbreviation hundredths :: "int \<Rightarrow> int \<Rightarrow> jnum \<times> jnum" where
  "hundredths a b \<equiv> (to_double (of_int a / 100), to_double (of_int b / 100))"

fun PROFILE_SPECS :: "Profile \<Rightarrow> ProfileSpec" where
  "PROFILE_SPECS Embedding_profile = \<lparr> ttftRange = ints 40 120, throughputRange = ints 0 0, uptimeRange = hundredths 9990 9999 \<rparr>"
| "PROFILE_SPECS Image_profile = \<lparr> ttftRange = ints 2500 12000, throughputRange = ints 0 0, uptimeRange = hundredths 9850 9980 \<rparr>"
| "PROFILE_SPECS Audio_profile = \<lparr> ttftRange = ints 180 600, throughputRange = ints 0 0, uptimeRange = hundredths 9950 9995 \<rparr>"
| "PROFILE_SPECS Reasoning_profile = \<lparr> ttftRange = ints 1800 5500, throughputRange = ints 25 70, uptimeRange = hundredths 9940 9995 \<rparr>"
| "PROFILE_SPECS Fast_profile = \<lparr> ttftRange = ints 180 480, throughputRange = ints 110 240, uptimeRange = hundredths 9970 9999 \<rparr>"
| "PROFILE_SPECS Large_profile = \<lparr> ttftRange = ints 600 1400, throughputRange = ints 55 95, uptimeRange = hundredths 9950 9995 \<rparr>"
| "PROFILE_SPECS Standard_profile = \<lparr> ttftRange = ints 400 900, throughputRange = ints 70 140, uptimeRange = hundredths 9960 9997 \<rparr>"

definition rangeFromSeed :: "jnum \<times> jnum \<Rightarrow> jnum \<Rightarrow> jnum \<times> jnum" where
  "rangeFromSeed r rand = randomInRange (fst r) (snd r) rand"

definition applyGroupFactor :: "jnum \<Rightarrow> jnum \<Rightarrow> jnum" where
  "applyGroupFactor v factor = jmul v factor"

text \<open>\<open>a + rand() * b\<close>, for the decimal literals \<open>a\<close> and \<open>b\<close>.\<close>

definition affine_random :: "rat \<Rightarrow> rat \<Rightarrow> jnum \<Rightarrow> jnum \<times> jnum" where
  "affine_random a b rand = (let (r, rand) = next_random rand in (jadd (to_double a) (jmul r (to_double b)), rand))"

record GroupFactor =
  fa_ttft :: jnum
  fa_throughput :: jnum
  fa_uptime :: jnum

definition groupFactor :: "jstr \<Rightarrow> jnum \<Rightarrow> GroupFactor" where
  "groupFactor grp baseSeed = (let
       rand = seededRandom (jxor baseSeed (hashStringToSeed (if grp = [] then js ''default'' else grp)));
       (ttft, rand) = affine_random (85 / 100) (55 / 100) rand;
       (throughput, rand) = affine_random (85 / 100) (4 / 10) rand;
       (uptime, _) = affine_random (997 / 1000) (3 / 1000) rand
     in \<lparr> fa_ttft = ttft, fa_throughput = throughput, fa_uptime = uptime \<rparr>)"

section \<open>Performance per group\<close>

definition target_groups :: "(jstr \<Rightarrow> jstr \<Rightarrow> int) \<Rightarrow> PricingModel \<Rightarrow> jstr list" where
  "target_groups lc model = (let groups = filter (\<lambda>g. g \<noteq> [] \<and> g \<noteq> js ''auto'') (upd (pm_enable_groups model) []) in
     sort_by (\<lambda>a b. lc a b \<le> 0) (if groups \<noteq> [] then groups else [js ''default'']))"

definition group_performance :: "ProfileSpec \<Rightarrow> jnum \<Rightarrow> jstr \<Rightarrow> GroupPerformance" where
  "group_performance spec baseSeed grp = (let
       rand = seededRandom (jxor baseSeed (hashStringToSeed grp));
       factor = groupFactor grp baseSeed;
       (ttft, rand) = rangeFromSeed (ttftRange spec) rand;
       ttftP50 = applyGroupFactor ttft (fa_ttft factor);
       (tps, rand) = rangeFromSeed (throughputRange spec) rand;
       throughput = applyGroupFactor tps (fa_throughput factor);
       (up, rand) = rangeFromSeed (uptimeRange spec) rand;
       uptimePct = jmin (to_double (9999 / 100)) (jmul up (fa_uptime factor));
       (requestVolume, rand) = randomIntInRange (JFin 18000) (JFin 480000) rand;
       (f95, rand) = affine_random (16 / 10) (4 / 10) rand;
       (f99, rand) = affine_random (24 / 10) (6 / 10) rand
     in \<lparr> gp_group = grp, gp_ttft_p50 = jround ttftP50, gp_ttft_p95 = jround (jmul ttftP50 f95),
          gp_ttft_p99 = jround (jmul ttftP50 f99),
          gp_throughput = (if jeq throughput (JFin 0) then JFin 0 else jdiv (jround (jmul throughput (JFin 10))) (JFin 10)),
          gp_uptime = jdiv (jround (jmul uptimePct (JFin 100))) (JFin 100), gp_volume = requestVolume \<rparr>)"

definition buildGroupPerformance :: "(jstr \<Rightarrow> jstr) \<Rightarrow> (jstr \<Rightarrow> jstr \<Rightarrow> int) \<Rightarrow> PricingModel \<Rightarrow> GroupPerformance list" where
  "buildGroupPerformance lower lc model =
     map (group_performance (PROFILE_SPECS (PROFILE_BY_NAME lower (pm_name model))) (hashStringToSeed (pm_name model)))
       (target_groups lc model)"

section \<open>Series\<close>

text \<open>\<open>new Date(t).toISOString()\<close> throws for an invalid date: \<open>None\<close>.\<close>

definition iso_string_of :: "int \<Rightarrow> jstr option" where
  "iso_string_of t = map_option to_iso_string (time_clip t)"

fun map_state :: "('a \<Rightarrow> 's \<Rightarrow> 'b \<times> 's) \<Rightarrow> 'a list \<Rightarrow> 's \<Rightarrow> 'b list \<times> 's" where
  "map_state f [] s = ([], s)"
| "map_state f (x # xs) s = (let (y, s) = f x s; (ys, s) = map_state f xs s in (y # ys, s))"

definition latency_point :: "(jnum \<Rightarrow> jnum) \<Rightarrow> int \<Rightarrow> GroupPerformance \<Rightarrow> int \<Rightarrow> jnum \<Rightarrow> LatencyTimePoint option \<times> jnum" where
  "latency_point sine now perf i rand = (let
       (noise, rand) = affine_random (7 / 10) (7 / 10) rand;
       trend = jadd (to_double (85 / 100)) (jmul (sine (jdiv (jint i) (JFin 3))) (to_double (1 / 10)));
       v = jmax (JFin 50) (jround (jmul (jmul (gp_ttft_p50 perf) noise) trend))
     in (map_option (\<lambda>ts. \<lparr> lp_timestamp = ts, lp_group = gp_group perf, lp_ttft = v \<rparr>) (iso_string_of (now - i * 3600000)), rand))"

definition buildLatencyTimeSeries :: "(jstr \<Rightarrow> jstr) \<Rightarrow> (jstr \<Rightarrow> jstr \<Rightarrow> int) \<Rightarrow> (jnum \<Rightarrow> jnum) \<Rightarrow> timezone \<Rightarrow> int
    \<Rightarrow> PricingModel \<Rightarrow> LatencyTimePoint list option" where
  "buildLatencyTimeSeries lower lc sine tz clock model = (let performances = buildGroupPerformance lower lc model in
     if performances = [] then Some []
     else case set_minutes3 tz 0 0 0 clock of
       None \<Rightarrow> None
     | Some now \<Rightarrow> let baseSeed = hashStringToSeed (pm_name model @ js '':lat'') in
         those (concat (map (\<lambda>perf. fst (map_state (latency_point sine now perf) (rev [0..23])
           (seededRandom (jxor baseSeed (hashStringToSeed (gp_group perf)))))) performances)))"

definition uptime_point :: "jnum \<Rightarrow> int \<Rightarrow> int \<Rightarrow> jnum \<Rightarrow> UptimeDayPoint option \<times> jnum" where
  "uptime_point baseUptime today i rand = (let
       (incidentChance, rand) = next_random rand;
       incidents = (if jlt (to_double (92 / 100)) incidentChance then JFin 1 else JFin 0);
       (outageMinutes, rand) = (if jlt (JFin 0) incidents
          then (let (r, rand) = next_random rand in (jround (jadd (jmul r (JFin 30)) (JFin 5)), rand)) else (JFin 0, rand));
       downtimePct = jmul (jdiv outageMinutes (JFin 1440)) (JFin 100);
       dayUptime = jmax (JFin 85) (jmin (JFin 100) (jsub baseUptime downtimePct))
     in (map_option (\<lambda>iso. \<lparr> ud_date = take 10 iso, ud_uptime = jdiv (jround (jmul dayUptime (JFin 100))) (JFin 100),
           ud_incidents = incidents, ud_outage = outageMinutes \<rparr>) (iso_string_of (today - i * 86400000)), rand))"

definition base_uptime :: "GroupPerformance list \<Rightarrow> jstr option \<Rightarrow> jnum" where
  "base_uptime performances grp = (let average = jdiv (foldl jadd (JFin 0) (map gp_uptime performances)) (jint (int (length performances))) in
     if grp = None \<or> grp = Some [] then average
     else case find (\<lambda>p. Some (gp_group p) = grp) performances of None \<Rightarrow> average | Some p \<Rightarrow> gp_uptime p)"

definition buildUptimeSeries :: "(jstr \<Rightarrow> jstr) \<Rightarrow> (jstr \<Rightarrow> jstr \<Rightarrow> int) \<Rightarrow> timezone \<Rightarrow> int \<Rightarrow> PricingModel \<Rightarrow> jstr option
    \<Rightarrow> UptimeDayPoint list option" where
  "buildUptimeSeries lower lc tz clock model grp = (let performances = buildGroupPerformance lower lc model in
     if performances = [] then Some []
     else let baseUptime = base_uptime performances grp;
              rand = seededRandom (hashStringToSeed (pm_name model @ js '':up:'' @ upd grp (js ''_all''))) in
       case set_hours4 tz 0 0 0 0 clock of
         None \<Rightarrow> None
       | Some today \<Rightarrow> those (fst (map_state (uptime_point baseUptime today) (rev [0..29]) rand)))"

section \<open>Application rankings\<close>

text \<open>The shuffle swaps the entry \<open>i\<close>, from the last one down to the second, with the entry \<open>j\<close> drawn below it or
  at it. The index is in range, as the lemmas show, so the assignments never extend the array.\<close>

definition drawn_index :: "nat \<Rightarrow> jnum \<Rightarrow> nat" where
  "drawn_index i r = (case jfloor (jmul r (jint (int i + 1))) of JFin q \<Rightarrow> nat \<lfloor>q\<rfloor> | _ \<Rightarrow> 0)"

fun shuffle_loop :: "nat \<Rightarrow> 'a list \<Rightarrow> jnum \<Rightarrow> 'a list \<times> jnum" where
  "shuffle_loop 0 candidates rand = (candidates, rand)"
| "shuffle_loop (Suc k) candidates rand = (let (r, rand) = next_random rand; i = Suc k; j = drawn_index i r in
     shuffle_loop k (candidates[i := candidates ! j, j := candidates ! i]) rand)"

definition app_ranking :: "(jstr \<Rightarrow> jstr) \<Rightarrow> (jnum \<Rightarrow> jnum \<Rightarrow> jnum) \<Rightarrow> jnum \<Rightarrow> nat \<times> AppTemplate \<Rightarrow> jnum \<Rightarrow> AppRanking \<times> jnum" where
  "app_ranking upper pow baseTokens = (\<lambda>(idx, a) rand. let
       decay = pow (to_double (78 / 100)) (jint (int idx));
       (f, rand) = affine_random (85 / 100) (3 / 10) rand;
       monthlyTokens = jround (jmul (jmul baseTokens decay) f);
       (growthPctRaw, rand) = randomInRange (JFin (- 28)) (JFin 84) rand;
       growthPct = jdiv (jround (jmul growthPctRaw (JFin 10))) (JFin 10)
     in (\<lparr> at_name = at_name a, at_description = at_description a, at_category = at_category a, at_url = at_url a,
           ar_rank = idx + 1, ar_growth = growthPct, ar_tokens = monthlyTokens, ar_initial = upper (take 1 (at_name a)) \<rparr>, rand))"

definition buildAppRankings :: "(jstr \<Rightarrow> jstr) \<Rightarrow> (jnum \<Rightarrow> jnum \<Rightarrow> jnum) \<Rightarrow> PricingModel \<Rightarrow> nat \<Rightarrow> AppRanking list" where
  "buildAppRankings upper pow model howMany = (let
       rand = seededRandom (hashStringToSeed (pm_name model @ js '':apps''));
       (candidates, rand) = shuffle_loop (length APP_TEMPLATES - 1) APP_TEMPLATES rand;
       top = take howMany candidates;
       (baseTokens, rand) = randomInRange (JFin 90000000) (JFin 320000000) rand
     in fst (map_state (app_ranking upper pow baseTokens) (enumerate 0 top) rand))"

section \<open>Aggregates and texts\<close>

record UptimeAggregate =
  ua_uptime :: jnum
  ua_incidents :: jnum
  ua_outage :: jnum

definition aggregateUptime :: "UptimeDayPoint list \<Rightarrow> UptimeAggregate" where
  "aggregateUptime points = (if points = [] then \<lparr> ua_uptime = JFin 0, ua_incidents = JFin 0, ua_outage = JFin 0 \<rparr>
     else let
       incidents = foldl jadd (JFin 0) (map ud_incidents points);
       outageMinutes = foldl jadd (JFin 0) (map ud_outage points);
       totalMinutes = jmul (jint (int (length points))) (JFin 1440);
       uptimePct = jmul (jdiv (jsub totalMinutes outageMinutes) totalMinutes) (JFin 100)
     in \<lparr> ua_uptime = jdiv (jround (jmul uptimePct (JFin 1000))) (JFin 1000), ua_incidents = incidents, ua_outage = outageMinutes \<rparr>)"

definition formatTokenVolume :: "jnum \<Rightarrow> jstr" where
  "formatTokenVolume n = (if \<not> is_finite n \<or> jle n (JFin 0) then js ''0''
     else if jle (JFin 1000000000) n then to_fixed 1 (jdiv n (JFin 1000000000)) @ js ''B''
     else if jle (JFin 1000000) n then to_fixed 1 (jdiv n (JFin 1000000)) @ js ''M''
     else if jle (JFin 1000) n then to_fixed 1 (jdiv n (JFin 1000)) @ js ''K''
     else num_to_str n)"

section \<open>Parameters and rate limits\<close>

datatype ApiCategory = Cat_reasoning | Cat_embedding | Cat_image | Cat_video | Cat_chat

definition VIDEO_MODEL :: rx where
  "VIDEO_MODEL = RLitsI [''sora'', ''veo'', ''kling'', ''pika'', ''video'', ''wan-'', ''hunyuanvideo'']"

definition apiCategoryOf :: "(jstr \<Rightarrow> jstr) \<Rightarrow> PricingModel \<Rightarrow> ApiCategory" where
  "apiCategoryOf lower model = (let profile = PROFILE_BY_NAME lower (pm_name model) in
     if profile = Embedding_profile then Cat_embedding
     else if profile = Reasoning_profile then Cat_reasoning
     else if profile = Image_profile then if rx_test VIDEO_MODEL (pm_name model) then Cat_video else Cat_image
     else Cat_chat)"

definition buildSupportedParameters :: "(jstr \<Rightarrow> jstr) \<Rightarrow> PricingModel \<Rightarrow> SupportedParameter list" where
  "buildSupportedParameters lower model = (let cat = apiCategoryOf lower model in
     if cat = Cat_reasoning then REASONING_PARAMS
     else if cat = Cat_embedding then EMBEDDING_PARAMS
     else if cat = Cat_image then IMAGE_PARAMS
     else if cat = Cat_video then VIDEO_PARAMS
     else COMMON_CHAT_PARAMS)"

record RateLimit =
  rl_group :: jstr
  rl_rpm :: jnum
  rl_tpm :: jnum
  rl_rpd :: jnum

text \<open>\<open>Math.round((base * tier) / unit) * unit\<close>.\<close>

definition round_to :: "jnum \<Rightarrow> jnum \<Rightarrow> jnum" where
  "round_to x unit = jmul (jround (jdiv x unit)) unit"

definition buildRateLimits :: "(jstr \<Rightarrow> jstr) \<Rightarrow> (jstr \<Rightarrow> jstr \<Rightarrow> int) \<Rightarrow> PricingModel \<Rightarrow> RateLimit list" where
  "buildRateLimits lower lc model = (let
       cat = apiCategoryOf lower model;
       baseSeed = hashStringToSeed (pm_name model @ js '':rl'');
       isHeavy = (cat = Cat_image \<or> cat = Cat_video);
       isLight = (cat = Cat_embedding);
       baseRpm = (if isHeavy then JFin 60 else if isLight then JFin 5000 else JFin 500);
       baseTpm = (if isHeavy then JFin 0 else if isLight then JFin 1000000 else JFin 200000);
       baseRpd = (if isHeavy then JFin 1000 else if isLight then JFin 100000 else JFin 10000)
     in map (\<lambda>grp. let tier = fst (affine_random (6 / 10) (14 / 10) (seededRandom (jxor baseSeed (hashStringToSeed grp)))) in
          \<lparr> rl_group = grp, rl_rpm = round_to (jmul baseRpm tier) (JFin 10),
            rl_tpm = (if jeq baseTpm (JFin 0) then JFin 0 else round_to (jmul baseTpm tier) (JFin 1000)),
            rl_rpd = round_to (jmul baseRpd tier) (JFin 100) \<rparr>) (target_groups lc model))"

definition formatRateLimit :: "(jnum \<Rightarrow> jstr) \<Rightarrow> jnum \<Rightarrow> jstr" where
  "formatRateLimit to_locale v = (if jle v (JFin 0) then EM_DASH
     else if jle (JFin 1000000) v then to_fixed 1 (jdiv v (JFin 1000000)) @ js ''M''
     else if jle (JFin 1000) v then to_fixed (if jle (JFin 10000) v then 0 else 1) (jdiv v (JFin 1000)) @ js ''K''
     else to_locale v)"

end
