(* ===== verification/MetadataFacts.thy ===== *)
theory MetadataFacts
  imports ModelMetadata
begin

text \<open>
  What holds of the inferred metadata (\<open>features/pricing/lib/model-metadata.ts\<close>): the members of the capability
  and modality lists, sizes and dates decided by the generator, the interface information, and the month shown
  for a date text.
\<close>

section \<open>What the tags add\<close>

lemma set_set_add [simp]: "set (set_add x s) = insert x (set s)"
  by (auto simp: set_add_def)

lemma distinct_set_add [simp]: "distinct (set_add x s) = distinct s"
  by (auto simp: set_add_def)

lemma set_add_when [simp]: "set (add_when b x s) = (if b then insert (Own x) (set s) else set s)"
  by (simp add: add_when_def)

lemma distinct_add_when [simp]: "distinct (add_when b x s) = distinct s"
  by (simp add: add_when_def)

lemma set_add_tags: "set (add_tags table tags s) = set s \<union> {x. \<exists>t \<in> set tags. object_get table t = Some x}"
  unfolding add_tags_def by (induction tags arbitrary: s) (auto split: option.splits)

lemma distinct_add_tags [simp]: "distinct (add_tags table tags s) = distinct s"
  unfolding add_tags_def by (induction tags arbitrary: s) (auto split: option.splits)

lemma object_get_Some:
  "object_get table key = Some x \<longleftrightarrow> (\<exists>y. map_of table key = Some y \<and> x = Own y)
     \<or> (map_of table key = None \<and> key \<in> set OBJECT_PROTOTYPE \<and> x = Inherited key)"
  by (auto simp: object_get_def split: option.splits)

lemma object_get_None: "object_get table key = None \<longleftrightarrow> map_of table key = None \<and> key \<notin> set OBJECT_PROTOTYPE"
  by (auto simp: object_get_def split: option.splits)

text \<open>No table of the program has a key of the prototype.\<close>

lemma tables_proper:
  "\<forall>t \<in> set OBJECT_PROTOTYPE. map_of TAG_TO_CAPABILITY t = None \<and> map_of TAG_TO_MODALITY t = None"
  by (simp add: OBJECT_PROTOTYPE_def TAG_TO_CAPABILITY_def TAG_TO_MODALITY_def)

lemma own_tags_iff:
  assumes "\<forall>t \<in> set OBJECT_PROTOTYPE. map_of table t = None" "list_all is_own s"
  shows "list_all is_own (add_tags table tags s) \<longleftrightarrow> list_all (\<lambda>t. t \<notin> set OBJECT_PROTOTYPE) tags"
proof -
  have "is_own x \<longleftrightarrow> key \<notin> set OBJECT_PROTOTYPE" if "object_get table key = Some x" for x key
    using that assms(1) by (auto simp: object_get_Some)
  moreover have "\<exists>x. object_get table key = Some x" if "key \<in> set OBJECT_PROTOTYPE" for key
    using that assms(1) by (simp add: object_get_def)
  ultimately show ?thesis using assms(2) unfolding list_all_iff set_add_tags by blast
qed

lemma inherited_tags_iff:
  assumes "\<forall>t \<in> set OBJECT_PROTOTYPE. map_of table t = None" "list_all is_own s"
  shows "Inherited t \<in> set (add_tags table tags s) \<longleftrightarrow> t \<in> set tags \<and> t \<in> set OBJECT_PROTOTYPE"
  using assms by (auto simp: list_all_iff set_add_tags object_get_Some)

lemma own_add_when [simp]: "list_all is_own (add_when b x s) = list_all is_own s"
  by (auto simp: list_all_iff)

lemma distinct_ordered [simp]: "distinct (ordered s)"
  by (simp add: ordered_def)

lemma ordered_eq_Nil: "ordered s = [] \<longleftrightarrow> list_all (\<lambda>x. \<not> is_own x) s"
proof -
  have "m \<in> set [Text, Image, Audio, Video, File]" for m by (cases m) simp_all
  then have "ordered s = [] \<longleftrightarrow> (\<forall>m. Own m \<notin> set s)" unfolding ordered_def filter_empty_conv by blast
  also have "\<dots> \<longleftrightarrow> list_all (\<lambda>x. \<not> is_own x) s" unfolding list_all_iff by (metis is_own.elims(2) is_own.simps(1))
  finally show ?thesis .
qed

text \<open>C14. The capabilities inferred for a model are members of the type \<open>ModelCapability\<close> iff no tag of the model
  is the name of a member every object inherits, such as \<open>constructor\<close>: exactly those tags put the inherited
  member itself on the list. The list never repeats an element.\<close>

theorem capabilities_typed:
  "list_all is_own (inferCapabilities model tags endpoints name outputs inputs)
      = list_all (\<lambda>t. t \<notin> set OBJECT_PROTOTYPE) tags
    \<and> (Inherited t \<in> set (inferCapabilities model tags endpoints name outputs inputs))
      = (t \<in> set tags \<and> t \<in> set OBJECT_PROTOTYPE)
    \<and> distinct (inferCapabilities model tags endpoints name outputs inputs)"
proof -
  have proper: "\<forall>t \<in> set OBJECT_PROTOTYPE. map_of TAG_TO_CAPABILITY t = None" using tables_proper by blast
  show ?thesis
    unfolding inferCapabilities_def Let_def
    by (intro conjI own_tags_iff [OF proper] inherited_tags_iff [OF proper]) simp_all
qed

definition input_evidence :: "PricingModel \<Rightarrow> jstr list \<Rightarrow> jstr \<Rightarrow> bool" where
  "input_evidence model endpoints name = (endpoints = [] \<or> has_endpoint endpoints TEXT_INPUT_ENDPOINTS
     \<or> pm_image_ratio model \<noteq> None \<or> nameMatches name VISION_NAME_PATTERNS
     \<or> pm_audio_ratio model \<noteq> None \<or> nameMatches name AUDIO_NAME_PATTERNS \<or> nameMatches name VIDEO_NAME_PATTERNS)"

lemma add_when_eq_Nil [simp]: "add_when b x s = [] \<longleftrightarrow> \<not> b \<and> s = []"
  by (auto simp: add_when_def set_add_def)

lemma add_tags_eq_Nil: "add_tags table tags s = [] \<longleftrightarrow> s = [] \<and> (\<forall>t \<in> set tags. object_get table t = None)"
proof -
  have "add_tags table tags s = [] \<longleftrightarrow> set (add_tags table tags s) = {}" by simp
  also have "\<dots> \<longleftrightarrow> s = [] \<and> (\<forall>t \<in> set tags. object_get table t = None)" unfolding set_add_tags by (auto simp: not_Some_eq [symmetric] simp del: not_Some_eq)
  finally show ?thesis .
qed

lemma only_inherited_iff:
  assumes "list_all is_own s"
  shows "add_tags table tags s \<noteq> [] \<and> list_all (\<lambda>x. \<not> is_own x) (add_tags table tags s)
    \<longleftrightarrow> s = [] \<and> list_all (\<lambda>t. map_of table t = None) tags \<and> list_ex (\<lambda>t. t \<in> set OBJECT_PROTOTYPE) tags"
    (is "?l \<longleftrightarrow> ?r")
proof
  assume l: ?l
  have "\<not> (\<exists>x. x \<in> set s)" using l assms unfolding list_all_iff set_add_tags by blast
  then have "s = []" by simp
  have none: "map_of table t = None" if "t \<in> set tags" for t
  proof (rule ccontr)
    assume "map_of table t \<noteq> None"
    then obtain y where "object_get table t = Some (Own y)" by (auto simp: object_get_def)
    with that have "Own y \<in> set (add_tags table tags s)" unfolding set_add_tags by blast
    with l show False unfolding list_all_iff by fastforce
  qed
  from l \<open>s = []\<close> have "\<exists>t \<in> set tags. object_get table t \<noteq> None" unfolding add_tags_eq_Nil by blast
  with none have "\<exists>t \<in> set tags. t \<in> set OBJECT_PROTOTYPE" unfolding object_get_None by blast
  with none \<open>s = []\<close> show ?r unfolding list_all_iff list_ex_iff by blast
next
  assume ?r
  then show ?l unfolding add_tags_eq_Nil object_get_None list_all_iff list_ex_iff set_add_tags
    by (auto simp: object_get_Some)
qed

text \<open>A model has at least one input modality, unless one of its tags is the name of an inherited member while
  nothing else (endpoint, ratio, name, tag of a modality) says what its input is: then it has none, and the
  default, text, is lost. There is always an output modality.\<close>

theorem modalities_found:
  "(inferInputModalities model tags endpoints name = [])
      = (\<not> input_evidence model endpoints name \<and> list_all (\<lambda>t. map_of TAG_TO_MODALITY t = None) tags
         \<and> list_ex (\<lambda>t. t \<in> set OBJECT_PROTOTYPE) tags)
    \<and> (inferOutputModalities model endpoints name = []) = False
    \<and> distinct (inferInputModalities model tags endpoints name)"
proof -
  let ?s = "add_when (nameMatches name VIDEO_NAME_PATTERNS) Video
    (add_when (pm_audio_ratio model \<noteq> None \<or> nameMatches name AUDIO_NAME_PATTERNS) Audio
    (add_when (pm_image_ratio model \<noteq> None \<or> nameMatches name VISION_NAME_PATTERNS) Image
    (add_when (endpoints = [] \<or> has_endpoint endpoints TEXT_INPUT_ENDPOINTS) Text [])))"
  let ?r = "add_tags TAG_TO_MODALITY tags ?s"
  have own: "list_all is_own ?s" by simp
  have nil: "?s = [] \<longleftrightarrow> \<not> input_evidence model endpoints name" by (auto simp: input_evidence_def)
  have "inferInputModalities model tags endpoints name = [] \<longleftrightarrow> ?r \<noteq> [] \<and> list_all (\<lambda>x. \<not> is_own x) ?r"
    by (simp add: inferInputModalities_def Let_def ordered_eq_Nil)
  then have ins: "inferInputModalities model tags endpoints name = [] \<longleftrightarrow> \<not> input_evidence model endpoints name
      \<and> list_all (\<lambda>t. map_of TAG_TO_MODALITY t = None) tags \<and> list_ex (\<lambda>t. t \<in> set OBJECT_PROTOTYPE) tags"
    unfolding only_inherited_iff [OF own] nil .
  have default: "ordered (if s = [] then [Own Text] else s) \<noteq> []" if "list_all is_own s" for s
    using that by (cases s) (simp_all add: ordered_eq_Nil)
  have outs: "inferOutputModalities model endpoints name \<noteq> []"
    unfolding inferOutputModalities_def Let_def by (rule default) simp
  have "distinct (inferInputModalities model tags endpoints name)" by (simp only: inferInputModalities_def Let_def distinct_ordered)
  with ins outs show ?thesis by simp
qed

section \<open>Sizes and dates\<close>

text \<open>A pick from a list takes one number of the generator and is always defined.\<close>

lemma scaled_unit:
  assumes "0 \<le> n" "n < 2097152"
  shows "jmul (unit_of v) (jint n) = JFin (of_int (uint v * n) / 4294967296)"
    "0 \<le> uint v * n div 4294967296" "uint v * n div 4294967296 \<le> n" "0 < n \<Longrightarrow> uint v * n div 4294967296 < n"
proof -
  have v: "0 \<le> uint v" "uint v \<le> 4294967295" "uint v < 4294967296" using uint32_bounds [of v] by simp_all
  have "uint v * n \<le> 4294967295 * n" using v assms(1) by (intro mult_right_mono) simp_all
  then have m: "0 \<le> uint v * n" "uint v * n < 9007199254740992" using v assms by simp_all
  then show "jmul (unit_of v) (jint n) = JFin (of_int (uint v * n) / 4294967296)"
    using to_double_frac32 [of "uint v * n"] by (simp add: unit_of_def del: of_int_uint)
  show "0 \<le> uint v * n div 4294967296" using m(1) by (simp add: pos_imp_zdiv_nonneg_iff)
  show lt: "uint v * n div 4294967296 < n" if "0 < n"
  proof -
    have "uint v * n < 4294967296 * n" using v(3) that by (rule mult_strict_right_mono)
    then show ?thesis by (simp add: div_less_iff_less_mult mult.commute)
  qed
  show "uint v * n div 4294967296 \<le> n" using lt assms(1) by (cases "n = 0") simp_all
qed

lemma floor_scaled_unit:
  assumes "0 \<le> n" "n < 2097152"
  shows "jfloor (jmul (unit_of v) (jint n)) = jint (uint v * n div 4294967296)"
  unfolding scaled_unit(1) [OF assms] jfloor.simps floor_frac32 ..

lemma pickFromBuckets_word:
  assumes "buckets \<noteq> []" "length buckets < 2097152"
  shows "\<exists>x \<in> set buckets. pickFromBuckets buckets (from_uint32 w) = (Some x, from_uint32 (lcg w))"
proof -
  let ?n = "int (length buckets)" let ?k = "uint (lcg w) * ?n div 4294967296"
  have n: "0 \<le> ?n" "?n < 2097152" "0 < ?n" using assms by simp_all
  have k: "0 \<le> ?k" "nat ?k < length buckets" using scaled_unit(2,4) [OF n(1,2), of "lcg w"] n(3) by simp_all
  have "pickFromBuckets buckets (from_uint32 w) = (Some (buckets ! nat ?k), from_uint32 (lcg w))"
    unfolding pickFromBuckets_def next_random_word
    using k by (simp only: Let_def prod.case floor_scaled_unit [OF n(1,2)] jnum.case of_int_0_le_iff floor_of_int if_True simp_thms)
  with k(2) show ?thesis by (intro bexI [of _ "buckets ! nat ?k"]) simp_all
qed

definition year_month :: "int \<Rightarrow> int \<Rightarrow> jstr" where
  "year_month y m = dec_digits y @ js ''-'' @ pad_left 2 48 (dec_digits m)"

definition cutoff_months :: "(int \<times> int) list" where
  "cutoff_months = [(2023, 4), (2023, 10), (2023, 12), (2024, 4), (2024, 6), (2024, 8), (2024, 10), (2024, 12),
     (2025, 2), (2025, 4), (2025, 8)]"

lemma cutoffs_are_months: "KNOWLEDGE_CUTOFFS = map (\<lambda>(y, m). year_month y m) cutoff_months"
  by code_simp

lemmas number_eval = js_def str_to_num_def trim_def is_space_def radix_prefix_def scan_number_def
  signed_scan_def scan_decimal_def scan_exponent_def is_digit_def digits_val_def ten_pow_def double_eval Let_def

lemma year_texts:
  "str_to_num (js ''2023'') = jint 2023" "str_to_num (js ''2024'') = jint 2024" "str_to_num (js ''2025'') = jint 2025"
  by (simp_all add: number_eval)

lemma month_texts:
  "str_to_num (js ''02'') = jint 2" "str_to_num (js ''04'') = jint 4" "str_to_num (js ''06'') = jint 6"
  "str_to_num (js ''08'') = jint 8" "str_to_num (js ''10'') = jint 10" "str_to_num (js ''12'') = jint 12"
  by (simp_all add: number_eval)

lemma cutoff_split:
  "map (\<lambda>(y, m). split_on 45 (year_month y m)) cutoff_months = map (map js)
    [[''2023'', ''04''], [''2023'', ''10''], [''2023'', ''12''], [''2024'', ''04''], [''2024'', ''06''], [''2024'', ''08''],
     [''2024'', ''10''], [''2024'', ''12''], [''2025'', ''02''], [''2025'', ''04''], [''2025'', ''08'']]"
  by code_simp

lemma cutoff_numbers:
  "\<forall>(y, m) \<in> set cutoff_months. nth_number (split_on 45 (year_month y m)) 0 = jint y
    \<and> nth_number (split_on 45 (year_month y m)) 1 = jint m"
  using cutoff_split by (simp add: cutoff_months_def nth_number_def year_texts month_texts)

lemma year_month_numbers:
  "list_all (\<lambda>y. num_to_str (jint y) = dec_digits y) ([2023..2026] @ [1..12])"
  by code_simp

lemma years_of_months: "list_all (\<lambda>n. jfloor (jdiv (jint n) (JFin 12)) = jint (n div 12)) [5..20]"
  by code_simp

lemma release_date_month:
  assumes "(y, m) \<in> set cutoff_months" "jfloor (jmul r (JFin 6)) = jint k" "0 \<le> k" "k \<le> 5"
  shows "release_date (year_month y m) r = year_month (y + (m + k + 3) div 12) ((m + k + 3) mod 12 + 1) @ js ''-15''"
proof -
  let ?n = "m + k + 3"
  have m: "2 \<le> m" "m \<le> 12" and y: "y \<in> {2023, 2024, 2025}" using assms(1) by (auto simp: cutoff_months_def)
  have num: "nth_number (split_on 45 (year_month y m)) 0 = jint y" "nth_number (split_on 45 (year_month y m)) 1 = jint m"
    using cutoff_numbers assms(1) by auto
  have n: "5 \<le> ?n" "?n \<le> 20" using m assms(3,4) by simp_all
  have off: "jadd (JFin 4) (jfloor (jmul r (JFin 6))) = jint (4 + k)"
    unfolding assms(2) using assms(3,4) jadd_int [of 4 k] by simp
  have rel: "jadd (jint m) (jint (4 + k)) = jint (?n + 1)" using jadd_int [of m "4 + k"] m assms(3,4) by (simp add: algebra_simps)
  have sub: "jsub (jint (?n + 1)) (JFin 1) = jint ?n" using jsub_int [of "?n + 1" 1] n by simp
  have "?n \<in> set [5..20]" using n by (simp only: set_upto atLeastAtMost_iff)
  then have div: "jfloor (jdiv (jint ?n) (JFin 12)) = jint (?n div 12)"
    using years_of_months unfolding list_all_iff by blast
  have d: "0 \<le> ?n div 12" "?n div 12 \<le> 1" using n by linarith+
  have yr: "jadd (jint y) (jint (?n div 12)) = jint (y + ?n div 12)" using d y by (intro jadd_int) auto
  have mm: "0 \<le> ?n mod 12" "?n mod 12 \<le> 11" by simp_all
  have "trunc_rat (of_int ?n / 12) = ?n div 12"
    using floor_divide_of_int_eq [of ?n 12, where 'a = rat] n by (simp add: trunc_rat_def)
  then have "jmod (jint ?n) (JFin 12) = JFin (of_int ?n - 12 * of_int (?n div 12))" by (simp only: jmod.simps) simp
  also have "of_int ?n - 12 * of_int (?n div 12) = (of_int (?n mod 12) :: rat)"
    using arg_cong [OF minus_mult_div_eq_mod [of ?n 12], of "of_int :: int \<Rightarrow> rat"] by simp
  finally have "jmod (jint ?n) (JFin 12) = jint (?n mod 12)" .
  then have mon: "jadd (jmod (jint ?n) (JFin 12)) (JFin 1) = jint (?n mod 12 + 1)" using jadd_int [of "?n mod 12" 1] mm by simp
  have "y + ?n div 12 \<in> {2023..2026}" using y d by auto
  moreover have "?n mod 12 + 1 \<in> {1..12}" using mm by simp
  ultimately have "num_to_str (jint (y + ?n div 12)) = dec_digits (y + ?n div 12)"
      "num_to_str (jint (?n mod 12 + 1)) = dec_digits (?n mod 12 + 1)"
    using year_month_numbers unfolding list_all_iff set_append set_upto by blast+
  then show ?thesis
    unfolding release_date_def Let_def num off rel sub div yr mon by (simp add: year_month_def)
qed

definition sizes_ok :: "(jnum option \<times> jnum option) \<times> jnum \<Rightarrow> bool" where
  "sizes_ok r = (\<exists>c n w. r = ((Some (jint c), Some (jint n)), from_uint32 w) \<and> 0 \<le> n \<and> n \<le> c \<and> 0 < c \<and> c \<le> 1000000)"

lemma sizes_ok_if: "sizes_ok x \<Longrightarrow> sizes_ok y \<Longrightarrow> sizes_ok (if b then x else y)"
  by simp

lemma sizes_ok_known:
  "0 \<le> n \<Longrightarrow> n \<le> c \<Longrightarrow> 0 < c \<Longrightarrow> c \<le> 1000000 \<Longrightarrow> sizes_ok ((Some (jint c), Some (jint n)), from_uint32 w)"
  unfolding sizes_ok_def by blast

lemma sizes_ok_picked:
  "sizes_ok (case pickFromBuckets CONTEXT_BUCKETS (from_uint32 w) of (context, rand) \<Rightarrow>
     case pickFromBuckets MAX_OUTPUT_BUCKETS rand of (pick, rand) \<Rightarrow>
       ((context, Some (jmin (upd context JNaN) (upd pick JNaN))), rand))"
proof -
  obtain x where x: "x \<in> set CONTEXT_BUCKETS" "pickFromBuckets CONTEXT_BUCKETS (from_uint32 w) = (Some x, from_uint32 (lcg w))"
    using pickFromBuckets_word [of CONTEXT_BUCKETS w] by (auto simp: CONTEXT_BUCKETS_def)
  obtain y where y: "y \<in> set MAX_OUTPUT_BUCKETS"
      "pickFromBuckets MAX_OUTPUT_BUCKETS (from_uint32 (lcg w)) = (Some y, from_uint32 (lcg (lcg w)))"
    using pickFromBuckets_word [of MAX_OUTPUT_BUCKETS "lcg w"] by (auto simp: MAX_OUTPUT_BUCKETS_def)
  have "\<exists>c. x = jint c \<and> 0 < c \<and> c \<le> 1000000" using x(1) unfolding CONTEXT_BUCKETS_def set_map by force
  then obtain c where c: "x = jint c" "0 < c" "c \<le> 1000000" by blast
  have "\<exists>n. y = jint n \<and> 0 \<le> n" using y(1) unfolding MAX_OUTPUT_BUCKETS_def set_map by force
  then obtain n where n: "y = jint n" "0 \<le> n" by blast
  have "jmin x y = jint (min c n)" by (simp add: c(1) n(1) jmin_def)
  then show ?thesis using c n sizes_ok_known [of "min c n" c "lcg (lcg w)"] by (simp add: x(2) y(2) upd_def)
qed

lemma inferContext_bounds: "sizes_ok (inferContextAndOutputs lower name (from_uint32 w) endpoints)"
proof -
  have known: "sizes_ok ((Some (JFin (numeral c)), Some (JFin (numeral n))), from_uint32 w)"
    if "numeral n \<le> (numeral c :: int)" "numeral c \<le> (1000000 :: int)" for c n
    using sizes_ok_known [of "numeral n" "numeral c" w] that by simp
  have none: "sizes_ok ((Some (JFin (numeral c)), Some (JFin 0)), from_uint32 w)" if "numeral c \<le> (1000000 :: int)" for c
    using sizes_ok_known [of 0 "numeral c" w] that by simp
  show ?thesis
    unfolding inferContextAndOutputs_def Let_def
    by (intro sizes_ok_if sizes_ok_picked known none) simp_all
qed

text \<open>The inferred part of the metadata: everything the generator decides.\<close>

definition no_metadata :: "PricingModel \<Rightarrow> PricingModel" where
  "no_metadata model = model\<lparr> pm_context_length := None, pm_max_output_tokens := None, pm_knowledge_cutoff := None,
     pm_release_date := None, pm_parameter_count := None \<rparr>"

lemma inferReleaseAndCutoff_word:
  "\<exists>y m k. (y, m) \<in> set cutoff_months \<and> 4 \<le> k \<and> k \<le> 9
     \<and> inferReleaseAndCutoff (from_uint32 w) = (Some (year_month (y + (m - 1 + k) div 12) ((m - 1 + k) mod 12 + 1) @ js ''-15'',
         year_month y m), from_uint32 (lcg (lcg w)))"
proof -
  obtain x where x: "x \<in> set KNOWLEDGE_CUTOFFS" "pickFromBuckets KNOWLEDGE_CUTOFFS (from_uint32 w) = (Some x, from_uint32 (lcg w))"
    using pickFromBuckets_word [of KNOWLEDGE_CUTOFFS w] by (auto simp: KNOWLEDGE_CUTOFFS_def)
  from x(1) obtain y m where ym: "(y, m) \<in> set cutoff_months" "x = year_month y m" by (auto simp: cutoffs_are_months)
  let ?k = "uint (lcg (lcg w)) * 6 div 4294967296"
  have k: "0 \<le> ?k" "?k \<le> 5" using scaled_unit(2,4) [of 6 "lcg (lcg w)"] by simp_all
  have "jfloor (jmul (unit_of (lcg (lcg w))) (JFin 6)) = jint ?k" using floor_scaled_unit [of 6 "lcg (lcg w)"] by simp
  from release_date_month [OF ym(1) this k]
  have "inferReleaseAndCutoff (from_uint32 w)
    = (Some (year_month (y + (m + ?k + 3) div 12) ((m + ?k + 3) mod 12 + 1) @ js ''-15'', year_month y m), from_uint32 (lcg (lcg w)))"
    unfolding inferReleaseAndCutoff_def x(2) by (simp add: next_random_word ym(2))
  moreover have "m + ?k + 3 = m - 1 + (?k + 4)" by simp
  ultimately show ?thesis using ym(1) k by (intro exI [of _ y] exI [of _ m] exI [of _ "?k + 4"]) (simp only: conj_assoc; simp)
qed

text \<open>C23. The metadata inferred for a model that has none of its own exists and is consistent: the context is
  between 1 and a million tokens, the output is at most the context, the knowledge cutoff is one of the listed
  months, the model was released on the 15th of a month four to nine months later, in a month from 1 to 12, and the
  parameter count is one of the listed sizes.\<close>

theorem inferred_metadata_consistent:
  "\<exists>md c n y m k. inferModelMetadata lower (no_metadata model) = Some md
     \<and> md_context_length md = Some (jint c) \<and> md_max_output_tokens md = Some (jint n) \<and> 0 \<le> n \<and> n \<le> c \<and> 0 < c \<and> c \<le> 1000000
     \<and> md_knowledge_cutoff md = year_month y m \<and> year_month y m \<in> set KNOWLEDGE_CUTOFFS
     \<and> 4 \<le> k \<and> k \<le> 9 \<and> md_release_date md = year_month (y + (m - 1 + k) div 12) ((m - 1 + k) mod 12 + 1) @ js ''-15''
     \<and> md_parameter_count md \<in> Some ` set PARAM_BUCKETS"
proof -
  let ?name = "pm_name model" let ?eps = "upd (pm_endpoint_types model) []"
  define w0 where "w0 = to_int32 (jor (hashStringToSeed ?name) (JFin 1))"
  have seed: "seededRandom (hashStringToSeed ?name) = from_uint32 w0" by (simp add: seededRandom_def w0_def)
  obtain c n w where c: "inferContextAndOutputs lower ?name (from_uint32 w0) ?eps = ((Some (jint c), Some (jint n)), from_uint32 w)"
      "0 \<le> n" "n \<le> c" "0 < c" "c \<le> 1000000"
    using inferContext_bounds [of lower ?name w0 ?eps] unfolding sizes_ok_def by blast
  obtain y m k where r: "(y, m) \<in> set cutoff_months" "4 \<le> k" "k \<le> 9"
      "inferReleaseAndCutoff (from_uint32 w) = (Some (year_month (y + (m - 1 + k) div 12) ((m - 1 + k) mod 12 + 1) @ js ''-15'',
         year_month y m), from_uint32 (lcg (lcg w)))"
    using inferReleaseAndCutoff_word by blast
  obtain x where x: "x \<in> set PARAM_BUCKETS" "pickFromBuckets PARAM_BUCKETS (from_uint32 (lcg (lcg w))) = (Some x, from_uint32 (lcg (lcg (lcg w))))"
    using pickFromBuckets_word [of PARAM_BUCKETS "lcg (lcg w)"] by (auto simp: PARAM_BUCKETS_def)
  have "year_month y m \<in> set KNOWLEDGE_CUTOFFS" using r(1) unfolding cutoffs_are_months by force
  moreover have "\<exists>md. inferModelMetadata lower (no_metadata model) = Some md
     \<and> md_context_length md = Some (jint c) \<and> md_max_output_tokens md = Some (jint n) \<and> md_knowledge_cutoff md = year_month y m
     \<and> md_release_date md = year_month (y + (m - 1 + k) div 12) ((m - 1 + k) mod 12 + 1) @ js ''-15''
     \<and> md_parameter_count md = Some x"
    using c(1) r(4) x(2) by (simp add: inferModelMetadata_def Let_def no_metadata_def seed or_else_def upd_def)
  ultimately show ?thesis using c(2-5) r(2,3) x(1) by blast
qed

text \<open>The interface information of a model is consistent: it names the tokenizer, label and home page of the
  vendor found in its name, the days of data retention are an integer from 0 to 90, 30 for OpenAI, and the licence
  kind is unknown exactly for an unknown vendor.\<close>

theorem api_info_consistent:
  "\<exists>d. ai_retention_days (inferApiInfo lower model) = jint d \<and> 0 \<le> d \<and> d \<le> 90
     \<and> (if ai_vendor (inferApiInfo lower model) = V_openai then d = 30 else
          ai_tokenizer_note (inferApiInfo lower model) = None)
     \<and> (ai_license_kind (inferApiInfo lower model) = Unknown_license) = (ai_vendor (inferApiInfo lower model) = V_unknown)
     \<and> (ai_homepage (inferApiInfo lower model) = None) = (ai_vendor (inferApiInfo lower model) = V_unknown)"
proof -
  let ?v = "detectVendor lower (pm_name model)"
  define w where "w = to_int32 (jor (hashStringToSeed (pm_name model @ js '':api'')) (JFin 1))"
  let ?u = "of_int (uint (lcg w) * 90) / 4294967296 :: rat"
  have u: "0 \<le> \<lfloor>?u\<rfloor>" "\<lfloor>?u\<rfloor> < 90"
    using scaled_unit(2,4) [of 90 "lcg w"] unfolding floor_frac32 by simp_all
  then have "0 \<le> \<lfloor>?u + 1 / 2\<rfloor>" "\<lfloor>?u + 1 / 2\<rfloor> \<le> 90" by linarith+
  moreover have "jround (jmul (fst (next_random (from_uint32 w))) (JFin 90)) = jint \<lfloor>?u + 1 / 2\<rfloor>"
    using scaled_unit(1) [of 90 "lcg w"] by (simp only: next_random_word fst_conv jround.simps) simp
  ultimately have retention: "\<exists>d. (if ?v = V_openai then JFin 30
      else jround (jmul (fst (next_random (from_uint32 w))) (JFin 90))) = jint d
    \<and> 0 \<le> d \<and> d \<le> 90 \<and> (?v = V_openai \<longrightarrow> d = 30)"
    by (cases "?v = V_openai") (auto intro: exI [of _ 30])
  have seed: "seededRandom (hashStringToSeed (pm_name model @ js '':api'')) = from_uint32 w"
    by (simp add: seededRandom_def w_def)
  obtain tok nt where tk: "inferTokenizer lower model ?v = (tok, nt)" by fastforce
  have "?v \<noteq> V_openai \<Longrightarrow> nt = None" using tk by (simp add: inferTokenizer_def Let_def)
  moreover obtain license kind where lic: "LICENSE_BY_VENDOR ?v = (license, kind)" by fastforce
  moreover have "kind = Unknown_license \<longleftrightarrow> ?v = V_unknown" using lic by (cases ?v) auto
  moreover have "HOMEPAGE_BY_VENDOR ?v = None \<longleftrightarrow> ?v = V_unknown" by (cases ?v) simp_all
  ultimately show ?thesis using retention
    by (simp add: inferApiInfo_def Let_def tk seed) (metis (full_types))
qed

section \<open>Months\<close>

lemma month_start_0 [simp]: "month_start leap 0 = 0"
  by (simp add: month_start_def)

lemma make_day_first: "0 \<le> m \<Longrightarrow> m < 12 \<Longrightarrow> civil_of_day (make_day y m 1) = (y, m, 1)"
  by (rule civil_of_make_day) (auto simp: civil_valid_def month_lengths_def nth_Cons split: nat.splits)

text \<open>The day before the first of a month is in the month before.\<close>

lemma day_before_first:
  assumes "0 \<le> m" "m < 12"
  shows "\<exists>d. civil_of_day (make_day y m 1 - 1) = (if m = 0 then (y - 1, 11, d) else (y, m - 1, d))"
proof (cases "m = 0")
  case True
  have "make_day (y - 1) 11 31 = day_from_year (y - 1) + (if leap_year (y - 1) then 366 else 365) - 1"
    by (simp add: make_day_def month_start_def month_lengths_def Let_def)
  also have "\<dots> = make_day y 0 1 - 1" using year_length [of "y - 1"] by (simp add: make_day_def Let_def)
  finally have "civil_of_day (make_day y 0 1 - 1) = (y - 1, 11, 31)"
    using civil_of_make_day [of "y - 1" 11 31] by (simp add: civil_valid_def month_lengths_def)
  then show ?thesis using True by simp
next
  case False
  define k where "k = nat (m - 1)"
  have k: "nat m = Suc k" "int k = m - 1" "k < 11" using False assms by (simp_all add: k_def)
  let ?l = "month_lengths (leap_year y) ! k"
  have "month_start (leap_year y) (Suc k) = month_start (leap_year y) k + ?l"
    using k(3) by (simp add: month_start_def take_Suc_conv_app_nth)
  then have "make_day y m 1 - 1 = make_day y (m - 1) ?l"
    using assms False k by (simp add: make_day_def Let_def k_def [symmetric])
  moreover have "civil_valid y (m - 1) ?l"
    using assms False k month_not_empty [of k "leap_year y"] by (simp add: civil_valid_def k_def [symmetric])
  ultimately show ?thesis using civil_of_make_day False by auto
qed

lemma make_day_range:
  assumes "0 \<le> y" "y \<le> 200000" "0 \<le> m" "m < 12"
  shows "\<bar>make_day y m 1\<bar> \<le> 99000000"
proof -
  have "nat m < 12" using assms(3,4) by simp
  then have "month_start (leap_year y) (nat m) \<le> 366"
    using month_end_le [of "nat m" "leap_year y"] month_not_empty [of "nat m" "leap_year y"] by (simp split: if_splits)
  moreover have "0 \<le> month_start (leap_year y) (nat m)" by (rule month_start_nonneg)
  ultimately show ?thesis
    using year_start_mean [of y] assms by (simp add: make_day_def Let_def abs_le_iff)
qed

text \<open>C26. The month of a date text is shown as that month exactly where the local time is not behind UTC; west of
  Greenwich the month before is shown, because the date is made in UTC and printed in local time.\<close>

theorem year_month_shown:
  assumes "split_on 45 v = ys # ms # rest" "str_to_num ys = jint y" "str_to_num ms = jint (m + 1)"
    "100 \<le> y" "y \<le> 200000" "0 \<le> m" "m < 12" "- MS_PER_DAY \<le> offset" "offset < MS_PER_DAY"
  shows "formatYearMonth (fixed_zone offset) show_month v =
    (if 0 \<le> offset then show_month y m else if m = 0 then show_month (y - 1) 11 else show_month y (m - 1))"
proof -
  have v: "v \<noteq> []" using assms(1) by auto
  let ?t = "make_day y m 1 * MS_PER_DAY"
  have "\<bar>?t\<bar> \<le> 8640000000000000" using make_day_range [of y m] assms(4-7) by (simp add: MS_PER_DAY_def abs_mult)
  moreover have "jsub (jint (m + 1)) (JFin 1) = jint m" using jsub_int [of "m + 1" 1] assms(6,7) by simp
  ultimately have date: "date_utc (jint y) (jsub (jint (m + 1)) (JFin 1)) (JFin 1) = Some ?t"
    using assms(4) to_integer_jint [of 1] by (simp add: date_utc_def time_clip_def make_date_def del: to_integer.simps)
  have "day_of (?t + offset) = (if 0 \<le> offset then make_day y m 1 else make_day y m 1 - 1)"
  proof (cases "0 \<le> offset")
    case True
    then show ?thesis using day_of_make_date(1) [of offset "make_day y m 1"] assms(9) by (simp add: make_date_def)
  next
    case False
    then show ?thesis using day_of_make_date(1) [of "offset + MS_PER_DAY" "make_day y m 1 - 1"] assms(8)
      by (simp add: make_date_def algebra_simps)
  qed
  moreover obtain d where "civil_of_day (make_day y m 1 - 1) = (if m = 0 then (y - 1, 11, d) else (y, m - 1, d))"
    using day_before_first [OF assms(6,7)] by blast
  ultimately have "local_civil (fixed_zone offset) ?t = (if 0 \<le> offset then (y, m, 1) else if m = 0 then (y - 1, 11, d) else (y, m - 1, d))"
    using make_day_first [OF assms(6,7)] by (simp add: local_civil_def)
  then show ?thesis
    using v assms(1-3) date by (simp add: formatYearMonth_def nth_number_def Let_def del: of_int_add jsub_def)
qed

theorem year_month_shown_witness:
  "formatYearMonth (fixed_zone (- 18000000)) (\<lambda>y m. num_to_str (jint (100 * y + m))) (js ''2024-10'') = num_to_str (jint 202408)"
proof -
  have s: "split_on 45 (js ''2024-10'') = [js ''2024'', js ''10'']" by (simp add: js_def)
  have "str_to_num (js ''2024'') = jint 2024" "str_to_num (js ''10'') = jint (9 + 1)" 
    by (simp_all add: number_eval)
  from year_month_shown [OF s this, of "- 18000000" "\<lambda>y m. num_to_str (jint (100 * y + m))"] show ?thesis by (simp add: MS_PER_DAY_def)
qed

end
