(* ===== verification/StatsFacts.thy ===== *)
theory StatsFacts
  imports MockStats MetadataFacts
begin

text \<open>
  What holds of the generated statistics (\<open>features/pricing/lib/mock-stats.ts\<close>): the framing of numbers drawn by
  eighths, which are exact, the performance table, the shuffle of the application templates, and the dates of the
  uptime series.
\<close>

section \<open>Bounds of rounded results\<close>

lemma to_double_between:
  assumes "to_double lo = JFin lo" "to_double hi = JFin hi" "lo \<le> q" "q \<le> hi"
  shows "\<exists>y. to_double q = JFin y \<and> lo \<le> y \<and> y \<le> hi"
proof -
  have "jle (JFin lo) (to_double q)" "jle (to_double q) (JFin hi)"
    using to_double_mono [OF assms(3)] to_double_mono [OF assms(4)] assms(1,2) by simp_all
  then show ?thesis by (cases "to_double q") auto
qed

text \<open>Eighths are exact; they frame the numbers drawn.\<close>

lemma to_double_eighth: "\<bar>m\<bar> < 2 ^ 53 \<Longrightarrow> to_double (of_int m / 8) = JFin (of_int m / 8)"
  using to_double_dyadic [of m "- 3"] by (simp add: two_pow_def)

lemma eighths_between:
  assumes "of_int m / 8 \<le> x" "x \<le> of_int n / 8" "\<bar>m\<bar> < 2 ^ 53" "\<bar>n\<bar> < 2 ^ 53"
  shows "\<exists>y. to_double x = JFin y \<and> of_int m / 8 \<le> y \<and> y \<le> of_int n / 8"
  by (rule to_double_between) (use to_double_eighth assms in simp_all)

text \<open>\<open>a + rand() * b\<close> lies between eighths \<open>lo \<le> a\<close> and \<open>hi\<close>, if \<open>a \<le> mid\<close>, \<open>b \<le> wid\<close> and \<open>mid + wid \<le> hi\<close>.\<close>

lemma affine_random_bounds:
  assumes "of_int lo / 8 \<le> a" "a \<le> of_int mid / 8" "0 \<le> b" "b \<le> of_int wid / 8" "mid + wid \<le> hi"
    and "0 \<le> lo" "0 \<le> mid" "0 \<le> wid" "hi < 1000000" "lo < 1000000"
  shows "\<exists>y. affine_random a b (from_uint32 w) = (JFin y, from_uint32 (lcg w)) \<and> of_int lo / 8 \<le> y \<and> y \<le> of_int hi / 8"
proof -
  let ?u = "of_int (uint (lcg w)) / 4294967296 :: rat"
  have small: "\<bar>lo\<bar> < 2 ^ 53" "\<bar>mid\<bar> < 2 ^ 53" "\<bar>wid\<bar> < 2 ^ 53" "\<bar>hi\<bar> < 2 ^ 53" using assms(5-10) by simp_all
  obtain a' where a: "to_double a = JFin a'" "of_int lo / 8 \<le> a'" "a' \<le> of_int mid / 8"
    using eighths_between [OF assms(1,2) small(1,2)] by blast
  obtain b' where b: "to_double b = JFin b'" "0 \<le> b'" "b' \<le> of_int wid / 8"
    using eighths_between [of 0 b wid] assms(3,4) small(3) by auto
  have u: "0 \<le> ?u" "?u \<le> 1" using unit_of_range [of "lcg w"] by (simp_all del: of_int_uint)
  have "0 \<le> ?u * b'" using u(1) b(2) by (rule mult_nonneg_nonneg)
  moreover have "?u * b' \<le> of_int wid / 8" using mult_left_le_one_le [OF b(2) u] b(3) by (rule order_trans)
  ultimately obtain x where x: "to_double (?u * b') = JFin x" "0 \<le> x" "x \<le> of_int wid / 8"
    using eighths_between [of 0 "?u * b'" wid] small(3) by auto
  have "(of_int mid / 8 + of_int wid / 8 :: rat) = of_int (mid + wid) / 8" by (simp add: add_divide_distrib)
  also have "\<dots> \<le> of_int hi / 8" using assms(5) by (simp add: divide_right_mono del: of_int_add)
  finally have "of_int lo / 8 \<le> a' + x" "a' + x \<le> of_int hi / 8" using a x by linarith+
  then obtain y where y: "to_double (a' + x) = JFin y" "of_int lo / 8 \<le> y" "y \<le> of_int hi / 8"
    using eighths_between [of lo "a' + x" hi] small(1,4) by blast
  have "jmul (unit_of (lcg w)) (JFin b') = JFin x" using x(1) by (simp add: unit_of_def del: of_int_uint)
  then show ?thesis using y by (simp add: affine_random_def next_random_word a(1) b(1) del: jmul.simps)
qed

section \<open>Performance\<close>

lemma spec_ranges:
  "\<exists>a b c d. ttftRange (PROFILE_SPECS p) = ints a b \<and> 40 \<le> a \<and> a \<le> b \<and> b \<le> 12000
     \<and> throughputRange (PROFILE_SPECS p) = ints c d \<and> 0 \<le> c \<and> c \<le> d \<and> d \<le> 240"
  by (cases p) auto

lemma jround_mono: "jle x y \<Longrightarrow> jle (jround x) (jround y)"
proof (cases x; cases y)
  fix p q assume "jle x y" "x = JFin p" "y = JFin q"
  then have "\<lfloor>p + 1 / 2\<rfloor> \<le> \<lfloor>q + 1 / 2\<rfloor>" by (intro floor_mono) simp
  with \<open>x = JFin p\<close> \<open>y = JFin q\<close> show ?thesis by simp
qed auto

text \<open>The three percentiles are rounded multiples of one latency, with growing factors.\<close>

lemma percentiles_ordered:
  assumes "30 \<le> x" "x \<le> 18000" "3 / 2 \<le> f" "f \<le> 9 / 4" "9 / 4 \<le> g" "g \<le> 4"
  shows "jle (jround (JFin x)) (jround (jmul (JFin x) (JFin f)))
    \<and> jle (jround (jmul (JFin x) (JFin f))) (jround (jmul (JFin x) (JFin g)))"
proof -
  have fg: "x * f \<le> x * g" "x * (3 / 2) \<le> x * f" "x * g \<le> x * 4" using assms by (simp_all add: mult_left_mono)
  let ?n = "\<lceil>x\<rceil>"
  have "of_int ?n \<le> x + 1" by (rule of_int_ceiling_le_add_one)
  with fg(2) assms(1) have n1: "of_int ?n \<le> x * f" by linarith
  have n: "of_int ?n \<le> x * f" "x \<le> of_int ?n" "?n \<le> 18000" using n1 assms(2) by (simp_all add: ceiling_le_iff)
  have "jle (JFin x) (JFin (of_int ?n))" using n(2) by simp
  moreover have "0 \<le> ?n" using assms(1) by (simp add: zero_le_ceiling)
  then have "to_double (of_int ?n) = jint ?n" using n(3) by (intro to_double_int) simp
  then have "jle (JFin (of_int ?n)) (to_double (x * f))" using to_double_mono [OF n(1)] by simp
  ultimately have "jle (JFin x) (to_double (x * f))" by (rule jle_trans)
  moreover have "jle (to_double (x * f)) (to_double (x * g))" using fg(1) by (rule to_double_mono)
  ultimately show ?thesis by (simp add: jround_mono del: jround.simps)
qed

text \<open>A uptime rounded to two digits is at most 99.99, whatever it was.\<close>

lemma rounded_uptime:
  assumes "x = JFin r"
  shows "jle (jdiv (jround (jmul (jmin (to_double (9999 / 100)) x) (JFin 100))) (JFin 100)) (to_double (9999 / 100))"
proof -
  define q where "q = (7036170730324623 / 70368744177664 :: rat)"
  have q: "to_double (9999 / 100) = JFin q" unfolding q_def by code_simp
  have q100: "to_double (q * 100) = JFin 9999" unfolding q_def by code_simp
  obtain m where m: "jmin (JFin q) x = JFin m" "m \<le> q" using assms by (cases "r < q") (simp_all add: jmin_def)
  have "jle (to_double (m * 100)) (JFin 9999)" using to_double_mono [of "m * 100" "q * 100"] m(2) q100 by simp
  then have "jle (jround (to_double (m * 100))) (JFin 9999)" using jround_mono [of _ "JFin 9999"] jround_int [of 9999] by simp
  then have "jle (jdiv (jround (to_double (m * 100))) (JFin 100)) (jdiv (JFin 9999) (JFin 100))"
    by (intro jdiv_mono) (auto intro: jle_not_NaN)
  then show ?thesis unfolding q m(1) using q by simp
qed

definition percentiles_ok :: "GroupPerformance \<Rightarrow> bool" where
  "percentiles_ok p = (jle (gp_ttft_p50 p) (gp_ttft_p95 p) \<and> jle (gp_ttft_p95 p) (gp_ttft_p99 p)
     \<and> jle (JFin 30) (gp_ttft_p50 p) \<and> jle (gp_uptime p) (to_double (9999 / 100))
     \<and> (\<exists>n. gp_volume p = jint n \<and> 18000 \<le> n \<and> n \<le> 480000))"

lemma seeded_state: "\<exists>w. seededRandom s = from_uint32 w"
  by (auto simp: seededRandom_def)

lemma groupFactor_ttft: "\<exists>y u. fa_ttft (groupFactor grp seed) = JFin y \<and> 3 / 4 \<le> y \<and> y \<le> 3 / 2
    \<and> fa_uptime (groupFactor grp seed) = JFin u \<and> 7 / 8 \<le> u \<and> u \<le> 9 / 8"
proof -
  obtain w where w: "seededRandom (jxor seed (hashStringToSeed (if grp = [] then js ''default'' else grp))) = from_uint32 w"
    using seeded_state by blast
  obtain y where "affine_random (85 / 100) (55 / 100) (from_uint32 w) = (JFin y, from_uint32 (lcg w))" "3 / 4 \<le> y" "y \<le> 3 / 2"
    using affine_random_bounds [of 6 "85 / 100" 7 "55 / 100" 5 12 w] by auto
  moreover obtain z where "affine_random (85 / 100) (4 / 10) (from_uint32 (lcg w)) = (JFin z, from_uint32 (lcg (lcg w)))"
    using affine_random_bounds [of 6 "85 / 100" 7 "4 / 10" 4 12 "lcg w"] by auto
  moreover obtain u where "affine_random (997 / 1000) (3 / 1000) (from_uint32 (lcg (lcg w))) = (JFin u, from_uint32 (lcg (lcg (lcg w))))"
      "7 / 8 \<le> u" "u \<le> 9 / 8"
    using affine_random_bounds [of 7 "997 / 1000" 8 "3 / 1000" 1 9 "lcg (lcg w)"] by auto
  ultimately show ?thesis by (simp add: groupFactor_def w)
qed

lemma fin_between: "of_int m / 8 \<le> x \<Longrightarrow> x \<le> of_int n / 8 \<Longrightarrow> \<bar>m\<bar> < 100000 \<Longrightarrow> \<bar>n\<bar> < 100000 \<Longrightarrow>
    \<exists>y. to_double x = JFin y \<and> of_int m / 8 \<le> y \<and> y \<le> of_int n / 8"
  by (rule eighths_between) simp_all

lemma uptime_drawn:
  "\<exists>q. rangeFromSeed (uptimeRange (PROFILE_SPECS p)) (from_uint32 w) = (JFin q, from_uint32 (lcg w)) \<and> 96 \<le> q \<and> q \<le> 102"
proof -
  have "fst (uptimeRange (PROFILE_SPECS p)) \<in> to_double ` {98..100}" "snd (uptimeRange (PROFILE_SPECS p)) \<in> to_double ` {98..100}"
    by (cases p; simp)+
  then obtain lo hi where mn: "fst (uptimeRange (PROFILE_SPECS p)) = to_double lo" "lo \<in> {98..100}"
      "snd (uptimeRange (PROFILE_SPECS p)) = to_double hi" "hi \<in> {98..100}"
    by (elim imageE) blast
  have "\<exists>y. to_double k = JFin y \<and> 98 \<le> y \<and> y \<le> 100" if "k \<in> {98..100}" for k
    using fin_between [of 784 k 800] that by simp
  from this [OF mn(2)] this [OF mn(4)]
  obtain a b where ab: "to_double lo = JFin a" "98 \<le> a" "a \<le> 100" "to_double hi = JFin b" "98 \<le> b" "b \<le> 100" by blast
  obtain z where z: "to_double (b - a) = JFin z" "- 2 \<le> z" "z \<le> 2" using fin_between [of "- 16" "b - a" 16] ab by auto
  let ?u = "of_int (uint (lcg w)) / 4294967296 :: rat"
  have u: "0 \<le> ?u" "?u \<le> 1" using unit_of_range [of "lcg w"] by (simp_all del: of_int_uint)
  have "\<bar>?u * z\<bar> \<le> 1 * 2" unfolding abs_mult using u z by (intro mult_mono) (simp_all del: of_int_uint)
  moreover have "\<exists>y. to_double v = JFin y \<and> - 2 \<le> y \<and> y \<le> 2" if "\<bar>v\<bar> \<le> 1 * 2" for v
    using fin_between [of "- 16" v 16] that by (auto simp: abs_le_iff)
  ultimately obtain x where x: "to_double (?u * z) = JFin x" "- 2 \<le> x" "x \<le> 2" by blast
  obtain q where q: "to_double (a + x) = JFin q" "96 \<le> q" "q \<le> 102" using fin_between [of 768 "a + x" 816] ab x by auto
  have "jmul (unit_of (lcg w)) (JFin z) = JFin x" using x(1) by (simp add: unit_of_def del: of_int_uint)
  with q z show ?thesis
    by (simp add: mn(1,3) rangeFromSeed_def randomInRange_def next_random_word ab(1,4) jsub_def del: jmul.simps)
qed

lemma group_performance_ok: "percentiles_ok (group_performance (PROFILE_SPECS p) seed grp)"
proof -
  obtain a b c d where r: "ttftRange (PROFILE_SPECS p) = ints a b" "40 \<le> a" "a \<le> b" "b \<le> 12000"
      "throughputRange (PROFILE_SPECS p) = ints c d" "0 \<le> c" "c \<le> d" "d \<le> 240"
    using spec_ranges [of p] by blast
  obtain w where w: "seededRandom (jxor seed (hashStringToSeed grp)) = from_uint32 w" using seeded_state by blast
  obtain y u where y: "fa_ttft (groupFactor grp seed) = JFin y" "3 / 4 \<le> y" "y \<le> 3 / 2"
      "fa_uptime (groupFactor grp seed) = JFin u" "7 / 8 \<le> u" "u \<le> 9 / 8"
    using groupFactor_ttft [of grp seed] by blast
  obtain t where t: "rangeFromSeed (ints a b) (from_uint32 w) = (JFin t, from_uint32 (lcg w))" "of_int a \<le> t" "t \<le> of_int b"
    using randomInRange_bounds [of a b w] r(2-4) by (auto simp: rangeFromSeed_def)
  obtain v where v: "rangeFromSeed (ints c d) (from_uint32 (lcg w)) = (JFin v, from_uint32 (lcg (lcg w)))"
    using randomInRange_bounds [of c d "lcg w"] r(6-8) by (auto simp: rangeFromSeed_def)
  let ?w3 = "lcg (lcg (lcg w))"
  obtain q where q: "rangeFromSeed (uptimeRange (PROFILE_SPECS p)) (from_uint32 (lcg (lcg w))) = (JFin q, from_uint32 ?w3)" "96 \<le> q" "q \<le> 102"
    using uptime_drawn by blast
  obtain n where n: "randomIntInRange (JFin 18000) (JFin 480000) (from_uint32 ?w3) = (jint n, from_uint32 (lcg ?w3))" "18000 \<le> n" "n \<le> 480000"
  proof -
    let ?k = "uint (lcg ?w3) * 462001 div 4294967296"
    have "0 \<le> ?k" "?k < 462001" using scaled_unit(2,4) [of 462001 "lcg ?w3"] by simp_all
    moreover have "randomIntInRange (jint 18000) (jint 480000) (from_uint32 ?w3) = (jint (18000 + ?k), from_uint32 (lcg ?w3))"
      using randomIntInRange_exact [of 18000 480000 ?w3] by simp
    ultimately show thesis by (intro that [of "18000 + ?k"]) simp_all
  qed
  obtain f where f: "affine_random (16 / 10) (4 / 10) (from_uint32 (lcg ?w3)) = (JFin f, from_uint32 (lcg (lcg ?w3)))" "3 / 2 \<le> f" "f \<le> 9 / 4"
    using affine_random_bounds [of 12 "16 / 10" 14 "4 / 10" 4 18 "lcg ?w3"] by auto
  obtain g where g: "affine_random (24 / 10) (6 / 10) (from_uint32 (lcg (lcg ?w3))) = (JFin g, from_uint32 (lcg (lcg (lcg ?w3))))" "9 / 4 \<le> g" "g \<le> 4"
    using affine_random_bounds [of 18 "24 / 10" 20 "6 / 10" 6 32 "lcg (lcg ?w3)"] by auto
  have "of_int 40 \<le> t" "t \<le> of_int 12000" using t(2,3) r(2,4) by (meson of_int_le_iff order_trans)+
  then have "30 \<le> t * y" "t * y \<le> 12000 * (3 / 2)"
    using y(2,3) mult_mono [of 40 t "3 / 4" y] mult_mono [of t 12000 y "3 / 2"] by simp_all
  then obtain x where x: "to_double (t * y) = JFin x" "30 \<le> x" "x \<le> 18000"
    using eighths_between [of 240 "t * y" 144000] by auto
  have "0 \<le> q * u" "q * u \<le> 102 * (9 / 8)" using q(2,3) y(5,6) by (simp, intro mult_mono) simp_all
  then obtain z where z: "to_double (q * u) = JFin z" using eighths_between [of 0 "q * u" 918] by auto
  note perc = percentiles_ordered [OF x(2,3) f(2,3) g(2,3)]
  have "jle (JFin 30) (jround (JFin x))" using x(2) jround_mono [of "JFin 30" "JFin x"] jround_int [of 30] by simp
  with perc n(2,3) rounded_uptime [OF z] f(1) g(1) show ?thesis
    by (simp add: percentiles_ok_def group_performance_def w r(1,5) t(1) v q(1) n(1) y(1,4) applyGroupFactor_def x(1)
        Let_def del: jround.simps)
qed

lemma collation_order:
  assumes "\<forall>a b. lc a b \<le> 0 \<or> lc b a \<le> (0::int)" "\<forall>a b c. lc a b \<le> 0 \<longrightarrow> lc b c \<le> 0 \<longrightarrow> lc a c \<le> 0"
  shows "comparator (\<lambda>a b. lc a b \<le> 0)"
  using assms by unfold_locales blast+

text \<open>C29. The performance table has one row for each enabled group that has a name and is not \<open>auto\<close>, as often as it
  is enabled, or the one row \<open>default\<close> when there is no such group; for a collation that is a total preorder the rows
  are sorted by it. In each row the median latency is at least 30 and at most the 95th percentile, which is at most the
  99th, the uptime is at most 99.99, and the number of requests is an integer from 18000 to 480000.\<close>

theorem performance_table:
  assumes "\<forall>a b. lc a b \<le> 0 \<or> lc b a \<le> (0::int)" "\<forall>a b c. lc a b \<le> 0 \<longrightarrow> lc b c \<le> 0 \<longrightarrow> lc a c \<le> 0"
  shows "let table = buildGroupPerformance lower lc model;
      groups = filter (\<lambda>g. g \<noteq> [] \<and> g \<noteq> js ''auto'') (upd (pm_enable_groups model) []) in
    mset (map gp_group table) = mset (if groups = [] then [js ''default''] else groups)
    \<and> sorted_wrt (\<lambda>a b. lc a b \<le> 0) (map gp_group table)
    \<and> list_all percentiles_ok table"
proof -
  have "map gp_group (buildGroupPerformance lower lc model) = target_groups lc model"
    by (simp add: buildGroupPerformance_def comp_def group_performance_def Let_def split_beta)
  moreover have "list_all percentiles_ok (buildGroupPerformance lower lc model)"
    by (simp add: buildGroupPerformance_def list_all_iff group_performance_ok)
  moreover have "sorted_wrt (\<lambda>a b. lc a b \<le> 0) (target_groups lc model)"
    unfolding target_groups_def Let_def by (rule comparator.sorted_sort_by [OF collation_order [OF assms]])
  ultimately show ?thesis by (simp add: target_groups_def Let_def del: mset_map mset_filter)
qed

theorem performance_table_witness:
  "let table = buildGroupPerformance (map ascii_lower) (\<lambda>a b. int (length a) - int (length b))
      (sample_model\<lparr> pm_enable_groups := Some [js ''standard'', js ''auto'', js ''vip''] \<rparr>) in
    mset (map gp_group table) = {#js ''standard'', js ''vip''#}
    \<and> sorted_wrt (\<lambda>a b. length a \<le> length b) (map gp_group table) \<and> list_all percentiles_ok table"
proof -
  let ?lc = "\<lambda>a b :: jstr. int (length a) - int (length b)"
  let ?m = "sample_model\<lparr> pm_enable_groups := Some [js ''standard'', js ''auto'', js ''vip''] \<rparr>"
  have "\<forall>a b. ?lc a b \<le> 0 \<or> ?lc b a \<le> 0" "\<forall>a b c. ?lc a b \<le> 0 \<longrightarrow> ?lc b c \<le> 0 \<longrightarrow> ?lc a c \<le> 0" by auto
  from performance_table [OF this, of "map ascii_lower" ?m] show ?thesis
    by (simp add: Let_def upd_def js_def del: mset_map)
qed

section \<open>The shuffle\<close>

lemma drawn_index_le: "i < 2097151 \<Longrightarrow> drawn_index i (unit_of v) \<le> i"
proof -
  assume i: "i < 2097151"
  let ?k = "uint v * (int i + 1) div 4294967296"
  have "jfloor (jmul (unit_of v) (jint (int i + 1))) = jint ?k" using i by (intro floor_scaled_unit) simp_all
  then have "drawn_index i (unit_of v) = nat ?k" by (simp add: drawn_index_def)
  moreover have "?k < int i + 1" using scaled_unit(4) [of "int i + 1" v] i by simp
  ultimately show ?thesis by linarith
qed

lemma shuffle_loop_mset:
  "k < length xs \<Longrightarrow> k < 2097151 \<Longrightarrow> mset (fst (shuffle_loop k xs (from_uint32 w))) = mset xs
     \<and> (\<exists>w'. snd (shuffle_loop k xs (from_uint32 w)) = from_uint32 w')"
proof (induction k arbitrary: xs w)
  case (Suc k)
  let ?j = "drawn_index (Suc k) (unit_of (lcg w))"
  let ?ys = "xs[Suc k := xs ! ?j, ?j := xs ! Suc k]"
  have "?j < length xs" using drawn_index_le [of "Suc k" "lcg w"] Suc.prems by simp
  then have "mset ?ys = mset xs" using Suc.prems(1) by (simp add: mset_swap)
  then show ?case using Suc.IH [of ?ys "lcg w"] Suc.prems by (simp add: next_random_word Let_def)
qed auto

lemma map_state_map:
  "(\<And>x s. g (fst (f x s)) = h x) \<Longrightarrow> map g (fst (map_state f xs s)) = map h xs"
  by (induction xs arbitrary: s) (simp_all add: split_beta Let_def)

lemma distinct_apps: "distinct (map at_name APP_TEMPLATES)" "length APP_TEMPLATES = 25"
  by (simp_all add: APP_TEMPLATES_def)

text \<open>C33. A ranking of \<open>n\<close> applications lists \<open>min n 25\<close> different templates, unchanged, with the ranks from one on; a
  ranking of at least 25 lists every template once. No entry is fixed: the order comes from the shuffle alone.\<close>

theorem ranking_of_templates:
  "map ar_rank (buildAppRankings upper pow model n) = [1..<Suc (min n 25)]
    \<and> distinct (map at_name (buildAppRankings upper pow model n))
    \<and> mset (map AppTemplate.truncate (buildAppRankings upper pow model n)) \<subseteq># mset APP_TEMPLATES
    \<and> (if n < 25 then length (buildAppRankings upper pow model n) = n
       else mset (map AppTemplate.truncate (buildAppRankings upper pow model n)) = mset APP_TEMPLATES)"
proof -
  obtain w where w: "seededRandom (hashStringToSeed (pm_name model @ js '':apps'')) = from_uint32 w" using seeded_state by blast
  define cs where "cs = fst (shuffle_loop 24 APP_TEMPLATES (from_uint32 w))"
  have "24 < length APP_TEMPLATES" using distinct_apps(2) by simp
  from shuffle_loop_mset [OF this, of w] obtain w' where w': "snd (shuffle_loop 24 APP_TEMPLATES (from_uint32 w)) = from_uint32 w'"
    and m: "mset cs = mset APP_TEMPLATES" unfolding cs_def by auto
  have s: "shuffle_loop 24 APP_TEMPLATES (from_uint32 w) = (cs, from_uint32 w')"
    using w' unfolding cs_def by (simp add: prod_eq_iff)
  have len: "length cs = 25" using m distinct_apps(2) mset_eq_length by metis
  let ?top = "take n cs"
  obtain f s' where b: "buildAppRankings upper pow model n = fst (map_state (app_ranking upper pow f) (enumerate 0 ?top) s')"
    by (simp add: buildAppRankings_def w distinct_apps(2) s Let_def split_beta)
  have tr: "AppTemplate.truncate (fst (app_ranking upper pow f x s)) = snd x" for x s
    by (cases x) (simp add: app_ranking_def Let_def split_beta AppTemplate.truncate_def)
  have rk: "ar_rank (fst (app_ranking upper pow f x s)) = Suc (fst x)" for x s
    by (cases x) (simp add: app_ranking_def Let_def split_beta)
  have t: "map AppTemplate.truncate (buildAppRankings upper pow model n) = ?top"
    unfolding b using map_state_map [of AppTemplate.truncate "app_ranking upper pow f" snd, OF tr] by simp
  have "map ar_rank (buildAppRankings upper pow model n) = map (\<lambda>x. Suc (fst x)) (enumerate 0 ?top)"
    unfolding b by (rule map_state_map) (rule rk)
  also have "\<dots> = map Suc (map fst (enumerate 0 ?top))" by (simp only: map_map comp_def)
  also have "\<dots> = [1..<Suc (min n 25)]"
    using len by (simp only: map_fst_enumerate map_Suc_upt) (simp add: min.commute)
  finally have r: "map ar_rank (buildAppRankings upper pow model n) = [1..<Suc (min n 25)]" .
  have names: "map at_name (buildAppRankings upper pow model n) = map at_name ?top"
  proof -
    have "map at_name (buildAppRankings upper pow model n) = map at_name (map AppTemplate.truncate (buildAppRankings upper pow model n))"
      by (simp add: AppTemplate.truncate_def)
    then show ?thesis by (simp only: t)
  qed
  have "distinct (map at_name cs)" using m distinct_apps(1) by (metis mset_map mset_eq_imp_distinct_iff)
  then have "distinct (map at_name ?top)" by (simp only: take_map [symmetric] distinct_take)
  moreover have "mset ?top \<subseteq># mset APP_TEMPLATES" unfolding m [symmetric] by (metis append_take_drop_id mset_append mset_subset_eq_add_left)
  moreover have "length (buildAppRankings upper pow model n) = length ?top" using t by (metis length_map)
  ultimately show ?thesis using m len by (auto simp: r t names)
qed

section \<open>Dates of the uptime series\<close>

lemma sort_by_eq_Nil [simp]: "sort_by le xs = [] \<longleftrightarrow> xs = []"
  using length_sort_by [of le xs] by (cases xs) auto

lemma target_groups_not_Nil: "target_groups lc model \<noteq> []"
  unfolding target_groups_def Let_def sort_by_eq_Nil by simp

lemma length_pad_left [simp]: "length (pad_left n c s) = max n (length s)"
  by (simp add: pad_left_def max_def)

lemma length_iso_day: "10 \<le> length (iso_day day)"
proof -
  obtain y m d where c: "civil_of_day day = (y, m, d)" by (cases "civil_of_day day") auto
  have "4 \<le> length (iso_year y)" "2 \<le> length (pad2 n)" for n by (auto simp: iso_year_def pad2_def le_max_iff_disj)
  from this(1) this(2) [of "m + 1"] this(2) [of d] show ?thesis by (simp add: iso_day_def c)
qed

lemma take_iso: "take 10 (to_iso_string t) = take 10 (iso_day (day_of t))"
  using length_iso_day [of "day_of t"] by (simp add: to_iso_string_def Let_def)

lemma those_map_state:
  assumes "\<And>x s. x \<in> set xs \<Longrightarrow> \<exists>y. fst (f x s) = Some y \<and> P x y"
  shows "\<exists>ys. those (fst (map_state f xs s)) = Some ys \<and> list_all2 P xs ys"
  using assms
proof (induction xs arbitrary: s)
  case (Cons x xs)
  obtain y where y: "fst (f x s) = Some y" "P x y" using Cons.prems by fastforce
  obtain ys where "those (fst (map_state f xs (snd (f x s)))) = Some ys" "list_all2 P xs ys" using Cons by fastforce
  with y show ?case by (simp add: split_beta Let_def)
qed simp

definition outage_ok :: "UptimeDayPoint \<Rightarrow> bool" where
  "outage_ok p = (if ud_incidents p = JFin 0 then ud_outage p = JFin 0
     else ud_incidents p = JFin 1 \<and> jle (JFin 5) (ud_outage p) \<and> jle (ud_outage p) (JFin 35))"

lemma outage_minutes: "\<exists>m. jround (jadd (jmul (unit_of w) (JFin 30)) (JFin 5)) = JFin m \<and> 5 \<le> m \<and> m \<le> 35"
proof -
  have "0 \<le> of_int (uint w) / 4294967296 * (30 :: rat)" "of_int (uint w) / 4294967296 * (30 :: rat) \<le> 30"
    using unit_of_range [of w] by (simp_all del: of_int_uint)
  then obtain x where x: "jmul (unit_of w) (JFin 30) = JFin x" "0 \<le> x" "x \<le> 30"
    using fin_between [of 0 "of_int (uint w) / 4294967296 * 30" 240] by (auto simp: unit_of_def simp del: of_int_uint)
  then obtain y where y: "jadd (JFin x) (JFin 5) = JFin y" "5 \<le> y" "y \<le> 35" using fin_between [of 40 "x + 5" 280] by auto
  have "jle (JFin 5) (jround (JFin y))" "jle (jround (JFin y)) (JFin 35)"
    using y(2,3) jround_mono [of "JFin 5" "JFin y"] jround_mono [of "JFin y" "JFin 35"] jround_int [of 5] jround_int [of 35] by simp_all
  then show ?thesis unfolding x(1) y(1) by simp
qed

text \<open>C31. The uptime series has thirty points, oldest first, for thirty consecutive days; each is labelled with the
  date in UTC of the local midnight. East of Greenwich that is the day before: the last point, today's, carries
  yesterday's date. A day without incident has no outage, a day with one has 5 to 35 minutes.\<close>

theorem uptime_series_dates:
  assumes "\<bar>clock\<bar> \<le> 8000000000000000" "- MS_PER_DAY < offset" "offset < MS_PER_DAY"
  shows "\<exists>points. buildUptimeSeries lower lc (fixed_zone offset) clock model grp = Some points
    \<and> map ud_date points = map (\<lambda>i. take 10 (iso_day (day_of (clock + offset) - i - (if 0 < offset then 1 else 0)))) (rev [0..29])
    \<and> list_all outage_ok points"
proof -
  let ?d = "day_of (clock + offset)" let ?today = "?d * MS_PER_DAY - offset"
  have d: "?d * MS_PER_DAY \<le> clock + offset" "clock + offset < ?d * MS_PER_DAY + MS_PER_DAY"
    using div_bounds [of MS_PER_DAY "clock + offset"] by (simp_all add: day_of_def MS_PER_DAY_def)
  have today: "set_hours4 (fixed_zone offset) 0 0 0 0 clock = Some ?today"
    using d assms by (simp add: set_hours4_def time_clip_def make_date_def MS_PER_DAY_def abs_le_iff)
  have day: "day_of (?today - i * 86400000) = ?d - i - (if 0 < offset then 1 else 0)" for i
  proof (cases "0 < offset")
    case True
    have "?today - i * 86400000 = make_date (?d - i - 1) (MS_PER_DAY - offset)" by (simp add: make_date_def MS_PER_DAY_def algebra_simps)
    then show ?thesis using True day_of_make_date(1) [of "MS_PER_DAY - offset"] assms(3) by simp
  next
    case False
    have "?today - i * 86400000 = make_date (?d - i) (- offset)" by (simp add: make_date_def MS_PER_DAY_def algebra_simps)
    then show ?thesis using False day_of_make_date(1) [of "- offset"] assms(2) by simp
  qed
  let ?P = "\<lambda>i p. ud_date p = take 10 (iso_day (?d - i - (if 0 < offset then 1 else 0))) \<and> outage_ok p"
  have point: "\<exists>p. fst (uptime_point base ?today i rand) = Some p \<and> ?P i p" if i: "i \<in> set (rev [0..29])" for i base rand
  proof -
    have "0 \<le> i" "i \<le> 29" using i by (simp_all only: set_rev set_upto atLeastAtMost_iff)
    then have clip: "iso_string_of (?today - i * 86400000) = Some (to_iso_string (?today - i * 86400000))"
      using d assms by (simp add: iso_string_of_def time_clip_def MS_PER_DAY_def abs_le_iff)
    obtain c v where c: "next_random rand = (c, from_uint32 v)" by (simp add: next_random_def Let_def)
    obtain m where m: "jround (jadd (jmul (unit_of (lcg v)) (JFin 30)) (JFin 5)) = JFin m" "5 \<le> m" "m \<le> 35"
      using outage_minutes by blast
    show ?thesis
      by (cases "jlt (to_double (92 / 100)) c")
        (simp_all add: uptime_point_def c next_random_word clip take_iso day m outage_ok_def Let_def del: jround.simps)
  qed
  have "buildGroupPerformance lower lc model \<noteq> []"
    by (simp add: buildGroupPerformance_def target_groups_not_Nil)
  moreover obtain points where p: "those (fst (map_state (uptime_point (base_uptime (buildGroupPerformance lower lc model) grp) ?today)
      (rev [0..29]) (seededRandom (hashStringToSeed (pm_name model @ js '':up:'' @ upd grp (js ''_all'')))))) = Some points"
      "list_all2 ?P (rev [0..29]) points"
    using those_map_state [of "rev [0..29]" "uptime_point (base_uptime (buildGroupPerformance lower lc model) grp) ?today" ?P, OF point]
    by blast
  ultimately have "buildUptimeSeries lower lc (fixed_zone offset) clock model grp = Some points"
    by (simp only: buildUptimeSeries_def Let_def today option.case if_False)
  moreover have "map ud_date points = map (\<lambda>i. take 10 (iso_day (?d - i - (if 0 < offset then 1 else 0)))) (rev [0..29])"
    using p(2) by (intro nth_equalityI) (simp_all only: list_all2_conv_all_nth length_map nth_map)
  moreover have "list_all outage_ok points"
    using p(2) unfolding list_all2_conv_all_nth list_all_length by metis
  ultimately show ?thesis by blast
qed

theorem uptime_series_dates_witness:
  "\<exists>points. buildUptimeSeries (map ascii_lower) (\<lambda>a b. 0) (fixed_zone 28800000) 1717200000000 sample_model None = Some points
    \<and> map ud_date points = map (\<lambda>i. take 10 (iso_day (day_of (1717200000000 + 28800000) - i - 1))) (rev [0..29])
    \<and> list_all outage_ok points"
  using uptime_series_dates [of 1717200000000 28800000 "map ascii_lower" "\<lambda>a b. 0" sample_model None] by (simp add: MS_PER_DAY_def)

section \<open>Names and texts\<close>

text \<open>Three of the patterns for video models are never reached: the profile test before them does not know them.\<close>

lemma video_name_is_chat:
  "PROFILE_BY_NAME (map ascii_lower) (js ''hunyuanvideo'') = Standard_profile"
  "rx_test VIDEO_MODEL (js ''hunyuanvideo'')"
  by code_simp+

text \<open>A count just below a million is printed with four digits and the smaller unit.\<close>

lemma volume_rounds_up: "formatTokenVolume (JFin 999950) = js ''1000.0K''"
  by code_simp

end
