(* ===== verification/Times.thy ===== *)
theory Times
  imports Js_Date Js_Order
begin

text \<open>
  Time ranges (\<open>lib/time.ts\<close>). A date object is its time value or invalid; \<open>getTime\<close> of an invalid date is \<open>NaN\<close>.
  The clock, the time zone of the machine and the texts of the date library (\<open>fmt\<close>, a pattern applied to a time,
  and \<open>add_days\<close>) are parameters.
\<close>

section \<open>Dates and numbers\<close>

definition get_time :: "jdate \<Rightarrow> jnum" where
  "get_time date = (case date of None \<Rightarrow> JNaN | Some t \<Rightarrow> jint t)"

definition date_of_num :: "jnum \<Rightarrow> jdate" where
  "date_of_num x = (case to_integer x of None \<Rightarrow> None | Some t \<Rightarrow> time_clip t)"

text \<open>A setter keeps an invalid date invalid, and makes the date invalid for an argument that is no number.\<close>

definition with_arg :: "(int \<Rightarrow> int \<Rightarrow> jdate) \<Rightarrow> jnum \<Rightarrow> jdate \<Rightarrow> jdate" where
  "with_arg setter x date = (case (date, to_integer x) of (Some t, Some n) \<Rightarrow> setter n t | _ \<Rightarrow> None)"

definition field :: "(int \<Rightarrow> int) \<Rightarrow> jdate \<Rightarrow> jnum" where
  "field getter date = (case date of None \<Rightarrow> JNaN | Some t \<Rightarrow> jint (getter t))"

section \<open>time.ts\<close>

datatype TimeGranularity = Hourly | Daily | Weekly

definition dateToUnixTimestamp :: "jdate \<Rightarrow> jnum" where
  "dateToUnixTimestamp date = jfloor (jdiv (get_time date) (JFin 1000))"

definition getStartOfDay :: "timezone \<Rightarrow> jdate \<Rightarrow> jdate" where
  "getStartOfDay tz date = Option.bind date (set_hours4 tz 0 0 0 0)"

definition getEndOfDay :: "timezone \<Rightarrow> jdate \<Rightarrow> jdate" where
  "getEndOfDay tz date = Option.bind date (set_hours4 tz 23 59 59 999)"

definition toStartOfDay :: "timezone \<Rightarrow> jnum \<Rightarrow> jnum" where
  "toStartOfDay tz tsSec = (let d = date_of_num (jmul tsSec (JFin 1000)); d = Option.bind d (set_hours4 tz 0 0 0 0)
     in jfloor (jdiv (get_time d) (JFin 1000)))"

record DateRange =
  range_start :: jdate
  range_end :: jdate

definition getNormalizedDateRange :: "timezone \<Rightarrow> jnum \<Rightarrow> jdate \<Rightarrow> DateRange" where
  "getNormalizedDateRange tz days fromDate = (let end' = fromDate;
       start = with_arg (set_date tz) (jsub (field (get_date tz) end') days) fromDate
     in \<lparr> range_start = getStartOfDay tz start, range_end = getEndOfDay tz end' \<rparr>)"

definition getRollingDateRange :: "jnum \<Rightarrow> jdate \<Rightarrow> DateRange" where
  "getRollingDateRange days fromDate = (let
       ms = jmul (jmul (jmul (jmul days (JFin 24)) (JFin 60)) (JFin 60)) (JFin 1000)
     in \<lparr> range_start = date_of_num (jsub (get_time fromDate) ms), range_end = fromDate \<rparr>)"

record TimeRange =
  start_timestamp :: jnum
  end_timestamp :: jnum

definition computeTimeRange :: "timezone \<Rightarrow> int \<Rightarrow> jnum \<Rightarrow> jdate option \<Rightarrow> jdate option \<Rightarrow> bool \<Rightarrow> TimeRange" where
  "computeTimeRange tz clock days startDate endDate useStartOfDay = (let
       now = jfloor (jdiv (jint clock) (JFin 1000));
       span_of = (\<lambda>d. jmul (jmul d (JFin 24)) (JFin 3600))
     in if useStartOfDay then let
          defaultEnd = toStartOfDay tz now;
          end' = (case endDate of Some d \<Rightarrow> toStartOfDay tz (dateToUnixTimestamp d) | None \<Rightarrow> defaultEnd);
          start = (case startDate of Some d \<Rightarrow> toStartOfDay tz (dateToUnixTimestamp d) | None \<Rightarrow> jsub end' (span_of days))
        in \<lparr> start_timestamp = start, end_timestamp = jsub (jadd end' (JFin 86400)) (JFin 1) \<rparr>
        else let
          end' = (case endDate of Some d \<Rightarrow> dateToUnixTimestamp d | None \<Rightarrow> jadd now (JFin 3600));
          start = (case startDate of Some d \<Rightarrow> dateToUnixTimestamp d | None \<Rightarrow> jsub end' (span_of days))
        in \<lparr> start_timestamp = start, end_timestamp = end' \<rparr>)"

definition formatDate :: "(jnum \<Rightarrow> string \<Rightarrow> jstr) \<Rightarrow> jnum \<Rightarrow> jstr" where
  "formatDate fmt tsSec = fmt (jmul tsSec (JFin 1000)) ''YYYY-MM-DD''"

definition formatDateTimeObject :: "(jnum \<Rightarrow> string \<Rightarrow> jstr) \<Rightarrow> jdate \<Rightarrow> jstr" where
  "formatDateTimeObject fmt date = fmt (get_time date) ''YYYY-MM-DD HH:mm:ss''"

definition formatChartTime :: "(jnum \<Rightarrow> string \<Rightarrow> jstr) \<Rightarrow> (jnum \<Rightarrow> nat \<Rightarrow> jnum) \<Rightarrow> jnum \<Rightarrow> TimeGranularity \<Rightarrow> jstr" where
  "formatChartTime fmt add_days timestamp granularity = (let
       d = jmul timestamp (JFin 1000);
       result = fmt d ''MM-DD''
     in case granularity of
          Hourly \<Rightarrow> result @ js '' '' @ fmt d ''HH'' @ js '':00''
        | Weekly \<Rightarrow> result @ js '' - '' @ fmt (add_days d 6) ''MM-DD''
        | Daily \<Rightarrow> result)"

definition addTimeToDate :: "timezone \<Rightarrow> jnum \<Rightarrow> jnum \<Rightarrow> jnum \<Rightarrow> jdate \<Rightarrow> jdate option" where
  "addTimeToDate tz months days hours baseDate =
    (if jeq months (JFin 0) \<and> jeq days (JFin 0) \<and> jeq hours (JFin 0) then None
     else let
       result = with_arg (set_month tz) (jadd (field (get_month tz) baseDate) months) baseDate;
       result = with_arg (set_date tz) (jadd (field (get_date tz) result) days) result;
       result = with_arg (set_hours tz) (jadd (field (get_hours tz) result) hours) result
     in Some result)"

section \<open>Days\<close>

text \<open>Offsets of less than a day; time values far from the ends of the range.\<close>

definition moderate :: "int \<Rightarrow> int \<Rightarrow> bool" where
  "moderate offset t = (\<bar>offset\<bar> < MS_PER_DAY \<and> \<bar>t\<bar> \<le> 4000000000000000)"

lemma day_bounds: "day_of t * MS_PER_DAY \<le> t" "t < day_of t * MS_PER_DAY + MS_PER_DAY"
  using div_bounds [of MS_PER_DAY t] by (simp_all add: day_of_def MS_PER_DAY_def)

lemma set_hours4_fixed:
  assumes "moderate offset t" "0 \<le> ms" "ms < MS_PER_DAY" "((h * 60 + m) * 60 + s) * 1000 + r = ms"
  shows "set_hours4 (fixed_zone offset) h m s r t = Some (day_of (t + offset) * MS_PER_DAY + ms - offset)"
  using assms day_bounds [of "t + offset"]
  by (simp add: set_hours4_def time_clip_def make_date_def moderate_def MS_PER_DAY_def abs_le_iff abs_less_iff)

text \<open>In a zone with a fixed offset, start and end of the day enclose a time, are exactly one day less a
  millisecond apart, and are unchanged by taking them again.\<close>

theorem day_encloses:
  assumes "moderate offset t"
  shows "\<exists>a. getStartOfDay (fixed_zone offset) (Some t) = Some a \<and> getEndOfDay (fixed_zone offset) (Some t) = Some (a + 86399999)
    \<and> a \<le> t \<and> t \<le> a + 86399999 \<and> (a + offset) mod MS_PER_DAY = 0
    \<and> getStartOfDay (fixed_zone offset) (Some a) = Some a \<and> getEndOfDay (fixed_zone offset) (Some a) = Some (a + 86399999)"
proof -
  let ?d = "day_of (t + offset)" let ?a = "?d * MS_PER_DAY - offset"
  have b: "?a \<le> t" "t < ?a + MS_PER_DAY" using day_bounds [of "t + offset"] by linarith+
  have start: "getStartOfDay (fixed_zone offset) (Some t) = Some ?a" "getEndOfDay (fixed_zone offset) (Some t) = Some (?a + 86399999)"
    using set_hours4_fixed [OF assms, of 0 0 0 0 0] set_hours4_fixed [OF assms, of 86399999 23 59 59 999]
    by (simp_all add: getStartOfDay_def getEndOfDay_def MS_PER_DAY_def)
  have "day_of (?a + offset) = ?d" by (simp add: day_of_def MS_PER_DAY_def)
  moreover have "\<bar>?a\<bar> \<le> 5000000000000000" using b assms by (simp add: moderate_def MS_PER_DAY_def abs_le_iff abs_less_iff)
  ultimately have "getStartOfDay (fixed_zone offset) (Some ?a) = Some ?a" "getEndOfDay (fixed_zone offset) (Some ?a) = Some (?a + 86399999)"
    using assms by (simp_all add: getStartOfDay_def getEndOfDay_def set_hours4_def time_clip_def make_date_def moderate_def MS_PER_DAY_def)
  with start b show ?thesis by (intro exI [of _ ?a]) (simp add: MS_PER_DAY_def)
qed

theorem day_encloses_witness:
  "\<exists>a. getStartOfDay (fixed_zone 28800000) (Some 1717200000000) = Some a
    \<and> getEndOfDay (fixed_zone 28800000) (Some 1717200000000) = Some (a + 86399999)
    \<and> a \<le> 1717200000000 \<and> 1717200000000 \<le> a + 86399999 \<and> (a + 28800000) mod MS_PER_DAY = 0
    \<and> getStartOfDay (fixed_zone 28800000) (Some a) = Some a \<and> getEndOfDay (fixed_zone 28800000) (Some a) = Some (a + 86399999)"
  by (rule day_encloses) (simp add: moderate_def MS_PER_DAY_def)

section \<open>Adding months, days and hours\<close>

lemma make_day_shift: "make_day y m (d + n) = make_day y m d + n"
  by (simp add: make_day_def Let_def)

text \<open>A day beyond the end of the month is a day of the next month; only the last month has no next one, and it
  has 31 days.\<close>

lemma civil_of_late_day:
  assumes "0 \<le> m" "m < 12" "1 \<le> d" "d \<le> 31"
  shows "civil_of_day (make_day y m d) = (let l = month_lengths (leap_year y) ! nat m in
    if d \<le> l then (y, m, d) else (y, m + 1, d - l))"
proof -
  define k where "k = nat m"
  have k: "k < 12" "int k = m" using assms by (simp_all add: k_def)
  let ?l = "month_lengths (leap_year y) ! k"
  show ?thesis
  proof (cases "d \<le> ?l")
    case True
    then show ?thesis using civil_of_make_day [of y m d] assms by (simp add: civil_valid_def k_def Let_def)
  next
    case False
    have "month_lengths (leap_year y) ! 11 = 31" by (simp add: month_lengths_def)
    then have k11: "k \<noteq> 11" using False assms(4) by auto
    then have k': "nat (m + 1) = Suc k" "m + 1 < 12" "Suc k < 12" using k by simp_all
    have "month_start (leap_year y) (Suc k) = month_start (leap_year y) k + ?l"
      using k(1) by (simp add: month_start_def take_Suc_conv_app_nth)
    then have "make_day y m d = make_day y (m + 1) (d - ?l)"
      using assms k k' by (simp add: make_day_def Let_def k_def)
    moreover have "civil_valid y (m + 1) (d - ?l)"
      using assms k' False month_length_le [OF k(1), of "leap_year y"] month_length_le [OF k'(3), of "leap_year y"]
      by (simp add: civil_valid_def)
    ultimately show ?thesis using civil_of_make_day [of y "m + 1" "d - ?l"] False by (simp add: k_def Let_def)
  qed
qed

lemma year_bound:
  assumes "\<bar>n\<bar> \<le> 46300000"
  shows "\<bar>year_of_day n\<bar> \<le> 130000"
proof -
  let ?y = "year_of_day n"
  have n: "n \<le> 46300000" "- 46300000 \<le> n" using assms by simp_all
  have "146097 * (?y - 1970) - 600 \<le> 400 * n"
    using year_start_mean(2) [of ?y] year_of_day_bounds [of n] by linarith
  moreover have "400 * n \<le> 146097 * (?y + 1 - 1970) + 600"
    using year_start_mean(1) [of "?y + 1"] year_of_day_bounds [of n] by linarith
  ultimately have "?y \<le> 130000" "- 130000 \<le> ?y" using n by (simp_all add: algebra_simps)
  then show ?thesis by simp
qed

lemma make_day_bound:
  assumes "\<bar>y + m div 12\<bar> \<le> 131001" "1 \<le> d" "d \<le> 31"
  shows "\<bar>make_day y m d\<bar> \<le> 49000000"
proof -
  let ?y = "y + m div 12" let ?s = "month_start (leap_year ?y) (nat (m mod 12))"
  have "m mod 12 < 12" by simp
  then have k: "nat (m mod 12) < 12" by linarith
  have s: "0 \<le> ?s" "?s \<le> 366"
    using month_start_nonneg month_end_le [OF k, of "leap_year ?y"] month_length_le [OF k, of "leap_year ?y"]
    by (simp_all split: if_splits)
  have y: "?y \<le> 131001" "- 131001 \<le> ?y" using assms(1) by simp_all
  have "400 * day_from_year ?y \<le> 400 * 48000000" "400 * - 48900000 \<le> 400 * day_from_year ?y"
    using year_start_mean [of ?y] y by (simp_all add: algebra_simps)
  then have "day_from_year ?y \<le> 48000000" "- 48900000 \<le> day_from_year ?y" by simp_all
  then show ?thesis using s assms(2,3) by (simp add: make_day_def Let_def abs_le_iff)
qed

lemma with_arg_jint [simp]: "with_arg f (jint n) (Some t) = f n t"
  by (simp add: with_arg_def del: to_integer.simps)

lemma field_Some [simp]: "field f (Some t) = jint (f t)"
  by (simp add: field_def)

text \<open>C27. Adding months, days and hours to a date, in a zone with a fixed offset and for a date and numbers in
  bounds (at most 12000 months, a million days and a million hours in either direction): the month is moved with the day of the month kept
  as a number, then the days and the hours are counted on from there. In such a zone every day has 24 hours, so the wall
  clock shows the same time after the days are added; a zone that changes its offset is not covered, there \<open>setDate\<close> keeps
  the wall clock and not the duration. A day that the target month does not have is not
  brought back to its end but falls into the month after: a month after the 31st of January is in March.\<close>

theorem added_time:
  assumes "local_civil (fixed_zone offset) t = (y, m, d)" "moderate offset t"
    "\<bar>k\<bar> \<le> 12000" "\<bar>n\<bar> \<le> 1000000" "\<bar>h\<bar> \<le> 1000000" "k \<noteq> 0 \<or> n \<noteq> 0 \<or> h \<noteq> 0"
  shows "addTimeToDate (fixed_zone offset) (jint k) (jint n) (jint h) (Some t)
      = Some (Some ((make_day y (m + k) d + n) * MS_PER_DAY + time_in_day (t + offset) + h * 3600000 - offset))
    \<and> civil_of_day (make_day y (m + k) d) = (let y' = y + (m + k) div 12; m' = (m + k) mod 12; l = month_lengths (leap_year y') ! nat m'
        in if d \<le> l then (y', m', d) else (y', m' + 1, d - l))"
proof -
  let ?D = "make_day y (m + k) d" let ?r = "time_in_day (t + offset)"
  have valid: "civil_valid y m d" "make_day y m d = day_of (t + offset)" "year_of_day (day_of (t + offset)) = y"
    using civil_of_day_valid [of "day_of (t + offset)" y m d] assms(1) by (simp_all add: local_civil_def)
  then have m: "0 \<le> m" "m < 12" "1 \<le> d" "d \<le> month_lengths (leap_year y) ! nat m" by (simp_all add: civil_valid_def)
  then have "nat m < 12" by simp
  then have d: "d \<le> 31" using month_length_le [of "nat m" "leap_year y"] m(4) by linarith
  have r: "0 \<le> ?r" "?r < MS_PER_DAY" by (simp_all add: time_in_day_def MS_PER_DAY_def)
  have y: "\<bar>y\<bar> \<le> 130000"
  proof -
    have "\<bar>day_of (t + offset)\<bar> \<le> 46300000"
      using day_bounds [of "t + offset"] assms(2) by (simp add: moderate_def MS_PER_DAY_def abs_le_iff abs_less_iff)
    then show ?thesis using year_bound valid(3) by blast
  qed
  have "\<bar>(m + k) div 12\<bar> \<le> 1001" using div_bounds [of 12 "m + k"] m assms(3) by (simp add: abs_le_iff)
  then have "\<bar>y + (m + k) div 12\<bar> \<le> 131001" using y by (simp add: abs_le_iff)
  then have D: "\<bar>?D\<bar> \<le> 49000000" using m(3) d by (rule make_day_bound)
  have clip: "time_clip (x * MS_PER_DAY + c - offset) = Some (x * MS_PER_DAY + c - offset)"
    if "\<bar>x\<bar> \<le> 50000000" "\<bar>c\<bar> \<le> 4000000000000" for x c
    using that assms(2) by (simp add: time_clip_def moderate_def MS_PER_DAY_def abs_le_iff abs_less_iff)
  have day: "day_of (x * MS_PER_DAY + ?r) = x" "time_in_day (x * MS_PER_DAY + ?r) = ?r" for x
    using day_of_make_date [OF r] by (simp_all add: make_date_def)
  let ?t1 = "?D * MS_PER_DAY + ?r - offset" let ?t2 = "(?D + n) * MS_PER_DAY + ?r - offset"
  have r': "?r < 86400000" using r by (simp add: MS_PER_DAY_def)
  have clip1: "time_clip ?t1 = Some ?t1" by (rule clip) (use D r(1) r' in simp_all)
  have clip2: "time_clip ?t2 = Some ?t2" by (rule clip) (use D r(1) r' assms(4) in \<open>simp_all add: abs_le_iff\<close>)
  have clip3: "time_clip ((?D + n) * MS_PER_DAY + (?r + h * 3600000) - offset) = Some ((?D + n) * MS_PER_DAY + (?r + h * 3600000) - offset)"
    by (rule clip) (use D r(1) r' assms(4,5) in \<open>simp_all add: abs_le_iff\<close>)
  have "set_month (fixed_zone offset) (m + k) t = Some ?t1"
    using clip1 by (simp add: set_month_def assms(1) make_date_def)
  moreover obtain y1 m1 d1 where c: "civil_of_day ?D = (y1, m1, d1)" by (metis prod_cases3)
  then have "set_date (fixed_zone offset) (d1 + n) ?t1 = Some ?t2" "get_date (fixed_zone offset) ?t1 = d1"
    using clip2 civil_of_day_valid(2) [OF c]
    by (simp_all add: set_date_def get_date_def local_civil_def day make_date_def make_day_shift)
  moreover have "?r = ?r div 3600000 * 3600000 + ?r mod 3600000" by simp
  then have "make_date (?D + n) ((?r div 3600000 + h) * 3600000 + ?r mod 3600000) = (?D + n) * MS_PER_DAY + (?r + h * 3600000)"
    by (simp add: make_date_def algebra_simps)
  then have "set_hours (fixed_zone offset) (get_hours (fixed_zone offset) ?t2 + h) ?t2 = Some (?t2 + h * 3600000)"
    using clip3 by (simp add: set_hours_def get_hours_def day)
  ultimately have move: "set_month (fixed_zone offset) (m + k) t = Some ?t1" "set_date (fixed_zone offset) (d1 + n) ?t1 = Some ?t2"
    "set_hours (fixed_zone offset) (get_hours (fixed_zone offset) ?t2 + h) ?t2 = Some (?t2 + h * 3600000)"
    and get: "get_month (fixed_zone offset) t = m" "get_date (fixed_zone offset) ?t1 = d1"
    by (simp_all add: get_month_def assms(1))
  have hrs: "0 \<le> get_hours (fixed_zone offset) ?t2" "get_hours (fixed_zone offset) ?t2 < 24"
  proof -
    have "get_hours (fixed_zone offset) ?t2 = ?r div 3600000" by (simp add: get_hours_def day)
    moreover have "0 \<le> ?r div 3600000" using r(1) by (simp add: pos_imp_zdiv_nonneg_iff)
    moreover have "3600000 * (?r div 3600000) \<le> ?r" using div_bounds(1) [of 3600000 ?r] by simp
    ultimately show "0 \<le> get_hours (fixed_zone offset) ?t2" "get_hours (fixed_zone offset) ?t2 < 24" using r' by simp_all
  qed
  have d1: "1 \<le> d1" "d1 \<le> 31"
  proof -
    have v: "0 \<le> m1" "m1 < 12" "1 \<le> d1" "d1 \<le> month_lengths (leap_year y1) ! nat m1"
      using civil_of_day_valid(1) [OF c] by (simp_all add: civil_valid_def)
    then have "nat m1 < 12" by simp
    then show "1 \<le> d1" "d1 \<le> 31" using v month_length_le [of "nat m1" "leap_year y1"] by linarith+
  qed
  have "jadd (jint m) (jint k) = jint (m + k)" "jadd (jint d1) (jint n) = jint (d1 + n)"
    "jadd (jint (get_hours (fixed_zone offset) ?t2)) (jint h) = jint (get_hours (fixed_zone offset) ?t2 + h)"
    using m assms(3-5) d1 hrs by (intro jadd_int; simp add: abs_le_iff)+
  moreover have "jeq (jint k) (JFin 0) \<and> jeq (jint n) (JFin 0) \<and> jeq (jint h) (JFin 0) \<longleftrightarrow> \<not> (k \<noteq> 0 \<or> n \<noteq> 0 \<or> h \<noteq> 0)"
    by auto
  ultimately have "addTimeToDate (fixed_zone offset) (jint k) (jint n) (jint h) (Some t) = Some (Some (?t2 + h * 3600000))"
    unfolding addTimeToDate_def Let_def using assms(6)
    by (simp only: if_False simp_thms field_Some with_arg_jint get move)
  moreover have "civil_of_day ?D = (let y' = y + (m + k) div 12; m' = (m + k) mod 12; l = month_lengths (leap_year y') ! nat m'
        in if d \<le> l then (y', m', d) else (y', m' + 1, d - l))"
  proof -
    have "?D = make_day (y + (m + k) div 12) ((m + k) mod 12) d" by (simp add: make_day_def Let_def)
    then show ?thesis using civil_of_late_day [of "(m + k) mod 12" d "y + (m + k) div 12"] m(3) d by (simp add: Let_def)
  qed
  ultimately show ?thesis by (simp add: algebra_simps)
qed

text \<open>A month after the last day of January 2024, 12:00 UTC, is the second of March.\<close>

theorem added_time_witness:
  "addTimeToDate (fixed_zone 0) (jint 1) (jint 0) (jint 0) (Some 1706702400000)
      = Some (Some ((make_day 2024 (0 + 1) 31 + 0) * MS_PER_DAY + time_in_day (1706702400000 + 0) + 0 * 3600000 - 0))
    \<and> civil_of_day (make_day 2024 (0 + 1) 31) = (2024, 2, 2)"
proof -
  have "local_civil (fixed_zone 0) 1706702400000 = (2024, 0, 31)" by code_simp
  from added_time [OF this, of 1 0 0] show ?thesis
    by (simp add: moderate_def MS_PER_DAY_def Let_def leap_year_def month_lengths_def)
qed
end
