(* ===== verification/Charts.thy ===== *)
theory Charts
  imports Times Currency
begin

text \<open>
  Data of the dashboard charts (\<open>features/dashboard/lib/charts.ts\<close>): the aggregation of usage rows by time and
  model, and the values, colours, totals and tooltips of each chart. The constant parts of the chart
  specifications are not modelled. Theme colours, the default colour schemes of the chart library, the translation
  (\<open>tt\<close>), collation (\<open>lc\<close>), the number formats of the locale, \<open>Math.pow\<close> and the texts of the date library are
  parameters. A \<open>Map\<close> is an association list in insertion order; \<open>Number(x) || 0\<close> of an absent field is 0.
\<close>

section \<open>Rows and colours\<close>

record QuotaDataItem =
  qd_username :: "jstr option"
  qd_model_name :: "jstr option"
  qd_created_at :: jnum
  qd_token_used :: "jnum option"
  qd_count :: "jnum option"
  qd_quota :: "jnum option"

definition MAX_CHART_TREND_POINTS :: nat where "MAX_CHART_TREND_POINTS = 7"

definition or_zero :: "jnum option \<Rightarrow> jnum" where
  "or_zero x = jor (upd x JNaN) (JFin 0)"

text \<open>The values of the style properties of body and root, as the browser returns them.\<close>

definition getThemeChartColors :: "(jstr \<times> jstr) list \<Rightarrow> jstr list" where
  "getThemeChartColors styles = filter (\<lambda>c. c \<noteq> []) (map (\<lambda>(body, root). trim (if body \<noteq> [] then body else root)) styles)"

definition cycle_colors :: "nat \<Rightarrow> jstr list \<Rightarrow> jstr list" where
  "cycle_colors n colors = map (\<lambda>i. colors ! (i mod length colors)) [0..<max n (length colors)]"

text \<open>A scheme of the library has an optional largest domain, where 0 counts as none; the list is not empty.\<close>

definition getVChartDefaultColors :: "(nat option \<times> jstr list) list \<Rightarrow> nat \<Rightarrow> jstr list \<Rightarrow> jstr list" where
  "getVChartDefaultColors schemes domainLength themeColors =
    (if themeColors \<noteq> [] then cycle_colors domainLength themeColors
     else snd (case find (\<lambda>(limit, _). limit = None \<or> limit = Some 0 \<or> domainLength \<le> the limit) schemes of
       Some s \<Rightarrow> s | None \<Rightarrow> last schemes))"

text \<open>\<open>pow\<close> is \<open>Math.pow(10, -digits)\<close>.\<close>

definition renderQuotaCompat :: "(jnum \<Rightarrow> jstr) \<Rightarrow> (nat \<Rightarrow> jnum) \<Rightarrow> SystemConfigState \<Rightarrow> jnum \<Rightarrow> nat \<Rightarrow> jstr" where
  "renderQuotaCompat to_locale pow st rawQuota digits = (let
       (config, meta) = getCurrencyDisplay st;
       usd = jdiv rawQuota (quotaPerUnit config);
       shown = (\<lambda>symbol rate. let v = jmul usd rate; fixed = to_fixed digits v in
         if jeq (parse_float fixed) (JFin 0) \<and> jlt (JFin 0) rawQuota \<and> jlt (JFin 0) v
         then symbol @ to_fixed digits (pow digits) else symbol @ fixed)
     in case meta of
          Meta_tokens _ \<Rightarrow> to_locale rawQuota
        | Meta_currency symbol _ rate \<Rightarrow> shown symbol rate
        | Meta_custom symbol rate \<Rightarrow> shown symbol rate)"

section \<open>Tooltips\<close>

text \<open>A line of a tooltip: its key, its value, and the row it stands for, with the two members read.\<close>

record TooltipLineItem =
  ti_key :: jstr
  ti_value :: jval
  ti_datum :: "(jval \<times> jval) option"

definition isOtherTooltipKey :: "jstr \<Rightarrow> jstr \<Rightarrow> bool" where
  "isOtherTooltipKey otherLabel key = (key = js ''Other'' \<or> key = otherLabel)"

definition tooltip_number :: "TooltipLineItem \<Rightarrow> jnum" where
  "tooltip_number item = jor (val_to_num (ti_value item)) (JFin 0)"

definition tooltip_order :: "jstr \<Rightarrow> TooltipLineItem list \<Rightarrow> TooltipLineItem list \<times> TooltipLineItem list" where
  "tooltip_order otherLabel items =
     (sort_by (\<lambda>a b. diff_le (tooltip_number b) (tooltip_number a)) (filter (\<lambda>i. \<not> isOtherTooltipKey otherLabel (ti_key i)) items),
      filter (\<lambda>i. isOtherTooltipKey otherLabel (ti_key i)) items)"

definition MAX_TOOLTIP_MODELS :: nat where "MAX_TOOLTIP_MODELS = 15"

text \<open>\<open>datum.TimeSum\<close> is read from the last line that has one other than zero.\<close>

definition time_sum_of :: "jnum \<Rightarrow> TooltipLineItem \<Rightarrow> jnum" where
  "time_sum_of acc item = (case ti_datum item of None \<Rightarrow> acc
     | Some (timeSum, _) \<Rightarrow> if truthy timeSum then jor (val_to_num timeSum) acc else acc)"

definition raw_of :: "TooltipLineItem \<Rightarrow> jnum" where
  "raw_of item = (case ti_datum item of None \<Rightarrow> JFin 0 | Some (_, raw) \<Rightarrow> jor (val_to_num raw) (JFin 0))"

definition dimension_tooltip :: "(jnum \<Rightarrow> jstr) \<Rightarrow> (jstr \<Rightarrow> jstr) \<Rightarrow> bool \<Rightarrow> TooltipLineItem list \<Rightarrow> (jstr \<times> jstr) list" where
  "dimension_tooltip formatQuotaValue tt collapseOverflow items = (let
       otherLabel = tt (js ''Other'');
       (modelItems, otherItems) = tooltip_order otherLabel items;
       all_items = modelItems @ otherItems;
       total = foldl time_sum_of (JFin 0) all_items;
       shown = map (\<lambda>i. (ti_key i, formatQuotaValue (tooltip_number i)));
       lines = (if collapseOverflow \<and> MAX_TOOLTIP_MODELS < length all_items
         then shown (take MAX_TOOLTIP_MODELS modelItems)
           @ [(otherLabel, formatQuotaValue (foldl (\<lambda>s i. jadd s (raw_of i)) (JFin 0) (drop MAX_TOOLTIP_MODELS modelItems @ otherItems)))]
         else shown all_items)
     in (tt (js ''Total:''), formatQuotaValue total) # lines)"

definition count_tooltip :: "(jnum \<Rightarrow> jstr) \<Rightarrow> (jstr \<Rightarrow> jstr) \<Rightarrow> TooltipLineItem list \<Rightarrow> (jstr \<times> jstr) list" where
  "count_tooltip formatInt tt items = (let
       (modelItems, otherItems) = tooltip_order (tt (js ''Other'')) items;
       all_items = modelItems @ otherItems;
       total = foldl (\<lambda>s i. jadd s (tooltip_number i)) (JFin 0) all_items
     in (tt (js ''Total:''), formatInt total) # map (\<lambda>i. (ti_key i, formatInt (tooltip_number i))) all_items)"

text \<open>The tooltips of the users page: the ranking shows the raw quota of the row, if it has one; the trend is ordered by
  value.\<close>

definition user_rank_tooltip :: "(jnum \<Rightarrow> jstr) \<Rightarrow> TooltipLineItem list \<Rightarrow> (jstr \<times> jstr) list" where
  "user_rank_tooltip formatVal items = map (\<lambda>item. let
       v = (case ti_datum item of None \<Rightarrow> ti_value item | Some (_, raw) \<Rightarrow> if raw = VUndef then ti_value item else VNum (val_to_num raw))
     in (ti_key item, formatVal (jor (val_to_num v) (JFin 0)))) items"

definition user_trend_tooltip :: "(jnum \<Rightarrow> jstr) \<Rightarrow> (jstr \<Rightarrow> jstr) \<Rightarrow> TooltipLineItem list \<Rightarrow> (jstr \<times> jstr) list" where
  "user_trend_tooltip formatVal tt items = (let
       all_items = sort_by (\<lambda>a b. diff_le (tooltip_number b) (tooltip_number a)) items;
       total = foldl (\<lambda>s i. jadd s (tooltip_number i)) (JFin 0) all_items
     in (tt (js ''Total:''), formatVal total) # map (\<lambda>i. (ti_key i, formatVal (tooltip_number i))) all_items)"

section \<open>Aggregation by time and model\<close>

record Metrics =
  mt_quota :: jnum
  mt_count :: jnum
  mt_tokens :: jnum

definition zero_metrics :: Metrics where
  "zero_metrics = \<lparr> mt_quota = JFin 0, mt_count = JFin 0, mt_tokens = JFin 0 \<rparr>"

definition plus_metrics :: "Metrics \<Rightarrow> Metrics \<Rightarrow> Metrics" where
  "plus_metrics a b = \<lparr> mt_quota = jadd (mt_quota a) (mt_quota b), mt_count = jadd (mt_count a) (mt_count b),
     mt_tokens = jadd (mt_tokens a) (mt_tokens b) \<rparr>"

definition item_metrics :: "QuotaDataItem \<Rightarrow> Metrics" where
  "item_metrics item = \<lparr> mt_quota = or_zero (qd_quota item), mt_count = or_zero (qd_count item),
     mt_tokens = or_zero (qd_token_used item) \<rparr>"

definition model_of :: "QuotaDataItem \<Rightarrow> jstr" where
  "model_of item = (if qd_model_name item = None \<or> qd_model_name item = Some [] then js ''Unknown'' else the (qd_model_name item))"

text \<open>\<open>map.set(k, plus(map.get(k) || zero, x))\<close>.\<close>

definition add_at :: "('v \<Rightarrow> 'v \<Rightarrow> 'v) \<Rightarrow> 'v \<Rightarrow> 'k \<Rightarrow> 'v \<Rightarrow> ('k \<times> 'v) list \<Rightarrow> ('k \<times> 'v) list" where
  "add_at add zero k x m = assoc_put k (add (upd (map_of m k) zero) x) m"

type_synonym model_map = "(jstr \<times> Metrics) list"
type_synonym time_model_map = "(jstr \<times> model_map) list"

definition aggregate_item :: "(QuotaDataItem \<Rightarrow> jstr) \<Rightarrow> time_model_map \<times> model_map \<Rightarrow> QuotaDataItem \<Rightarrow> time_model_map \<times> model_map" where
  "aggregate_item time_key maps item = (let
       (timeModelMap, modelTotalsMap) = maps;
       modelMap = upd (map_of timeModelMap (time_key item)) []
     in (assoc_put (time_key item) (add_at plus_metrics zero_metrics (model_of item) (item_metrics item) modelMap) timeModelMap,
         add_at plus_metrics zero_metrics (model_of item) (item_metrics item) modelTotalsMap))"

definition aggregate_data :: "(QuotaDataItem \<Rightarrow> jstr) \<Rightarrow> QuotaDataItem list \<Rightarrow> time_model_map \<times> model_map" where
  "aggregate_data time_key data = foldl (aggregate_item time_key) ([], []) data"

text \<open>\<open>timeModelMap.get(time)?.get(model)\<close>, with 0 for what is not there.\<close>

definition cell :: "time_model_map \<Rightarrow> jstr \<Rightarrow> jstr \<Rightarrow> Metrics" where
  "cell timeModelMap time model = upd (Option.bind (map_of timeModelMap time) (\<lambda>m. map_of m model)) zero_metrics"

definition cell_quota :: "time_model_map \<Rightarrow> jstr \<Rightarrow> jstr \<Rightarrow> jnum" where
  "cell_quota tm time model = jor (mt_quota (cell tm time model)) (JFin 0)"

definition cell_count :: "time_model_map \<Rightarrow> jstr \<Rightarrow> jstr \<Rightarrow> jnum" where
  "cell_count tm time model = jor (mt_count (cell tm time model)) (JFin 0)"

section \<open>Time points\<close>

definition interval_sec :: "TimeGranularity \<Rightarrow> jnum" where
  "interval_sec g = (case g of Weekly \<Rightarrow> JFin 604800 | Daily \<Rightarrow> JFin 86400 | Hourly \<Rightarrow> JFin 3600)"

definition fillTimePoints :: "(jnum \<Rightarrow> jstr) \<Rightarrow> TimeGranularity \<Rightarrow> QuotaDataItem list \<Rightarrow> jstr list \<Rightarrow> jstr list" where
  "fillTimePoints chart_time granularity data found = (if MAX_CHART_TREND_POINTS \<le> length found then found
     else let lastTime = foldl jmax JNInf (map (\<lambda>i. jor (qd_created_at i) (JFin 0)) data) in
       map (\<lambda>i. chart_time (jsub lastTime (jmul (jint (int (MAX_CHART_TREND_POINTS - 1 - i))) (interval_sec granularity))))
         [0..<MAX_CHART_TREND_POINTS])"

section \<open>Values of the charts\<close>

record ModelValue =
  mv_model :: jstr
  mv_value :: jnum

record LineValue =
  lv_time :: jstr
  lv_model :: jstr
  lv_raw :: jnum
  lv_usage :: jnum
  lv_sum :: jnum

record CountValue =
  cv_time :: jstr
  cv_model :: jstr
  cv_count :: jnum

definition fixed_number :: "jnum \<Rightarrow> jnum" where
  "fixed_number x = str_to_num (to_fixed 4 x)"

definition usage_of :: "jnum \<Rightarrow> jnum \<Rightarrow> jnum" where
  "usage_of quota_per_unit rawQuota = (let usd = (if num_truthy rawQuota then jdiv rawQuota quota_per_unit else JFin 0) in
     if num_truthy usd then fixed_number usd else JFin 0)"

definition ranked :: "(Metrics \<Rightarrow> jnum) \<Rightarrow> model_map \<Rightarrow> ModelValue list" where
  "ranked f totals = sort_by (\<lambda>a b. diff_le (mv_value b) (mv_value a))
     (map (\<lambda>(model, stats). \<lparr> mv_model = model, mv_value = jor (f stats) (JFin 0) \<rparr>) totals)"

definition by_time :: "(jstr \<Rightarrow> jstr \<Rightarrow> int) \<Rightarrow> ('a \<Rightarrow> jstr) \<Rightarrow> 'a list \<Rightarrow> 'a list" where
  "by_time lc f = sort_by (\<lambda>a b. lc (f a) (f b) \<le> 0)"

definition line_values_at :: "jnum \<Rightarrow> time_model_map \<Rightarrow> jstr list \<Rightarrow> jstr \<Rightarrow> LineValue list" where
  "line_values_at qpu tm sortedModels time = (let
       timeData = map (\<lambda>model. let raw = cell_quota tm time model in
         \<lparr> lv_time = time, lv_model = model, lv_raw = raw, lv_usage = usage_of qpu raw, lv_sum = JFin 0 \<rparr>) sortedModels;
       timeSum = foldl (\<lambda>s i. jadd s (lv_raw i)) (JFin 0) timeData
     in map (\<lambda>i. i\<lparr> lv_sum := timeSum \<rparr>) (sort_by (\<lambda>a b. diff_le (lv_raw b) (lv_raw a)) timeData))"

definition lineValues :: "(jstr \<Rightarrow> jstr \<Rightarrow> int) \<Rightarrow> jnum \<Rightarrow> time_model_map \<Rightarrow> jstr list \<Rightarrow> jstr list \<Rightarrow> LineValue list" where
  "lineValues lc qpu tm sortedModels chartTimes =
     by_time lc lv_time (concat (map (line_values_at qpu tm sortedModels) chartTimes))"

definition MAX_AREA_MODELS :: nat where "MAX_AREA_MODELS = 15"

text \<open>The buckets of one time: the raw quota and the usage, rounded after each addition.\<close>

definition add_bucket :: "jnum \<times> jnum \<Rightarrow> jnum \<times> jnum \<Rightarrow> jnum \<times> jnum" where
  "add_bucket prev x = (jadd (fst prev) (fst x), fixed_number (jadd (snd prev) (snd x)))"

definition area_buckets :: "jnum \<Rightarrow> time_model_map \<Rightarrow> jstr list \<Rightarrow> jstr \<Rightarrow> jstr list \<Rightarrow> jstr \<Rightarrow> (jstr \<times> jnum \<times> jnum) list" where
  "area_buckets qpu tm topModels otherLabel sortedModels time =
     foldl (\<lambda>m model. let raw = cell_quota tm time model in
       add_at add_bucket (JFin 0, JFin 0) (if model \<in> set topModels then model else otherLabel) (raw, usage_of qpu raw) m) [] sortedModels"

definition area_values_at :: "jnum \<Rightarrow> time_model_map \<Rightarrow> jstr list \<Rightarrow> jstr \<Rightarrow> jstr list \<Rightarrow> jstr \<Rightarrow> LineValue list" where
  "area_values_at qpu tm topModels otherLabel sortedModels time = (let
       timeSum = foldl (\<lambda>s model. jadd s (cell_quota tm time model)) (JFin 0) sortedModels
     in map (\<lambda>(model, raw, usage). \<lparr> lv_time = time, lv_model = model, lv_raw = raw, lv_usage = usage, lv_sum = timeSum \<rparr>)
          (area_buckets qpu tm topModels otherLabel sortedModels time))"

definition areaValues :: "(jstr \<Rightarrow> jstr \<Rightarrow> int) \<Rightarrow> jnum \<Rightarrow> time_model_map \<Rightarrow> model_map \<Rightarrow> jstr \<Rightarrow> jstr list \<Rightarrow> jstr list \<Rightarrow> LineValue list" where
  "areaValues lc qpu tm totals otherLabel sortedModels chartTimes = (let
       topAreaModels = map mv_model (take MAX_AREA_MODELS (ranked mt_quota totals))
     in by_time lc lv_time (concat (map (area_values_at qpu tm topAreaModels otherLabel sortedModels) chartTimes)))"

definition MAX_TREND_MODELS :: nat where "MAX_TREND_MODELS = 20"

definition trend_values_at :: "time_model_map \<Rightarrow> jstr list \<Rightarrow> jstr list \<Rightarrow> jstr \<Rightarrow> jstr \<Rightarrow> CountValue list" where
  "trend_values_at tm topModels otherModels otherLabel time =
     map (\<lambda>model. \<lparr> cv_time = time, cv_model = model, cv_count = cell_count tm time model \<rparr>) topModels
     @ (if otherModels \<noteq> [] then [\<lparr> cv_time = time, cv_model = otherLabel,
          cv_count = foldl (\<lambda>s model. jadd s (cell_count tm time model)) (JFin 0) otherModels \<rparr>] else [])"

definition modelLineValues :: "(jstr \<Rightarrow> jstr \<Rightarrow> int) \<Rightarrow> time_model_map \<Rightarrow> model_map \<Rightarrow> jstr \<Rightarrow> jstr list \<Rightarrow> CountValue list" where
  "modelLineValues lc tm totals otherLabel chartTimes = (let
       models = map mv_model (ranked mt_count totals)
     in by_time lc cv_time (concat (map (trend_values_at tm (take MAX_TREND_MODELS models) (drop MAX_TREND_MODELS models) otherLabel)
          chartTimes)))"

definition MAX_RANK_MODELS :: nat where "MAX_RANK_MODELS = 20"

definition rankValues :: "model_map \<Rightarrow> jstr \<Rightarrow> ModelValue list" where
  "rankValues totals otherLabel = (let all_values = ranked mt_count totals in
     if MAX_RANK_MODELS < length all_values
     then take MAX_RANK_MODELS all_values @ [\<lparr> mv_model = otherLabel,
       mv_value = foldl (\<lambda>s i. jadd s (mv_value i)) (JFin 0) (drop MAX_RANK_MODELS all_values) \<rparr>]
     else all_values)"

definition total_of :: "(Metrics \<Rightarrow> jnum) \<Rightarrow> model_map \<Rightarrow> jnum" where
  "total_of f totals = foldl (\<lambda>s (_, x). jadd s (jor (f x) (JFin 0))) (JFin 0) totals"

section \<open>The charts of the models page\<close>

record ChartData =
  ch_pie :: "ModelValue list"
  ch_line :: "LineValue list"
  ch_area :: "LineValue list"
  ch_trend :: "CountValue list"
  ch_rank :: "ModelValue list"
  ch_domain :: "jstr list"
  ch_range :: "jstr list"
  ch_other_color :: jstr
  ch_total_quota :: jnum
  ch_total_count :: jnum

definition FALLBACK_COLOR :: jstr where "FALLBACK_COLOR = js ''#FF8A00''"

definition color_of :: "jstr list \<Rightarrow> jstr list \<Rightarrow> jstr \<Rightarrow> jstr" where
  "color_of domain colors label = (case find_index (\<lambda>d. d = label) domain of
     Some i \<Rightarrow> if i < length colors then colors ! i else FALLBACK_COLOR | None \<Rightarrow> FALLBACK_COLOR)"

definition processChartData :: "(jnum \<Rightarrow> TimeGranularity \<Rightarrow> jstr) \<Rightarrow> (jstr \<Rightarrow> jstr \<Rightarrow> int) \<Rightarrow> (jstr \<Rightarrow> jstr)
    \<Rightarrow> (nat option \<times> jstr list) list \<Rightarrow> jstr list \<Rightarrow> jnum \<Rightarrow> TimeGranularity \<Rightarrow> QuotaDataItem list \<Rightarrow> ChartData" where
  "processChartData chart_time lc tt schemes themeColors qpu granularity data =
    (if data = [] then \<lparr> ch_pie = [], ch_line = [], ch_area = [], ch_trend = [], ch_rank = [], ch_domain = [], ch_range = [],
       ch_other_color = FALLBACK_COLOR, ch_total_quota = JFin 0, ch_total_count = JFin 0 \<rparr>
     else let
       otherLabel = tt (js ''Other'');
       (timeModelMap, modelTotalsMap) = aggregate_data (\<lambda>i. chart_time (qd_created_at i) granularity) data;
       sortedTimes = sort_by str_le (map fst timeModelMap);
       sortedModels = sort_by str_le (map fst modelTotalsMap);
       domain = uniq (sortedModels @ [otherLabel]);
       colors = getVChartDefaultColors schemes (length domain) themeColors;
       chartTimes = fillTimePoints (\<lambda>t. chart_time t granularity) granularity data sortedTimes
     in \<lparr> ch_pie = ranked mt_count modelTotalsMap,
          ch_line = lineValues lc qpu timeModelMap sortedModels chartTimes,
          ch_area = areaValues lc qpu timeModelMap modelTotalsMap otherLabel sortedModels chartTimes,
          ch_trend = modelLineValues lc timeModelMap modelTotalsMap otherLabel chartTimes,
          ch_rank = rankValues modelTotalsMap otherLabel,
          ch_domain = domain, ch_range = colors, ch_other_color = color_of domain colors otherLabel,
          ch_total_quota = total_of mt_quota modelTotalsMap, ch_total_count = total_of mt_count modelTotalsMap \<rparr>)"

section \<open>The charts of the users page\<close>

record UserValue =
  uv_user :: jstr
  uv_raw :: jnum
  uv_usage :: jnum

record UserPoint =
  up_time :: jstr
  up_user :: jstr
  up_raw :: jnum
  up_usage :: jnum

record UserChartData =
  uc_rank :: "UserValue list"
  uc_trend :: "UserPoint list"
  uc_total :: jnum
  uc_colors :: "(jstr \<times> jstr) list"

definition USER_COLOR_FALLBACKS :: "jstr list" where
  "USER_COLOR_FALLBACKS = map js [''#5B8FF9'', ''#5AD8A6'', ''#F6BD16'', ''#E8684A'', ''#6DC8EC'', ''#9270CA'', ''#FF9D4D'',
     ''#269A99'', ''#FF99C3'', ''#5D7092'']"

definition userColorRange :: "nat \<Rightarrow> jstr list \<Rightarrow> jstr list" where
  "userColorRange limit themeUserColors = (if themeUserColors \<noteq> [] then cycle_colors limit themeUserColors else USER_COLOR_FALLBACKS)"

definition user_of :: "QuotaDataItem \<Rightarrow> jstr" where
  "user_of item = (if qd_username item = None \<or> qd_username item = Some [] then js ''unknown'' else the (qd_username item))"

text \<open>\<open>map.set(k, (map.get(k) || 0) + x)\<close>.\<close>

definition tally :: "('a \<Rightarrow> 'k) \<Rightarrow> ('a \<Rightarrow> jnum) \<Rightarrow> 'a list \<Rightarrow> ('k \<times> jnum) list" where
  "tally key amount items = foldl (\<lambda>m i. assoc_put (key i) (jadd (jor (upd (map_of m (key i)) JNaN) (JFin 0)) (amount i)) m) [] items"

definition sorted_users :: "QuotaDataItem list \<Rightarrow> (jstr \<times> jnum) list" where
  "sorted_users data = sort_by (\<lambda>a b. diff_le (snd b) (snd a)) (tally user_of (\<lambda>i. or_zero (qd_quota i)) data)"

definition time_user_map :: "(QuotaDataItem \<Rightarrow> jstr) \<Rightarrow> jstr list \<Rightarrow> QuotaDataItem list \<Rightarrow> (jstr \<times> (jstr \<times> jnum) list) list" where
  "time_user_map time_key topUsers data = foldl (\<lambda>m i.
     if user_of i \<notin> set topUsers then m
     else let u = upd (map_of m (time_key i)) [] in
       assoc_put (time_key i) (assoc_put (user_of i) (jadd (jor (upd (map_of u (user_of i)) JNaN) (JFin 0)) (or_zero (qd_quota i))) u) m)
     [] data"

definition processUserChartData :: "(jnum \<Rightarrow> TimeGranularity \<Rightarrow> jstr) \<Rightarrow> jstr list \<Rightarrow> jnum \<Rightarrow> TimeGranularity \<Rightarrow> nat \<Rightarrow> QuotaDataItem list
    \<Rightarrow> UserChartData" where
  "processUserChartData chart_time themeUserColors qpu granularity limit data =
    (if data = [] then \<lparr> uc_rank = [], uc_trend = [], uc_total = JFin 0, uc_colors = [] \<rparr>
     else let
       time_key = (\<lambda>i. chart_time (qd_created_at i) granularity);
       sorted_totals = sorted_users data;
       top = take limit sorted_totals;
       topUsers = map fst top;
       colors = userColorRange limit themeUserColors;
       timeUserMap = time_user_map time_key topUsers data;
       sortedTimePoints = sort_by str_le (uniq (map time_key data))
     in \<lparr> uc_rank = map (\<lambda>(username, quota). \<lparr> uv_user = username, uv_raw = quota, uv_usage = fixed_number (jdiv quota qpu) \<rparr>) top,
          uc_trend = concat (map (\<lambda>time. map (\<lambda>user.
            let q = jor (upd (Option.bind (map_of timeUserMap time) (\<lambda>m. map_of m user)) JNaN) (JFin 0) in
            \<lparr> up_time = time, up_user = user, up_raw = q, up_usage = fixed_number (jdiv q qpu) \<rparr>) topUsers) sortedTimePoints),
          uc_total = foldl (\<lambda>s (_, q). jadd s q) (JFin 0) top,
          uc_colors = fold (\<lambda>(i, user). assoc_put user (colors ! (i mod length colors))) (enumerate 0 topUsers) [] \<rparr>)"

end
