(* ===== verification/ChartSums.thy ===== *)
theory ChartSums
  imports Charts
begin

text \<open>
  Sums of the values of the charts. Adding whole numbers with a sum of at most \<open>2 ^ 53\<close> is exact in every order
  (\<open>jsum_whole\<close>, \<open>jsum_perm\<close>); a map that adds up amounts by key holds for each key the sum of its rows
  (\<open>map_of_accumulate\<close>), and the sums by distinct keys add up (\<open>part_split\<close>). The locale \<open>additive\<close> carries this to
  the maps of records and of pairs that the charts keep; from it come the cells of the time and model map, its totals,
  and the sums of the bar, area and trend charts over the shown times.
\<close>

section \<open>Sums of whole numbers\<close>

definition jsum :: "jnum list \<Rightarrow> jnum" where
  "jsum xs = foldl jadd (JFin 0) xs"

definition whole :: "int list \<Rightarrow> bool" where
  "whole ns = (list_all (\<lambda>n. 0 \<le> n) ns \<and> sum_list ns \<le> 2 ^ 53)"

lemma sum_list_nonneg_int: "list_all (\<lambda>n. 0 \<le> n) ns \<Longrightarrow> 0 \<le> sum_list (ns :: int list)"
  by (rule sum_list_nonneg) (simp add: list_all_iff)

lemma foldl_jadd_whole:
  "0 \<le> a \<Longrightarrow> list_all (\<lambda>n. 0 \<le> n) ns \<Longrightarrow> a + sum_list ns \<le> 2 ^ 53 \<Longrightarrow> foldl jadd (jint a) (map jint ns) = jint (a + sum_list ns)"
proof (induction ns arbitrary: a)
  case (Cons n ns)
  have "0 \<le> sum_list ns" using Cons.prems(2) by (simp add: sum_list_nonneg_int)
  then have "jadd (jint a) (jint n) = jint (a + n)" using Cons.prems by (intro jadd_int) simp
  then show ?case using Cons.IH [of "a + n"] Cons.prems by (simp add: add.assoc del: jadd.simps)
qed simp

lemma jsum_whole: "whole ns \<Longrightarrow> jsum (map jint ns) = jint (sum_list ns)"
  using foldl_jadd_whole [of 0 ns] by (simp add: jsum_def whole_def)

text \<open>The order of the summands does not matter.\<close>

lemma jsum_perm:
  assumes "mset xs = mset (map jint ns)" "whole ns"
  shows "jsum xs = jint (sum_list ns)"
proof -
  have "\<forall>x \<in># mset xs. \<exists>n. x = jint n" using assms(1) by auto
  then have "\<forall>x \<in> set xs. jint (int_of_num x) = x" by auto
  then have xs: "map jint (map int_of_num xs) = xs" by (simp add: map_idI)
  have "mset (map int_of_num xs) = mset (map int_of_num (map jint ns))" using assms(1) by (simp only: mset_map)
  then have m: "mset (map int_of_num xs) = mset ns" by (simp add: comp_def)
  then have "sum_list (map int_of_num xs) = sum_list ns" by (metis sum_mset_sum_list)
  moreover have "whole (map int_of_num xs)"
    using assms(2) m calculation unfolding whole_def list_all_iff by (metis mset_eq_setD)
  ultimately show ?thesis using jsum_whole [of "map int_of_num xs"] xs by simp
qed

section \<open>Accumulation by key\<close>

definition accumulate :: "('a \<Rightarrow> 'k) \<Rightarrow> ('a \<Rightarrow> jnum) \<Rightarrow> 'a list \<Rightarrow> ('k \<times> jnum) list" where
  "accumulate key amount xs = foldl (\<lambda>m i. add_at jadd (JFin 0) (key i) (amount i) m) [] xs"

definition part :: "('a \<Rightarrow> bool) \<Rightarrow> ('a \<Rightarrow> int) \<Rightarrow> 'a list \<Rightarrow> int" where
  "part P a xs = sum_list (map a (filter P xs))"

lemma accumulate_snoc: "accumulate key amount (xs @ [x]) = add_at jadd (JFin 0) (key x) (amount x) (accumulate key amount xs)"
  by (simp add: accumulate_def)

lemma keys_accumulate: "map fst (accumulate key amount xs) = uniq (map key xs)"
proof (induction xs rule: rev_induct)
  case (snoc x xs)
  have "key x \<in> fst ` set (accumulate key amount xs) \<longleftrightarrow> key x \<in> set (map key xs)"
    unfolding set_map [symmetric] snoc.IH set_uniq ..
  then show ?case
    by (simp add: accumulate_snoc add_at_def keys_assoc_put snoc.IH uniq_append)
qed (simp add: accumulate_def)

lemma distinct_accumulate [simp]: "distinct (map fst (accumulate key amount xs))"
  by (simp add: keys_accumulate)

lemma whole_part: "whole (map a xs) \<Longrightarrow> 0 \<le> part P a xs \<and> part P a xs \<le> sum_list (map a xs)"
  unfolding whole_def part_def by (induction xs) auto

lemma whole_snoc: "whole (map a (xs @ [x])) \<Longrightarrow> whole (map a xs) \<and> 0 \<le> a x \<and> sum_list (map a xs) + a x \<le> 2 ^ 53"
  using sum_list_nonneg_int [of "map a xs"] by (auto simp: whole_def)

lemma map_of_accumulate:
  assumes "whole (map a xs)"
  shows "map_of (accumulate key (\<lambda>i. jint (a i)) xs) k
    = (if k \<in> key ` set xs then Some (jint (part (\<lambda>i. key i = k) a xs)) else None)"
  using assms
proof (induction xs arbitrary: k rule: rev_induct)
  case (snoc x xs)
  note w = whole_snoc [OF snoc.prems]
  note IH = snoc.IH [OF conjunct1 [OF w]]
  let ?p = "\<lambda>k. part (\<lambda>i. key i = k) a xs"
  have none: "?p k = 0" if "k \<notin> key ` set xs" for k
  proof -
    have "filter (\<lambda>i. key i = k) xs = []" using that by (auto simp: filter_empty_conv)
    then show ?thesis by (simp add: part_def)
  qed
  then have cur: "upd (map_of (accumulate key (\<lambda>i. jint (a i)) xs) (key x)) (JFin 0) = jint (?p (key x))"
    unfolding IH by (auto simp: upd_def)
  have "0 \<le> ?p (key x)" "?p (key x) \<le> sum_list (map a xs)" using whole_part w by blast+
  then have "jadd (jint (?p (key x))) (jint (a x)) = jint (?p (key x) + a x)" using w by (intro jadd_int) simp
  then have "map_of (accumulate key (\<lambda>i. jint (a i)) (xs @ [x])) k
      = ((map_of (accumulate key (\<lambda>i. jint (a i)) xs))(key x \<mapsto> jint (?p (key x) + a x))) k"
    unfolding accumulate_snoc add_at_def cur map_of_assoc_put by (simp only:)
  also have "\<dots> = (if k \<in> key ` set (xs @ [x]) then Some (jint (part (\<lambda>i. key i = k) a (xs @ [x]))) else None)"
    using none [of k] by (auto simp: IH part_def)
  finally show ?case .
qed (simp add: accumulate_def)

text \<open>Parts by distinct keys add up.\<close>

lemma part_split:
  assumes "distinct ks"
  shows "sum_list (map (\<lambda>k. part (\<lambda>i. P i \<and> key i = k) a xs) ks) = part (\<lambda>i. P i \<and> key i \<in> set ks) a xs"
proof (induction xs)
  case (Cons x xs)
  have one: "sum_list (map (\<lambda>k. if key x = k then a x else 0) ks) = (if key x \<in> set ks then a x else 0)"
    using assms by (induction ks) auto
  have "part (\<lambda>i. P i \<and> key i = k) a (x # xs) = (if P x then (if key x = k then a x else 0) else 0) + part (\<lambda>i. P i \<and> key i = k) a xs" for k
    by (simp add: part_def)
  then have "sum_list (map (\<lambda>k. part (\<lambda>i. P i \<and> key i = k) a (x # xs)) ks)
      = (if P x then sum_list (map (\<lambda>k. if key x = k then a x else 0) ks) else 0)
        + sum_list (map (\<lambda>k. part (\<lambda>i. P i \<and> key i = k) a xs) ks)"
    by (simp add: sum_list_addf)
  then show ?case unfolding one Cons.IH by (simp add: part_def)
qed (simp add: part_def)

lemma part_cong: "(\<And>i. i \<in> set xs \<Longrightarrow> P i = Q i) \<Longrightarrow> part P a xs = part Q a xs"
  unfolding part_def by (metis filter_cong)

lemma part_all: "(\<And>i. i \<in> set xs \<Longrightarrow> P i) \<Longrightarrow> part P a xs = sum_list (map a xs)"
  by (simp add: part_def)

lemma part_filter: "part P a (filter Q xs) = part (\<lambda>i. Q i \<and> P i) a xs"
  by (simp add: part_def conj_commute)

lemma whole_filter: "whole (map a xs) \<Longrightarrow> whole (map a (filter P xs))"
  using whole_part [of a xs P] by (auto simp: whole_def part_def list_all_iff)

lemma values_accumulate:
  assumes "whole (map a xs)"
  shows "map snd (accumulate key (\<lambda>i. jint (a i)) xs) = map (\<lambda>k. jint (part (\<lambda>i. key i = k) a xs)) (uniq (map key xs))"
proof -
  let ?m = "accumulate key (\<lambda>i. jint (a i)) xs"
  have "map snd ?m = map (\<lambda>k. the (map_of ?m k)) (map fst ?m)"
    using distinct_accumulate [of key "\<lambda>i. jint (a i)" xs] by (auto simp: map_eq_conv)
  also have "\<dots> = map (\<lambda>k. jint (part (\<lambda>i. key i = k) a xs)) (uniq (map key xs))"
    unfolding keys_accumulate by (simp add: map_of_accumulate [OF assms])
  finally show ?thesis .
qed

section \<open>The two maps\<close>

text \<open>A component of accumulated values that starts at zero and is added.\<close>

locale additive =
  fixes add :: "'v \<Rightarrow> 'v \<Rightarrow> 'v" and zero :: 'v and f :: "'v \<Rightarrow> jnum"
  assumes f_zero: "f zero = JFin 0"
    and f_add: "f (add x y) = jadd (f x) (f y)"
begin

lemma project_map_of: "map_of (map (apsnd f) m) k = map_option f (map_of m k)"
  by (induction m) auto

lemma project_put: "map (apsnd f) (assoc_put k v m) = assoc_put k (f v) (map (apsnd f) m)"
  by (induction k v m rule: assoc_put.induct) auto

lemma project_add: "map (apsnd f) (add_at add zero k x m) = add_at jadd (JFin 0) k (f x) (map (apsnd f) m)"
  unfolding add_at_def project_put project_map_of f_add by (cases "map_of m k") (simp_all add: upd_def f_zero)

lemma project_fold: "map (apsnd f) (foldl (\<lambda>m i. add_at add zero (key i) (v i) m) [] items) = accumulate key (\<lambda>i. f (v i)) items"
  unfolding accumulate_def by (induction items rule: rev_induct) (simp_all add: project_add)

lemma lookup_fold:
  "f (upd (map_of (foldl (\<lambda>m i. add_at add zero (key i) (v i) m) [] items) k) zero)
    = upd (map_of (accumulate key (\<lambda>i. f (v i)) items) k) (JFin 0)"
  unfolding project_fold [symmetric] project_map_of by (simp add: upd_def f_zero split: option.split)

lemma values_fold: "map (\<lambda>x. f (snd x)) (foldl (\<lambda>m i. add_at add zero (key i) (v i) m) [] items) = map snd (accumulate key (\<lambda>i. f (v i)) items)"
  unfolding project_fold [symmetric] by (simp add: comp_def)

end

interpretation quota: additive plus_metrics zero_metrics mt_quota by unfold_locales (simp_all add: zero_metrics_def plus_metrics_def)
interpretation count: additive plus_metrics zero_metrics mt_count by unfold_locales (simp_all add: zero_metrics_def plus_metrics_def)
interpretation tokens: additive plus_metrics zero_metrics mt_tokens by unfold_locales (simp_all add: zero_metrics_def plus_metrics_def)
interpretation bucket: additive add_bucket "(JFin 0, JFin 0)" fst by unfold_locales (simp_all add: add_bucket_def)

abbreviation model_metrics :: "QuotaDataItem list \<Rightarrow> model_map" where
  "model_metrics items \<equiv> foldl (\<lambda>m i. add_at plus_metrics zero_metrics (model_of i) (item_metrics i) m) [] items"

lemma aggregate_totals: "snd (aggregate_data time_key data) = model_metrics data"
proof -
  have "snd (foldl (aggregate_item time_key) (tm, totals) data)
      = foldl (\<lambda>m i. add_at plus_metrics zero_metrics (model_of i) (item_metrics i) m) totals data" for tm totals
    by (induction data arbitrary: tm totals) (simp_all add: aggregate_item_def Let_def)
  then show ?thesis by (simp add: aggregate_data_def)
qed

lemma aggregate_times:
  "map fst (fst (aggregate_data time_key data)) = uniq (map time_key data)
    \<and> map_of (fst (aggregate_data time_key data)) t
      = (if t \<in> time_key ` set data then Some (model_metrics (filter (\<lambda>i. time_key i = t) data)) else None)"
proof (induction data arbitrary: t rule: rev_induct)
  case (snoc x xs)
  obtain tm totals where agg: "aggregate_data time_key xs = (tm, totals)" by fastforce
  have keys: "map fst tm = uniq (map time_key xs)" using snoc.IH agg by simp
  have look: "map_of tm t = (if t \<in> time_key ` set xs then Some (model_metrics (filter (\<lambda>i. time_key i = t) xs)) else None)" for t
    using snoc.IH [of t] agg by simp
  have none: "filter (\<lambda>i. time_key i = t) xs = []" if "t \<notin> time_key ` set xs" for t
    using that by (auto simp: filter_empty_conv)
  have "upd (map_of tm (time_key x)) [] = model_metrics (filter (\<lambda>i. time_key i = time_key x) xs)"
    using none [of "time_key x"] by (auto simp: look upd_def)
  then have new: "fst (aggregate_data time_key (xs @ [x]))
      = assoc_put (time_key x) (model_metrics (filter (\<lambda>i. time_key i = time_key x) (xs @ [x]))) tm"
    using agg by (simp add: aggregate_data_def aggregate_item_def Let_def)
  have "time_key x \<in> fst ` set tm \<longleftrightarrow> time_key x \<in> set (map time_key xs)"
    unfolding set_map [symmetric] keys set_uniq ..
  then have "map fst (fst (aggregate_data time_key (xs @ [x]))) = uniq (map time_key (xs @ [x]))"
    unfolding new keys_assoc_put by (simp add: keys uniq_append)
  moreover have "map_of (fst (aggregate_data time_key (xs @ [x]))) t
      = (if t \<in> time_key ` set (xs @ [x]) then Some (model_metrics (filter (\<lambda>i. time_key i = t) (xs @ [x]))) else None)"
    unfolding new by (auto simp: look)
  ultimately show ?case ..
qed (simp add: aggregate_data_def)

section \<open>Whole rows\<close>

definition row_quota :: "QuotaDataItem \<Rightarrow> int" where "row_quota i = int_of_num (or_zero (qd_quota i))"
definition row_count :: "QuotaDataItem \<Rightarrow> int" where "row_count i = int_of_num (or_zero (qd_count i))"

text \<open>Quotas and counts are whole numbers, as the server has them, and their sums are below \<open>2 ^ 53\<close>.\<close>

definition whole_rows :: "QuotaDataItem list \<Rightarrow> bool" where
  "whole_rows data = (list_all (\<lambda>i. or_zero (qd_quota i) = jint (row_quota i) \<and> or_zero (qd_count i) = jint (row_count i)) data
     \<and> whole (map row_quota data) \<and> whole (map row_count data))"

lemma jor_jint [simp]: "jor (jint n) (JFin 0) = jint n"
  by (simp add: jor_def num_truthy_def)

lemma accumulate_cong: "(\<And>i. i \<in> set xs \<Longrightarrow> f i = g i) \<Longrightarrow> accumulate key f xs = accumulate key g xs"
  unfolding accumulate_def by (rule foldl_cong) simp_all

lemma accumulate_rows:
  assumes "whole_rows data"
  shows "accumulate key (\<lambda>i. mt_quota (item_metrics i)) (filter P data) = accumulate key (\<lambda>i. jint (row_quota i)) (filter P data)"
    "accumulate key (\<lambda>i. mt_count (item_metrics i)) (filter P data) = accumulate key (\<lambda>i. jint (row_count i)) (filter P data)"
  using assms by (auto simp: whole_rows_def list_all_iff item_metrics_def intro!: accumulate_cong)

lemma lookup_accumulate:
  assumes "whole (map a xs)"
  shows "upd (map_of (accumulate key (\<lambda>i. jint (a i)) xs) k) (JFin 0) = jint (part (\<lambda>i. key i = k) a xs)"
proof -
  have "part (\<lambda>i. key i = k) a xs = 0" if "k \<notin> key ` set xs"
  proof -
    have "filter (\<lambda>i. key i = k) xs = []" using that by (auto simp: filter_empty_conv)
    then show ?thesis by (simp add: part_def)
  qed
  then show ?thesis unfolding map_of_accumulate [OF assms] by (auto simp: upd_def)
qed

lemma cells:
  assumes "whole_rows data" "tm = fst (aggregate_data time_key data)"
  shows "cell_quota tm t m = jint (part (\<lambda>i. time_key i = t \<and> model_of i = m) row_quota data)"
    "cell_count tm t m = jint (part (\<lambda>i. time_key i = t \<and> model_of i = m) row_count data)"
proof -
  let ?xs = "filter (\<lambda>i. time_key i = t) data"
  have none: "?xs = []" if "t \<notin> time_key ` set data" using that by (auto simp: filter_empty_conv)
  have "cell tm t m = upd (map_of (model_metrics ?xs) m) zero_metrics"
    using aggregate_times [of time_key data] none by (simp add: cell_def assms(2) upd_def)
  then have "mt_quota (cell tm t m) = upd (map_of (accumulate model_of (\<lambda>i. jint (row_quota i)) ?xs) m) (JFin 0)"
    "mt_count (cell tm t m) = upd (map_of (accumulate model_of (\<lambda>i. jint (row_count i)) ?xs) m) (JFin 0)"
    by (simp_all only: quota.lookup_fold count.lookup_fold accumulate_rows [OF assms(1)])
  moreover have "whole (map row_quota ?xs)" "whole (map row_count ?xs)"
    using assms(1) by (simp_all add: whole_rows_def whole_filter)
  ultimately show "cell_quota tm t m = jint (part (\<lambda>i. time_key i = t \<and> model_of i = m) row_quota data)"
    "cell_count tm t m = jint (part (\<lambda>i. time_key i = t \<and> model_of i = m) row_count data)"
    by (simp_all only: cell_quota_def cell_count_def lookup_accumulate part_filter jor_jint)
qed

lemma totals:
  assumes "whole_rows data"
  shows "map (\<lambda>x. mt_quota (snd x)) (snd (aggregate_data time_key data)) = map (\<lambda>k. jint (part (\<lambda>i. model_of i = k) row_quota data)) (uniq (map model_of data))"
    "map (\<lambda>x. mt_count (snd x)) (snd (aggregate_data time_key data)) = map (\<lambda>k. jint (part (\<lambda>i. model_of i = k) row_count data)) (uniq (map model_of data))"
    "map fst (snd (aggregate_data time_key data)) = uniq (map model_of data)"
proof -
  have a: "accumulate model_of (\<lambda>i. mt_quota (item_metrics i)) data = accumulate model_of (\<lambda>i. jint (row_quota i)) data"
    "accumulate model_of (\<lambda>i. mt_count (item_metrics i)) data = accumulate model_of (\<lambda>i. jint (row_count i)) data"
    using accumulate_rows [OF assms, of model_of "\<lambda>_. True"] by simp_all
  have w: "whole (map row_quota data)" "whole (map row_count data)" using assms by (simp_all add: whole_rows_def)
  show "map (\<lambda>x. mt_quota (snd x)) (snd (aggregate_data time_key data)) = map (\<lambda>k. jint (part (\<lambda>i. model_of i = k) row_quota data)) (uniq (map model_of data))"
    "map (\<lambda>x. mt_count (snd x)) (snd (aggregate_data time_key data)) = map (\<lambda>k. jint (part (\<lambda>i. model_of i = k) row_count data)) (uniq (map model_of data))"
    unfolding aggregate_totals quota.values_fold count.values_fold a by (simp_all only: values_accumulate w)
  have "map fst (model_metrics data) = map fst (map (apsnd mt_quota) (model_metrics data))" by simp
  also have "\<dots> = uniq (map model_of data)" unfolding quota.project_fold by (rule keys_accumulate)
  finally show "map fst (snd (aggregate_data time_key data)) = uniq (map model_of data)" unfolding aggregate_totals .
qed

text \<open>All parts of a list by its keys.\<close>

lemma parts_total:
  assumes "whole (map a xs)" "distinct ks" "key ` set xs \<subseteq> set ks"
  shows "whole (map (\<lambda>k. part (\<lambda>i. key i = k) a xs) ks)" "sum_list (map (\<lambda>k. part (\<lambda>i. key i = k) a xs) ks) = sum_list (map a xs)"
proof -
  show s: "sum_list (map (\<lambda>k. part (\<lambda>i. key i = k) a xs) ks) = sum_list (map a xs)"
    using part_split [OF assms(2), of "\<lambda>_. True" key a xs] part_all [of xs "\<lambda>i. key i \<in> set ks" a] assms(3) by auto
  show "whole (map (\<lambda>k. part (\<lambda>i. key i = k) a xs) ks)"
    using assms(1) whole_part [OF assms(1)] s by (simp add: whole_def list_all_iff)
qed

section \<open>Sums of the chart values\<close>

lemma mset_by_time [simp]: "mset (by_time lc f xs) = mset xs"
  by (simp add: by_time_def)

text \<open>Lists of values per time whose sums are known, in any order after concatenation.\<close>

lemma jsum_concat:
  assumes "\<And>t. t \<in> set ts \<Longrightarrow> \<exists>ns. mset (vals t) = mset (map jint ns) \<and> list_all (\<lambda>n. 0 \<le> n) ns \<and> sum_list ns = S t"
    and "sum_list (map S ts) \<le> 2 ^ 53" "mset xs = mset (concat (map vals ts))"
  shows "jsum xs = jint (sum_list (map S ts))"
proof -
  obtain ns where ns: "\<And>t. t \<in> set ts \<Longrightarrow> mset (vals t) = mset (map jint (ns t)) \<and> list_all (\<lambda>n. 0 \<le> n) (ns t) \<and> sum_list (ns t) = S t"
    using assms(1) by metis
  have "mset (concat (map vals ts)) = mset (map jint (concat (map ns ts)))"
    using ns by (induction ts) (auto simp del: mset_map)
  moreover have "sum_list (concat (map ns ts)) = sum_list (map S ts)"
    using ns by (induction ts) auto
  moreover have "list_all (\<lambda>n. 0 \<le> n) (concat (map ns ts))" using ns by (auto simp: list_all_iff)
  ultimately show ?thesis using assms(2,3) jsum_perm [of xs "concat (map ns ts)"] by (simp add: whole_def del: mset_map)
qed

text \<open>The rows of one time: their sum, over any list of all models, and over all models and distinct times.\<close>

lemma part_nonneg: "whole (map a xs) \<Longrightarrow> 0 \<le> part P a xs"
  using whole_part by blast

lemma time_parts:
  assumes "whole (map a data)" "distinct models" "model_of ` set data \<subseteq> set models"
  shows "list_all (\<lambda>n. 0 \<le> n) (map (\<lambda>m. part (\<lambda>i. time_key i = t \<and> model_of i = m) a data) models)"
    "sum_list (map (\<lambda>m. part (\<lambda>i. time_key i = t \<and> model_of i = m) a data) models) = part (\<lambda>i. time_key i = t) a data"
proof -
  show "list_all (\<lambda>n. 0 \<le> n) (map (\<lambda>m. part (\<lambda>i. time_key i = t \<and> model_of i = m) a data) models)"
    using part_nonneg [OF assms(1)] by (simp add: list_all_iff)
  show "sum_list (map (\<lambda>m. part (\<lambda>i. time_key i = t \<and> model_of i = m) a data) models) = part (\<lambda>i. time_key i = t) a data"
    unfolding part_split [OF assms(2)] using assms(3) by (intro part_cong) auto
qed

lemma times_parts:
  "distinct ts \<Longrightarrow> sum_list (map (\<lambda>t. part (\<lambda>i. key i = t) a data) ts) = part (\<lambda>i. key i \<in> set ts) a data"
  using part_split [of ts "\<lambda>_. True" key a data] by simp

lemma part_le: "whole (map a data) \<Longrightarrow> part P a data \<le> 2 ^ 53"
  using whole_part [of a data P] unfolding whole_def by linarith

lemma raw_line_values: "mset (map lv_raw (line_values_at qpu tm models t)) = mset (map (cell_quota tm t) models)"
  by (simp add: line_values_at_def Let_def comp_def del: mset_map) (simp add: image_mset.compositionality comp_def)

lemma raw_area_values:
  "map lv_raw (area_values_at qpu tm best other models t)
    = map snd (accumulate (\<lambda>m. if m \<in> set best then m else other) (cell_quota tm t) models)"
proof -
  have "map lv_raw (area_values_at qpu tm best other models t) = map (\<lambda>x. fst (snd x)) (area_buckets qpu tm best other models t)"
    by (simp add: area_values_at_def Let_def split_beta comp_def)
  also have "\<dots> = map snd (accumulate (\<lambda>m. if m \<in> set best then m else other) (\<lambda>m. fst (cell_quota tm t m, usage_of qpu (cell_quota tm t m))) models)"
    unfolding area_buckets_def Let_def by (rule bucket.values_fold)
  finally show ?thesis by simp
qed

lemma map_concat_by_time: "mset (map f (by_time lc g (concat (map h ts)))) = mset (concat (map (\<lambda>t. map f (h t)) ts))"
proof -
  have "mset (map f (by_time lc g xs)) = mset (map f xs)" for xs :: "'b list" unfolding mset_map mset_by_time ..
  then show ?thesis by (simp only: map_concat map_map comp_def)
qed

lemma parts_by_model:
  assumes "whole_rows data" "distinct models" "set models = set (map model_of data)" "tm = fst (aggregate_data time_key data)"
  shows "\<exists>ns. map (cell_quota tm t) models = map jint ns \<and> list_all (\<lambda>n. 0 \<le> n) ns \<and> sum_list ns = part (\<lambda>i. time_key i = t) row_quota data"
    "\<exists>ns. map (cell_count tm t) models = map jint ns \<and> list_all (\<lambda>n. 0 \<le> n) ns \<and> sum_list ns = part (\<lambda>i. time_key i = t) row_count data"
proof -
  have w: "whole (map row_quota data)" "whole (map row_count data)" using assms(1) by (simp_all add: whole_rows_def)
  have m: "model_of ` set data \<subseteq> set models" using assms(3) by simp
  show "\<exists>ns. map (cell_quota tm t) models = map jint ns \<and> list_all (\<lambda>n. 0 \<le> n) ns \<and> sum_list ns = part (\<lambda>i. time_key i = t) row_quota data"
    using time_parts [OF w(1) assms(2) m, of time_key t]
    by (intro exI [of _ "map (\<lambda>m. part (\<lambda>i. time_key i = t \<and> model_of i = m) row_quota data) models"]) (simp add: cells [OF assms(1,4)])
  show "\<exists>ns. map (cell_count tm t) models = map jint ns \<and> list_all (\<lambda>n. 0 \<le> n) ns \<and> sum_list ns = part (\<lambda>i. time_key i = t) row_count data"
    using time_parts [OF w(2) assms(2) m, of time_key t]
    by (intro exI [of _ "map (\<lambda>m. part (\<lambda>i. time_key i = t \<and> model_of i = m) row_count data) models"]) (simp add: cells [OF assms(1,4)])
qed

text \<open>The sum of a chart: a chart whose values at each time add up to the rows of that time.\<close>

lemma chart_sum:
  assumes "whole (map a data)" "distinct ts" "mset xs = mset (concat (map vals ts))"
    and "\<And>t. t \<in> set ts \<Longrightarrow> \<exists>ns. mset (vals t) = mset (map jint ns) \<and> list_all (\<lambda>n. 0 \<le> n) ns \<and> sum_list ns = part (\<lambda>i. time_key i = t) a data"
  shows "jsum xs = jint (part (\<lambda>i. time_key i \<in> set ts) a data)"
proof -
  note parts = times_parts [OF assms(2), of time_key a data]
  have "sum_list (map (\<lambda>t. part (\<lambda>i. time_key i = t) a data) ts) \<le> 2 ^ 53" unfolding parts by (rule part_le [OF assms(1)])
  from jsum_concat [OF assms(4) this assms(3)] show ?thesis unfolding parts .
qed

lemma line_sum:
  assumes "whole_rows data" "distinct models" "set models = set (map model_of data)" "tm = fst (aggregate_data time_key data)" "distinct ts"
  shows "jsum (map lv_raw (lineValues lc qpu tm models ts)) = jint (part (\<lambda>i. time_key i \<in> set ts) row_quota data)"
proof (rule chart_sum)
  show "whole (map row_quota data)" using assms(1) by (simp add: whole_rows_def)
  show "mset (map lv_raw (lineValues lc qpu tm models ts)) = mset (concat (map (\<lambda>t. map lv_raw (line_values_at qpu tm models t)) ts))"
    unfolding lineValues_def by (rule map_concat_by_time)
  show "\<exists>ns. mset (map lv_raw (line_values_at qpu tm models t)) = mset (map jint ns) \<and> list_all (\<lambda>n. 0 \<le> n) ns
      \<and> sum_list ns = part (\<lambda>i. time_key i = t) row_quota data" for t
    unfolding raw_line_values using parts_by_model(1) [OF assms(1-4), of t] by metis
qed (rule assms(5))

text \<open>Grouping the models into buckets keeps the sum.\<close>

lemma bucket_values:
  assumes "map v models = map jint ns" "whole ns"
  shows "\<exists>ms. map snd (accumulate key v models) = map jint ms \<and> list_all (\<lambda>n. 0 \<le> n) ms \<and> sum_list ms = sum_list ns"
proof -
  let ?a = "\<lambda>m. int_of_num (v m)"
  have v: "v m = jint (?a m)" if "m \<in> set models" for m
  proof -
    have "v m \<in> set (map jint ns)" using that unfolding assms(1) [symmetric] by simp
    then show ?thesis by auto
  qed
  then have "accumulate key v models = accumulate key (\<lambda>m. jint (?a m)) models" by (rule accumulate_cong)
  moreover have ns: "ns = map ?a models"
  proof -
    have "map int_of_num (map v models) = map int_of_num (map jint ns)" by (simp only: assms(1))
    then show ?thesis by (simp add: comp_def)
  qed
  then have w: "whole (map ?a models)" using assms(2) by simp
  moreover have "key ` set models \<subseteq> set (uniq (map key models))" by simp
  ultimately show ?thesis
    using values_accumulate [OF w, of key] parts_total [OF w, of "uniq (map key models)" key] ns
    by (intro exI [of _ "map (\<lambda>k. part (\<lambda>i. key i = k) ?a models) (uniq (map key models))"]) (simp add: whole_def comp_def)
qed

lemma area_sum:
  assumes "whole_rows data" "distinct models" "set models = set (map model_of data)" "tm = fst (aggregate_data time_key data)" "distinct ts"
  shows "jsum (map lv_raw (areaValues lc qpu tm totals other models ts)) = jint (part (\<lambda>i. time_key i \<in> set ts) row_quota data)"
proof (rule chart_sum)
  show w: "whole (map row_quota data)" using assms(1) by (simp add: whole_rows_def)
  let ?best = "map mv_model (take MAX_AREA_MODELS (ranked mt_quota totals))"
  show "mset (map lv_raw (areaValues lc qpu tm totals other models ts))
      = mset (concat (map (\<lambda>t. map lv_raw (area_values_at qpu tm ?best other models t)) ts))"
    unfolding areaValues_def Let_def by (rule map_concat_by_time)
  show "\<exists>ns. mset (map lv_raw (area_values_at qpu tm ?best other models t)) = mset (map jint ns) \<and> list_all (\<lambda>n. 0 \<le> n) ns
      \<and> sum_list ns = part (\<lambda>i. time_key i = t) row_quota data" for t
  proof -
    obtain ns where ns: "map (cell_quota tm t) models = map jint ns" "list_all (\<lambda>n. 0 \<le> n) ns" "sum_list ns = part (\<lambda>i. time_key i = t) row_quota data"
      using parts_by_model(1) [OF assms(1-4), of t] by blast
    then have "whole ns" using part_le [OF w] by (simp add: whole_def)
    from bucket_values [OF ns(1) this] show ?thesis unfolding raw_area_values ns(3) [symmetric] by metis
  qed
qed (rule assms(5))

lemma trend_sum:
  assumes "whole_rows data" "distinct models" "set models = set (map model_of data)" "tm = fst (aggregate_data time_key data)" "distinct ts"
    and "models = map mv_model (ranked mt_count totals)"
  shows "jsum (map cv_count (modelLineValues lc tm totals other ts)) = jint (part (\<lambda>i. time_key i \<in> set ts) row_count data)"
proof (rule chart_sum)
  show w: "whole (map row_count data)" using assms(1) by (simp add: whole_rows_def)
  let ?vals = "trend_values_at tm (take MAX_TREND_MODELS models) (drop MAX_TREND_MODELS models) other"
  show "mset (map cv_count (modelLineValues lc tm totals other ts)) = mset (concat (map (\<lambda>t. map cv_count (?vals t)) ts))"
    unfolding modelLineValues_def Let_def assms(6) by (rule map_concat_by_time)
  show "\<exists>ns. mset (map cv_count (?vals t)) = mset (map jint ns) \<and> list_all (\<lambda>n. 0 \<le> n) ns
      \<and> sum_list ns = part (\<lambda>i. time_key i = t) row_count data" for t
  proof -
    obtain ns where ns: "map (cell_count tm t) models = map jint ns" "list_all (\<lambda>n. 0 \<le> n) ns" "sum_list ns = part (\<lambda>i. time_key i = t) row_count data"
      using parts_by_model(2) [OF assms(1-4), of t] by blast
    let ?k = MAX_TREND_MODELS
    have sum: "sum_list ns = sum_list (take ?k ns) + sum_list (drop ?k ns)" by (metis append_take_drop_id sum_list_append)
    have pos: "list_all (\<lambda>n. 0 \<le> n) (take ?k ns)" "list_all (\<lambda>n. 0 \<le> n) (drop ?k ns)"
      using ns(2) by (auto simp: list_all_iff dest: in_set_takeD in_set_dropD)
    then have "0 \<le> sum_list (take ?k ns)" "0 \<le> sum_list (drop ?k ns)" by (simp_all add: sum_list_nonneg_int)
    then have wd: "whole (drop ?k ns)"
      using pos(2) sum ns(3) part_le [OF w, of "\<lambda>i. time_key i = t"] unfolding whole_def by (intro conjI) (assumption, linarith)
    have tk: "map (cell_count tm t) (take ?k models) = map jint (take ?k ns)" "map (cell_count tm t) (drop ?k models) = map jint (drop ?k ns)"
      using ns(1) by (simp_all add: take_map drop_map flip: take_map drop_map)
    have "foldl (\<lambda>s model. jadd s (cell_count tm t model)) (JFin 0) (drop ?k models) = jsum (map (cell_count tm t) (drop ?k models))"
      by (simp add: jsum_def foldl_map)
    also have "\<dots> = jint (sum_list (drop ?k ns))" unfolding tk(2) by (rule jsum_whole [OF wd])
    finally have other: "foldl (\<lambda>s model. jadd s (cell_count tm t model)) (JFin 0) (drop ?k models) = jint (sum_list (drop ?k ns))" .
    have "drop ?k models = [] \<Longrightarrow> drop ?k ns = []" using tk(2) by simp
    then show ?thesis
      using tk(1) other pos ns(3) sum \<open>0 \<le> sum_list (drop ?k ns)\<close>
      by (intro exI [of _ "take ?k ns @ (if drop ?k models \<noteq> [] then [sum_list (drop ?k ns)] else [])"])
        (auto simp: trend_values_at_def comp_def simp del: drop_eq_Nil mset_map)
  qed
qed (rule assms(5))

end
