(* ===== verification/ChartTotals.thy ===== *)
theory ChartTotals
  imports ChartSums
begin

text \<open>
  Totals of the charts: the pie and rank charts add up to the total count; the charts by time add up to the rows
  whose label is among the shown times, which is all rows when there are at least seven labels and may lose rows when
  there are fewer; the charts of the users add up to the rows of the listed users.
\<close>

section \<open>Totals and ranks\<close>

lemma total_of_jsum: "total_of f totals = jsum (map (\<lambda>x. jor (f (snd x)) (JFin 0)) totals)"
  by (simp add: total_of_def jsum_def foldl_map case_prod_unfold)

lemma mset_ranked: "mset (map mv_value (ranked f totals)) = mset (map (\<lambda>x. jor (f (snd x)) (JFin 0)) totals)"
  by (simp add: ranked_def split_beta image_mset.compositionality comp_def)

lemma set_ranked: "set (map mv_model (ranked f totals)) = set (map fst totals)"
  by (simp add: ranked_def image_image case_prod_unfold)

lemma distinct_ranked: "distinct (map fst totals) \<Longrightarrow> distinct (map mv_model (ranked f totals))"
proof -
  assume d: "distinct (map fst totals)"
  have "mset (map mv_model (ranked f totals)) = mset (map fst totals)"
    by (simp add: ranked_def split_beta image_mset.compositionality comp_def)
  then show ?thesis using d by (metis mset_eq_imp_distinct_iff)
qed

text \<open>Cutting a list of counts and putting the rest into one bucket keeps the sum.\<close>

lemma whole_append: "whole (xs @ ys) \<Longrightarrow> whole xs \<and> whole ys"
  using sum_list_nonneg_int [of xs] sum_list_nonneg_int [of ys] by (auto simp: whole_def)

lemma jsum_rest:
  assumes "whole (xs @ ys)"
  shows "jsum (map jint xs @ [jsum (map jint ys)]) = jint (sum_list (xs @ ys))"
proof -
  have "jsum (map jint ys) = jint (sum_list ys)" using whole_append [OF assms] by (intro jsum_whole) simp
  then have "jsum (map jint xs @ [jsum (map jint ys)]) = jsum (map jint (xs @ [sum_list ys]))" by simp
  also have "\<dots> = jint (sum_list (xs @ [sum_list ys]))"
    using assms sum_list_nonneg_int [of ys] by (intro jsum_whole) (auto simp: whole_def)
  finally show ?thesis by simp
qed

lemma model_totals:
  assumes "whole_rows data" "totals = snd (aggregate_data time_key data)"
  shows "\<exists>ns. map (\<lambda>x. jor (mt_quota (snd x)) (JFin 0)) totals = map jint ns \<and> whole ns \<and> sum_list ns = sum_list (map row_quota data)"
    "\<exists>ns. map (\<lambda>x. jor (mt_count (snd x)) (JFin 0)) totals = map jint ns \<and> whole ns \<and> sum_list ns = sum_list (map row_count data)"
proof -
  have w: "whole (map row_quota data)" "whole (map row_count data)" using assms(1) by (simp_all add: whole_rows_def)
  have m: "model_of ` set data \<subseteq> set (uniq (map model_of data))" by simp
  have "map (\<lambda>v. jor v (JFin 0)) (map (\<lambda>x. mt_quota (snd x)) totals)
      = map jint (map (\<lambda>k. part (\<lambda>i. model_of i = k) row_quota data) (uniq (map model_of data)))"
    unfolding assms(2) totals(1) [OF assms(1)] by (simp add: comp_def)
  then have "map (\<lambda>x. jor (mt_quota (snd x)) (JFin 0)) totals = map jint (map (\<lambda>k. part (\<lambda>i. model_of i = k) row_quota data) (uniq (map model_of data)))"
    by (simp only: map_map comp_def)
  then show "\<exists>ns. map (\<lambda>x. jor (mt_quota (snd x)) (JFin 0)) totals = map jint ns \<and> whole ns \<and> sum_list ns = sum_list (map row_quota data)"
    using parts_total [OF w(1) distinct_uniq m] by blast
  have "map (\<lambda>v. jor v (JFin 0)) (map (\<lambda>x. mt_count (snd x)) totals)
      = map jint (map (\<lambda>k. part (\<lambda>i. model_of i = k) row_count data) (uniq (map model_of data)))"
    unfolding assms(2) totals(2) [OF assms(1)] by (simp add: comp_def)
  then have "map (\<lambda>x. jor (mt_count (snd x)) (JFin 0)) totals = map jint (map (\<lambda>k. part (\<lambda>i. model_of i = k) row_count data) (uniq (map model_of data)))"
    by (simp only: map_map comp_def)
  then show "\<exists>ns. map (\<lambda>x. jor (mt_count (snd x)) (JFin 0)) totals = map jint ns \<and> whole ns \<and> sum_list ns = sum_list (map row_count data)"
    using parts_total [OF w(2) distinct_uniq m] by blast
qed

lemma total_sums:
  assumes "whole_rows data" "totals = snd (aggregate_data time_key data)"
  shows "total_of mt_quota totals = jint (sum_list (map row_quota data))"
    "total_of mt_count totals = jint (sum_list (map row_count data))"
    "jsum (map mv_value (ranked mt_count totals)) = jint (sum_list (map row_count data))"
proof -
  obtain ns where ns: "map (\<lambda>x. jor (mt_quota (snd x)) (JFin 0)) totals = map jint ns" "whole ns" "sum_list ns = sum_list (map row_quota data)"
    using model_totals(1) [OF assms] by blast
  obtain cs where cs: "map (\<lambda>x. jor (mt_count (snd x)) (JFin 0)) totals = map jint cs" "whole cs" "sum_list cs = sum_list (map row_count data)"
    using model_totals(2) [OF assms] by blast
  show "total_of mt_quota totals = jint (sum_list (map row_quota data))" unfolding total_of_jsum ns(1) jsum_whole [OF ns(2)] ns(3) ..
  show "total_of mt_count totals = jint (sum_list (map row_count data))" unfolding total_of_jsum cs(1) jsum_whole [OF cs(2)] cs(3) ..
  show "jsum (map mv_value (ranked mt_count totals)) = jint (sum_list (map row_count data))"
    using jsum_perm [OF mset_ranked [of mt_count totals, unfolded cs(1)] cs(2)] unfolding cs(3) .
qed

lemma rank_sum:
  assumes "whole_rows data" "totals = snd (aggregate_data time_key data)"
  shows "jsum (map mv_value (rankValues totals other)) = jint (sum_list (map row_count data))"
proof -
  let ?r = "map mv_value (ranked mt_count totals)"
  obtain cs where cs: "map (\<lambda>x. jor (mt_count (snd x)) (JFin 0)) totals = map jint cs" "whole cs" "sum_list cs = sum_list (map row_count data)"
    using model_totals(2) [OF assms] by blast
  then have m: "mset ?r = mset (map jint cs)" by (metis mset_ranked)
  let ?ns = "map int_of_num ?r"
  have "\<forall>x \<in> set ?r. \<exists>n. x = jint n" using m by (metis (no_types) ex_map_conv mset_eq_setD set_map image_iff)
  then have "\<forall>x \<in> set ?r. jint (int_of_num x) = x" by auto
  then have r: "map jint ?ns = ?r" by (simp add: map_idI)
  have "mset ?ns = mset (map int_of_num (map jint cs))" using arg_cong [OF m, of "image_mset int_of_num"] by (simp only: mset_map)
  then have n: "mset ?ns = mset cs" by (simp add: comp_def)
  have s: "sum_list ?ns = sum_list cs" using n by (metis sum_mset_sum_list)
  moreover have "set ?ns = set cs" using n by (metis set_mset_mset)
  ultimately have w: "whole ?ns" using cs(2) unfolding whole_def list_all_iff by metis
  show ?thesis
  proof (cases "MAX_RANK_MODELS < length (ranked mt_count totals)")
    case True
    let ?k = MAX_RANK_MODELS
    have f: "foldl (\<lambda>s i. jadd s (mv_value i)) (JFin 0) xs = jsum (map mv_value xs)" for xs by (simp add: jsum_def foldl_map)
    have "map mv_value (rankValues totals other) = take ?k ?r @ [jsum (drop ?k ?r)]"
      using True by (simp add: rankValues_def Let_def f take_map drop_map)
    also have "\<dots> = map jint (take ?k ?ns) @ [jsum (map jint (drop ?k ?ns))]"
      unfolding take_map [symmetric] drop_map [symmetric] r ..
    finally show ?thesis using jsum_rest [of "take ?k ?ns" "drop ?k ?ns"] w s cs(3) by simp
  next
    case False
    then have "map mv_value (rankValues totals other) = ?r" by (simp add: rankValues_def Let_def)
    then show ?thesis using total_sums(3) [OF assms] by simp
  qed
qed

definition shown_times :: "(jnum \<Rightarrow> TimeGranularity \<Rightarrow> jstr) \<Rightarrow> TimeGranularity \<Rightarrow> QuotaDataItem list \<Rightarrow> jstr list" where
  "shown_times chart_time g data = fillTimePoints (\<lambda>t. chart_time t g) g data
     (sort_by str_le (map fst (fst (aggregate_data (\<lambda>i. chart_time (qd_created_at i) g) data))))"

abbreviation label_of :: "(jnum \<Rightarrow> TimeGranularity \<Rightarrow> jstr) \<Rightarrow> TimeGranularity \<Rightarrow> QuotaDataItem \<Rightarrow> jstr" where
  "label_of chart_time g \<equiv> \<lambda>i. chart_time (qd_created_at i) g"

text \<open>The sums over the lists of a chart.\<close>

abbreviation line_total :: "ChartData \<Rightarrow> jnum" where "line_total ch \<equiv> jsum (map lv_raw (ch_line ch))"
abbreviation area_total :: "ChartData \<Rightarrow> jnum" where "area_total ch \<equiv> jsum (map lv_raw (ch_area ch))"
abbreviation trend_total :: "ChartData \<Rightarrow> jnum" where "trend_total ch \<equiv> jsum (map cv_count (ch_trend ch))"
abbreviation pie_total :: "ChartData \<Rightarrow> jnum" where "pie_total ch \<equiv> jsum (map mv_value (ch_pie ch))"
abbreviation rank_total :: "ChartData \<Rightarrow> jnum" where "rank_total ch \<equiv> jsum (map mv_value (ch_rank ch))"

lemma chart_totals:
  assumes "whole_rows data" "ch = processChartData chart_time lc tt schemes themeColors qpu g data"
  shows "ch_total_quota ch = jint (sum_list (map row_quota data))"
    "ch_total_count ch = jint (sum_list (map row_count data))"
    "pie_total ch = jint (sum_list (map row_count data))"
    "rank_total ch = jint (sum_list (map row_count data))"
  by (cases "data = []";
      simp add: assms(2) processChartData_def Let_def split_beta jsum_def [of "[]"]
        total_sums [OF assms(1) refl] rank_sum [OF assms(1) refl])+

lemma chart_rows:
  assumes "whole_rows data" "distinct (shown_times chart_time g data)"
    "ch = processChartData chart_time lc tt schemes themeColors qpu g data"
    "shown = (\<lambda>i. label_of chart_time g i \<in> set (shown_times chart_time g data))"
  shows "line_total ch = jint (part shown row_quota data)"
    "area_total ch = jint (part shown row_quota data)"
    "trend_total ch = jint (part shown row_count data)"
proof -
  let ?agg = "aggregate_data (label_of chart_time g) data"
  let ?models = "sort_by str_le (map fst (snd ?agg))"
  let ?counted = "map mv_model (ranked mt_count (snd ?agg))"
  have f: "map fst (snd ?agg) = uniq (map model_of data)" by (rule totals(3) [OF assms(1)])
  then have m: "distinct ?models" "set ?models = set (map model_of data)" by simp_all
  have c: "distinct ?counted" "set ?counted = set (map model_of data)"
    using distinct_ranked [of "snd ?agg" mt_count] set_ranked [of mt_count "snd ?agg"] by (simp_all only: f distinct_uniq set_uniq simp_thms)
  note sums = line_sum [OF assms(1) m refl assms(2)] area_sum [OF assms(1) m refl assms(2)] trend_sum [OF assms(1) c refl assms(2) refl]
  show "line_total ch = jint (part shown row_quota data)" "area_total ch = jint (part shown row_quota data)"
    "trend_total ch = jint (part shown row_count data)"
    by (cases "data = []"; simp add: assms(3,4) processChartData_def Let_def split_beta jsum_def [of "[]"] part_def [of _ _ "[]"]
        sums [unfolded shown_times_def] shown_times_def)+
qed

lemma all_times_shown:
  assumes "7 \<le> length (uniq (map (label_of chart_time g) data))"
  shows "shown_times chart_time g data = sort_by str_le (uniq (map (label_of chart_time g) data))"
  using assms aggregate_times [of "label_of chart_time g" data]
  by (simp add: shown_times_def fillTimePoints_def MAX_CHART_TREND_POINTS_def)

text \<open>C18. The charts of the models page, for rows with whole quotas and counts and distinct labels on the time axis.
  The totals shown are the sums of all rows, and the pie and the ranking (with its rest bucket) add up to them. The
  bars, the areas (with their rest bucket) and the call trend (with its rest bucket) add up to exactly the rows whose
  label is on the time axis. The axis has the last seven intervals when fewer than seven labels occur, so older
  rows are in the totals and not in these charts.\<close>

theorem charts_show_labelled_rows:
  assumes "whole_rows data" "distinct (shown_times chart_time g data)"
  shows "let ch = processChartData chart_time lc tt schemes themeColors qpu g data;
      shown = (\<lambda>i. label_of chart_time g i \<in> set (shown_times chart_time g data)) in
    ch_total_quota ch = jint (sum_list (map row_quota data)) \<and> ch_total_count ch = jint (sum_list (map row_count data)) \<and>
    pie_total ch = ch_total_count ch \<and> rank_total ch = ch_total_count ch \<and>
    line_total ch = jint (part shown row_quota data) \<and> area_total ch = jint (part shown row_quota data) \<and>
    trend_total ch = jint (part shown row_count data)"
  unfolding Let_def using chart_totals [OF assms(1) refl] chart_rows [OF assms refl refl] by (simp only: simp_thms)

text \<open>With at least seven labels the charts over time add up to the totals shown.\<close>

theorem charts_add_up:
  assumes "whole_rows data" "7 \<le> length (uniq (map (label_of chart_time g) data))"
  shows "let ch = processChartData chart_time lc tt schemes themeColors qpu g data in
    line_total ch = ch_total_quota ch \<and> area_total ch = ch_total_quota ch \<and> trend_total ch = ch_total_count ch"
proof -
  note times = all_times_shown [of chart_time g data, OF assms(2)]
  have d: "distinct (shown_times chart_time g data)" by (simp add: times)
  have "part (\<lambda>i. label_of chart_time g i \<in> set (shown_times chart_time g data)) a data = sum_list (map a data)" for a
    by (rule part_all) (simp add: times)
  then show ?thesis unfolding Let_def using chart_totals [OF assms(1) refl] chart_rows [OF assms(1) d refl refl] by (simp only: simp_thms)
qed

text \<open>Rows of a user, an hour of use and a time; times are shown as numbers of days.\<close>

definition usage_row :: "string \<Rightarrow> int \<Rightarrow> int \<Rightarrow> int \<Rightarrow> QuotaDataItem" where
  "usage_row model day calls quota = \<lparr> qd_username = None, qd_model_name = Some (js model), qd_created_at = jint (86400 * day),
     qd_token_used = None, qd_count = Some (jint calls), qd_quota = Some (jint quota) \<rparr>"

abbreviation day_label :: "jnum \<Rightarrow> TimeGranularity \<Rightarrow> jstr" where
  "day_label \<equiv> formatChartTime (\<lambda>ms _. num_to_str (jdiv ms (JFin 86400000))) (\<lambda>ms n. jadd ms (jint (86400000 * int n)))"

text \<open>Two rows a hundred days apart: the charts by time show the later one only.\<close>

definition distant_rows :: "QuotaDataItem list" where
  "distant_rows = [usage_row ''gpt-4'' 0 2 500000, usage_row ''o3'' 100 1 250000]"

lemma distant_rows_facts:
  "whole_rows distant_rows" "shown_times day_label Daily distant_rows = map js [''94'', ''95'', ''96'', ''97'', ''98'', ''99'', ''100'']"
  "part (\<lambda>i. day_label (qd_created_at i) Daily \<in> set (map js [''94'', ''95'', ''96'', ''97'', ''98'', ''99'', ''100''])) row_quota distant_rows = 250000"
  "part (\<lambda>i. day_label (qd_created_at i) Daily \<in> set (map js [''94'', ''95'', ''96'', ''97'', ''98'', ''99'', ''100''])) row_count distant_rows = 1"
  by code_simp+

theorem charts_show_labelled_rows_witness:
  "let ch = processChartData day_label (\<lambda>_ _. 0) (\<lambda>s. s) [(None, [])] [] (JFin 500000) Daily distant_rows in
    ch_total_quota ch = jint 750000 \<and> line_total ch = jint 250000 \<and> area_total ch = jint 250000 \<and> trend_total ch = jint 1"
proof -
  have "distinct (shown_times day_label Daily distant_rows)" "sum_list (map row_quota distant_rows) = 750000"
    unfolding distant_rows_facts(2) by code_simp+
  with charts_show_labelled_rows [OF distant_rows_facts(1), of day_label Daily "\<lambda>_ _. 0" "\<lambda>s. s" "[(None, [])]" "[]" "JFin 500000"]
  show ?thesis unfolding Let_def distant_rows_facts(2-4) by (simp only: simp_thms)
qed

theorem charts_add_up_witness:
  "let ch = processChartData day_label (\<lambda>_ _. 0) (\<lambda>s. s) [(None, [])] [] (JFin 500000) Daily (map (\<lambda>d. usage_row ''o3'' d 1 100) [1..7]) in
    line_total ch = ch_total_quota ch \<and> area_total ch = ch_total_quota ch \<and> trend_total ch = ch_total_count ch"
  by (rule charts_add_up) code_simp+

section \<open>Users\<close>

abbreviation whole_quotas :: "QuotaDataItem list \<Rightarrow> bool" where
  "whole_quotas data \<equiv> list_all (\<lambda>i. or_zero (qd_quota i) = jint (row_quota i)) data \<and> whole (map row_quota data)"

lemma tally_accumulate:
  "whole (map a xs) \<Longrightarrow> list_all (\<lambda>i. f i = jint (a i)) xs \<Longrightarrow> tally key f xs = accumulate key (\<lambda>i. jint (a i)) xs"
proof (induction xs rule: rev_induct)
  case (snoc x xs)
  note w = conjunct1 [OF whole_snoc [OF snoc.prems(1)]]
  have IH: "tally key f xs = accumulate key (\<lambda>i. jint (a i)) xs" using snoc.IH w snoc.prems(2) by simp
  have "jor (upd (map_of (accumulate key (\<lambda>i. jint (a i)) xs) k) JNaN) (JFin 0) = upd (map_of (accumulate key (\<lambda>i. jint (a i)) xs) k) (JFin 0)" for k
    unfolding map_of_accumulate [OF w] by (auto simp: upd_def jor_def num_truthy_def)
  then have step: "tally key f (xs @ [x]) = assoc_put (key x) (jadd (upd (map_of (accumulate key (\<lambda>i. jint (a i)) xs) (key x)) (JFin 0)) (f x)) (accumulate key (\<lambda>i. jint (a i)) xs)"
    using IH by (simp add: tally_def)
  have "f x = jint (a x)" using snoc.prems(2) by simp
  then show ?case unfolding step accumulate_snoc add_at_def by (simp only:)
qed (simp add: tally_def accumulate_def)

text \<open>The cells of a time are the tally of the rows of that time.\<close>

lemma time_user_cells:
  "upd (map_of (time_user_map time_key topUsers data) t) []
    = tally user_of (\<lambda>i. or_zero (qd_quota i)) (filter (\<lambda>i. user_of i \<in> set topUsers \<and> time_key i = t) data)"
proof (induction data arbitrary: t rule: rev_induct)
  case (snoc x xs)
  then show ?case
    by (auto simp: time_user_map_def tally_def Let_def upd_def)
qed (simp add: time_user_map_def tally_def upd_def)

lemma time_user_cell:
  assumes "whole_quotas data" "u \<in> set topUsers"
  shows "jor (upd (Option.bind (map_of (time_user_map time_key topUsers data) t) (\<lambda>m. map_of m u)) JNaN) (JFin 0)
    = jint (part (\<lambda>i. time_key i = t \<and> user_of i = u) row_quota data)"
proof -
  let ?xs = "filter (\<lambda>i. user_of i \<in> set topUsers \<and> time_key i = t) data"
  have w: "whole (map row_quota ?xs)" "list_all (\<lambda>i. or_zero (qd_quota i) = jint (row_quota i)) ?xs"
    using assms(1) by (auto simp: whole_filter list_all_iff)
  have "Option.bind (map_of (time_user_map time_key topUsers data) t) (\<lambda>m. map_of m u) = map_of (upd (map_of (time_user_map time_key topUsers data) t) []) u"
    by (simp add: upd_def split: option.split)
  also have "\<dots> = map_of (accumulate user_of (\<lambda>i. jint (row_quota i)) ?xs) u"
    unfolding time_user_cells tally_accumulate [OF w] ..
  finally have e: "Option.bind (map_of (time_user_map time_key topUsers data) t) (\<lambda>m. map_of m u) = \<dots>" .
  have "jor (upd (map_of (accumulate user_of (\<lambda>i. jint (row_quota i)) ?xs) u) JNaN) (JFin 0) = upd (map_of (accumulate user_of (\<lambda>i. jint (row_quota i)) ?xs) u) (JFin 0)"
    unfolding map_of_accumulate [OF w(1)] by (auto simp: upd_def jor_def num_truthy_def)
  also have "\<dots> = jint (part (\<lambda>i. user_of i = u) row_quota ?xs)" by (rule lookup_accumulate [OF w(1)])
  also have "part (\<lambda>i. user_of i = u) row_quota ?xs = part (\<lambda>i. time_key i = t \<and> user_of i = u) row_quota data"
    unfolding part_filter using assms(2) by (intro part_cong) auto
  finally show ?thesis unfolding e .
qed

lemma top_users:
  assumes "whole_quotas data" "best = take limit (sorted_users data)"
  shows "distinct (map fst best)" "map snd best = map (\<lambda>u. jint (part (\<lambda>i. user_of i = u) row_quota data)) (map fst best)"
    "set (map fst best) \<subseteq> user_of ` set data"
proof -
  let ?m = "accumulate user_of (\<lambda>i. jint (row_quota i)) data"
  have m: "tally user_of (\<lambda>i. or_zero (qd_quota i)) data = ?m" using assms(1) by (intro tally_accumulate) simp_all
  have "mset (map fst (sorted_users data)) = mset (map fst ?m)" by (simp add: sorted_users_def m)
  then have d: "distinct (map fst (sorted_users data))" using distinct_accumulate by (metis mset_eq_imp_distinct_iff)
  then show "distinct (map fst best)" by (simp add: assms(2) distinct_take flip: take_map)
  have sub: "set best \<subseteq> set ?m" using set_take_subset [of limit "sorted_users data"] by (simp add: assms(2) sorted_users_def m)
  have v: "snd x = jint (part (\<lambda>i. user_of i = fst x) row_quota data) \<and> fst x \<in> user_of ` set data" if "x \<in> set best" for x
  proof -
    have "map_of ?m (fst x) = Some (snd x)" using sub that distinct_accumulate by (intro map_of_is_SomeI) auto
    then show ?thesis using assms(1) by (auto simp: map_of_accumulate split: if_splits)
  qed
  then show "map snd best = map (\<lambda>u. jint (part (\<lambda>i. user_of i = u) row_quota data)) (map fst best)" "set (map fst best) \<subseteq> user_of ` set data"
    by (auto simp: comp_def)
qed

lemma user_parts:
  assumes "whole (map a data)" "distinct users"
  shows "whole (map (\<lambda>u. part (\<lambda>i. P i \<and> key i = u) a data) users)"
    "sum_list (map (\<lambda>u. part (\<lambda>i. P i \<and> key i = u) a data) users) = part (\<lambda>i. P i \<and> key i \<in> set users) a data"
proof -
  show s: "sum_list (map (\<lambda>u. part (\<lambda>i. P i \<and> key i = u) a data) users) = part (\<lambda>i. P i \<and> key i \<in> set users) a data"
    by (rule part_split [OF assms(2)])
  show "whole (map (\<lambda>u. part (\<lambda>i. P i \<and> key i = u) a data) users)"
    using part_nonneg [OF assms(1)] part_le [OF assms(1)] by (simp add: whole_def s list_all_iff)
qed

lemma user_chart_sums:
  assumes "whole_quotas data" "ch = processUserChartData chart_time themeUserColors qpu g limit data"
  shows "length (uc_rank ch) \<le> limit \<and> distinct (map uv_user (uc_rank ch)) \<and>
    uc_total ch = jint (part (\<lambda>i. user_of i \<in> uv_user ` set (uc_rank ch)) row_quota data) \<and>
    jsum (map uv_raw (uc_rank ch)) = uc_total ch \<and> jsum (map up_raw (uc_trend ch)) = uc_total ch"
proof (cases "data = []")
  case False
  define best where "best = take limit (sorted_users data)"
  let ?users = "map fst best" let ?time = "label_of chart_time g"
  let ?times = "sort_by str_le (uniq (map ?time data))"
  note t = top_users [OF assms(1) best_def]
  have w: "whole (map row_quota data)" using assms(1) by simp
  have rank: "map uv_user (uc_rank ch) = ?users" "map uv_raw (uc_rank ch) = map snd best" "length (uc_rank ch) \<le> limit"
    and total: "uc_total ch = jsum (map snd best)"
    using False by (simp_all add: assms(2) processUserChartData_def Let_def best_def comp_def case_prod_unfold jsum_def foldl_map)
  have trend: "map up_raw (uc_trend ch) = concat (map (\<lambda>time. map (\<lambda>u. jint (part (\<lambda>i. ?time i = time \<and> user_of i = u) row_quota data)) ?users) ?times)"
  proof -
    have "map up_raw (uc_trend ch) = concat (map (\<lambda>time. map (\<lambda>u.
        jor (upd (Option.bind (map_of (time_user_map ?time ?users data) time) (\<lambda>m. map_of m u)) JNaN) (JFin 0)) ?users) ?times)"
      using False by (simp add: assms(2) processUserChartData_def Let_def best_def map_concat comp_def)
    also have "\<dots> = concat (map (\<lambda>time. map (\<lambda>u. jint (part (\<lambda>i. ?time i = time \<and> user_of i = u) row_quota data)) ?users) ?times)"
      by (intro arg_cong [of _ _ concat] map_cong refl time_user_cell [OF assms(1)])
    finally show ?thesis .
  qed
  have totals: "jsum (map snd best) = jint (part (\<lambda>i. user_of i \<in> set ?users) row_quota data)"
    using jsum_whole [OF user_parts(1) [OF w t(1), of "\<lambda>_. True" user_of]] user_parts(2) [OF w t(1), of "\<lambda>_. True" user_of]
    unfolding t(2) by (simp add: comp_def)
  moreover have "jsum (map up_raw (uc_trend ch)) = jint (sum_list (map (\<lambda>time. part (\<lambda>i. ?time i = time \<and> user_of i \<in> set ?users) row_quota data) ?times))"
  proof (rule jsum_concat)
    show "\<exists>ns. mset (map (\<lambda>u. jint (part (\<lambda>i. ?time i = time \<and> user_of i = u) row_quota data)) ?users) = mset (map jint ns)
        \<and> list_all (\<lambda>n. 0 \<le> n) ns \<and> sum_list ns = part (\<lambda>i. ?time i = time \<and> user_of i \<in> set ?users) row_quota data" for time
      using user_parts [OF w t(1), of "\<lambda>i. ?time i = time" user_of]
      by (intro exI [of _ "map (\<lambda>u. part (\<lambda>i. ?time i = time \<and> user_of i = u) row_quota data) ?users"]) (simp add: comp_def whole_def)
  qed (use user_parts [OF w, of ?times "\<lambda>i. user_of i \<in> set ?users" ?time] in \<open>simp_all add: trend whole_def conj_commute\<close>)
  moreover have "sum_list (map (\<lambda>time. part (\<lambda>i. ?time i = time \<and> user_of i \<in> set ?users) row_quota data) ?times)
      = part (\<lambda>i. user_of i \<in> set ?users) row_quota data"
  proof -
    have "part (\<lambda>i. user_of i \<in> set ?users \<and> ?time i \<in> set ?times) row_quota data = part (\<lambda>i. user_of i \<in> set ?users) row_quota data"
      by (rule part_cong) simp
    then show ?thesis using user_parts(2) [OF w, of ?times "\<lambda>i. user_of i \<in> set ?users" ?time] by (simp add: conj_commute)
  qed
  moreover have "uv_user ` set (uc_rank ch) = set ?users" using rank(1) by (metis set_map)
  ultimately show ?thesis using rank t(1) total by simp
qed (simp add: assms(2) processUserChartData_def jsum_def part_def)

text \<open>C34. The charts of the users: at most \<open>limit\<close> users, each once; the total shown is the sum of the quotas of
  all rows of these users, and both the ranking and the trend over all times add up to it.\<close>

theorem user_charts_agree:
  assumes "whole_quotas data"
  shows "let ch = processUserChartData chart_time themeUserColors qpu g limit data in
    length (uc_rank ch) \<le> limit \<and> distinct (map uv_user (uc_rank ch)) \<and>
    uc_total ch = jint (part (\<lambda>i. user_of i \<in> uv_user ` set (uc_rank ch)) row_quota data) \<and>
    jsum (map uv_raw (uc_rank ch)) = uc_total ch \<and> jsum (map up_raw (uc_trend ch)) = uc_total ch"
  unfolding Let_def by (rule user_chart_sums [OF assms refl])

theorem user_charts_agree_witness:
  "let ch = processUserChartData day_label [] (JFin 500000) Daily 1 distant_rows in
    length (uc_rank ch) \<le> 1 \<and> distinct (map uv_user (uc_rank ch)) \<and>
    uc_total ch = jint (part (\<lambda>i. user_of i \<in> uv_user ` set (uc_rank ch)) row_quota distant_rows) \<and>
    jsum (map uv_raw (uc_rank ch)) = uc_total ch \<and> jsum (map up_raw (uc_trend ch)) = uc_total ch"
  by (rule user_charts_agree) code_simp
end
