(* ===== verification/NavModules.thy ===== *)
theory NavModules
  imports Js_Pretty
begin

text \<open>
  Which entries of the navigation are shown. The settings pages read and write the stored configuration of the header
  and of the sidebar (\<open>features/system-settings/maintenance/config.ts\<close> and the two sections beside it); the header
  (\<open>hooks/use-top-nav-links.ts\<close>) and the sidebar (\<open>hooks/use-sidebar-config.ts\<close>, \<open>use-sidebar-data.ts\<close>) read
  the same texts with parsers of their own; the profile page edits the layer of the user. Lower case (\<open>lower\<close>) and
  translation (\<open>t\<close>) are parameters; icons, marks and active addresses of entries are left out, and so are
  the members a key of the configuration would inherit.
\<close>

section \<open>The stored configuration (config.ts)\<close>

record HeaderNavAccessConfig =
  ac_enabled :: bool
  ac_requireAuth :: bool

datatype HeaderValue = Flag bool | Access HeaderNavAccessConfig

type_synonym HeaderNavModulesConfig = "(jstr \<times> HeaderValue) list"
type_synonym SidebarSectionConfig = "(jstr \<times> bool) list"
type_synonym SidebarModulesAdminConfig = "(jstr \<times> SidebarSectionConfig) list"

definition ACCESS_DEFAULT :: HeaderNavAccessConfig where
  "ACCESS_DEFAULT = \<lparr> ac_enabled = True, ac_requireAuth = False \<rparr>"

definition HEADER_NAV_DEFAULT :: HeaderNavModulesConfig where
  "HEADER_NAV_DEFAULT = [(js ''home'', Flag True), (js ''console'', Flag True), (js ''pricing'', Access ACCESS_DEFAULT),
     (js ''rankings'', Access ACCESS_DEFAULT), (js ''docs'', Flag True), (js ''about'', Flag True)]"

abbreviation section_on :: "string list \<Rightarrow> SidebarSectionConfig" where
  "section_on modules \<equiv> map (\<lambda>m. (js m, True)) (''enabled'' # modules)"

definition SIDEBAR_MODULES_DEFAULT :: SidebarModulesAdminConfig where
  "SIDEBAR_MODULES_DEFAULT =
    [(js ''chat'', section_on [''playground'', ''chat'']),
     (js ''console'', section_on [''detail'', ''token'', ''log'', ''midjourney'', ''task'']),
     (js ''personal'', section_on [''topup'', ''personal'']),
     (js ''admin'', section_on [''channel'', ''models'', ''redemption'', ''user'', ''setting'', ''subscription''])]"

definition toBoolean :: "(jstr \<Rightarrow> jstr) \<Rightarrow> jval \<Rightarrow> bool \<Rightarrow> bool" where
  "toBoolean lower v fallback = (case v of
       VBool b \<Rightarrow> b
     | VNum x \<Rightarrow> jeq x (JFin 1)
     | VStr s \<Rightarrow> (let normalized = lower (trim s) in
         if normalized = js ''true'' \<or> normalized = js ''1'' then True
         else if normalized = js ''false'' \<or> normalized = js ''0'' then False else fallback)
     | _ \<Rightarrow> fallback)"

definition parseAccessModule :: "(jstr \<Rightarrow> jstr) \<Rightarrow> jval \<Rightarrow> HeaderNavAccessConfig \<Rightarrow> HeaderNavAccessConfig" where
  "parseAccessModule lower raw fallback = (case raw of
       VObj r \<Rightarrow> \<lparr> ac_enabled = toBoolean lower (vget r ''enabled'') (ac_enabled fallback),
         ac_requireAuth = toBoolean lower (vget r ''requireAuth'') (ac_requireAuth fallback) \<rparr>
     | VBool _ \<Rightarrow> fallback\<lparr> ac_enabled := toBoolean lower raw (ac_enabled fallback) \<rparr>
     | VStr _ \<Rightarrow> fallback\<lparr> ac_enabled := toBoolean lower raw (ac_enabled fallback) \<rparr>
     | VNum _ \<Rightarrow> fallback\<lparr> ac_enabled := toBoolean lower raw (ac_enabled fallback) \<rparr>
     | _ \<Rightarrow> fallback)"

text \<open>\<open>Boolean(base[key])\<close>.\<close>

definition header_flag :: "HeaderNavModulesConfig \<Rightarrow> jstr \<Rightarrow> bool" where
  "header_flag config key = (case map_of config key of None \<Rightarrow> False | Some (Flag b) \<Rightarrow> b | Some (Access _) \<Rightarrow> True)"

definition header_entry :: "(jstr \<Rightarrow> jstr) \<Rightarrow> HeaderNavModulesConfig \<Rightarrow> jstr \<times> jval \<Rightarrow> HeaderNavModulesConfig" where
  "header_entry lower result entry = (let (key, raw) = entry in
     if key = js ''pricing'' \<or> key = js ''rankings'' then obj_put key (Access (parseAccessModule lower raw ACCESS_DEFAULT)) result
     else case raw of
       VBool b \<Rightarrow> obj_put key (Flag b) result
     | VStr _ \<Rightarrow> obj_put key (Flag (toBoolean lower raw (header_flag HEADER_NAV_DEFAULT key))) result
     | VNum _ \<Rightarrow> obj_put key (Flag (toBoolean lower raw (header_flag HEADER_NAV_DEFAULT key))) result
     | _ \<Rightarrow> result)"

text \<open>\<open>Object.entries\<close> of \<open>null\<close> throws, which is caught; the value \<open>None\<close> of a setting is absent.\<close>

definition parseHeaderNavModules :: "(jstr \<Rightarrow> jstr) \<Rightarrow> jstr option \<Rightarrow> HeaderNavModulesConfig" where
  "parseHeaderNavModules lower v = (case v of None \<Rightarrow> HEADER_NAV_DEFAULT | Some [] \<Rightarrow> HEADER_NAV_DEFAULT
     | Some s \<Rightarrow> (case json_parse s of None \<Rightarrow> HEADER_NAV_DEFAULT
       | Some p \<Rightarrow> if nullish p then HEADER_NAV_DEFAULT else foldl (header_entry lower) HEADER_NAV_DEFAULT (spread_members p)))"

fun header_json :: "HeaderValue \<Rightarrow> jval" where
  "header_json (Flag b) = VBool b"
| "header_json (Access a) = VObj [(js ''enabled'', VBool (ac_enabled a)), (js ''requireAuth'', VBool (ac_requireAuth a))]"

definition serializeHeaderNavModules :: "HeaderNavModulesConfig \<Rightarrow> jstr" where
  "serializeHeaderNavModules config = json_stringify (VObj (map (apsnd header_json) config))"

definition module_entry :: "(jstr \<Rightarrow> jstr) \<Rightarrow> SidebarSectionConfig \<Rightarrow> SidebarSectionConfig \<Rightarrow> jstr \<times> jval \<Rightarrow> SidebarSectionConfig" where
  "module_entry lower defaultSection sectionConfig entry = (let (moduleKey, moduleValue) = entry in
     if moduleKey = js ''enabled'' then sectionConfig
     else obj_put moduleKey (toBoolean lower moduleValue (upd (map_of defaultSection moduleKey) True)) sectionConfig)"

definition section_entry :: "(jstr \<Rightarrow> jstr) \<Rightarrow> SidebarModulesAdminConfig \<Rightarrow> SidebarModulesAdminConfig \<Rightarrow> jstr \<times> jval \<Rightarrow> SidebarModulesAdminConfig" where
  "section_entry lower defaults result entry = (let (sectionKey, raw) = entry in
     case raw of
       VObj r \<Rightarrow> (let d = upd (map_of defaults sectionKey) [(js ''enabled'', True)];
           e = toBoolean lower (vget r ''enabled'') (upd (map_of d (js ''enabled'')) True)
         in obj_put sectionKey (foldl (module_entry lower d) [(js ''enabled'', e)] r) result)
     | VArr xs \<Rightarrow> (let d = upd (map_of defaults sectionKey) [(js ''enabled'', True)];
           e = upd (map_of d (js ''enabled'')) True
         in obj_put sectionKey (foldl (module_entry lower d) [(js ''enabled'', e)] (indexed xs)) result)
     | _ \<Rightarrow> result)"

definition fill_modules :: "SidebarSectionConfig \<Rightarrow> SidebarSectionConfig \<Rightarrow> SidebarSectionConfig" where
  "fill_modules config sec = foldl (\<lambda>s (k, b). if k \<in> fst ` set s then s else obj_put k b s) sec config"

definition fill_section :: "SidebarModulesAdminConfig \<Rightarrow> jstr \<times> SidebarSectionConfig \<Rightarrow> SidebarModulesAdminConfig" where
  "fill_section result entry = (let (sectionKey, config) = entry in
     case map_of result sectionKey of None \<Rightarrow> obj_put sectionKey config result
     | Some sec \<Rightarrow> obj_put sectionKey (fill_modules config sec) result)"

definition parseSidebarModulesAdmin :: "(jstr \<Rightarrow> jstr) \<Rightarrow> jstr option \<Rightarrow> SidebarModulesAdminConfig" where
  "parseSidebarModulesAdmin lower v = (case v of None \<Rightarrow> SIDEBAR_MODULES_DEFAULT
     | Some s \<Rightarrow> if trim s = [] then SIDEBAR_MODULES_DEFAULT
       else (case json_parse s of None \<Rightarrow> SIDEBAR_MODULES_DEFAULT
       | Some p \<Rightarrow> if nullish p then SIDEBAR_MODULES_DEFAULT
         else foldl fill_section (foldl (section_entry lower SIDEBAR_MODULES_DEFAULT) [] (spread_members p)) SIDEBAR_MODULES_DEFAULT))"

definition section_object :: "SidebarSectionConfig \<Rightarrow> jval" where
  "section_object sec = VObj (map (apsnd VBool) sec)"

definition serializeSidebarModulesAdmin :: "SidebarModulesAdminConfig \<Rightarrow> jstr" where
  "serializeSidebarModulesAdmin config = json_stringify (VObj (map (apsnd section_object) config))"

section \<open>The form of the header\<close>

record HeaderNavFormValues =
  fv_home :: bool
  fv_console :: bool
  fv_pricingEnabled :: bool
  fv_pricingRequireAuth :: bool
  fv_rankingsEnabled :: bool
  fv_rankingsRequireAuth :: bool
  fv_docs :: bool
  fv_about :: bool

definition form_flag :: "HeaderNavModulesConfig \<Rightarrow> string \<Rightarrow> bool" where
  "form_flag config key = (if map_of config (js key) = None then header_flag HEADER_NAV_DEFAULT (js key) else header_flag config (js key))"

definition form_access :: "HeaderNavModulesConfig \<Rightarrow> string \<Rightarrow> HeaderNavAccessConfig" where
  "form_access config key = (case map_of config (js key) of Some (Access a) \<Rightarrow> a | _ \<Rightarrow> ACCESS_DEFAULT)"

definition toFormValues :: "HeaderNavModulesConfig \<Rightarrow> HeaderNavFormValues" where
  "toFormValues config = \<lparr> fv_home = form_flag config ''home'', fv_console = form_flag config ''console'',
     fv_pricingEnabled = ac_enabled (form_access config ''pricing''), fv_pricingRequireAuth = ac_requireAuth (form_access config ''pricing''),
     fv_rankingsEnabled = ac_enabled (form_access config ''rankings''), fv_rankingsRequireAuth = ac_requireAuth (form_access config ''rankings''),
     fv_docs = form_flag config ''docs'', fv_about = form_flag config ''about'' \<rparr>"

definition header_payload :: "HeaderNavModulesConfig \<Rightarrow> HeaderNavFormValues \<Rightarrow> HeaderNavModulesConfig" where
  "header_payload config f = foldl (\<lambda>m (k, v). obj_put (js k) v m) config
     [(''home'', Flag (fv_home f)), (''console'', Flag (fv_console f)), (''docs'', Flag (fv_docs f)), (''about'', Flag (fv_about f)),
      (''pricing'', Access \<lparr> ac_enabled = fv_pricingEnabled f, ac_requireAuth = fv_pricingRequireAuth f \<rparr>),
      (''rankings'', Access \<lparr> ac_enabled = fv_rankingsEnabled f, ac_requireAuth = fv_rankingsRequireAuth f \<rparr>)]"

text \<open>The text that a submit stores; \<open>None\<close> when it makes no request.\<close>

definition submit_header :: "HeaderNavModulesConfig \<Rightarrow> jstr \<Rightarrow> HeaderNavFormValues \<Rightarrow> jstr option" where
  "submit_header config initialSerialized f = (let serialized = serializeHeaderNavModules (header_payload config f) in
     if serialized = initialSerialized then None else Some serialized)"

definition header_section :: "(jstr \<Rightarrow> jstr) \<Rightarrow> jstr option \<Rightarrow> HeaderNavModulesConfig \<times> jstr" where
  "header_section lower stored = (let config = parseHeaderNavModules lower stored in (config, serializeHeaderNavModules config))"

definition submit_sidebar :: "SidebarModulesAdminConfig \<Rightarrow> jstr \<Rightarrow> jstr option" where
  "submit_sidebar form_values initialSerialized = (let serialized = serializeSidebarModulesAdmin form_values in
     if serialized = initialSerialized then None else Some serialized)"

definition sidebar_section :: "(jstr \<Rightarrow> jstr) \<Rightarrow> jstr option \<Rightarrow> SidebarModulesAdminConfig \<times> jstr" where
  "sidebar_section lower stored = (let config = parseSidebarModulesAdmin lower stored in (config, serializeSidebarModulesAdmin config))"

section \<open>The links of the header (use-top-nav-links.ts)\<close>

definition top_parseAccessModule :: "jval \<Rightarrow> HeaderNavAccessConfig \<Rightarrow> HeaderNavAccessConfig" where
  "top_parseAccessModule raw fallback = (case raw of
       VObj r \<Rightarrow> \<lparr> ac_enabled = (case vget r ''enabled'' of VBool b \<Rightarrow> b | _ \<Rightarrow> ac_enabled fallback),
         ac_requireAuth = (case vget r ''requireAuth'' of VBool b \<Rightarrow> b | _ \<Rightarrow> ac_requireAuth fallback) \<rparr>
     | VBool b \<Rightarrow> fallback\<lparr> ac_enabled := b \<rparr>
     | VStr s \<Rightarrow> fallback\<lparr> ac_enabled := s = js ''true'' \<or> s = js ''1'' \<rparr>
     | VNum x \<Rightarrow> fallback\<lparr> ac_enabled := jeq x (JFin 1) \<rparr>
     | _ \<Rightarrow> fallback)"

record TopModules =
  tm_home :: jval
  tm_console :: jval
  tm_docs :: jval
  tm_pricing :: HeaderNavAccessConfig
  tm_rankings :: HeaderNavAccessConfig

definition DEFAULT_HEADER_NAV_MODULES :: TopModules where
  "DEFAULT_HEADER_NAV_MODULES = \<lparr> tm_home = VBool True, tm_console = VBool True, tm_docs = VBool True,
     tm_pricing = ACCESS_DEFAULT, tm_rankings = ACCESS_DEFAULT \<rparr>"

text \<open>A member of a value other than \<open>null\<close>, for names that nothing inherits.\<close>

definition member :: "jval \<Rightarrow> string \<Rightarrow> jval" where
  "member v k = (case v of VObj m \<Rightarrow> vget m k | _ \<Rightarrow> VUndef)"

definition spread_over :: "jval \<Rightarrow> jval \<Rightarrow> string \<Rightarrow> jval" where
  "spread_over d parsed k = (if vhas (spread_members parsed) k then vget (spread_members parsed) k else d)"

definition top_parseHeaderNavModules :: "jval \<Rightarrow> TopModules" where
  "top_parseHeaderNavModules raw = (if \<not> truthy raw \<or> trim (val_to_str raw) = [] then DEFAULT_HEADER_NAV_MODULES
     else case json_parse (val_to_str raw) of None \<Rightarrow> DEFAULT_HEADER_NAV_MODULES
     | Some parsed \<Rightarrow> if nullish parsed then DEFAULT_HEADER_NAV_MODULES
       else \<lparr> tm_home = spread_over (VBool True) parsed ''home'', tm_console = spread_over (VBool True) parsed ''console'',
         tm_docs = spread_over (VBool True) parsed ''docs'', tm_pricing = top_parseAccessModule (member parsed ''pricing'') ACCESS_DEFAULT,
         tm_rankings = top_parseAccessModule (member parsed ''rankings'') ACCESS_DEFAULT \<rparr>)"

record TopNavLink =
  tl_title :: jstr
  tl_href :: jstr
  tl_disabled :: "bool option"
  tl_external :: "bool option"

definition access_link :: "(jstr \<Rightarrow> jstr) \<Rightarrow> bool \<Rightarrow> string \<Rightarrow> string \<Rightarrow> HeaderNavAccessConfig \<Rightarrow> TopNavLink list" where
  "access_link t isAuthed title href a = (if ac_enabled a then
     [\<lparr> tl_title = t (js title), tl_href = js href, tl_disabled = Some (ac_requireAuth a \<and> \<not> isAuthed), tl_external = None \<rparr>] else [])"

definition flag_link :: "(jstr \<Rightarrow> jstr) \<Rightarrow> string \<Rightarrow> string \<Rightarrow> bool \<Rightarrow> TopNavLink list" where
  "flag_link t title href shown = (if shown then
     [\<lparr> tl_title = t (js title), tl_href = js href, tl_disabled = None, tl_external = None \<rparr>] else [])"

definition docs_link :: "(jstr \<Rightarrow> jstr) \<Rightarrow> jstr option \<Rightarrow> TopNavLink" where
  "docs_link t docsLink = (let target = (case docsLink of None \<Rightarrow> js ''/doc'' | Some s \<Rightarrow> if trim s \<noteq> [] then trim s else js ''/doc'')
     in \<lparr> tl_title = t (js ''Docs''), tl_href = target, tl_disabled = None, tl_external = Some (\<not> starts_with (js ''/'') target) \<rparr>)"

definition useTopNavLinks :: "(jstr \<Rightarrow> jstr) \<Rightarrow> jval \<Rightarrow> jstr option \<Rightarrow> bool \<Rightarrow> TopNavLink list" where
  "useTopNavLinks t raw docsLink isAuthed = (let modules = top_parseHeaderNavModules raw in
     flag_link t ''Home'' ''/'' (tm_home modules \<noteq> VBool False)
     @ flag_link t ''Console'' ''/console'' (tm_console modules \<noteq> VBool False)
     @ access_link t isAuthed ''Model Square'' ''/pricing'' (tm_pricing modules)
     @ access_link t isAuthed ''Rankings'' ''/rankings'' (tm_rankings modules)
     @ (if tm_docs modules \<noteq> VBool False then [docs_link t docsLink] else [])
     @ [\<lparr> tl_title = t (js ''Pricing Compare''), tl_href = js ''/bijia.html'', tl_disabled = None, tl_external = Some True \<rparr>])"

section \<open>The entries of the sidebar (use-sidebar-data.ts)\<close>

text \<open>A link with its address and the addresses it is configured by, a group that folds, the chat presets.\<close>

datatype NavItem =
    NavLink jstr jstr "jstr list option"
  | NavCollapsible jstr "(jstr \<times> jstr) list"
  | NavChatPresets jstr

record NavGroup =
  ng_id :: "jstr option"
  ng_title :: jstr
  ng_items :: "NavItem list"

abbreviation link_to :: "jstr \<Rightarrow> string \<Rightarrow> NavItem" where
  "link_to title url \<equiv> NavLink title (js url) None"

definition sales_group :: "(jstr \<Rightarrow> jstr) \<Rightarrow> NavGroup" where
  "sales_group t = \<lparr> ng_id = Some (js ''sales''), ng_title = t (js ''Sales''),
     ng_items = [link_to (t (js ''My Customers'')) ''/sales-customers''] \<rparr>"

definition user_groups :: "(jstr \<Rightarrow> jstr) \<Rightarrow> NavGroup list" where
  "user_groups t =
    [\<lparr> ng_id = Some (js ''chat''), ng_title = t (js ''Chat''), ng_items =
       [link_to (t (js ''Playground'')) ''/playground'',
        link_to [26234, 33021, 20307, 36229, 24066] ''/agents'',
        link_to [55356, 57256, 32, 21776, 20271, 34382, 65, 73, 71, 67, 32, 21019, 20316, 24179, 21488] ''/go-aigc'',
        NavChatPresets (t (js ''Chat''))] \<rparr>,
     \<lparr> ng_id = Some (js ''general''), ng_title = t (js ''General''), ng_items =
       [link_to (t (js ''Overview'')) ''/dashboard/overview'',
        link_to (t (js ''Dashboard'')) ''/dashboard/models'',
        link_to (t (js ''API Keys'')) ''/keys'',
        link_to (t (js ''Usage Logs'')) ''/usage-logs/common'',
        NavLink (t (js ''Task Logs'')) (js ''/usage-logs/task'') (Some [js ''/usage-logs/drawing'', js ''/usage-logs/task''])] \<rparr>,
     \<lparr> ng_id = Some (js ''personal''), ng_title = t (js ''Personal''), ng_items =
       [link_to (t (js ''Wallet'')) ''/wallet'', link_to (t (js ''Profile'')) ''/profile''] \<rparr>]"

definition admin_group :: "(jstr \<Rightarrow> jstr) \<Rightarrow> NavGroup" where
  "admin_group t = \<lparr> ng_id = Some (js ''admin''), ng_title = t (js ''Admin''), ng_items =
     [link_to [26234, 33021, 31649, 29702] ''/smart-admin'',
      link_to [37096, 32626, 30417, 25511] ''/telemetry-admin'',
      NavCollapsible [28192, 36947, 31649, 29702]
        [(t (js ''Channels''), js ''/channels''),
         ([28192, 36947, 32431, 34880, 24230], js ''/channel-audit''),
         ([28192, 36947, 30417, 25511], js ''/channel-stability'')],
      link_to (t (js ''Models'')) ''/models/metadata'',
      link_to (t (js ''Groups'')) ''/system-settings/billing/group-pricing'',
      link_to (t (js ''Users'')) ''/users'',
      link_to (t (js ''Redemption Codes'')) ''/redemption-codes'',
      NavCollapsible [35746, 38405, 31649, 29702]
        [(t (js ''Subscription Plans''), js ''/subscriptions''),
         (t (js ''Subscription Channels''), js ''/subscription-accounts''),
         (t (js ''Subscription Groups''), js ''/subscription-groups''),
         (t (js ''Proxy Settings''), js ''/subscription-proxies'')],
      link_to (t (js ''Sales Management'')) ''/agent-management'',
      link_to (t (js ''Enterprise Console'')) ''/enterprise-management'',
      link_to (t (js ''System Settings'')) ''/system-settings/site''] \<rparr>"

definition useSidebarData :: "(jstr \<Rightarrow> jstr) \<Rightarrow> bool \<Rightarrow> NavGroup list" where
  "useSidebarData t isSales = user_groups t @ (if isSales then [sales_group t] else []) @ [admin_group t]"

section \<open>The sidebar (use-sidebar-config.ts)\<close>

type_synonym admin_config = "(jstr \<times> jval) list"

definition section_vals :: "string list \<Rightarrow> (jstr \<times> jval) list" where
  "section_vals modules = map (\<lambda>m. (js m, VBool True)) (''enabled'' # modules)"

definition DEFAULT_SIDEBAR_MODULES :: "(jstr \<times> (jstr \<times> jval) list) list" where
  "DEFAULT_SIDEBAR_MODULES =
    [(js ''chat'', section_vals [''playground'', ''chat'']),
     (js ''console'', section_vals [''detail'', ''token'', ''log'', ''midjourney'', ''task'']),
     (js ''personal'', section_vals [''topup'', ''personal'']),
     (js ''admin'', section_vals [''channel'', ''models'', ''redemption'', ''user'', ''setting'', ''subscription'',
        ''subscription_accounts'', ''subscription_groups'', ''subscription_proxies''])]"

definition default_admin_config :: admin_config where
  "default_admin_config = map (apsnd VObj) DEFAULT_SIDEBAR_MODULES"

definition merge_section :: "admin_config \<Rightarrow> jstr \<times> (jstr \<times> jval) list \<Rightarrow> admin_config" where
  "merge_section merged entry = (let (sectionKey, defaultSection) = entry;
       existing = upd (map_of merged sectionKey) VUndef in
     if \<not> truthy existing then obj_put sectionKey (VObj defaultSection) merged
     else let s = foldl (\<lambda>m (k, v). obj_put k v m) defaultSection (spread_members existing);
       s = foldl (\<lambda>m (k, d). if upd (map_of m k) VUndef = VUndef then obj_put k d m else m) s defaultSection
     in obj_put sectionKey (VObj s) merged)"

definition mergeWithDefaultSidebarModules :: "jval \<Rightarrow> admin_config" where
  "mergeWithDefaultSidebarModules config = foldl merge_section (spread_members config) DEFAULT_SIDEBAR_MODULES"

definition parseSidebarConfig :: "jstr option \<Rightarrow> admin_config" where
  "parseSidebarConfig v = (case v of None \<Rightarrow> default_admin_config
     | Some s \<Rightarrow> if trim s = [] then default_admin_config
       else (case json_parse s of None \<Rightarrow> default_admin_config | Some p \<Rightarrow> mergeWithDefaultSidebarModules p))"

definition parseUserSidebarConfig :: "jstr option \<Rightarrow> jval option" where
  "parseUserSidebarConfig v = (case v of None \<Rightarrow> None
     | Some s \<Rightarrow> if trim s = [] then None
       else (case json_parse s of Some (VObj m) \<Rightarrow> Some (VObj m) | Some (VArr xs) \<Rightarrow> Some (VArr xs) | _ \<Rightarrow> None))"

definition URL_TO_CONFIG_MAP :: "(jstr \<times> string \<times> string) list" where
  "URL_TO_CONFIG_MAP = map (apfst js)
    [(''/playground'', ''chat'', ''playground''), (''/dashboard'', ''console'', ''detail''),
     (''/dashboard/overview'', ''console'', ''detail''), (''/dashboard/models'', ''console'', ''detail''),
     (''/dashboard/users'', ''console'', ''detail''), (''/keys'', ''console'', ''token''),
     (''/usage-logs'', ''console'', ''log''), (''/usage-logs/common'', ''console'', ''log''),
     (''/usage-logs/drawing'', ''console'', ''midjourney''), (''/usage-logs/task'', ''console'', ''task''),
     (''/wallet'', ''personal'', ''topup''), (''/profile'', ''personal'', ''personal''),
     (''/channels'', ''admin'', ''channel''), (''/models'', ''admin'', ''models''),
     (''/models/metadata'', ''admin'', ''models''), (''/models/deployments'', ''admin'', ''models''),
     (''/users'', ''admin'', ''user''), (''/redemption-codes'', ''admin'', ''redemption''),
     (''/subscriptions'', ''admin'', ''subscription''), (''/subscription-accounts'', ''admin'', ''subscription_accounts''),
     (''/subscription-groups'', ''admin'', ''subscription_groups''), (''/subscription-proxies'', ''admin'', ''subscription_proxies''),
     (''/system-settings'', ''admin'', ''setting''), (''/system-settings/site'', ''admin'', ''setting'')]"

text \<open>The layer of the administrator and the layer of the user, for a module of a section.\<close>

definition admin_allows :: "admin_config \<Rightarrow> string \<Rightarrow> string \<Rightarrow> bool" where
  "admin_allows adminConfig sec md = (let s = vget adminConfig sec in
     truthy s \<and> truthy (member s ''enabled'') \<and> member s md = VBool True)"

definition user_allows :: "jval option \<Rightarrow> string \<Rightarrow> string \<Rightarrow> bool" where
  "user_allows userConfig sec md = (case userConfig of None \<Rightarrow> True
     | Some c \<Rightarrow> (let s = member c sec in
         if \<not> truthy s then True else if member s ''enabled'' = VBool False then False else member s md \<noteq> VBool False))"

definition isModuleEnabled :: "jstr \<Rightarrow> admin_config \<Rightarrow> jval option \<Rightarrow> bool" where
  "isModuleEnabled url adminConfig userConfig = (case map_of URL_TO_CONFIG_MAP url of None \<Rightarrow> True
     | Some (sec, md) \<Rightarrow> if \<not> admin_allows adminConfig sec md then False else user_allows userConfig sec md)"

fun isNavItemVisible :: "admin_config \<Rightarrow> jval option \<Rightarrow> NavItem \<Rightarrow> bool" where
  "isNavItemVisible A U (NavChatPresets _) =
     (if \<not> admin_allows A ''chat'' ''chat'' then False else user_allows U ''chat'' ''chat'')"
| "isNavItemVisible A U (NavLink _ url configUrls) =
     (if url = [] then True else list_ex (\<lambda>u. isModuleEnabled u A U) (upd configUrls [url]))"
| "isNavItemVisible A U (NavCollapsible _ items) = list_ex (\<lambda>(_, u). isModuleEnabled u A U) items"

fun filter_sub_items :: "admin_config \<Rightarrow> jval option \<Rightarrow> NavItem \<Rightarrow> NavItem" where
  "filter_sub_items A U (NavCollapsible title items) = NavCollapsible title (filter (\<lambda>(_, u). isModuleEnabled u A U) items)"
| "filter_sub_items A U item = item"

definition filterNavItems :: "NavItem list \<Rightarrow> admin_config \<Rightarrow> jval option \<Rightarrow> NavItem list" where
  "filterNavItems items A U = filter (isNavItemVisible A U) (map (filter_sub_items A U) items)"

definition filter_groups :: "NavGroup list \<Rightarrow> admin_config \<Rightarrow> jval option \<Rightarrow> NavGroup list" where
  "filter_groups navGroups A U = filter (\<lambda>g. ng_items g \<noteq> []) (map (\<lambda>g. g\<lparr> ng_items := filterNavItems (ng_items g) A U \<rparr>) navGroups)"

text \<open>The status text, the permission \<open>sidebar_settings\<close> and the text of the user.\<close>

definition useSidebarConfig :: "jstr option \<Rightarrow> bool option \<Rightarrow> jstr option \<Rightarrow> NavGroup list \<Rightarrow> NavGroup list" where
  "useSidebarConfig status permission sidebar_modules navGroups = filter_groups navGroups (parseSidebarConfig status)
     (if permission = Some False then None else parseUserSidebarConfig sidebar_modules)"

section \<open>The layer of the user (sidebar-modules-card.tsx)\<close>

definition toggleSection :: "string \<Rightarrow> bool \<Rightarrow> (jstr \<times> jval) list \<Rightarrow> (jstr \<times> jval) list" where
  "toggleSection sec val prev = obj_put (js sec) (VObj (obj_put (js ''enabled'') (VBool val) (spread_members (vget prev sec)))) prev"

definition toggleModule :: "string \<Rightarrow> string \<Rightarrow> bool \<Rightarrow> (jstr \<times> jval) list \<Rightarrow> (jstr \<times> jval) list" where
  "toggleModule sec md val prev = obj_put (js sec) (VObj (obj_put (js md) (VBool val) (spread_members (vget prev sec)))) prev"

definition saved_user_layer :: "(jstr \<times> jval) list \<Rightarrow> jstr" where
  "saved_user_layer config = json_stringify (VObj config)"

end
