(* ===== verification/NavSidebar.thy ===== *)
theory NavSidebar
  imports NavModules
begin

text \<open>
  The sidebar shows what it is configured to show: its two layers, and the way of a setting from the pages that write
  it to the sidebar that reads it.
\<close>

section \<open>Two layers\<close>

lemma default_allows: "list_all (\<lambda>(_, sec, md). admin_allows default_admin_config sec md) URL_TO_CONFIG_MAP"
  by (simp add: URL_TO_CONFIG_MAP_def admin_allows_def default_admin_config_def DEFAULT_SIDEBAR_MODULES_def section_vals_def
      vget_def member_def)

lemma url_module: "map_of URL_TO_CONFIG_MAP url = Some (sec, md) \<Longrightarrow> list_all (\<lambda>(_, sec, md). P sec md) URL_TO_CONFIG_MAP \<Longrightarrow> P sec md"
  using map_of_SomeD by (fastforce simp: list_all_iff)

text \<open>A user layer narrows the layer of the administrator; over the defaults it stands alone.\<close>

lemma layers: "isModuleEnabled url A U = (isModuleEnabled url A None \<and> isModuleEnabled url default_admin_config U)"
proof (cases "map_of URL_TO_CONFIG_MAP url")
  case (Some p)
  obtain sec md where p: "p = (sec, md)" by fastforce
  with Some have "admin_allows default_admin_config sec md" using url_module [OF _ default_allows] by simp
  then show ?thesis using Some p by (simp add: isModuleEnabled_def user_allows_def)
qed (simp add: isModuleEnabled_def)

text \<open>What is listed, flat: an entry with its group, the folder it is in, and the switches it is kept by. An
  entry is listed as soon as one of its alternatives is on; an alternative without a switch, an address that is not in the
  table, is always on.\<close>

record NavEntry =
  en_group :: "jstr option \<times> jstr"
  en_folder :: "jstr option"
  en_title :: jstr
  en_url :: jstr
  en_switches :: "(string \<times> string) option list"

fun item_entries :: "jstr option \<times> jstr \<Rightarrow> NavItem \<Rightarrow> NavEntry list" where
  "item_entries g (NavLink title url conf) = [\<lparr> en_group = g, en_folder = None, en_title = title, en_url = url,
     en_switches = (if url = [] then [None] else map (map_of URL_TO_CONFIG_MAP) (upd conf [url])) \<rparr>]"
| "item_entries g (NavCollapsible title items) = map (\<lambda>(sub, url). \<lparr> en_group = g, en_folder = Some title, en_title = sub,
     en_url = url, en_switches = [map_of URL_TO_CONFIG_MAP url] \<rparr>) items"
| "item_entries g (NavChatPresets title) = [\<lparr> en_group = g, en_folder = None, en_title = title, en_url = [],
     en_switches = [Some (''chat'', ''chat'')] \<rparr>]"

definition nav_entries :: "NavGroup list \<Rightarrow> NavEntry list" where
  "nav_entries groups = concat (map (\<lambda>g. concat (map (item_entries (ng_id g, ng_title g)) (ng_items g))) groups)"

text \<open>Whether an entry is listed when \<open>on\<close> says which switches are on.\<close>

definition listed :: "(string \<Rightarrow> string \<Rightarrow> bool) \<Rightarrow> NavEntry \<Rightarrow> bool" where
  "listed on e = list_ex (\<lambda>switch. case switch of None \<Rightarrow> True | Some (sec, md) \<Rightarrow> on sec md) (en_switches e)"

definition both_layers :: "admin_config \<Rightarrow> jval option \<Rightarrow> string \<Rightarrow> string \<Rightarrow> bool" where
  "both_layers A U sec md = (admin_allows A sec md \<and> user_allows U sec md)"

lemma enabled_switch:
  "isModuleEnabled url A U = (case map_of URL_TO_CONFIG_MAP url of None \<Rightarrow> True | Some (sec, md) \<Rightarrow> both_layers A U sec md)"
  by (auto simp: isModuleEnabled_def both_layers_def split: option.split)

lemma entries_filter_item:
  "concat (map (item_entries g) (filterNavItems [item] A U)) = filter (listed (both_layers A U)) (item_entries g item)"
proof (cases item)
  case (NavLink title url conf)
  then show ?thesis by (simp add: filterNavItems_def listed_def list_ex_iff enabled_switch)
next
  case (NavCollapsible title subs)
  let ?p = "\<lambda>x. isModuleEnabled (snd x) A U"
  have subs: "concat (map (item_entries g) (filterNavItems [item] A U)) = item_entries g (NavCollapsible title (filter ?p subs))"
    by (auto simp: NavCollapsible filterNavItems_def list_ex_iff filter_empty_conv case_prod_unfold)
  show ?thesis unfolding subs unfolding NavCollapsible
    by (simp add: filter_map comp_def split_beta listed_def enabled_switch)
qed (simp add: filterNavItems_def listed_def both_layers_def)

lemma entries_filter_items:
  "concat (map (item_entries g) (filterNavItems items A U)) = filter (listed (both_layers A U)) (concat (map (item_entries g) items))"
proof (induction items)
  case (Cons item items)
  have "filterNavItems (item # items) A U = filterNavItems [item] A U @ filterNavItems items A U"
    by (simp add: filterNavItems_def)
  then show ?case using entries_filter_item [of g item A U] Cons.IH by simp
qed (simp add: filterNavItems_def)

lemma entries_filter_groups: "nav_entries (filter_groups groups A U) = filter (listed (both_layers A U)) (nav_entries groups)"
proof -
  have "nav_entries (filter (\<lambda>g. ng_items g \<noteq> []) gs) = nav_entries gs" for gs
    by (induction gs) (auto simp: nav_entries_def)
  then show ?thesis
    by (simp add: filter_groups_def) (simp add: nav_entries_def comp_def entries_filter_items filter_concat)
qed

definition no_empty_folder :: "NavItem \<Rightarrow> bool" where
  "no_empty_folder item = (case item of NavCollapsible _ subs \<Rightarrow> subs \<noteq> [] | _ \<Rightarrow> True)"

lemma no_folder_empty: "list_all no_empty_folder (filterNavItems items A U)"
  by (auto simp: filterNavItems_def no_empty_folder_def list.pred_set list_ex_iff filter_empty_conv split: NavItem.split)

lemma groups_not_empty: "list_all (\<lambda>g. ng_items g \<noteq> [] \<and> list_all no_empty_folder (ng_items g)) (filter_groups groups A U)"
  using no_folder_empty by (auto simp: filter_groups_def list.pred_set)

text \<open>C16. What the sidebar lists is determined by its switches: of all entries, links, entries of folders and the chat
  presets, exactly those remain, in the given order and in their groups and folders, that both layers keep by
  one of their alternatives, and no group and no folder is empty. A link has as alternatives the addresses it is configured by, which is
  its own address except for the task logs, which are kept by their module or by that of the drawing logs; an address without a module is always on. For
  each alternative the layer of the user can only take away what the administrator allows, and it is not read when the
  user may not configure the sidebar.\<close>

theorem sidebar_lists_enabled:
  "let A = parseSidebarConfig status; U = (if permission = Some False then None else parseUserSidebarConfig sidebar_modules);
       shown = useSidebarConfig status permission sidebar_modules groups in
    nav_entries shown = filter (listed (\<lambda>sec md. admin_allows A sec md \<and> user_allows U sec md)) (nav_entries groups)
    \<and> list_all (\<lambda>g. ng_items g \<noteq> [] \<and> list_all no_empty_folder (ng_items g)) shown"
  unfolding Let_def useSidebarConfig_def
  by (intro conjI entries_filter_groups [unfolded both_layers_def] groups_not_empty)

text \<open>Filtering by both layers at once is filtering by one after the other for entries without a list of addresses
  that configure them. With such a list it is not: the task logs are kept by either of two modules, and
  either layer may have switched off the other one.\<close>

fun own_url :: "NavItem \<Rightarrow> bool" where
  "own_url (NavLink _ _ conf) = (conf = None)"
| "own_url _ = True"

lemma filter_twice:
  assumes "own_url item"
  shows "filterNavItems (filterNavItems [item] A None) default_admin_config U = filterNavItems [item] A U"
proof (cases item)
  case (NavLink title url conf)
  then show ?thesis using assms layers [of url A U] by (auto simp: filterNavItems_def upd_def)
next
  case (NavCollapsible title subs)
  let ?p = "\<lambda>u. isModuleEnabled u A None" and ?q = "\<lambda>u. isModuleEnabled u default_admin_config U"
  have two: "filter (\<lambda>(_, u). isModuleEnabled u A U) xs = filter (\<lambda>(_, u). ?q u) (filter (\<lambda>(_, u). ?p u) xs)" for xs :: "(jstr \<times> jstr) list"
    unfolding filter_filter by (rule filter_cong) (auto simp: layers [of _ A U])
  have keep: "list_ex P (filter P xs) \<longleftrightarrow> filter P xs \<noteq> []" for P and xs :: "(jstr \<times> jstr) list"
    by (auto simp: list_ex_iff filter_empty_conv)
  let ?ps = "filter (\<lambda>(_, u). ?p u) subs" let ?qs = "filter (\<lambda>(_, u). ?q u) ?ps"
  have "list_ex (\<lambda>(_, u). isModuleEnabled u A U) ?qs \<longleftrightarrow> ?qs \<noteq> []" unfolding two [symmetric] by (rule keep)
  moreover have "?ps = [] \<Longrightarrow> ?qs = []" by (simp only: filter.simps(1))
  ultimately show ?thesis
    by (cases "?ps = []") (simp_all add: NavCollapsible filterNavItems_def keep two del: filter_filter)
next
  case (NavChatPresets title)
  have "admin_allows default_admin_config ''chat'' ''chat''"
    by (simp add: admin_allows_def default_admin_config_def DEFAULT_SIDEBAR_MODULES_def section_vals_def vget_def member_def)
  then show ?thesis using NavChatPresets by (simp add: filterNavItems_def user_allows_def)
qed

lemma layers_compose:
  assumes "list_all own_url items"
  shows "filterNavItems (filterNavItems items A None) default_admin_config U = filterNavItems items A U"
  using assms
proof (induction items)
  case (Cons item items)
  have app: "filterNavItems (xs @ ys) B V = filterNavItems xs B V @ filterNavItems ys B V" for xs ys B V
    by (simp add: filterNavItems_def)
  have cons: "filterNavItems (item # items) B V = filterNavItems [item] B V @ filterNavItems items B V" for B V
    using app [of "[item]" items] by simp
  show ?case using Cons filter_twice [of item] unfolding cons [of A] by (simp add: app)
qed (simp add: filterNavItems_def)


text \<open>The entry of the task logs is shown although its module is switched off, because the drawing logs are on; and the
  group prices, a page of the system settings, have no setting.\<close>

definition task_logs :: "(jstr \<Rightarrow> jstr) \<Rightarrow> NavItem" where
  "task_logs t = NavLink (t (js ''Task Logs'')) (js ''/usage-logs/task'') (Some [js ''/usage-logs/drawing'', js ''/usage-logs/task''])"

lemma task_logs_stay:
  "task_logs t \<in> set (concat (map ng_items (useSidebarData t isSales)))"
  "let A = mergeWithDefaultSidebarModules (VObj [(js ''console'', VObj [(js ''task'', VBool False)])]) in
    \<not> isModuleEnabled (js ''/usage-logs/task'') A None \<and> isModuleEnabled (js ''/usage-logs/drawing'') A None"
  by (simp add: useSidebarData_def user_groups_def task_logs_def) code_simp

lemma task_logs_visible: "isModuleEnabled (js ''/usage-logs/drawing'') A None \<Longrightarrow> isNavItemVisible A None (task_logs t)"
  by (simp add: task_logs_def upd_def)

lemma group_prices_stay:
  "let A = mergeWithDefaultSidebarModules (VObj [(js ''admin'', VObj [(js ''setting'', VBool False)])]) in
    \<not> isModuleEnabled (js ''/system-settings/site'') A None \<and> isModuleEnabled (js ''/system-settings/billing/group-pricing'') A None"
  by code_simp

section \<open>From the settings to the sidebar\<close>

text \<open>A configuration as the form of the settings page has it: sections with their switch first, all expected ones
  present, names that are texts and no array indices.\<close>

definition section_ok :: "SidebarSectionConfig \<Rightarrow> bool" where
  "section_ok sec = (sec \<noteq> [] \<and> fst (hd sec) = js ''enabled'' \<and> plain_members (map (apsnd VBool) sec))"

definition sidebar_ok :: "SidebarModulesAdminConfig \<Rightarrow> bool" where
  "sidebar_ok c = (plain_members (map (apsnd section_object) c) \<and> list_all (\<lambda>(_, sec). section_ok sec) c
     \<and> list_all (\<lambda>(s, d). list_all (\<lambda>(k, _). k \<in> fst ` set (upd (map_of c s) [])) d) SIDEBAR_MODULES_DEFAULT)"

lemma puts_append:
  "distinct (map fst (acc @ m)) \<Longrightarrow> \<forall>k\<in>fst ` set m. array_index k = None \<Longrightarrow> foldl (\<lambda>m (k, v). obj_put k v m) acc m = acc @ m"
  by (induction m arbitrary: acc) (auto simp: obj_of_snoc)

lemma plain_keys:
  assumes "plain_members (map (apsnd g) m)"
  shows "distinct (map fst m)" "\<forall>k\<in>fst ` set m. array_index k = None" "obj_of m = m"
proof -
  show d: "distinct (map fst m)" using assms by (simp add: plain_members_def)
  show i: "\<forall>k\<in>fst ` set m. array_index k = None" using assms by (force simp: plain_members_def)
  show "obj_of m = m" using puts_append [of "[]" m] d i by (simp add: obj_of_def)
qed

lemma module_entries:
  assumes "distinct (map fst m)" "js ''enabled'' \<notin> fst ` set m"
  shows "foldl (module_entry lower d) acc (map (apsnd VBool) m) = foldl (\<lambda>m (k, v). obj_put k v m) acc m"
  using assms by (induction m arbitrary: acc) (auto simp: module_entry_def toBoolean_def)

lemma section_read:
  assumes "section_ok sec"
  shows "section_entry lower D result (k, section_object sec) = obj_put k sec result"
proof -
  obtain b rest where sec: "sec = (js ''enabled'', b) # rest"
    using assms by (cases sec) (auto simp: section_ok_def)
  have pl: "plain_members (map (apsnd VBool) sec)" using assms by (simp add: section_ok_def)
  note keys = plain_keys [OF pl]
  have rest: "distinct (map fst rest)" "js ''enabled'' \<notin> fst ` set rest" using keys(1) by (simp_all add: sec)
  have "foldl (module_entry lower d) [(js ''enabled'', b)] (map (apsnd VBool) sec) = sec" for d
    using module_entries [OF rest, of lower d "[(js ''enabled'', b)]"] puts_append [of "[(js ''enabled'', b)]" rest] keys
    by (simp add: sec module_entry_def)
  then show ?thesis
    by (simp add: section_entry_def section_object_def sec vget_def toBoolean_def)
qed

lemma sections_read:
  "list_all (\<lambda>(_, sec). section_ok sec) m \<Longrightarrow>
    foldl (section_entry lower D) acc (map (apsnd section_object) m) = foldl (\<lambda>m (k, v). obj_put k v m) acc m"
  by (induction m arbitrary: acc) (auto simp: section_read)

lemma assoc_put_same: "map_of m k = Some v \<Longrightarrow> assoc_put k v m = m"
  by (induction m) (auto split: if_splits)

lemma obj_put_same: "map_of m k = Some v \<Longrightarrow> obj_put k v m = m"
  using map_of_SomeD [of m k v] by (force simp: obj_put_def assoc_put_same)

lemma nothing_to_fill:
  assumes "list_all (\<lambda>(k, _). k \<in> fst ` set sec) d"
  shows "fill_modules d sec = sec"
  using assms unfolding fill_modules_def by (induction d) (simp_all add: split_beta)

lemma sections_filled:
  assumes "list_all (\<lambda>(s, d). d \<noteq> [] \<and> list_all (\<lambda>(k, _). k \<in> fst ` set (upd (map_of c s) [])) d) ds"
  shows "foldl fill_section c ds = c"
  using assms
proof (induction ds)
  case (Cons x ds)
  obtain s d where x: "x = (s, d)" by fastforce
  then have d: "d \<noteq> []" "list_all (\<lambda>(k, _). k \<in> fst ` set (upd (map_of c s) [])) d" using Cons.prems by simp_all
  then obtain sec where sec: "map_of c s = Some sec" by (cases "map_of c s"; cases d) (auto simp: upd_def)
  then have "fill_section c x = c"
    using d(2) by (simp add: x fill_section_def nothing_to_fill upd_def obj_put_same)
  then show ?case using Cons by simp
qed simp

lemma default_sections: "list_all (\<lambda>(s, d). d \<noteq> []) SIDEBAR_MODULES_DEFAULT"
  by (simp add: SIDEBAR_MODULES_DEFAULT_def)

text \<open>A saved text is not blank and reads back.\<close>

lemma object_text:
  assumes "plain_members m"
  shows "json_parse (json_stringify (VObj m)) = Some (VObj m)" "trim (json_stringify (VObj m)) \<noteq> []" "json_stringify (VObj m) \<noteq> []"
proof -
  show "json_parse (json_stringify (VObj m)) = Some (VObj m)" by (rule json_parse_text [OF plain_members_plain [OF assms]])
  obtain u where u: "json_stringify (VObj m) = 123 # u @ [125]" by (simp add: json_stringify_def)
  have "trimmed (123 # u @ [125])" by (rule trimmed_ends) (simp_all add: is_space_def)
  then show "trim (json_stringify (VObj m)) \<noteq> []" by (simp add: u trim_id)
  show "json_stringify (VObj m) \<noteq> []" by (simp add: u)
qed

lemma sidebar_roundtrip:
  assumes "sidebar_ok c"
  shows "parseSidebarModulesAdmin lower (Some (serializeSidebarModulesAdmin c)) = c"
proof -
  have pl: "plain_members (map (apsnd section_object) c)" and secs: "list_all (\<lambda>(_, sec). section_ok sec) c"
    using assms by (simp_all add: sidebar_ok_def)
  have "foldl (section_entry lower SIDEBAR_MODULES_DEFAULT) [] (map (apsnd section_object) c) = c"
    using plain_keys(3) [OF pl] by (simp add: sections_read [OF secs] obj_of_def)
  moreover have "foldl fill_section c SIDEBAR_MODULES_DEFAULT = c"
    using assms default_sections by (intro sections_filled) (auto simp: sidebar_ok_def list_all_iff)
  ultimately show ?thesis
    using object_text [OF pl] by (simp add: parseSidebarModulesAdmin_def serializeSidebarModulesAdmin_def nullish_def spread_members_def)
qed

section \<open>What the sidebar reads\<close>

text \<open>The switch of a module as the form shows it; a module without a switch counts as on.\<close>

definition switched_on :: "SidebarModulesAdminConfig \<Rightarrow> string \<Rightarrow> string \<Rightarrow> bool" where
  "switched_on c sec k = upd (map_of (upd (map_of c (js sec)) []) (js k)) True"

definition merged_section :: "jval option \<Rightarrow> (jstr \<times> jval) list \<Rightarrow> (jstr \<times> jval) list" where
  "merged_section existing d = (case existing of None \<Rightarrow> d
     | Some e \<Rightarrow> foldl (\<lambda>m (k, v). obj_put k v m) d (spread_members e))"

lemma map_of_puts: "map_of (foldl (\<lambda>m (k, v). obj_put k v m) a b) = map_of a ++ map_of (rev b)"
  by (induction b arbitrary: a) (auto simp: map_add_def fun_eq_iff split: option.splits)

lemma map_of_rev: "distinct (map fst m) \<Longrightarrow> map_of (rev m) = map_of m"
  by (metis distinct_rev map_of_eqI map_of_eq_None_iff map_of_is_SomeI map_of_SomeD rev_map set_rev list.set_map not_Some_eq)

lemma keep_defined:
  assumes "list_all (\<lambda>(k, _). upd (map_of m k) VUndef \<noteq> VUndef) d"
  shows "foldl (\<lambda>m (k, d). if upd (map_of m k) VUndef = VUndef then obj_put k d m else m) m d = m"
  using assms by (induction d) (simp_all add: split_beta)

lemma map_of_apsnd: "map_of (map (apsnd g) m) k = map_option g (map_of m k)"
  by (induction m) auto

lemma merge_flags:
  assumes "\<forall>k v. map_of d k = Some v \<longrightarrow> v = VBool True"
    and "map_of A s = map_option section_object sec" "\<forall>x. sec = Some x \<longrightarrow> distinct (map fst x)"
  shows "map_of (merge_section A (s, d)) s = Some (VObj (merged_section (map_option section_object sec) d))
    \<and> (\<forall>k. map_of (merged_section (map_option section_object sec) d) k
      = (case map_of (upd sec []) k of Some b \<Rightarrow> Some (VBool b) | None \<Rightarrow> map_of d k))"
proof (cases sec)
  case None
  then show ?thesis using assms(2) by (simp add: merge_section_def merged_section_def upd_def)
next
  case (Some x)
  let ?m = "foldl (\<lambda>m (k, v). obj_put k v m) d (map (apsnd VBool) x)"
  have "distinct (map fst (map (apsnd VBool) x))" using assms(3) Some by simp
  then have m: "map_of ?m k = (case map_of x k of Some b \<Rightarrow> Some (VBool b) | None \<Rightarrow> map_of d k)" for k
    by (simp add: map_of_puts map_of_rev map_of_apsnd map_add_def split: option.split)
  have "list_all (\<lambda>(k, _). upd (map_of ?m k) VUndef \<noteq> VUndef) d"
  proof -
    have "upd (map_of ?m k) VUndef \<noteq> VUndef" if "(k, v) \<in> set d" for k v
    proof -
      have "k \<in> fst ` set d" using that by force
      then obtain w where "map_of d k = Some w" by (metis map_of_eq_None_iff not_Some_eq)
      then have "map_of d k = Some (VBool True)" using assms(1) by blast
      then show ?thesis by (simp add: m upd_def split: option.split)
    qed
    then show ?thesis by (auto simp: list_all_iff)
  qed
  from keep_defined [OF this] show ?thesis
    using Some assms(2) m by (simp add: merge_section_def merged_section_def section_object_def spread_members_def upd_def Let_def)
qed

lemma merge_other: "s' \<noteq> s \<Longrightarrow> map_of (merge_section A (s, d)) s' = map_of A s'"
  by (simp add: merge_section_def Let_def)

lemma merge_all:
  assumes "distinct (map fst ds)" "(s, d) \<in> set ds" "\<forall>(s, d)\<in>set ds. \<forall>k v. map_of d k = Some v \<longrightarrow> v = VBool True"
    and "\<And>s. s \<in> fst ` set ds \<Longrightarrow> map_of A s = map_option section_object (map_of c s)"
    and "\<forall>s x. map_of c s = Some x \<longrightarrow> distinct (map fst x)"
  shows "\<exists>m. map_of (foldl merge_section A ds) s = Some (VObj m)
    \<and> (\<forall>k. map_of m k = (case map_of (upd (map_of c s) []) k of Some b \<Rightarrow> Some (VBool b) | None \<Rightarrow> map_of d k))"
  using assms(1-4)
proof (induction ds arbitrary: A)
  case (Cons x ds)
  obtain s0 d0 where x: "x = (s0, d0)" by fastforce
  have keep: "map_of (foldl merge_section B es) s' = map_of B s'" if "s' \<notin> fst ` set es" for B s' and es :: "(jstr \<times> (jstr \<times> jval) list) list"
    using that by (induction es arbitrary: B) (auto simp: merge_other)
  show ?case
  proof (cases "s = s0")
    case True
    then have d: "d = d0" using Cons.prems(1,2) x by force
    have "map_of (foldl merge_section A (x # ds)) s = map_of (merge_section A (s0, d0)) s0"
      using Cons.prems(1) x True keep by simp
    moreover have fl: "\<forall>k v. map_of d0 k = Some v \<longrightarrow> v = VBool True" using Cons.prems(3) x by auto
    moreover have lk: "map_of A s0 = map_option section_object (map_of c s0)" using Cons.prems(4) x by simp
    ultimately have "map_of (merge_section A (s0, d0)) s0 = Some (VObj (merged_section (map_option section_object (map_of c s0)) d0))
        \<and> (\<forall>k. map_of (merged_section (map_option section_object (map_of c s0)) d0) k
          = (case map_of (upd (map_of c s0) []) k of Some b \<Rightarrow> Some (VBool b) | None \<Rightarrow> map_of d0 k))"
      using merge_flags [OF fl lk] assms(5) by blast
    with \<open>map_of (foldl merge_section A (x # ds)) s = _\<close> show ?thesis unfolding True d by (metis (no_types))
  next
    case False
    have other: "map_of (merge_section A x) s' = map_option section_object (map_of c s')" if "s' \<in> fst ` set ds" for s'
    proof -
      have "s' \<noteq> s0" using that Cons.prems(1) x by auto
      moreover have "map_of A s' = map_option section_object (map_of c s')" using that by (intro Cons.prems(4)) simp
      ultimately show ?thesis unfolding x by (simp only: merge_other not_False_eq_True)
    qed
    have "distinct (map fst ds)" "(s, d) \<in> set ds" using Cons.prems(1,2) x False by simp_all
    moreover have "\<forall>(s, d)\<in>set ds. \<forall>k v. map_of d k = Some v \<longrightarrow> v = VBool True" using Cons.prems(3) by simp
    ultimately show ?thesis using Cons.IH [of "merge_section A x", OF _ _ _ other] by (simp only: foldl_Cons)
  qed
qed simp

lemma default_flags: "\<forall>(s, d)\<in>set DEFAULT_SIDEBAR_MODULES. \<forall>k v. map_of d k = Some v \<longrightarrow> v = VBool True"
  by (auto simp: DEFAULT_SIDEBAR_MODULES_def section_vals_def split: if_splits)

text \<open>The modules that entries are configured by.\<close>

definition nav_modules :: "(string \<times> string) list" where
  "nav_modules = (''chat'', ''chat'') # map snd URL_TO_CONFIG_MAP"

lemma modules_of_entries: "e \<in> set (nav_entries groups) \<Longrightarrow> Some p \<in> set (en_switches e) \<Longrightarrow> p \<in> set nav_modules"
proof -
  have "p \<in> set nav_modules" if "map_of URL_TO_CONFIG_MAP u = Some p" for u
    using map_of_SomeD [OF that] by (force simp: nav_modules_def)
  then have one: "Some p \<in> set (en_switches e) \<Longrightarrow> p \<in> set nav_modules" if "e \<in> set (item_entries g item)" for g item
    using that by (cases item) (auto simp: nav_modules_def split: if_splits)
  show "e \<in> set (nav_entries groups) \<Longrightarrow> Some p \<in> set (en_switches e) \<Longrightarrow> p \<in> set nav_modules"
    using one by (auto simp: nav_entries_def)
qed

lemma same_switches:
  assumes "\<forall>(sec, md)\<in>set nav_modules. f sec md = g sec md"
  shows "filter (listed f) (nav_entries groups) = filter (listed g) (nav_entries groups)"
proof (rule filter_cong [OF refl])
  fix e assume e: "e \<in> set (nav_entries groups)"
  have "(case switch of None \<Rightarrow> True | Some (sec, md) \<Rightarrow> f sec md) = (case switch of None \<Rightarrow> True | Some (sec, md) \<Rightarrow> g sec md)"
    if "switch \<in> set (en_switches e)" for switch
    using modules_of_entries [OF e] that assms by (cases switch) fastforce+
  then show "listed f e = listed g e" by (auto simp: listed_def list_ex_iff)
qed

lemma modules_known:
  "list_all (\<lambda>(sec, md). (\<exists>d. (js sec, d) \<in> set DEFAULT_SIDEBAR_MODULES \<and> map_of d (js ''enabled'') = Some (VBool True)
     \<and> map_of d (js md) = Some (VBool True))
     \<and> array_index (js sec) = None \<and> code_units (js sec) \<and> array_index (js md) = None \<and> code_units (js md)
     \<and> md \<noteq> ''enabled'') nav_modules"
proof -
  have "list_all (\<lambda>(sec, md). \<exists>d. (js sec, d) \<in> set DEFAULT_SIDEBAR_MODULES \<and> map_of d (js ''enabled'') = Some (VBool True)
     \<and> map_of d (js md) = Some (VBool True)) nav_modules"
    by (simp add: nav_modules_def URL_TO_CONFIG_MAP_def DEFAULT_SIDEBAR_MODULES_def section_vals_def)
  moreover have "list_all (\<lambda>(sec, md). array_index (js sec) = None \<and> code_units (js sec) \<and> array_index (js md) = None
     \<and> code_units (js md) \<and> md \<noteq> ''enabled'') nav_modules"
    by (simp add: nav_modules_def URL_TO_CONFIG_MAP_def array_index_def code_units_def js_def is_digit_def)
  ultimately show ?thesis by (simp add: list_all_iff split_beta)
qed

text \<open>What the sidebar reads from a saved configuration are the switches of the page.\<close>

lemma saved_admin_allows:
  assumes "sidebar_ok c" "(sec, md) \<in> set nav_modules"
  shows "admin_allows (parseSidebarConfig (Some (serializeSidebarModulesAdmin c))) sec md
    = (switched_on c sec ''enabled'' \<and> switched_on c sec md)"
proof -
  have pl: "plain_members (map (apsnd section_object) c)" and secs: "list_all (\<lambda>(_, sec). section_ok sec) c"
    using assms(1) by (simp_all add: sidebar_ok_def)
  let ?A = "foldl merge_section (map (apsnd section_object) c) DEFAULT_SIDEBAR_MODULES"
  have A: "parseSidebarConfig (Some (serializeSidebarModulesAdmin c)) = ?A"
    using object_text [OF pl] by (simp add: parseSidebarConfig_def serializeSidebarModulesAdmin_def mergeWithDefaultSidebarModules_def spread_members_def)
  obtain d where d: "(js sec, d) \<in> set DEFAULT_SIDEBAR_MODULES" "map_of d (js ''enabled'') = Some (VBool True)" "map_of d (js md) = Some (VBool True)"
    using modules_known assms(2) by (fastforce simp: list_all_iff)
  have "distinct (map fst x)" if "map_of c s = Some x" for s x
    using map_of_SomeD [OF that] secs plain_keys(1) by (fastforce simp: list_all_iff section_ok_def)
  then have dist: "\<forall>s x. map_of c s = Some x \<longrightarrow> distinct (map fst x)" by blast
  have ds: "distinct (map fst DEFAULT_SIDEBAR_MODULES)" by (simp add: DEFAULT_SIDEBAR_MODULES_def)
  obtain m where m: "map_of ?A (js sec) = Some (VObj m)"
    "\<And>k. map_of m k = (case map_of (upd (map_of c (js sec)) []) k of Some b \<Rightarrow> Some (VBool b) | None \<Rightarrow> map_of d k)"
    using merge_all [where c = c, OF ds d(1) default_flags map_of_apsnd dist] by blast
  have flag: "vget m k = VBool (switched_on c sec k)" if "map_of d (js k) = Some (VBool True)" for k
    using that by (simp add: vget_def m(2) switched_on_def upd_def split: option.split)
  have "admin_allows ?A sec md = (switched_on c sec ''enabled'' \<and> switched_on c sec md)"
    using m(1) flag [OF d(2)] flag [OF d(3)] by (simp add: admin_allows_def Let_def member_def vget_def [of ?A])
  then show ?thesis unfolding A .
qed

text \<open>C19. What an administrator saves is what the sidebar follows. A saved configuration of the settings page opens
  again unchanged, and the sidebar, which reads the same text with a parser of its own, lists exactly the entries one of
  whose alternatives is on: the switches of its section and of its module are on in the saved configuration, and the layer of the user, if there
  is one, does not hide it. Modules that the page has no switch for count as on. The
  configuration is one as the form of the page has it: all sections and modules of the page are present, the switch of a
  section comes first, and no name is an array index.\<close>

theorem saved_switches_reach_sidebar:
  assumes "sidebar_ok c"
  shows "let saved = serializeSidebarModulesAdmin c;
      U = (if permission = Some False then None else parseUserSidebarConfig sidebar_modules) in
    parseSidebarModulesAdmin lower (Some saved) = c
    \<and> nav_entries (useSidebarConfig (Some saved) permission sidebar_modules groups)
      = filter (listed (\<lambda>sec md. switched_on c sec ''enabled'' \<and> switched_on c sec md \<and> user_allows U sec md)) (nav_entries groups)"
proof -
  have "nav_entries (filter_groups groups (parseSidebarConfig (Some (serializeSidebarModulesAdmin c))) U)
      = filter (listed (\<lambda>sec md. switched_on c sec ''enabled'' \<and> switched_on c sec md \<and> user_allows U sec md)) (nav_entries groups)" for U
    unfolding entries_filter_groups
    by (rule same_switches) (auto simp: both_layers_def saved_admin_allows [OF assms])
  then show ?thesis using sidebar_roundtrip [OF assms] by (simp add: Let_def useSidebarConfig_def)
qed

lemma plain_flags: "plain_members (map (apsnd VBool) m) \<longleftrightarrow> distinct (map fst m) \<and> list_all (\<lambda>k. array_index k = None \<and> code_units k) (map fst m)"
  by (auto simp: plain_members_def list_all_iff)

lemma default_ok: "sidebar_ok SIDEBAR_MODULES_DEFAULT"
proof -
  have secs: "list_all (\<lambda>(k, sec). array_index k = None \<and> code_units k \<and> section_ok sec) SIDEBAR_MODULES_DEFAULT"
    by (simp add: SIDEBAR_MODULES_DEFAULT_def section_ok_def plain_flags) (simp add: array_index_def code_units_def js_def is_digit_def)
  then have "\<forall>(k, v)\<in>set (map (apsnd section_object) SIDEBAR_MODULES_DEFAULT). array_index k = None \<and> code_units k \<and> json_plain v"
    by (auto simp: list_all_iff section_object_def section_ok_def simp del: json_plain.simps intro!: plain_members_plain)
  moreover have "distinct (map fst SIDEBAR_MODULES_DEFAULT)" by (simp add: SIDEBAR_MODULES_DEFAULT_def)
  ultimately have "plain_members (map (apsnd section_object) SIDEBAR_MODULES_DEFAULT)" by (simp add: plain_members_def)
  with secs show ?thesis unfolding sidebar_ok_def
    by (intro conjI) (simp_all add: list_all_iff split_beta, simp add: SIDEBAR_MODULES_DEFAULT_def upd_def)
qed

theorem saved_switches_reach_sidebar_witness:
  "nav_entries (useSidebarConfig (Some (serializeSidebarModulesAdmin SIDEBAR_MODULES_DEFAULT)) None None (useSidebarData (\<lambda>s. s) False))
    = filter (listed (\<lambda>sec md. switched_on SIDEBAR_MODULES_DEFAULT sec ''enabled'' \<and> switched_on SIDEBAR_MODULES_DEFAULT sec md))
        (nav_entries (useSidebarData (\<lambda>s. s) False))"
  using saved_switches_reach_sidebar [OF default_ok, of None None "\<lambda>s. s" "useSidebarData (\<lambda>s. s) False"]
  by (simp add: Let_def parseUserSidebarConfig_def user_allows_def)

section \<open>The switches of a user\<close>

text \<open>A stored layer of a user: sections with members whose text reads back.\<close>

definition user_layer :: "(jstr \<times> jval) list \<Rightarrow> bool" where
  "user_layer m = (plain_members m \<and> list_all (\<lambda>(_, v). case v of VObj s \<Rightarrow> plain_members s | _ \<Rightarrow> False) m)"

lemma module_names:
  assumes "(sec, md) \<in> set nav_modules"
  shows "array_index (js sec) = None" "code_units (js sec)" "array_index (js md) = None" "code_units (js md)" "md \<noteq> ''enabled''"
  using modules_known assms by (force simp: list_all_iff)+

text \<open>What a switched module means for the layer of the user.\<close>

definition switch_user :: "(jstr \<times> jval) list \<Rightarrow> string \<Rightarrow> string \<Rightarrow> bool \<Rightarrow> string \<Rightarrow> string \<Rightarrow> bool" where
  "switch_user prev sec md val s k = (if (s, k) = (sec, md) then member (vget prev sec) ''enabled'' \<noteq> VBool False \<and> val
     else user_allows (Some (VObj prev)) s k)"

lemma toggled_layer:
  assumes "user_layer prev" "(sec, md) \<in> set nav_modules"
  shows "parseUserSidebarConfig (Some (saved_user_layer (toggleModule sec md val prev))) = Some (VObj (toggleModule sec md val prev))"
    and "(s, k) \<in> set nav_modules \<Longrightarrow> user_allows (Some (VObj (toggleModule sec md val prev))) s k = switch_user prev sec md val s k"
proof -
  note n = module_names [OF assms(2)]
  let ?old = "spread_members (vget prev sec)" let ?m = "toggleModule sec md val prev"
  have old: "plain_members ?old \<and> (vget prev sec = VUndef \<or> vget prev sec = VObj ?old)"
  proof (cases "map_of prev (js sec)")
    case (Some v)
    then show ?thesis using assms(1) map_of_SomeD [OF Some]
      by (auto simp: user_layer_def list_all_iff vget_def spread_members_def split: jval.splits)
  qed (simp add: vget_def spread_members_def)
  then have sec_ok: "plain_members (obj_put (js md) (VBool val) ?old)" using n by (intro plain_members_put) simp_all
  have "json_plain (VObj (obj_put (js md) (VBool val) ?old))" by (rule plain_members_plain [OF sec_ok])
  then have plain: "plain_members ?m"
    using assms(1) n unfolding toggleModule_def user_layer_def by (intro plain_members_put) auto
  have U: "parseUserSidebarConfig (Some (saved_user_layer ?m)) = Some (VObj ?m)"
    using object_text [OF plain] by (simp add: parseUserSidebarConfig_def saved_user_layer_def)
  have look: "vget ?m s = (if s = sec then VObj (obj_put (js md) (VBool val) ?old) else vget prev s)" for s
    by (simp add: toggleModule_def vget_obj_put)
  have mem: "member (VObj (obj_put (js md) (VBool val) ?old)) k = (if k = md then VBool val else member (vget prev sec) k)" for k
  proof (cases "vget prev sec = VUndef")
    case True
    then show ?thesis by (simp add: member_def vget_obj_put spread_members_def) 
  next
    case False
    with old have e: "vget prev sec = VObj ?old" by blast
    have "member (vget prev sec) k = vget ?old k" unfolding member_def [of "vget prev sec"] by (subst e) simp
    then show ?thesis by (simp add: member_def [of "VObj (obj_put (js md) (VBool val) ?old)"] vget_obj_put)
  qed
  have own: "user_allows (Some (VObj ?m)) sec md = (member (vget prev sec) ''enabled'' \<noteq> VBool False \<and> val)"
    using n(5) by (simp add: user_allows_def member_def [of "VObj ?m"] look Let_def mem)
  have rest: "user_allows (Some (VObj ?m)) s k = user_allows (Some (VObj prev)) s k" if "(s, k) \<noteq> (sec, md)" "k \<noteq> ''enabled''" for s k
  proof (cases "s = sec")
    case True
    have "vget prev sec = VUndef \<Longrightarrow> member (vget prev sec) x = VUndef" for x by (simp add: member_def)
    moreover have "vget prev sec = VUndef \<or> truthy (vget prev sec)" using old by (metis truthy.simps(7))
    ultimately show ?thesis using True that n(5)
      by (auto simp: user_allows_def member_def [of "VObj ?m"] member_def [of "VObj prev"] look Let_def mem)
  next
    case False
    then show ?thesis by (simp add: user_allows_def member_def [of "VObj ?m"] member_def [of "VObj prev"] look)
  qed
  show "parseUserSidebarConfig (Some (saved_user_layer ?m)) = Some (VObj ?m)" by (rule U)
  show "user_allows (Some (VObj ?m)) s k = switch_user prev sec md val s k" if "(s, k) \<in> set nav_modules"
    using rest [of s k] own module_names(5) [OF that] by (auto simp: switch_user_def)
qed

text \<open>C35. A module that a user switches on or off in the profile and saves is followed by what the sidebar lists: of all
  entries exactly those remain one of whose alternatives the administrator allows and the user does; for the module switched that is its new
  value, unless the user has switched off its section, and for every other module what it was before. So an entry that is configured by that
  module alone appears or disappears, and one that has another alternative, the task logs, may stay. The user may
  configure the sidebar, and the stored layer consists of sections whose names and members read back.\<close>

theorem user_switch_reaches_sidebar:
  assumes "user_layer prev" "(sec, md) \<in> set nav_modules" "permission \<noteq> Some False"
  shows "let saved = saved_user_layer (toggleModule sec md val prev); A = parseSidebarConfig status in
    nav_entries (useSidebarConfig status permission (Some saved) groups)
      = filter (listed (\<lambda>s k. admin_allows A s k \<and>
          (if (s, k) = (sec, md) then member (vget prev sec) ''enabled'' \<noteq> VBool False \<and> val
           else user_allows (Some (VObj prev)) s k))) (nav_entries groups)"
proof -
  have "filter (listed (both_layers A (Some (VObj (toggleModule sec md val prev))))) (nav_entries groups)
      = filter (listed (\<lambda>s k. admin_allows A s k \<and> switch_user prev sec md val s k)) (nav_entries groups)" for A
    by (rule same_switches) (auto simp: both_layers_def toggled_layer(2) [OF assms(1,2)])
  then show ?thesis using assms(3)
    by (simp add: Let_def useSidebarConfig_def toggled_layer(1) [OF assms(1,2)] entries_filter_groups switch_user_def)
qed

text \<open>A user switches off the keys; the entry of the keys goes, that of the task logs stays.\<close>

definition sample_groups :: "NavGroup list" where
  "sample_groups = [\<lparr> ng_id = None, ng_title = [], ng_items = [link_to (js ''API Keys'') ''/keys'', task_logs (\<lambda>s. s)] \<rparr>]"

theorem user_switch_reaches_sidebar_witness:
  "map en_url (nav_entries (useSidebarConfig None None
      (Some (saved_user_layer (toggleModule ''console'' ''token'' False []))) sample_groups)) = [js ''/usage-logs/task'']"
proof -
  have u: "user_layer []" by (simp add: user_layer_def)
  have m: "(''console'', ''token'') \<in> set nav_modules" by (simp add: nav_modules_def URL_TO_CONFIG_MAP_def)
  have a: "admin_allows default_admin_config ''console'' ''task''" "user_allows (Some (VObj [])) ''console'' ''task''" by code_simp+
  have k: "map_of URL_TO_CONFIG_MAP (js ''/keys'') = Some (''console'', ''token'')"
    "map_of URL_TO_CONFIG_MAP (js ''/usage-logs/task'') = Some (''console'', ''task'')" by code_simp+
  have ne: "js ''/keys'' \<noteq> []" "js ''/usage-logs/task'' \<noteq> []" by (simp_all add: js_def)
  show ?thesis
    using user_switch_reaches_sidebar [OF u m, of None False None sample_groups] a k ne
    by (simp add: Let_def parseSidebarConfig_def sample_groups_def task_logs_def nav_entries_def listed_def upd_def)
qed

end
