(* ===== verification/NavHeader.thy ===== *)
theory NavHeader
  imports NavSidebar
begin

text \<open>
  The form of the header and the header itself, which read the stored text with two parsers: a submitted form is read by
  both as it was filled in, but a text that the form has not written may be read differently, and then the form,
  opened and submitted, does not repair it.
\<close>

section \<open>Stored objects\<close>

lemma map_apsnd_assoc_put: "map (apsnd g) (assoc_put k v m) = assoc_put k (g v) (map (apsnd g) m)"
  by (induction k v m rule: assoc_put.induct) auto

lemma map_apsnd_index_insert: "map (apsnd g) (index_insert i k v m) = index_insert i k (g v) (map (apsnd g) m)"
  by (induction i k v m rule: index_insert.induct) (auto split: option.split)

lemma map_apsnd_obj_put: "map (apsnd g) (obj_put k v m) = obj_put k (g v) (map (apsnd g) m)"
proof -
  have "fst ` set (map (apsnd g) m) = fst ` set m" by (simp add: image_image)
  then show ?thesis
    by (simp add: obj_put_def map_apsnd_assoc_put map_apsnd_index_insert split: option.split)
qed

abbreviation header_object :: "HeaderNavModulesConfig \<Rightarrow> (jstr \<times> jval) list" where
  "header_object config \<equiv> map (apsnd header_json) config"

lemma header_names [simp]:
  "array_index (js ''home'') = None" "array_index (js ''console'') = None" "array_index (js ''pricing'') = None"
  "array_index (js ''rankings'') = None" "array_index (js ''docs'') = None" "array_index (js ''about'') = None"
  "array_index (js ''enabled'') = None" "array_index (js ''requireAuth'') = None"
  "code_units (js ''home'')" "code_units (js ''console'')" "code_units (js ''pricing'')" "code_units (js ''rankings'')"
  "code_units (js ''docs'')" "code_units (js ''about'')" "code_units (js ''enabled'')" "code_units (js ''requireAuth'')"
  by (simp_all add: array_index_def code_units_def js_def is_digit_def)

lemma json_plain_header: "json_plain (header_json v)"
proof (cases v)
  case (Access a)
  have "plain_members [(js ''enabled'', VBool (ac_enabled a)), (js ''requireAuth'', VBool (ac_requireAuth a))]"
    by (simp add: plain_members_def)
  from plain_members_plain [OF this] show ?thesis by (simp add: Access)
qed simp

lemma plain_header_payload: "plain_members (header_object config) \<Longrightarrow> plain_members (header_object (header_payload config f))"
  by (simp add: header_payload_def map_apsnd_obj_put plain_members_put json_plain_header del: header_json.simps)

section \<open>What the form writes\<close>

text \<open>A configuration in which the two pages with access control, and only these, have one.\<close>

definition header_typed :: "HeaderNavModulesConfig \<Rightarrow> bool" where
  "header_typed config = list_all (\<lambda>(k, v). (k = js ''pricing'' \<or> k = js ''rankings'') = (\<exists>a. v = Access a)) config"

lemma set_obj_put: "set (obj_put k v m) \<subseteq> insert (k, v) (set m)"
  using set_assoc_put [of k v m] by (auto simp: obj_put_def set_index_insert split: option.splits)

lemma typed_put:
  assumes "header_typed config" "(k = js ''pricing'' \<or> k = js ''rankings'') = (\<exists>a. v = Access a)"
  shows "header_typed (obj_put k v config)"
  unfolding header_typed_def list_all_iff
proof
  fix x assume "x \<in> set (obj_put k v config)"
  then have "x = (k, v) \<or> x \<in> set config" using set_obj_put by fastforce
  then show "case x of (k, v) \<Rightarrow> (k = js ''pricing'' \<or> k = js ''rankings'') = (\<exists>a. v = Access a)"
    using assms by (auto simp: header_typed_def list_all_iff)
qed

lemma typed_default: "header_typed HEADER_NAV_DEFAULT"
  by (simp add: header_typed_def HEADER_NAV_DEFAULT_def)

lemma typed_entry: "header_typed config \<Longrightarrow> header_typed (header_entry lower config e)"
  by (auto simp: header_entry_def Let_def split_beta intro!: typed_put split: jval.splits)

text \<open>Whatever is stored, the form is built from a configuration of its type.\<close>

lemma typed_parse: "header_typed (parseHeaderNavModules lower v)"
proof -
  have "header_typed (foldl (header_entry lower) HEADER_NAV_DEFAULT es)" for es
    by (induction es rule: rev_induct) (simp_all add: typed_default typed_entry)
  then show ?thesis by (simp add: parseHeaderNavModules_def typed_default split: option.split list.split)
qed

lemma typed_payload: "header_typed config \<Longrightarrow> header_typed (header_payload config f)"
  by (simp add: header_payload_def typed_put)

lemma payload_values:
  "map_of (header_payload config f) (js ''home'') = Some (Flag (fv_home f))"
  "map_of (header_payload config f) (js ''console'') = Some (Flag (fv_console f))"
  "map_of (header_payload config f) (js ''docs'') = Some (Flag (fv_docs f))"
  "map_of (header_payload config f) (js ''about'') = Some (Flag (fv_about f))"
  "map_of (header_payload config f) (js ''pricing'') = Some (Access \<lparr> ac_enabled = fv_pricingEnabled f, ac_requireAuth = fv_pricingRequireAuth f \<rparr>)"
  "map_of (header_payload config f) (js ''rankings'') = Some (Access \<lparr> ac_enabled = fv_rankingsEnabled f, ac_requireAuth = fv_rankingsRequireAuth f \<rparr>)"
  by (simp_all add: header_payload_def)

lemma payload_form: "toFormValues (header_payload config f) = f"
  by (simp add: toFormValues_def form_flag_def header_flag_def form_access_def payload_values)

section \<open>What is read back\<close>

lemma access_read: "parseAccessModule lower (header_json (Access a)) d = a"
  by (simp add: parseAccessModule_def vget_def toBoolean_def)

lemma entries_read:
  "header_typed m \<Longrightarrow> foldl (header_entry lower) acc (header_object m) = foldl (\<lambda>m (k, v). obj_put k v m) acc m"
proof (induction m arbitrary: acc)
  case (Cons x m)
  obtain k v where x: "x = (k, v)" by fastforce
  have "header_entry lower acc (k, header_json v) = obj_put k v acc"
  proof (cases v)
    case (Flag b)
    then show ?thesis using Cons.prems by (auto simp: x header_typed_def header_entry_def)
  next
    case (Access a)
    then show ?thesis using Cons.prems access_read [of lower a ACCESS_DEFAULT]
      by (simp add: x header_typed_def header_entry_def del: header_json.simps)
  qed
  then show ?case using Cons by (simp add: x header_typed_def del: header_json.simps)
qed simp

lemma header_read:
  assumes "header_typed p" "plain_members (header_object p)" "map_of p k = Some v"
  shows "map_of (parseHeaderNavModules lower (Some (serializeHeaderNavModules p))) k = Some v"
proof -
  obtain c u where t: "serializeHeaderNavModules p = c # u"
    using object_text(3) [OF assms(2)] by (cases "serializeHeaderNavModules p") (simp_all add: serializeHeaderNavModules_def)
  then have "json_parse (c # u) = Some (VObj (header_object p))"
    using object_text(1) [OF assms(2)] by (simp add: serializeHeaderNavModules_def)
  then have "parseHeaderNavModules lower (Some (serializeHeaderNavModules p)) = foldl (\<lambda>m (k, v). obj_put k v m) HEADER_NAV_DEFAULT p"
    by (simp add: t parseHeaderNavModules_def nullish_def spread_members_def entries_read [OF assms(1)])
  moreover have "distinct (map fst p)" by (rule plain_keys(1) [OF assms(2)])
  ultimately show ?thesis using assms(3) by (simp add: map_of_puts map_of_rev)
qed

lemma top_read:
  assumes "plain_members (header_object p)" "v = VStr (serializeHeaderNavModules p)"
  shows "top_parseHeaderNavModules v = \<lparr> tm_home = spread_over (VBool True) (VObj (header_object p)) ''home'',
    tm_console = spread_over (VBool True) (VObj (header_object p)) ''console'', tm_docs = spread_over (VBool True) (VObj (header_object p)) ''docs'',
    tm_pricing = top_parseAccessModule (vget (header_object p) ''pricing'') ACCESS_DEFAULT,
    tm_rankings = top_parseAccessModule (vget (header_object p) ''rankings'') ACCESS_DEFAULT \<rparr>"
  using object_text [OF assms(1)]
  by (simp add: assms(2) top_parseHeaderNavModules_def serializeHeaderNavModules_def nullish_def member_def)

lemma top_values:
  assumes "map_of p (js k) = Some v"
  shows "vget (header_object p) k = header_json v" "spread_over d (VObj (header_object p)) k = header_json v"
  using assms map_of_apsnd [of header_json p "js k"] by (simp_all add: vget_def spread_over_def spread_members_def vhas_iff)

lemma top_access: "top_parseAccessModule (header_json (Access a)) d = a"
  by (simp add: top_parseAccessModule_def vget_def)

text \<open>The links for a filled form.\<close>

definition form_links :: "(jstr \<Rightarrow> jstr) \<Rightarrow> jstr option \<Rightarrow> bool \<Rightarrow> HeaderNavFormValues \<Rightarrow> TopNavLink list" where
  "form_links t docsLink isAuthed f =
     flag_link t ''Home'' ''/'' (fv_home f) @ flag_link t ''Console'' ''/console'' (fv_console f)
     @ access_link t isAuthed ''Model Square'' ''/pricing'' \<lparr> ac_enabled = fv_pricingEnabled f, ac_requireAuth = fv_pricingRequireAuth f \<rparr>
     @ access_link t isAuthed ''Rankings'' ''/rankings'' \<lparr> ac_enabled = fv_rankingsEnabled f, ac_requireAuth = fv_rankingsRequireAuth f \<rparr>
     @ (if fv_docs f then [docs_link t docsLink] else [])
     @ [\<lparr> tl_title = t (js ''Pricing Compare''), tl_href = js ''/bijia.html'', tl_disabled = None, tl_external = Some True \<rparr>]"

text \<open>C21. A submitted header form reaches the header. When the form stores a text, the header shows exactly the links
  that the form has switched on, with the login requirement it sets, and the form opens again as it was filled in;
  it stores nothing only if it is as it was opened. The names in the stored configuration are texts and no array
  indices.\<close>

theorem header_form_reaches_header:
  assumes "plain_members (header_object (fst (header_section lower stored)))"
  shows "case submit_header (fst (header_section lower stored)) (snd (header_section lower stored)) f of
      Some s \<Rightarrow> useTopNavLinks t (VStr s) docsLink isAuthed = form_links t docsLink isAuthed f
        \<and> toFormValues (fst (header_section lower (Some s))) = f
    | None \<Rightarrow> f = toFormValues (fst (header_section lower stored))"
proof -
  let ?c = "parseHeaderNavModules lower stored" let ?p = "header_payload ?c f"
  have c: "header_section lower stored = (?c, serializeHeaderNavModules ?c)" by (simp add: header_section_def Let_def)
  then have plain: "plain_members (header_object ?c)" "plain_members (header_object ?p)" using assms plain_header_payload by simp_all
  have typed: "header_typed ?p" by (rule typed_payload [OF typed_parse])
  note reread = header_read [OF typed plain(2)]
  note vals = payload_values [of ?c f]
  have links: "useTopNavLinks t (VStr (serializeHeaderNavModules ?p)) docsLink isAuthed = form_links t docsLink isAuthed f"
    unfolding useTopNavLinks_def Let_def top_read [OF plain(2) refl] form_links_def
    by (simp add: top_values [OF vals(1)] top_values [OF vals(2)] top_values [OF vals(3)] top_values [OF vals(5)]
        top_values [OF vals(6)] top_access del: header_json.simps) simp
  have form: "toFormValues (parseHeaderNavModules lower (Some (serializeHeaderNavModules ?p))) = f"
    by (simp add: toFormValues_def form_flag_def header_flag_def form_access_def reread [OF vals(1)] reread [OF vals(2)]
        reread [OF vals(3)] reread [OF vals(4)] reread [OF vals(5)] reread [OF vals(6)])
  have same: "f = toFormValues ?c" if "serializeHeaderNavModules ?p = serializeHeaderNavModules ?c"
  proof -
    have "header_object ?p = header_object ?c"
      using object_text(1) [OF plain(1)] object_text(1) [OF plain(2)] that by (simp add: serializeHeaderNavModules_def)
    then have "map_option header_json (map_of ?p k) = map_option header_json (map_of ?c k)" for k by (metis map_of_apsnd)
    moreover have "header_json v = header_json w \<Longrightarrow> v = w" for v w by (cases v; cases w) simp_all
    ultimately have "map_of ?p k = map_of ?c k" for k
      by (cases "map_of ?p k"; cases "map_of ?c k") (metis option.simps(8,9) option.sel option.distinct(1))+
    then have "toFormValues ?p = toFormValues ?c" by (simp add: toFormValues_def form_flag_def header_flag_def form_access_def)
    then show ?thesis by (simp add: payload_form)
  qed
  show ?thesis unfolding c submit_header_def Let_def fst_conv snd_conv
    using links form same by (simp add: header_section_def Let_def)
qed

lemma default_plain: "plain_members (header_object HEADER_NAV_DEFAULT)"
  using json_plain_header by (simp add: plain_members_def HEADER_NAV_DEFAULT_def del: header_json.simps json_plain.simps)

text \<open>Switching the home page off in a form that nothing is stored for.\<close>

definition home_off :: HeaderNavFormValues where
  "home_off = (toFormValues HEADER_NAV_DEFAULT)\<lparr> fv_home := False \<rparr>"

theorem header_form_reaches_header_witness:
  "\<exists>s. submit_header HEADER_NAV_DEFAULT (serializeHeaderNavModules HEADER_NAV_DEFAULT) home_off = Some s
    \<and> map tl_href (useTopNavLinks (\<lambda>x. x) (VStr s) None False)
      = map js [''/console'', ''/pricing'', ''/rankings'', ''/doc'', ''/bijia.html'']"
proof -
  have c: "header_section lower None = (HEADER_NAV_DEFAULT, serializeHeaderNavModules HEADER_NAV_DEFAULT)" for lower
    by (simp add: header_section_def parseHeaderNavModules_def Let_def)
  have ne: "home_off \<noteq> toFormValues HEADER_NAV_DEFAULT" by code_simp
  have links: "map tl_href (form_links (\<lambda>x. x) None False home_off) = map js [''/console'', ''/pricing'', ''/rankings'', ''/doc'', ''/bijia.html'']"
    by code_simp
  from header_form_reaches_header [of "\<lambda>x. x" None home_off "\<lambda>x. x" None False, unfolded c fst_conv snd_conv, OF default_plain] ne links
  show ?thesis by (auto split: option.splits)
qed

section \<open>Texts that the form has not written\<close>

text \<open>A stored flag that is a text is off for the form and on for the header, which only tests for the value \<open>false\<close>. The form
  compares what it would store with what it has read, not with what is stored: submitting it as opened stores nothing,
  and the home page stays in the header.\<close>

definition stored_text_flag :: jstr where
  "stored_text_flag = json_stringify (VObj [(js ''home'', VStr (js ''false''))])"

lemma text_flag_misread:
  "let (config, initial) = header_section (map ascii_lower) (Some stored_text_flag) in
    \<not> fv_home (toFormValues config) \<and> submit_header config initial (toFormValues config) = None
    \<and> js ''/'' \<in> tl_href ` set (useTopNavLinks t (VStr stored_text_flag) docsLink isAuthed)"
proof -
  have plain: "plain_members [(js ''home'', VStr (js ''false''))]" by (simp add: plain_members_def) (simp add: code_units_def js_def)
  note stored = object_text [OF plain]
  let ?c = "(js ''home'', Flag False) # tl HEADER_NAV_DEFAULT"
  have entry: "foldl (header_entry (map ascii_lower)) HEADER_NAV_DEFAULT [(js ''home'', VStr (js ''false''))] = ?c"
  proof -
    have low: "map ascii_lower (trim (js ''false'')) = js ''false''"
    proof -
      have "trimmed (js ''false'')" by (simp add: trimmed_def js_def is_space_def)
      then have "trim (js ''false'') = js ''false''" by (rule trim_id)
      then show ?thesis by (simp add: js_def ascii_lower_def)
    qed
    have "toBoolean (map ascii_lower) (VStr (js ''false'')) b = False" for b by (simp add: toBoolean_def low)
    then show ?thesis by (simp add: header_entry_def obj_put_def HEADER_NAV_DEFAULT_def)
  qed
  obtain a u where t: "stored_text_flag = a # u"
    using stored(3) by (cases stored_text_flag) (simp_all add: stored_text_flag_def)
  then have "json_parse (a # u) = Some (VObj [(js ''home'', VStr (js ''false''))])" using stored(1) by (simp add: stored_text_flag_def)
  then have c: "parseHeaderNavModules (map ascii_lower) (Some stored_text_flag) = ?c"
    unfolding t using entry by (simp add: parseHeaderNavModules_def nullish_def spread_members_def)
  have "\<not> fv_home (toFormValues ?c)" "header_payload ?c (toFormValues ?c) = ?c"
    by (simp_all add: header_payload_def obj_put_def toFormValues_def form_flag_def header_flag_def form_access_def HEADER_NAV_DEFAULT_def ACCESS_DEFAULT_def)
  moreover have "tm_home (top_parseHeaderNavModules (VStr stored_text_flag)) = VStr (js ''false'')"
    using stored by (simp add: top_parseHeaderNavModules_def stored_text_flag_def nullish_def spread_over_def spread_members_def vhas_def vget_def)
  then have "js ''/'' \<in> tl_href ` set (useTopNavLinks t (VStr stored_text_flag) docsLink isAuthed)"
    by (simp add: useTopNavLinks_def Let_def flag_link_def)
  ultimately show ?thesis by (simp add: header_section_def Let_def c submit_header_def)
qed

end
