(* ===== verification/Spec2Isabelle.thy ===== *)
theory Spec2Isabelle
  imports StatusCodes BillingRoundtrip TierExpr ChannelForm PlaygroundChat PricingFilters OverrideSaving OverrideInvariants
    StatsFacts ChartTotals NavHeader
begin

text \<open>
  Verification library for the web client of the \<open>new-api\<close> gateway. The client is the
  TypeScript program under \<open>src/web/default/src\<close>; its server, written in another language, is behind
  HTTP and appears only as the data it returns. Paths below are relative to that directory.

  \<^bold>\<open>The program.\<close> An administrator configures upstream \<^emph>\<open>channels\<close> (keys, models, groups, settings,
  model mapping, status-code rules) and \<^emph>\<open>billing expressions\<close> (a tiered price formula times request
  rules); users read \<^emph>\<open>prices\<close> in the display currency of the site and talk to models in the
  \<^emph>\<open>playground\<close>. The logic of the client is text formats that are edited, printed and parsed again
  (rules, expressions, key and model lists, JSON settings), money arithmetic on doubles, list views
  (aggregation, filters, sorting) and one state machine, the streaming chat.

  \<^bold>\<open>Foundations.\<close>
  \<^item> \<open>Js_Prelude\<close>: strings as lists of UTF-16 code units, order-preserving deduplication, splitting
    and joining, stable sorting with a comparator (locale \<open>comparator\<close>), objects and maps as
    association lists in insertion order.
  \<^item> \<open>Js_Number\<close>: numbers as \<open>NaN\<close>, infinities and rationals; every operation is the exact result rounded
    to the nearest double, ties to even; rounding is exact on integers up to \<open>2 ^ 53\<close>, monotone, and has
    relative error \<open>2 ^ -53\<close> in the normal range.
  \<^item> \<open>Js_String\<close>: trimming, searching, number printing and parsing. \<open>Js_Regex\<close>: regular expressions with
    the backtracking semantics of the language. \<open>Js_Value\<close>: dynamic values and JSON text with the
    round trip of the two functions. \<open>Js_Lists\<close>: lists written as texts (locale \<open>list_codec\<close>).
    \<open>Js_Order\<close>: the linear order of numbers, comparators by difference, monotone arithmetic.
    \<open>Js_Pretty\<close>: indented JSON text. \<open>Js_Date\<close>: the calendar of date objects (days, months and years of a time
    value, the setters with overflow, local time by a zone argument), with the round trip of day numbers and dates.

  \<^bold>\<open>Components.\<close>
  \<^item> \<open>StatusCodes\<close>: \<open>lib/http-status-code-rules.ts\<close> and the redirect guard
    \<open>features/channels/lib/status-code-risk-guard.ts\<close>. Parsing yields sorted, merged, in-range intervals and is
    inverse to printing.
  \<^item> \<open>BillingExpr\<close>, \<open>BillingRules\<close>, \<open>BillingRoundtrip\<close>: \<open>features/pricing/lib/billing-expr.ts\<close>. The
    variable registry, the tier parser, the request-rule parser, printer and editor; printed rules are
    parsed back, joined expressions are split into their parts, and the forms that are not readable
    are identified. A thrown error of an unguarded \<open>JSON.parse\<close> is the left value of \<open>js_error + 'a\<close>.
  \<^item> \<open>TierExpr\<close>: \<open>features/pricing/lib/tier-expr.ts\<close>, the visual tier editor and the local estimator.
  \<^item> \<open>Currency\<close>: \<open>lib/currency.ts\<close>, \<open>lib/format.ts\<close>, \<open>stores/system-config-store.ts\<close>.
  \<^item> \<open>Pricing\<close>: \<open>features/pricing/lib/price.ts\<close>, \<open>dynamic-price.ts\<close>, \<open>model-helpers.ts\<close>. It composes the billing
    theories with the currency: what the editors write is what the price list shows; the listed price is
    the lowest one. \<open>PricingFilters\<close>: \<open>lib/filters.ts\<close> and the state of \<open>hooks/use-filters.ts\<close>; the contract of a
    filter is the locale \<open>list_filter\<close>, interpreted on each of the six filters.
  \<^item> \<open>ChannelTypes\<close>, \<open>Channels\<close>, \<open>ChannelTags\<close>, \<open>ChannelLists\<close>: \<open>features/channels/constants.ts\<close>,
    \<open>lib/channel-type-config.ts\<close>, \<open>lib/multi-key-utils.ts\<close>, \<open>lib/channel-utils.ts\<close>. The aggregation of channels by tag, which
    mutates rows in place, is a grouping. \<open>ModelMapping\<close>: \<open>lib/model-mapping-validation.ts\<close>,
    \<open>lib/upstream-update-utils.ts\<close>, \<open>lib/ollama-utils.ts\<close>. \<open>ChannelForm\<close>: \<open>lib/channel-form.ts\<close>, forms to payloads and back.
  \<^item> \<open>Playground\<close>, \<open>PlaygroundMessages\<close>: \<open>features/playground/lib/message-utils.ts\<close>, \<open>payload-builder.ts\<close>.
    \<open>PlaygroundChat\<close>: the hooks that send, stream, stop, edit and regenerate, as the inductive step
    relation \<open>chat_step\<close> with the guards of the page and no others, and its runs \<open>chat_run\<close>, which record whether anything was sent
    while a reply was generated; invariants by rule induction, a simulation of an automaton that counts the open
    streams, and every generation can be brought to rest.
  \<^item> \<open>ParamOverride\<close>, \<open>ParamOverrideEditor\<close>: the parameter-override dialog
    \<open>features/channels/components/dialogs/param-override-editor-dialog.tsx\<close>: operations and conditions as records, the
    conversion from and to the stored JSON, templates, validation, and the editor's list operations.
    \<open>OverrideSaving\<close>: a saved configuration is read back, and validation accepts exactly what is stated.
    \<open>OverrideInvariants\<close>: rows keep their identity under every edit, moving and duplicating included.
  \<^item> \<open>SeedRandom\<close>: \<open>features/pricing/lib/seed.ts\<close>, a generator on 32-bit words. \<open>ModelMetadata\<close>, \<open>MetadataFacts\<close>:
    \<open>lib/model-metadata.ts\<close>, what is inferred from a model's name, tags and endpoints, with the inherited members that
    a lookup in a plain object finds. \<open>MockStats\<close>, \<open>StatsFacts\<close>: \<open>lib/mock-stats.ts\<close>, the statistics generated from
    the seed of a name: their bounds, order and dates.
  \<^item> \<open>Times\<close>: \<open>lib/time.ts\<close>, days, ranges and added durations. \<open>Charts\<close>: the data of
    \<open>features/dashboard/lib/charts.ts\<close>. \<open>ChartSums\<close>, \<open>ChartTotals\<close>: what the charts add up to, through the contract
    \<open>additive\<close> of the accumulating maps, interpreted on the records and buckets the code keeps.
  \<^item> \<open>NavModules\<close>: which entries the header and the sidebar show (\<open>hooks/use-top-nav-links.ts\<close>,
    \<open>hooks/use-sidebar-config.ts\<close>, \<open>use-sidebar-data.ts\<close>) and the settings pages that configure them
    (\<open>features/system-settings/maintenance\<close>). \<open>NavSidebar\<close>: which entries are listed, in terms of the
    switches each is kept by (\<open>nav_entries\<close>, \<open>listed\<close>), and what saved settings and the switches of a user change of it. \<open>NavHeader\<close>: what the
    form stores is shown by the header as filled in.

  \<^bold>\<open>Parameters.\<close> What is outside the repository is an argument: \<open>Intl.NumberFormat\<close> (\<open>intl\<close>), the date library
  (\<open>day\<close>), case mapping (\<open>lower\<close>), collation (\<open>lc\<close>), translations (\<open>t\<close>), the evaluator behind \<open>new Function\<close>,
  identifiers and clocks, the time zone, \<open>Math.sin\<close> and \<open>Math.pow\<close>, the theme colours. Hypotheses on them state documented behaviour only (a collation is a
  consistent comparison; lower case is idempotent; a zone has an offset of less than a day) and have witnesses.

  \<^bold>\<open>Bounds and fuel.\<close> The JSON parser takes fuel, the length of the text, which is enough because every
  nested value consumes a character (\<open>Js_Value\<close>). Splitting by a pattern takes the length of the text,
  since each step consumes one character. All other loops are structural or have a proved measure.

  \<^bold>\<open>Not modelled.\<close> The sign of a zero; prototype members of objects, except in \<open>ModelMetadata\<close> where the code
  looks up names given by users; React rendering and effects; the constant parts of the chart specifications; icons and markup of the navigation; HTTP
  clients; the classic client under \<open>src/web/classic\<close>, an older implementation of the same screens
  in JSX; generated route tables and translation catalogues. The components of the manifest with the
  status not modelled list them with their reasons.
\<close>

end
